(* ===== verification/Prelude.thy ===== *)
theory Prelude
  imports Main "HOL-Library.Word" "HOL-Library.Sublist" "HOL-Library.Char_ord"
begin

text \<open>
  Vocabulary shared by the models of the server's modules.  A byte of a C buffer is a
  \<open>char\<close> (HOL characters are exactly the 256 byte values), a buffer is a list of bytes,
  and a C string is the part of a buffer before its first NUL.  The string functions of
  the C library that the server calls are given here on lists, with lemmas the component
  theories share.
\<close>

section \<open>Collections of facts\<close>

named_theorems cstring_simps \<open>rewriting of C string operations\<close>
named_theorems bounds_simps \<open>lengths and bounds of buffers\<close>

section \<open>Bytes and C strings\<close>

type_synonym byte = char
type_synonym bytes = "char list"

definition NUL :: byte where
  "NUL = CHR 0x00"

definition CR :: byte where
  "CR = CHR 0x0D"

definition LF :: byte where
  "LF = CHR 0x0A"

definition TAB :: byte where
  "TAB = CHR 0x09"

definition byte_val :: "byte \<Rightarrow> nat" where
  "byte_val c = of_char c"

text \<open>The C string stored in a buffer: everything before the first NUL.\<close>

definition cstr :: "bytes \<Rightarrow> bytes" where
  "cstr b = takeWhile (\<lambda>c. c \<noteq> NUL) b"

definition nul_free :: "bytes \<Rightarrow> bool" where
  "nul_free b \<longleftrightarrow> NUL \<notin> set b"

lemma nul_free_Nil [simp]: "nul_free []"
  by (simp add: nul_free_def)

lemma nul_free_Cons [simp]: "nul_free (c # b) \<longleftrightarrow> c \<noteq> NUL \<and> nul_free b"
  by (auto simp: nul_free_def)

lemma nul_free_append [simp]: "nul_free (a @ b) \<longleftrightarrow> nul_free a \<and> nul_free b"
  by (auto simp: nul_free_def)

lemma nul_free_take [simp]: "nul_free b \<Longrightarrow> nul_free (take n b)"
  by (auto simp: nul_free_def dest: in_set_takeD)

lemma nul_free_cstr [simp]: "nul_free (cstr b)"
  by (auto simp: nul_free_def cstr_def dest: set_takeWhileD)

lemma cstr_Nil [simp]: "cstr [] = []"
  by (simp add: cstr_def)

lemma cstr_id [cstring_simps]: "nul_free b \<Longrightarrow> cstr b = b"
  by (auto simp: cstr_def nul_free_def intro!: takeWhile_eq_all_conv [THEN iffD2])

lemma cstr_append_NUL [cstring_simps]: "nul_free b \<Longrightarrow> cstr (b @ NUL # r) = b"
  by (induction b) (auto simp: cstr_def)

lemma cstr_idem [simp]: "cstr (cstr b) = cstr b"
  by (rule cstr_id) simp

lemma length_cstr_le [bounds_simps]: "length (cstr b) \<le> length b"
  by (simp add: cstr_def length_takeWhile_le)

text \<open>\<open>strncpy(dest, src, n)\<close> into a zeroed buffer with room for \<open>n + 1\<close> bytes, and
  \<open>snprintf(dest, n + 1, "%s", src)\<close>: the C string that results.\<close>

definition str_trunc :: "nat \<Rightarrow> bytes \<Rightarrow> bytes" where
  "str_trunc n s = take n (cstr s)"

lemma length_str_trunc [bounds_simps]: "length (str_trunc n s) \<le> n"
  by (simp add: str_trunc_def)

lemma nul_free_str_trunc [simp]: "nul_free (str_trunc n s)"
  by (simp add: str_trunc_def)

lemma str_trunc_id: "nul_free s \<Longrightarrow> length s \<le> n \<Longrightarrow> str_trunc n s = s"
  by (simp add: str_trunc_def cstring_simps)

lemma str_trunc_idem [simp]: "str_trunc n (str_trunc n s) = str_trunc n s"
  by (rule str_trunc_id) (simp_all add: bounds_simps)

text \<open>\<open>strncmp(a, b, n) == 0\<close>.\<close>

definition strn_eq :: "nat \<Rightarrow> bytes \<Rightarrow> bytes \<Rightarrow> bool" where
  "strn_eq n a b \<longleftrightarrow> take n (cstr a) = take n (cstr b)"

lemma strn_eq_refl [simp]: "strn_eq n a a"
  by (simp add: strn_eq_def)

lemma strn_eq_iff:
  "nul_free a \<Longrightarrow> nul_free b \<Longrightarrow> length a \<le> n \<Longrightarrow> length b \<le> n \<Longrightarrow> strn_eq n a b \<longleftrightarrow> a = b"
  by (simp add: strn_eq_def cstring_simps)

text \<open>\<open>tolower\<close> on ASCII, and \<open>strncasecmp(a, b, n) == 0\<close> on two slices of \<open>n\<close> bytes.\<close>

definition to_lower :: "byte \<Rightarrow> byte" where
  "to_lower c = (if 65 \<le> byte_val c \<and> byte_val c \<le> 90 then char_of (byte_val c + 32) else c)"

definition strncase_eq :: "nat \<Rightarrow> bytes \<Rightarrow> bytes \<Rightarrow> bool" where
  "strncase_eq n a b \<longleftrightarrow> map to_lower (take n (cstr a)) = map to_lower (take n (cstr b))"

section \<open>Searching\<close>

text \<open>\<open>strstr\<close> and \<open>memmem\<close>: the part of the buffer before the first occurrence of the
  pattern, and the suffix that starts at it.\<close>

fun find_sub :: "bytes \<Rightarrow> bytes \<Rightarrow> (bytes \<times> bytes) option" where
  "find_sub pat [] = (if pat = [] then Some ([], []) else None)"
| "find_sub pat (c # s) =
     (if prefix pat (c # s) then Some ([], c # s)
      else map_option (\<lambda>(a, b). (c # a, b)) (find_sub pat s))"

lemma find_sub_Some: "find_sub pat s = Some (a, b) \<Longrightarrow> s = a @ b \<and> prefix pat b"
  by (induction s arbitrary: a b) (auto split: if_splits)

lemma find_sub_prefix: "prefix pat s \<Longrightarrow> find_sub pat s = Some ([], s)"
  by (cases s) auto

section \<open>Numbers in text\<close>

definition is_digit :: "byte \<Rightarrow> bool" where
  "is_digit c \<longleftrightarrow> 48 \<le> byte_val c \<and> byte_val c \<le> 57"

definition is_space :: "byte \<Rightarrow> bool" where
  "is_space c \<longleftrightarrow> c = CHR '' '' \<or> (9 \<le> byte_val c \<and> byte_val c \<le> 13)"

text \<open>The value of the longest prefix of decimal digits.\<close>

fun digits_val :: "nat \<Rightarrow> bytes \<Rightarrow> nat" where
  "digits_val acc [] = acc"
| "digits_val acc (c # s) =
     (if is_digit c then digits_val (10 * acc + (byte_val c - 48)) s else acc)"

text \<open>The integer text accepted by \<open>strtol\<close>, \<open>strtoull\<close> and \<open>atoi\<close> in base 10: spaces, an
  optional sign, digits; the value before the function's own range is applied.\<close>

definition signed_val :: "bytes \<Rightarrow> int" where
  "signed_val s =
     (let t = dropWhile is_space (cstr s) in
      case t of
        [] \<Rightarrow> 0
      | c # u \<Rightarrow> if c = CHR ''-'' then - int (digits_val 0 u)
                else if c = CHR ''+'' then int (digits_val 0 u)
                else int (digits_val 0 t))"

text \<open>\<open>strtol\<close> saturates at the bounds of a 64-bit \<open>long\<close>.\<close>

definition strtol :: "bytes \<Rightarrow> int" where
  "strtol s = max (- (2 ^ 63)) (min (2 ^ 63 - 1) (signed_val s))"

text \<open>\<open>strtoull\<close> saturates at the top of the range and negates modulo \<open>2^64\<close>.\<close>

definition strtoull :: "bytes \<Rightarrow> 64 word" where
  "strtoull s = (let v = signed_val s in
     if v \<ge> 2 ^ 64 \<or> v \<le> - (2 ^ 64) then - 1 else word_of_int v)"

text \<open>\<open>atoi\<close> is \<open>strtol\<close> converted to a 32-bit \<open>int\<close> (glibc).\<close>

definition atoi :: "bytes \<Rightarrow> int" where
  "atoi s = sint (word_of_int (strtol s) :: 32 word)"

text \<open>\<open>%d\<close>, \<open>%zu\<close>: decimal printing.\<close>

definition digit_char :: "nat \<Rightarrow> byte" where
  "digit_char d = char_of (48 + d)"

fun show_nat :: "nat \<Rightarrow> bytes" where
  "show_nat n = (if n < 10 then [digit_char n] else show_nat (n div 10) @ [digit_char (n mod 10)])"

declare show_nat.simps [simp del]

definition show_int :: "int \<Rightarrow> bytes" where
  "show_int i = (if i < 0 then CHR ''-'' # show_nat (nat (- i)) else show_nat (nat i))"

lemma byte_val_bound [bounds_simps]: "byte_val c < 256"
  unfolding byte_val_def by (metis nat_of_char_less_256)

lemma byte_val_char_of [simp]: "n < 256 \<Longrightarrow> byte_val (char_of n) = n"
  by (simp add: byte_val_def)

lemma char_of_byte_val [simp]: "char_of (byte_val c) = c"
  by (simp add: byte_val_def)

lemma byte_val_inj: "byte_val a = byte_val b \<Longrightarrow> a = b"
  by (metis char_of_byte_val)

lemma digit_char_digit: "d < 10 \<Longrightarrow> is_digit (digit_char d) \<and> byte_val (digit_char d) - 48 = d"
  by (simp add: digit_char_def is_digit_def)

lemma digits_val_append:
  "(\<forall>c\<in>set a. is_digit c) \<Longrightarrow> digits_val acc (a @ b) = digits_val (digits_val acc a) b"
  by (induction a arbitrary: acc) auto

lemma show_nat_digits: "\<forall>c\<in>set (show_nat n). is_digit c"
proof (induction n rule: show_nat.induct)
  case (1 n)
  then show ?case
    by (subst show_nat.simps) (auto simp: digit_char_digit)
qed

lemma digits_val_show_nat: "digits_val 0 (show_nat n) = n"
proof (induction n rule: show_nat.induct)
  case (1 n)
  show ?case
  proof (cases "n < 10")
    case True
    then show ?thesis by (subst show_nat.simps) (simp add: digit_char_digit)
  next
    case False
    then show ?thesis
      using 1 by (subst show_nat.simps)
        (simp add: digits_val_append show_nat_digits digit_char_digit)
  qed
qed

lemma show_nat_neq_Nil [simp]: "show_nat n \<noteq> []"
  by (subst show_nat.simps) simp

lemma digits_val_stop:
  "(case r of [] \<Rightarrow> True | c # _ \<Rightarrow> \<not> is_digit c) \<Longrightarrow> digits_val acc r = acc"
  by (cases r) auto

section \<open>Lists\<close>

lemma length_takeWhile_drop:
  "length (takeWhile P xs) + length (dropWhile P xs) = length xs"
  by (metis length_append takeWhile_dropWhile_id)

lemma distinct_map_filter_subset: "distinct (map f xs) \<Longrightarrow> distinct (map f (filter P xs))"
  by (induction xs) auto

end
