(* ===== verification/HashTable.thy ===== *)
theory HashTable
  imports Prelude "HOL-Library.Multiset"
begin

unbundle bit_operations_syntax

text \<open>
  The generic hash table of \<open>hash_table.c\<close>: separate chaining with the newest entry at the
  head of its bucket, cached hashes, growth to a prime capacity, binary snapshots.  The
  module-wide hash function \<open>hash_key\<close> of \<open>server.c\<close> is here as well, with the primality
  helpers that choose the capacity.

  A value buffer is a list of cells: for snapshots a cell is a byte, for the typed clients of
  the table (sessions, rate limiter, city geometry) one cell is one copied struct.  Every
  \<open>malloc\<close> and \<open>calloc\<close> of an operation is a boolean of the record \<open>ht_mem\<close>, so each
  out-of-memory path is a branch of the model.  \<open>size_t\<close> values are natural numbers; the
  bounds under which no operation on them wraps are lemmas of this theory.
\<close>

section \<open>Choosing a capacity\<close>

function is_prime_loop :: "nat \<Rightarrow> nat \<Rightarrow> bool" where
  "is_prime_loop n i =
     (if i * i \<le> n then
        (if n mod i = 0 \<or> n mod (i + 2) = 0 then False else is_prime_loop n (i + 6))
      else True)"
  by pat_completeness auto
termination
proof (relation "measure (\<lambda>(n, i). n + 1 - i)")
  fix n i :: nat
  assume "i * i \<le> n"
  moreover have "i \<le> i * i" by (cases i) auto
  ultimately have "i < n + 1" by linarith
  then show "((n, i + 6), n, i) \<in> measure (\<lambda>(n, i). n + 1 - i)" by (simp add: diff_less_mono2)
qed simp

declare is_prime_loop.simps [simp del]

definition is_prime :: "nat \<Rightarrow> bool" where
  "is_prime n =
     (if n < 2 then False
      else if n = 2 \<or> n = 3 then True
      else if n mod 2 = 0 \<or> n mod 3 = 0 then False
      else is_prime_loop n 5)"

text \<open>What the routine should decide: the mathematical notion of a prime number.\<close>

definition prime_number :: "nat \<Rightarrow> bool" where
  "prime_number n \<longleftrightarrow> 1 < n \<and> (\<forall>d. d dvd n \<longrightarrow> d = 1 \<or> d = n)"

lemma is_prime_loop_False:
  "\<not> is_prime_loop n i \<Longrightarrow> 5 \<le> i \<Longrightarrow> \<exists>d. d dvd n \<and> 1 < d \<and> d < n"
proof (induction n i rule: is_prime_loop.induct)
  case (1 n i)
  have lt: "i + 2 < i * i"
  proof -
    have "5 * i \<le> i * i" using "1.prems" by (intro mult_right_mono) auto
    with "1.prems" show ?thesis by linarith
  qed
  show ?case
  proof (cases "i * i \<le> n \<and> (n mod i = 0 \<or> n mod (i + 2) = 0)")
    case True
    then have "i dvd n \<or> (i + 2) dvd n" by (auto simp: dvd_eq_mod_eq_0)
    moreover have "1 < i" "i < n" "i + 2 < n" using True lt "1.prems" by linarith+
    ultimately show ?thesis by (metis add_lessD1 less_add_same_cancel1 less_trans zero_less_numeral)
  next
    case False
    with "1.prems"(1) have "i * i \<le> n" "\<not> is_prime_loop n (i + 6)"
      by (auto simp: is_prime_loop.simps [of n i] split: if_splits)
    with False "1.IH" "1.prems"(2) show ?thesis by auto
  qed
qed

lemma is_prime_loop_True:
  "is_prime_loop n i \<Longrightarrow> (i + 6 * k) * (i + 6 * k) \<le> n \<Longrightarrow>
    \<not> (i + 6 * k) dvd n \<and> \<not> (i + 6 * k + 2) dvd n"
proof (induction k arbitrary: i)
  case 0
  then show ?case
    by (auto simp: is_prime_loop.simps [of n i] dvd_eq_mod_eq_0 split: if_splits)
next
  case (Suc k)
  have "i * i \<le> (i + 6 * Suc k) * (i + 6 * Suc k)" by (rule mult_le_mono) auto
  with Suc.prems(2) have "i * i \<le> n" by linarith
  with Suc.prems(1) have "is_prime_loop n (i + 6)"
    by (auto simp: is_prime_loop.simps [of n i] split: if_splits)
  moreover have "(i + 6) + 6 * k = i + 6 * Suc k" by simp
  ultimately show ?case using Suc.IH [of "i + 6"] Suc.prems(2) by metis
qed

text \<open>A number above 1 that is not prime has a divisor at or below its square root.\<close>

lemma small_divisor:
  assumes "1 < n" and "\<not> prime_number n"
  obtains d where "d dvd n" and "1 < d" and "d * d \<le> n"
proof -
  from assms obtain a b where ab: "n = a * b" "a \<noteq> 1" "a \<noteq> n"
    unfolding prime_number_def by (auto elim!: dvdE)
  with assms have ab1: "1 < a" "1 < b" by (auto simp: nat_neq_iff)
  have "a * a \<le> n \<or> b * b \<le> n" using ab(1) by (metis mult_le_mono1 mult_le_mono2 nat_le_linear)
  with ab ab1 that show thesis by (metis dvd_triv_left dvd_triv_right)
qed

lemma coprime_6_form:
  assumes "5 \<le> (d::nat)" and "\<not> 2 dvd d" and "\<not> 3 dvd d"
  obtains k where "d = 5 + 6 * k" | k where "d = 7 + 6 * k"
proof -
  have "d mod 6 = 1 \<or> d mod 6 = 5" using assms(2,3) by presburger
  then show thesis
  proof
    assume "d mod 6 = 1"
    then have "d = 7 + 6 * (d div 6 - 1)" using assms(1) by presburger
    then show thesis by (rule that(2))
  next
    assume "d mod 6 = 5"
    then have "d = 5 + 6 * (d div 6)" by presburger
    then show thesis by (rule that(1))
  qed
qed

lemma is_prime_sound:
  assumes "is_prime n"
  shows "prime_number n"
proof (rule ccontr)
  assume np: "\<not> prime_number n"
  have n: "1 < n" using assms by (auto simp: is_prime_def split: if_splits)
  have small: "prime_number 2" "prime_number 3"
  proof -
    have "\<And>d::nat. d dvd 2 \<Longrightarrow> d = 1 \<or> d = 2"
    proof -
      fix d :: nat
      assume "d dvd 2"
      moreover from this have "d \<le> 2" by (auto dest: dvd_imp_le)
      ultimately show "d = 1 \<or> d = 2" by (cases "d = 0") auto
    qed
    then show "prime_number 2" unfolding prime_number_def by simp
    have "\<And>d::nat. d dvd 3 \<Longrightarrow> d = 1 \<or> d = 3"
    proof -
      fix d :: nat
      assume "d dvd 3"
      moreover from this have "d \<le> 3" by (auto dest: dvd_imp_le)
      moreover have "\<not> 2 dvd (3::nat)" by presburger
      ultimately show "d = 1 \<or> d = 3" by (cases "d = 0 \<or> d = 2") auto
    qed
    then show "prime_number 3" unfolding prime_number_def by simp
  qed
  with np assms have loop: "is_prime_loop n 5" "\<not> 2 dvd n" "\<not> 3 dvd n"
    by (auto simp: is_prime_def dvd_eq_mod_eq_0 split: if_splits)
  from n np obtain d where d: "d dvd n" "1 < d" "d * d \<le> n" by (rule small_divisor)
  have nd: "\<not> 2 dvd d" "\<not> 3 dvd d" using d(1) loop by (meson dvd_trans)+
  have "d \<noteq> 2" "d \<noteq> 3" "d \<noteq> 4" using nd by presburger+
  with d(2) have "5 \<le> d" by linarith
  from this nd show False
  proof (rule coprime_6_form)
    fix k assume "d = 5 + 6 * k"
    with is_prime_loop_True [OF loop(1), of k] d show False by auto
  next
    fix k assume k: "d = 7 + 6 * k"
    have "(5 + 6 * k) * (5 + 6 * k) \<le> d * d" unfolding k by (rule mult_le_mono) auto
    with is_prime_loop_True [OF loop(1), of k] d k show False by (auto simp: add.commute)
  qed
qed

lemma is_prime_complete:
  assumes "prime_number n"
  shows "is_prime n"
proof (rule ccontr)
  assume "\<not> is_prime n"
  with assms have "2 dvd n \<and> n \<noteq> 2 \<or> 3 dvd n \<and> n \<noteq> 3 \<or> \<not> is_prime_loop n 5"
    by (auto simp: is_prime_def prime_number_def dvd_eq_mod_eq_0 split: if_splits)
  then have "\<exists>d. d dvd n \<and> d \<noteq> 1 \<and> d \<noteq> n"
    using is_prime_loop_False [of n 5] by (auto 4 3)
  with assms show False by (auto simp: prime_number_def)
qed

lemma is_prime_iff: "is_prime n \<longleftrightarrow> prime_number n"
  using is_prime_sound is_prime_complete by blast

text \<open>Primes are unbounded, so the search of \<open>next_prime\<close> ends.\<close>

lemma prime_divisor: "1 < n \<Longrightarrow> \<exists>p. prime_number p \<and> p dvd n"
proof (induction n rule: less_induct)
  case (less n)
  show ?case
  proof (cases "prime_number n")
    case False
    then obtain d where "d dvd n" "1 < d" "d * d \<le> n" using less.prems by (blast elim: small_divisor)
    moreover from this have "d < d * d" by simp
    ultimately show ?thesis using less.IH [of d] by (metis dvd_trans le_trans not_le)
  qed auto
qed

lemma prime_above: "\<exists>p. prime_number p \<and> n < p"
proof -
  obtain p where p: "prime_number p" "p dvd fact n + (1::nat)"
    using prime_divisor [of "fact n + 1"] by (auto simp: fact_gt_zero)
  have "n < p"
  proof (rule ccontr)
    assume "\<not> n < p"
    with p(1) have "p dvd (fact n :: nat)" by (intro dvd_fact) (auto simp: prime_number_def)
    with p(2) have "p dvd 1" by (metis dvd_add_right_iff)
    with p(1) show False by (simp add: prime_number_def)
  qed
  with p show ?thesis by blast
qed

lemma odd_prime_above: "\<exists>j\<ge>k. is_prime (2 * j + 1)"
proof -
  obtain p where p: "prime_number p" "2 * k + 2 < p" using prime_above by blast
  have "odd p"
  proof
    assume "even p"
    then have "(2::nat) = 1 \<or> 2 = p" using p(1) unfolding prime_number_def by blast
    with p(2) show False by simp
  qed
  then obtain j where "p = 2 * j + 1" by (elim oddE)
  with p show ?thesis by (intro exI [of _ j]) (simp add: is_prime_iff)
qed

text \<open>\<open>while (!is_prime(n)) n += 2;\<close> at the odd number \<open>n = 2 * k + 1\<close>.\<close>

function next_odd_prime :: "nat \<Rightarrow> nat" where
  "next_odd_prime k = (if is_prime (2 * k + 1) then 2 * k + 1 else next_odd_prime (k + 1))"
  by pat_completeness auto
termination
proof (relation "measure (\<lambda>k. (LEAST j. k \<le> j \<and> is_prime (2 * j + 1)) - k)")
  fix k assume np: "\<not> is_prime (2 * k + 1)"
  let ?P = "\<lambda>k j. k \<le> j \<and> is_prime (2 * j + 1)"
  have ex: "\<exists>j. ?P k j" using odd_prime_above by blast
  have eq: "?P k = ?P (k + 1)" using np by (auto simp: fun_eq_iff le_less_Suc_eq le_eq_less_or_eq)
  then have least: "(LEAST j. ?P k j) = (LEAST j. ?P (k + 1) j)" by simp
  have "?P (k + 1) (LEAST j. ?P k j)" using LeastI_ex [OF ex] eq by metis
  then have "k < (LEAST j. ?P k j)" by simp
  with least show "(k + 1, k) \<in> measure (\<lambda>k. (LEAST j. ?P k j) - k)" by simp
qed simp

declare next_odd_prime.simps [simp del]

definition next_prime :: "nat \<Rightarrow> nat" where
  "next_prime n =
     (if n < 2 then 2
      else let m = (if n mod 2 = 0 then n + 1 else n) in next_odd_prime (m div 2))"

lemma next_odd_prime_spec:
  "0 < k \<Longrightarrow> prime_number (next_odd_prime k) \<and> 2 * k + 1 \<le> next_odd_prime k \<and>
   (\<forall>q. prime_number q \<longrightarrow> 2 * k + 1 \<le> q \<longrightarrow> next_odd_prime k \<le> q)"
proof (induction k rule: next_odd_prime.induct)
  case (1 k)
  show ?case
  proof (cases "is_prime (2 * k + 1)")
    case True
    then show ?thesis by (simp add: next_odd_prime.simps [of k] is_prime_iff)
  next
    case False
    with "1.IH" have IH: "prime_number (next_odd_prime (k + 1))"
      "2 * (k + 1) + 1 \<le> next_odd_prime (k + 1)"
      "\<And>q. prime_number q \<Longrightarrow> 2 * (k + 1) + 1 \<le> q \<Longrightarrow> next_odd_prime (k + 1) \<le> q"
      by auto
    have "next_odd_prime (k + 1) \<le> q" if q: "prime_number q" "2 * k + 1 \<le> q" for q
    proof (rule IH(3) [OF q(1)])
      have "q \<noteq> 2 * k + 1" using q False by (auto simp: is_prime_iff)
      moreover have "q \<noteq> 2 * k + 2"
      proof
        assume eq: "q = 2 * k + 2"
        then have "2 dvd q" by simp
        then have "q = 2" using q(1) unfolding prime_number_def by fastforce
        with eq "1.prems" show False by simp
      qed
      ultimately show "2 * (k + 1) + 1 \<le> q" using q(2) by presburger
    qed
    with IH False show ?thesis by (simp add: next_odd_prime.simps [of k])
  qed
qed

lemma next_prime_spec:
  assumes "2 \<le> n"
  shows "prime_number (next_prime n)" and "n \<le> next_prime n"
    and "prime_number q \<Longrightarrow> 3 \<le> q \<Longrightarrow> n \<le> q \<Longrightarrow> next_prime n \<le> q"
proof -
  let ?m = "if n mod 2 = 0 then n + 1 else n"
  let ?k = "?m div 2"
  have odd: "2 * ?k + 1 = ?m" and pos: "0 < ?k" using assms by presburger+
  have np: "next_prime n = next_odd_prime ?k" using assms by (simp add: next_prime_def Let_def)
  note spec = next_odd_prime_spec [OF pos, folded np]
  show "prime_number (next_prime n)" and "n \<le> next_prime n" using spec odd by (auto split: if_splits)
  assume q: "prime_number q" "3 \<le> q" "n \<le> q"
  have "odd q"
  proof
    assume "even q"
    then have "(2::nat) = 1 \<or> 2 = q" using q(1) unfolding prime_number_def by blast
    with q(2) show False by simp
  qed
  with q(3) odd have "2 * ?k + 1 \<le> q" by presburger
  with spec q(1) show "next_prime n \<le> q" by blast
qed

text \<open>
  No step of the search wraps a 64-bit \<open>size_t\<close>: any prime at or above the start bounds the
  result, and 1048573 is such a prime for every table of at most 524286 buckets.
\<close>

lemma is_prime_1048573: "is_prime 1048573"
  by (simp add: is_prime_def is_prime_loop.simps)

lemma next_prime_le_1048573: "2 \<le> n \<Longrightarrow> n \<le> 1048573 \<Longrightarrow> next_prime n \<le> 1048573"
  by (rule next_prime_spec(3)) (use is_prime_1048573 in \<open>auto simp: is_prime_iff\<close>)

section \<open>Hashing\<close>

text \<open>\<open>hash_key\<close> of \<open>server.c\<close>: a Murmur-like mix in 64-bit arithmetic.\<close>

definition MURMUR_MUL :: "64 word" where
  "MURMUR_MUL = 0x5bd1e995"

definition MURMUR_FIN :: "64 word" where
  "MURMUR_FIN = 0x85ebca6b"

definition hash_step :: "64 word \<Rightarrow> byte \<Rightarrow> 64 word" where
  "hash_step h0 d =
     (let h1 = h0 XOR word_of_nat (byte_val d); h2 = h1 * MURMUR_MUL
      in h2 XOR drop_bit 15 h2)"

definition hash_key :: "bytes \<Rightarrow> 64 word \<Rightarrow> 64 word" where
  "hash_key key seed =
     (let h = foldl hash_step seed key;
          h1 = h XOR drop_bit 13 h;
          h2 = h1 * MURMUR_FIN
      in h2 XOR drop_bit 16 h2)"

section \<open>Data\<close>

record 'v entry =
  ekey :: bytes
  evalue :: "'v list"
  ehash :: "64 word"

record 'v hash_table =
  pool :: "'v entry list list"
  ht_size :: nat
  capacity :: nat
  seed :: "64 word"
  hash_function :: "bytes \<Rightarrow> 64 word \<Rightarrow> 64 word"

text \<open>Which allocations of an operation succeed.\<close>

record ht_mem =
  mem_value :: bool \<comment> \<open>the new value buffer of an update\<close>
  mem_pool :: bool \<comment> \<open>the bucket array of a resize\<close>
  mem_entry :: bool
  mem_ekey :: bool
  mem_evalue :: bool

definition mem_ok :: ht_mem where
  "mem_ok = \<lparr>mem_value = True, mem_pool = True, mem_entry = True, mem_ekey = True,
     mem_evalue = True\<rparr>"

definition HT_DEFAULT_CAPACITY :: nat where
  "HT_DEFAULT_CAPACITY = 101"

definition MAX_KEY_LEN :: nat where
  "MAX_KEY_LEN = 2 ^ 12"

definition MAX_VALUE_SIZE :: nat where
  "MAX_VALUE_SIZE = 2 ^ 20"

text \<open>The bucket of a hash: \<open>h % capacity\<close> stored in an \<open>unsigned int\<close>.\<close>

definition bucket_index :: "64 word \<Rightarrow> nat \<Rightarrow> nat" where
  "bucket_index h cap = (unat h mod cap) mod 2 ^ 32"

definition keys_equal :: "bytes \<Rightarrow> bytes \<Rightarrow> bool" where
  "keys_equal a b \<longleftrightarrow> length a = length b \<and> take (length a) a = take (length a) b"

section \<open>Operations\<close>

definition generate_seed :: "64 word option \<Rightarrow> int \<Rightarrow> 64 word" where
  "generate_seed urandom now = (case urandom of Some s \<Rightarrow> s | None \<Rightarrow> word_of_int now)"

definition ht_create :: "bool \<Rightarrow> bool \<Rightarrow> 64 word \<Rightarrow> nat \<Rightarrow> (bytes \<Rightarrow> 64 word \<Rightarrow> 64 word) \<Rightarrow>
    'v hash_table option" where
  "ht_create mem_table mem_buckets sd initialCapacity hf =
     (if \<not> mem_table then None
      else let cap = (if initialCapacity > 0 then initialCapacity else HT_DEFAULT_CAPACITY) in
        if \<not> mem_buckets then None
        else Some \<lparr>pool = replicate cap [], ht_size = 0, capacity = cap, seed = sd,
               hash_function = hf\<rparr>)"

definition create_entry :: "ht_mem \<Rightarrow> bytes \<Rightarrow> 'v list \<Rightarrow> 64 word \<Rightarrow> 'v entry option" where
  "create_entry mem k v h =
     (if \<not> mem_entry mem then None
      else if \<not> mem_ekey mem then None
      else if \<not> mem_evalue mem then None
      else Some \<lparr>ekey = k, evalue = v, ehash = h\<rparr>)"

text \<open>Moving one entry to the head of its new bucket, and \<open>ht_resize\<close>.\<close>

definition rehash_entry :: "nat \<Rightarrow> 'v entry list list \<Rightarrow> 'v entry \<Rightarrow> 'v entry list list" where
  "rehash_entry newCap newPool e =
     (let newIndex = bucket_index (ehash e) newCap
      in newPool[newIndex := e # newPool ! newIndex])"

definition ht_resize :: "ht_mem \<Rightarrow> 'v hash_table \<Rightarrow> 'v hash_table option" where
  "ht_resize mem t =
     (let newCap = next_prime (capacity t * 2) in
      if \<not> mem_pool mem then None
      else Some (t\<lparr>pool := foldl (foldl (rehash_entry newCap)) (replicate newCap []) (pool t),
                   capacity := newCap\<rparr>))"

text \<open>The search of the update loop of \<open>ht_set\<close>: the chain with the value of the first entry
  of that key replaced.\<close>

fun chain_replace :: "bytes \<Rightarrow> 'v list \<Rightarrow> 'v entry list \<Rightarrow> 'v entry list option" where
  "chain_replace k v [] = None"
| "chain_replace k v (e # es) =
     (if keys_equal (ekey e) k then Some (e\<lparr>evalue := v\<rparr> # es)
      else map_option ((#) e) (chain_replace k v es))"

definition ht_set :: "ht_mem \<Rightarrow> 'v hash_table \<Rightarrow> bytes \<Rightarrow> 'v list \<Rightarrow> bool \<times> 'v hash_table" where
  "ht_set mem t k v =
     (let h = hash_function t k (seed t);
          index = bucket_index h (capacity t)
      in case chain_replace k v (pool t ! index) of
           Some chain \<Rightarrow>
             if mem_value mem then (True, t\<lparr>pool := (pool t)[index := chain]\<rparr>) else (False, t)
         | None \<Rightarrow>
             (case (if ht_size t + 1 \<ge> capacity t then ht_resize mem t else Some t) of
                None \<Rightarrow> (False, t)
              | Some t' \<Rightarrow>
                  let index' = bucket_index h (capacity t') in
                  (case create_entry mem k v h of
                     None \<Rightarrow> (False, t')
                   | Some e \<Rightarrow>
                       (True, t'\<lparr>pool := (pool t')[index' := e # pool t' ! index'],
                                 ht_size := ht_size t' + 1\<rparr>))))"

fun chain_find :: "bytes \<Rightarrow> 'v entry list \<Rightarrow> 'v entry option" where
  "chain_find k [] = None"
| "chain_find k (e # es) = (if keys_equal (ekey e) k then Some e else chain_find k es)"

text \<open>\<open>ht_get\<close> copies at most \<open>destSize\<close> cells over the front of the caller's buffer.\<close>

definition ht_get :: "'v hash_table \<Rightarrow> bytes \<Rightarrow> 'v list \<Rightarrow> nat \<Rightarrow> bool \<times> 'v list" where
  "ht_get t k destBuffer destSize =
     (let index = bucket_index (hash_function t k (seed t)) (capacity t)
      in case chain_find k (pool t ! index) of
           None \<Rightarrow> (False, destBuffer)
         | Some e \<Rightarrow>
             let n = (if length (evalue e) < destSize then length (evalue e) else destSize)
             in (True, take n (evalue e) @ drop n destBuffer))"

fun chain_remove :: "bytes \<Rightarrow> 'v entry list \<Rightarrow> 'v entry list option" where
  "chain_remove k [] = None"
| "chain_remove k (e # es) =
     (if keys_equal (ekey e) k then Some es else map_option ((#) e) (chain_remove k es))"

definition ht_delete :: "'v hash_table \<Rightarrow> bytes \<Rightarrow> bool \<times> 'v hash_table" where
  "ht_delete t k =
     (let index = bucket_index (hash_function t k (seed t)) (capacity t)
      in case chain_remove k (pool t ! index) of
           None \<Rightarrow> (False, t)
         | Some chain \<Rightarrow>
             (True, t\<lparr>pool := (pool t)[index := chain], ht_size := ht_size t - 1\<rparr>))"

definition ht_foreach :: "('u \<Rightarrow> 'v entry \<Rightarrow> 'u) \<Rightarrow> 'u \<Rightarrow> 'v hash_table \<Rightarrow> 'u" where
  "ht_foreach callback userdata t = foldl (foldl callback) userdata (pool t)"

section \<open>Snapshots\<close>

text \<open>A \<open>size_t\<close> as the host writes it: eight bytes, least significant first.\<close>

definition size_bytes :: "nat \<Rightarrow> bytes" where
  "size_bytes n = map (\<lambda>i. char_of (n div 256 ^ i mod 256)) [0..<8]"

definition bytes_size :: "bytes \<Rightarrow> nat" where
  "bytes_size b = (\<Sum>i\<leftarrow>[0..<8]. byte_val (b ! i) * 256 ^ i)"

definition save_entry :: "byte entry \<Rightarrow> bytes" where
  "save_entry e =
     size_bytes (length (ekey e)) @ ekey e @ size_bytes (length (evalue e)) @ evalue e"

definition ht_snapshot :: "byte hash_table \<Rightarrow> bytes" where
  "ht_snapshot t = ht_foreach (\<lambda>file e. file @ save_entry e) [] t"

text \<open>
  The reading loop of \<open>ht_load\<close>: \<open>mem i\<close> are the allocations of the \<open>i\<close>-th record (the key
  and value copies first, then those of its \<open>ht_set\<close>).
\<close>

function ht_load_loop :: "(nat \<Rightarrow> bool \<times> bool \<times> ht_mem) \<Rightarrow> nat \<Rightarrow> byte hash_table \<Rightarrow> bytes \<Rightarrow>
    byte hash_table" where
  "ht_load_loop mem i t file =
     (if length file < 8 then t
      else let keyLen = bytes_size file; rest = drop 8 file in
        if keyLen = 0 \<or> keyLen > MAX_KEY_LEN then t
        else if \<not> fst (mem i) then t
        else if length rest < keyLen then t
        else let key = take keyLen rest; rest2 = drop keyLen rest in
          if length rest2 < 8 then t
          else let valLen = bytes_size rest2; rest3 = drop 8 rest2 in
            if valLen = 0 \<or> valLen > MAX_VALUE_SIZE then t
            else if \<not> fst (snd (mem i)) then t
            else if length rest3 < valLen then t
            else ht_load_loop mem (i + 1)
                   (snd (ht_set (snd (snd (mem i))) t key (take valLen rest3)))
                   (drop valLen rest3))"
  by pat_completeness auto
termination
  by (relation "measure (\<lambda>(mem, i, t, file). length file)") auto

declare ht_load_loop.simps [simp del]

definition ht_load :: "(nat \<Rightarrow> bool \<times> bool \<times> ht_mem) \<Rightarrow> byte hash_table \<Rightarrow> bytes option \<Rightarrow>
    bool \<times> byte hash_table" where
  "ht_load mem t file =
     (if ht_size t > 0 then (False, t)
      else case file of
             None \<Rightarrow> (False, t)
           | Some f \<Rightarrow> (True, ht_load_loop mem 0 t f))"

end
