(* ===== verification/HashTableSpec.thy ===== *)
theory HashTableSpec
  imports HashTable
begin

text \<open>
  Correctness of the hash table.  The interface \<open>kv_store\<close> states what the clients of the
  table rely on, its lemmas are what they use, and the interpretation \<open>ht\<close> discharges it for
  the model of \<open>hash_table.c\<close>: with the bucket invariant \<open>ht_inv\<close>, every operation acts on
  the abstract map \<open>ht_abs\<close> as a finite map does, whatever allocations fail.
\<close>

section \<open>The interface\<close>

locale kv_store =
  fixes inv :: "'s \<Rightarrow> bool"
    and abs :: "'s \<Rightarrow> 'k \<Rightarrow> 'v list option"
    and set_op :: "'s \<Rightarrow> 'k \<Rightarrow> 'v list \<Rightarrow> bool \<times> 's"
    and get_op :: "'s \<Rightarrow> 'k \<Rightarrow> 'v list \<Rightarrow> nat \<Rightarrow> bool \<times> 'v list"
    and delete_op :: "'s \<Rightarrow> 'k \<Rightarrow> bool \<times> 's"
  assumes get_abs: "inv s \<Longrightarrow> get_op s k dest n =
      (case abs s k of None \<Rightarrow> (False, dest)
       | Some v \<Rightarrow> (True, take n v @ drop (min (length v) n) dest))"
    and set_inv: "inv s \<Longrightarrow> inv (snd (set_op s k v))"
    and set_abs: "inv s \<Longrightarrow> abs (snd (set_op s k v)) =
      (if fst (set_op s k v) then (abs s)(k \<mapsto> v) else abs s)"
    and delete_inv: "inv s \<Longrightarrow> inv (snd (delete_op s k))"
    and delete_abs: "inv s \<Longrightarrow> abs (snd (delete_op s k)) = (abs s)(k := None)"
    and delete_found: "inv s \<Longrightarrow> fst (delete_op s k) \<longleftrightarrow> abs s k \<noteq> None"
begin

lemma get_cell: "inv s \<Longrightarrow> abs s k = Some [x] \<Longrightarrow> get_op s k [d] 1 = (True, [x])"
  by (simp add: get_abs)

lemma get_miss: "inv s \<Longrightarrow> abs s k = None \<Longrightarrow> get_op s k d n = (False, d)"
  by (simp add: get_abs)

lemma get_found: "inv s \<Longrightarrow> fst (get_op s k d n) \<longleftrightarrow> abs s k \<noteq> None"
  by (simp add: get_abs split: option.splits)

lemma get_set_same:
  "inv s \<Longrightarrow> fst (set_op s k [x]) \<Longrightarrow> get_op (snd (set_op s k [x])) k [d] 1 = (True, [x])"
  by (rule get_cell) (simp_all add: set_inv set_abs)

lemma get_set_other:
  "inv s \<Longrightarrow> j \<noteq> k \<Longrightarrow> get_op (snd (set_op s k v)) j d n = get_op s j d n"
  by (simp add: get_abs set_inv set_abs)

lemma get_delete_same: "inv s \<Longrightarrow> get_op (snd (delete_op s k)) k d n = (False, d)"
  by (rule get_miss) (simp_all add: delete_inv delete_abs)

lemma get_delete_other:
  "inv s \<Longrightarrow> j \<noteq> k \<Longrightarrow> get_op (snd (delete_op s k)) j d n = get_op s j d n"
  by (simp add: get_abs delete_inv delete_abs)

end

section \<open>The invariant and the abstraction\<close>

abbreviation key_values :: "'v entry list \<Rightarrow> (bytes \<times> 'v list) list" where
  "key_values es \<equiv> map (\<lambda>e. (ekey e, evalue e)) es"

definition ht_abs :: "'v hash_table \<Rightarrow> bytes \<Rightarrow> 'v list option" where
  "ht_abs t = map_of (key_values (concat (pool t)))"

text \<open>Every entry sits in the bucket of its hash, once per key.\<close>

definition placed :: "(bytes \<Rightarrow> 64 word) \<Rightarrow> nat \<Rightarrow> nat \<Rightarrow> 'v entry list \<Rightarrow> bool" where
  "placed hf cap i es \<longleftrightarrow>
     (\<forall>e\<in>set es. ehash e = hf (ekey e) \<and> bucket_index (ehash e) cap = i) \<and> distinct (map ekey es)"

definition buckets_ok :: "(bytes \<Rightarrow> 64 word) \<Rightarrow> nat \<Rightarrow> 'v entry list list \<Rightarrow> bool" where
  "buckets_ok hf cap ps \<longleftrightarrow> 0 < cap \<and> length ps = cap \<and> (\<forall>i<cap. placed hf cap i (ps ! i))"

abbreviation hash_of :: "'v hash_table \<Rightarrow> bytes \<Rightarrow> 64 word" where
  "hash_of t k \<equiv> hash_function t k (seed t)"

definition ht_inv :: "'v hash_table \<Rightarrow> bool" where
  "ht_inv t \<longleftrightarrow> buckets_ok (hash_of t) (capacity t) (pool t) \<and>
     ht_size t = length (concat (pool t)) \<and> ht_size t < capacity t"

lemma keys_equal_iff [simp]: "keys_equal a b \<longleftrightarrow> a = b"
  by (auto simp: keys_equal_def)

lemma bucket_index_less: "0 < cap \<Longrightarrow> bucket_index h cap < cap"
  unfolding bucket_index_def
  by (metis le_less_trans mod_less_divisor mod_less_eq_dividend)

section \<open>Chains\<close>

lemma chain_find_map_of: "map_option evalue (chain_find k es) = map_of (key_values es) k"
  by (induction es) auto

lemma chain_replace_None: "chain_replace k v es = None \<longleftrightarrow> k \<notin> ekey ` set es"
  by (induction es) auto

lemma chain_replace_Some:
  "chain_replace k v es = Some es' \<Longrightarrow>
    map_of (key_values es') = (map_of (key_values es))(k \<mapsto> v) \<and>
    map ekey es' = map ekey es \<and>
    (\<forall>e\<in>set es'. \<exists>e2\<in>set es. ekey e = ekey e2 \<and> ehash e = ehash e2)"
  by (induction es arbitrary: es', simp, clarsimp simp: fun_upd_twist split: if_splits, blast)

lemma chain_remove_None: "chain_remove k es = None \<longleftrightarrow> k \<notin> ekey ` set es"
  by (induction es) auto

lemma map_of_none: "k \<notin> ekey ` set es \<Longrightarrow> map_of (key_values es) k = None"
  by (auto simp: map_of_eq_None_iff image_image)

lemma chain_remove_Some:
  "chain_remove k es = Some es' \<Longrightarrow>
    set es' \<subseteq> set es \<and> length es = Suc (length es') \<and>
    (distinct (map ekey es) \<longrightarrow> distinct (map ekey es') \<and>
      map_of (key_values es') = (map_of (key_values es))(k := None))"
proof (induction es arbitrary: es')
  case (Cons e es)
  show ?case
  proof (cases "ekey e = k")
    case True
    with Cons.prems show ?thesis using map_of_none [of k es] by (auto simp: fun_eq_iff)
  next
    case False
    with Cons.prems obtain es2 where "chain_remove k es = Some es2" "es' = e # es2" by auto
    with Cons.IH [of es2] False show ?thesis by (auto simp: fun_upd_twist)
  qed
qed simp

lemma chain_replace_placed:
  assumes "chain_replace k v es = Some es'" and "placed hf cap i es"
  shows "placed hf cap i es'"
  using chain_replace_Some [OF assms(1)] assms(2) by (fastforce simp: placed_def)

lemma chain_remove_placed:
  assumes "chain_remove k es = Some es'" and "placed hf cap i es"
  shows "placed hf cap i es'"
  using chain_remove_Some [OF assms(1)] assms(2) by (auto simp: placed_def)

section \<open>Changing one bucket\<close>

lemma map_of_concat_bucket:
  "j < length ps \<Longrightarrow> (\<forall>i<length ps. i \<noteq> j \<longrightarrow> k \<notin> ekey ` set (ps ! i)) \<Longrightarrow>
    map_of (key_values (concat ps)) k = map_of (key_values (ps ! j)) k"
proof (induction ps arbitrary: j)
  case (Cons p ps)
  show ?case
  proof (cases j)
    case 0
    have "\<forall>i<length ps. k \<notin> ekey ` set (ps ! i)"
    proof (intro allI impI)
      fix i assume "i < length ps"
      then show "k \<notin> ekey ` set (ps ! i)" using Cons.prems(2)[rule_format, of "Suc i"] 0 by simp
    qed
    then have "k \<notin> ekey ` set (concat ps)" by (fastforce simp: in_set_conv_nth [of _ ps])
    then have "map_of (key_values (concat ps)) k = None" by (rule map_of_none)
    with 0 show ?thesis by (simp add: map_add_def split: option.splits)
  next
    case (Suc j')
    have "k \<notin> ekey ` set p" using Cons.prems Suc by force
    then have p: "map_of (key_values p) k = None" by (rule map_of_none)
    have "map_of (key_values (concat ps)) k = map_of (key_values (ps ! j')) k"
      using Cons.prems Suc by (intro Cons.IH) (auto dest: spec [of _ "Suc _"])
    with p Suc show ?thesis by (simp add: map_add_def split: option.splits)
  qed
qed simp

lemma buckets_lookup:
  assumes "buckets_ok hf cap ps"
  shows "map_of (key_values (concat ps)) k = map_of (key_values (ps ! bucket_index (hf k) cap)) k"
proof (rule map_of_concat_bucket)
  show "bucket_index (hf k) cap < length ps"
    using assms bucket_index_less by (auto simp: buckets_ok_def)
  show "\<forall>i<length ps. i \<noteq> bucket_index (hf k) cap \<longrightarrow> k \<notin> ekey ` set (ps ! i)"
    using assms by (fastforce simp: buckets_ok_def placed_def)
qed

lemma buckets_update:
  assumes "buckets_ok hf cap ps" and "i < cap" and "placed hf cap i es"
  shows "buckets_ok hf cap (ps[i := es])"
    and "map_of (key_values (concat (ps[i := es]))) k =
      (if bucket_index (hf k) cap = i then map_of (key_values es) k
       else map_of (key_values (concat ps)) k)"
proof -
  show ok: "buckets_ok hf cap (ps[i := es])"
    using assms by (auto simp: buckets_ok_def nth_list_update)
  have "bucket_index (hf k) cap < length ps"
    using assms(1) bucket_index_less by (auto simp: buckets_ok_def)
  then show "map_of (key_values (concat (ps[i := es]))) k =
      (if bucket_index (hf k) cap = i then map_of (key_values es) k
       else map_of (key_values (concat ps)) k)"
    by (simp add: buckets_lookup [OF ok] buckets_lookup [OF assms(1)] nth_list_update)
qed

lemma length_concat_update:
  "i < length ps \<Longrightarrow> length (concat (ps[i := es])) + length (ps ! i) = length (concat ps) + length es"
proof (induction ps arbitrary: i)
  case (Cons p ps)
  then show ?case by (cases i) (auto simp del: length_concat)
qed simp

section \<open>Inserting at the head of a bucket, and rehashing\<close>

lemma buckets_insert:
  assumes ok: "buckets_ok hf cap ps" and h: "ehash e = hf (ekey e)"
    and new: "map_of (key_values (concat ps)) (ekey e) = None"
    and i: "i = bucket_index (ehash e) cap"
  shows "buckets_ok hf cap (ps[i := e # ps ! i])"
    and "map_of (key_values (concat (ps[i := e # ps ! i]))) =
      (map_of (key_values (concat ps)))(ekey e \<mapsto> evalue e)"
    and "length (concat (ps[i := e # ps ! i])) = Suc (length (concat ps))"
proof -
  have il: "i < cap" "i < length ps" and pl: "placed hf cap i (ps ! i)"
    using ok bucket_index_less i by (auto simp: buckets_ok_def)
  have "map_of (key_values (ps ! i)) (ekey e) = None"
    using new buckets_lookup [OF ok, of "ekey e"] h i by simp
  then have "ekey e \<notin> ekey ` set (ps ! i)" by (auto simp: map_of_eq_None_iff image_image)
  then have pe: "placed hf cap i (e # ps ! i)" using pl h i by (auto simp: placed_def)
  show "buckets_ok hf cap (ps[i := e # ps ! i])" by (rule buckets_update(1) [OF ok il(1) pe])
  show "map_of (key_values (concat (ps[i := e # ps ! i]))) =
      (map_of (key_values (concat ps)))(ekey e \<mapsto> evalue e)"
  proof
    fix k
    show "map_of (key_values (concat (ps[i := e # ps ! i]))) k =
      ((map_of (key_values (concat ps)))(ekey e \<mapsto> evalue e)) k"
      using buckets_update(2) [OF ok il(1) pe, of k] buckets_lookup [OF ok, of k] h i by auto
  qed
  show "length (concat (ps[i := e # ps ! i])) = Suc (length (concat ps))"
    using length_concat_update [OF il(2), of "e # ps ! i"] by simp
qed

lemma rehash_fold:
  "buckets_ok hf cap ps \<Longrightarrow> \<forall>e\<in>set es. ehash e = hf (ekey e) \<Longrightarrow> distinct (map ekey es) \<Longrightarrow>
    \<forall>e\<in>set es. map_of (key_values (concat ps)) (ekey e) = None \<Longrightarrow>
    buckets_ok hf cap (foldl (rehash_entry cap) ps es) \<and>
    map_of (key_values (concat (foldl (rehash_entry cap) ps es))) =
      map_of (key_values (concat ps)) ++ map_of (key_values es) \<and>
    length (concat (foldl (rehash_entry cap) ps es)) = length (concat ps) + length es"
proof (induction es arbitrary: ps)
  case (Cons e es)
  let ?i = "bucket_index (ehash e) cap"
  let ?ps = "ps[?i := e # ps ! ?i]"
  have h: "ehash e = hf (ekey e)" and new: "map_of (key_values (concat ps)) (ekey e) = None"
    using Cons.prems by auto
  note ins = buckets_insert [OF Cons.prems(1) h new refl]
  have "\<forall>e2\<in>set es. map_of (key_values (concat ?ps)) (ekey e2) = None"
    using Cons.prems(3,4) by (auto simp: ins(2) image_iff dest: bspec)
  from Cons.IH [OF ins(1) _ _ this] Cons.prems
  have IH: "buckets_ok hf cap (foldl (rehash_entry cap) ?ps es)"
    "map_of (key_values (concat (foldl (rehash_entry cap) ?ps es))) =
      map_of (key_values (concat ?ps)) ++ map_of (key_values es)"
    "length (concat (foldl (rehash_entry cap) ?ps es)) = length (concat ?ps) + length es"
    by auto
  have "ekey e \<notin> dom (map_of (key_values es))"
    using Cons.prems(3) by (auto simp: dom_map_of_conv_image_fst image_image)
  then have "(map_of (key_values (concat ps)))(ekey e \<mapsto> evalue e) ++ map_of (key_values es) =
      map_of (key_values (concat ps)) ++ (map_of (key_values es))(ekey e \<mapsto> evalue e)"
    by (auto simp: map_add_def fun_eq_iff dom_def split: option.splits)
  moreover have "foldl (rehash_entry cap) ps (e # es) = foldl (rehash_entry cap) ?ps es"
    by (simp add: rehash_entry_def Let_def)
  ultimately show ?case using IH ins(2,3)
    by (simp add: fun_eq_iff map_add_def del: length_concat foldl_Cons)
qed simp

lemma foldl_foldl_concat: "foldl (foldl f) a xss = foldl f a (concat xss)"
  by (induction xss arbitrary: a) auto

lemma buckets_entries:
  assumes "buckets_ok hf cap ps"
  shows "\<forall>e\<in>set (concat ps). ehash e = hf (ekey e)" and "distinct (map ekey (concat ps))"
proof -
  have all: "\<And>i. i < length ps \<Longrightarrow> placed hf cap i (ps ! i)"
    using assms by (auto simp: buckets_ok_def)
  then show "\<forall>e\<in>set (concat ps). ehash e = hf (ekey e)"
    by (force simp: in_set_conv_nth [of _ ps] placed_def)
  have "distinct (map ekey (concat qs))"
    if "\<forall>i<length qs. placed hf cap (n + i) (qs ! i)" for n qs
    using that
  proof (induction qs arbitrary: n)
    case (Cons q qs)
    have q: "placed hf cap n q" using Cons.prems by fastforce
    have qs: "\<forall>i<length qs. placed hf cap (Suc n + i) (qs ! i)"
      using Cons.prems by (auto dest: spec [of _ "Suc _"])
    have "ekey ` set q \<inter> ekey ` set (concat qs) = {}"
    proof (rule ccontr)
      assume "ekey ` set q \<inter> ekey ` set (concat qs) \<noteq> {}"
      then obtain a b i where ab: "a \<in> set q" "i < length qs" "b \<in> set (qs ! i)" "ekey a = ekey b"
        by (auto simp: in_set_conv_nth [of _ qs])
      have "placed hf cap (Suc n + i) (qs ! i)" using qs ab(2) by blast
      then have "bucket_index (hf (ekey b)) cap = Suc n + i" using ab(3) by (auto simp: placed_def)
      moreover have "bucket_index (hf (ekey a)) cap = n" using q ab(1) by (auto simp: placed_def)
      ultimately show False using ab(4) by simp
    qed
    moreover have "distinct (map ekey q)" using q by (simp add: placed_def)
    moreover have "distinct (map ekey (concat qs))" by (rule Cons.IH [OF qs])
    ultimately show ?case by auto
  qed simp
  from this [of ps 0] all show "distinct (map ekey (concat ps))" by simp
qed

section \<open>The operations\<close>

lemma ht_create_spec:
  assumes "ht_create mt mb sd cap0 hf = Some t"
  shows "ht_inv t" and "ht_abs t = Map.empty" and "hash_of t = (\<lambda>k. hf k sd)"
  using assms
  by (auto simp: ht_create_def ht_inv_def ht_abs_def buckets_ok_def placed_def
      HT_DEFAULT_CAPACITY_def Let_def split: if_splits)

lemma ht_resize_spec:
  assumes inv: "ht_inv t" and res: "ht_resize mem t = Some t'"
  shows "buckets_ok (hash_of t') (capacity t') (pool t')" and "ht_abs t' = ht_abs t"
    and "ht_size t' = length (concat (pool t'))" and "ht_size t' + 1 < capacity t'"
    and "hash_of t' = hash_of t" and "ht_size t' = ht_size t"
proof -
  let ?c = "next_prime (capacity t * 2)"
  have cap: "0 < capacity t" and size: "ht_size t < capacity t"
    and ok: "buckets_ok (hash_of t) (capacity t) (pool t)" and len: "ht_size t = length (concat (pool t))"
    using inv by (auto simp: ht_inv_def buckets_ok_def)
  have t': "t' = t\<lparr>pool := foldl (rehash_entry ?c) (replicate ?c []) (concat (pool t)), capacity := ?c\<rparr>"
    using res by (auto simp: ht_resize_def Let_def foldl_foldl_concat split: if_splits)
  have two: "2 \<le> capacity t * 2" using cap by simp
  have c: "capacity t * 2 \<le> ?c" by (rule next_prime_spec(2) [OF two])
  then have c0: "0 < ?c" using cap by linarith
  have empty: "buckets_ok (hash_of t) ?c (replicate ?c [])"
    using c0 by (auto simp: buckets_ok_def placed_def)
  note ents = buckets_entries [OF ok]
  have conc: "concat (replicate ?c []) = ([] :: 'a entry list)" by (induction ?c) auto
  have "\<forall>e\<in>set (concat (pool t)). map_of (key_values (concat (replicate ?c []))) (ekey e) = None"
    unfolding conc by simp
  from rehash_fold [OF empty ents this] conc
  have fold: "buckets_ok (hash_of t) ?c (pool t')"
    "map_of (key_values (concat (pool t'))) = map_of (key_values (concat (pool t)))"
    "length (concat (pool t')) = length (concat (pool t))"
    unfolding t' by (simp_all del: length_concat)
  show "hash_of t' = hash_of t" "ht_size t' = ht_size t" by (simp_all add: t')
  with fold len show "buckets_ok (hash_of t') (capacity t') (pool t')" "ht_abs t' = ht_abs t"
    "ht_size t' = length (concat (pool t'))"
    by (simp_all add: t' ht_abs_def del: length_concat)
  show "ht_size t' + 1 < capacity t'" using size c cap by (simp add: t')
qed

lemma ht_insert_spec:
  assumes ok: "buckets_ok (hash_of t) (capacity t) (pool t)"
    and len: "ht_size t = length (concat (pool t))" and room: "ht_size t + 1 < capacity t"
    and new: "ht_abs t k = None" and e: "e = \<lparr>ekey = k, evalue = v, ehash = hash_of t k\<rparr>"
    and i: "i = bucket_index (hash_of t k) (capacity t)"
  shows "ht_inv (t\<lparr>pool := (pool t)[i := e # pool t ! i], ht_size := ht_size t + 1\<rparr>)"
    and "ht_abs (t\<lparr>pool := (pool t)[i := e # pool t ! i], ht_size := ht_size t + 1\<rparr>) =
      (ht_abs t)(k \<mapsto> v)"
  using buckets_insert [OF ok, of e i] len room new e i
  by (simp_all add: ht_inv_def ht_abs_def del: length_concat)

lemma ht_find_abs:
  "ht_inv t \<Longrightarrow> map_option evalue (chain_find k (pool t ! bucket_index (hash_of t k) (capacity t))) = ht_abs t k"
  unfolding ht_abs_def chain_find_map_of
  by (rule buckets_lookup [symmetric]) (simp add: ht_inv_def)

lemma ht_abs_bucket:
  "ht_inv t \<Longrightarrow> ht_abs t k = map_of (key_values (pool t ! bucket_index (hash_of t k) (capacity t))) k"
  using ht_find_abs [of t k] by (simp add: chain_find_map_of)

lemma ht_set_spec:
  assumes inv: "ht_inv t"
  shows "ht_inv (snd (ht_set mem t k v)) \<and>
    ht_abs (snd (ht_set mem t k v)) =
      (if fst (ht_set mem t k v) then (ht_abs t)(k \<mapsto> v) else ht_abs t) \<and>
    hash_of (snd (ht_set mem t k v)) = hash_of t"
proof -
  let ?i = "bucket_index (hash_of t k) (capacity t)"
  have ok: "buckets_ok (hash_of t) (capacity t) (pool t)" and size: "ht_size t < capacity t"
    and len: "ht_size t = length (concat (pool t))"
    using inv by (auto simp: ht_inv_def)
  have il: "?i < capacity t" "?i < length (pool t)"
    and pl: "placed (hash_of t) (capacity t) ?i (pool t ! ?i)"
    using ok bucket_index_less by (auto simp: buckets_ok_def)
  show ?thesis
  proof (cases "chain_replace k v (pool t ! ?i)")
    case (Some chain)
    note pc = chain_replace_placed [OF Some pl]
    have "length chain = length (pool t ! ?i)"
      using chain_replace_Some [OF Some] map_eq_imp_length_eq by blast
    with length_concat_update [OF il(2), of chain]
    have len': "length (concat ((pool t)[?i := chain])) = length (concat (pool t))" by linarith
    have "map_of (key_values (concat ((pool t)[?i := chain]))) = (ht_abs t)(k \<mapsto> v)"
      using buckets_update(2) [OF ok il(1) pc] chain_replace_Some [OF Some] ht_abs_bucket [OF inv]
      by (auto simp: fun_eq_iff ht_abs_def)
    with buckets_update(1) [OF ok il(1) pc] len len' size inv Some show ?thesis
      by (simp add: ht_set_def Let_def ht_inv_def ht_abs_def del: length_concat)
  next
    case None
    then have new: "ht_abs t k = None"
      using ht_abs_bucket [OF inv, of k] map_of_none by (simp add: chain_replace_None)
    show ?thesis
    proof (cases "ht_size t + 1 \<ge> capacity t")
      case True
      show ?thesis
      proof (cases "ht_resize mem t")
        case fail: None
        with None True inv show ?thesis by (simp add: ht_set_def Let_def)
      next
        case (Some t')
        note r = ht_resize_spec [OF inv Some]
        have "ht_inv t'" using r by (simp add: ht_inv_def)
        moreover note ins = ht_insert_spec [OF r(1,3,4), of k _ v, OF _ refl refl]
        moreover have "hash_of t' k = hash_of t k" using r(5) by (rule fun_cong)
        ultimately show ?thesis using None True Some r(2,5) new
          by (auto simp: ht_set_def Let_def create_entry_def del: length_concat)
      qed
    next
      case False
      then have "ht_size t + 1 < capacity t" by simp
      from ht_insert_spec [OF ok len this new refl refl, of v] None False inv show ?thesis
        by (simp add: ht_set_def Let_def create_entry_def del: length_concat)
    qed
  qed
qed

lemma ht_set_ok: "fst (ht_set mem_ok t k v)"
  by (auto simp: ht_set_def Let_def mem_ok_def create_entry_def ht_resize_def split: option.splits)

lemma ht_delete_spec:
  assumes inv: "ht_inv t"
  shows "ht_inv (snd (ht_delete t k)) \<and> ht_abs (snd (ht_delete t k)) = (ht_abs t)(k := None) \<and>
    (fst (ht_delete t k) \<longleftrightarrow> ht_abs t k \<noteq> None)"
proof -
  let ?i = "bucket_index (hash_of t k) (capacity t)"
  have ok: "buckets_ok (hash_of t) (capacity t) (pool t)" and size: "ht_size t < capacity t"
    and len: "ht_size t = length (concat (pool t))"
    using inv by (auto simp: ht_inv_def)
  have il: "?i < capacity t" "?i < length (pool t)"
    and pl: "placed (hash_of t) (capacity t) ?i (pool t ! ?i)"
    using ok bucket_index_less by (auto simp: buckets_ok_def)
  show ?thesis
  proof (cases "chain_remove k (pool t ! ?i)")
    case None
    then have "ht_abs t k = None"
      using ht_abs_bucket [OF inv, of k] map_of_none by (simp add: chain_remove_None)
    with None inv show ?thesis by (simp add: ht_delete_def Let_def fun_upd_idem)
  next
    case (Some chain)
    note pc = chain_remove_placed [OF Some pl]
    have d: "distinct (map ekey (pool t ! ?i))" using pl by (simp add: placed_def)
    note cr = chain_remove_Some [OF Some]
    with length_concat_update [OF il(2), of chain]
    have len': "length (concat ((pool t)[?i := chain])) = ht_size t - 1" "ht_size t - 1 < capacity t"
      using len size by linarith+
    have "map_of (key_values (concat ((pool t)[?i := chain]))) = (ht_abs t)(k := None)"
      using buckets_update(2) [OF ok il(1) pc] cr d ht_abs_bucket [OF inv]
      by (auto simp: fun_eq_iff ht_abs_def)
    moreover have "ht_abs t k \<noteq> None"
      using Some ht_abs_bucket [OF inv, of k] chain_remove_None [of k "pool t ! ?i"]
      by (auto simp: map_of_eq_None_iff image_image)
    ultimately show ?thesis
      using buckets_update(1) [OF ok il(1) pc] len' Some
      by (simp add: ht_delete_def Let_def ht_inv_def ht_abs_def del: length_concat)
  qed
qed

lemma ht_get_spec:
  assumes inv: "ht_inv t"
  shows "ht_get t k dest n = (case ht_abs t k of None \<Rightarrow> (False, dest)
    | Some v \<Rightarrow> (True, take n v @ drop (min (length v) n) dest))"
  unfolding ht_find_abs [OF inv, of k, symmetric]
  by (auto simp: ht_get_def Let_def min_def split: option.splits)

text \<open>The model of \<open>hash_table.c\<close> provides the interface, for every pattern of allocation
  failures.\<close>

interpretation ht: kv_store ht_inv ht_abs "ht_set mem" ht_get ht_delete for mem
  by unfold_locales (auto simp: ht_get_spec ht_set_spec ht_delete_spec)

section \<open>Snapshots\<close>

lemma digits_256: "(\<Sum>i\<leftarrow>[0..<k]. (n div 256 ^ i mod 256) * 256 ^ i) = (n::nat) mod 256 ^ k"
proof (induction k)
  case (Suc k)
  have "n mod 256 ^ Suc k = 256 ^ k * (n div 256 ^ k mod 256) + n mod 256 ^ k"
    using mod_mult2_eq [of n "256 ^ k" 256] by (simp add: mult.commute)
  with Suc show ?case by (simp add: mult.commute)
qed simp

lemma length_size_bytes [simp]: "length (size_bytes n) = 8"
  by (simp add: size_bytes_def)

lemma bytes_size_size_bytes:
  assumes "n < 2 ^ 64"
  shows "bytes_size (size_bytes n @ r) = n"
proof -
  have "bytes_size (size_bytes n @ r) = (\<Sum>i\<leftarrow>[0..<8]. (n div 256 ^ i mod 256) * 256 ^ i)"
    unfolding bytes_size_def
    by (rule arg_cong [where f = sum_list], rule map_cong)
      (auto simp: size_bytes_def nth_append byte_val_def)
  also have "\<dots> = n mod 256 ^ 8" by (rule digits_256)
  also have "\<dots> = n" using assms by simp
  finally show ?thesis .
qed

definition loadable :: "bytes \<Rightarrow> bytes \<Rightarrow> bool" where
  "loadable k v \<longleftrightarrow> 0 < length k \<and> length k \<le> MAX_KEY_LEN \<and> 0 < length v \<and> length v \<le> MAX_VALUE_SIZE"

lemma ht_load_loop_step:
  assumes "8 \<le> length file" and "bytes_size file = length key" and "drop 8 file = key @ rest"
    and "8 \<le> length rest" and "bytes_size rest = length val" and "drop 8 rest = val @ r"
    and "loadable key val"
  shows "ht_load_loop (\<lambda>_. (True, True, mem)) i t file =
    ht_load_loop (\<lambda>_. (True, True, mem)) (i + 1) (snd (ht_set mem t key val)) r"
proof -
  have "\<not> length file < 8" "\<not> length rest < 8" using assms by auto
  then show ?thesis
    by (subst ht_load_loop.simps)
      (use assms(2,3,5-7) in \<open>simp add: Let_def loadable_def\<close>)
qed

lemma ht_load_loop_save:
  assumes "loadable (ekey e) (evalue e)"
  shows "ht_load_loop (\<lambda>_. (True, True, mem)) i t (save_entry e @ r) =
    ht_load_loop (\<lambda>_. (True, True, mem)) (i + 1) (snd (ht_set mem t (ekey e) (evalue e))) r"
proof -
  have lens: "length (ekey e) < 2 ^ 64" "length (evalue e) < 2 ^ 64"
    using assms by (auto simp: loadable_def MAX_KEY_LEN_def MAX_VALUE_SIZE_def)
  let ?rest = "size_bytes (length (evalue e)) @ evalue e @ r"
  have f: "save_entry e @ r = size_bytes (length (ekey e)) @ ekey e @ ?rest"
    by (simp add: save_entry_def)
  show ?thesis
    unfolding f
    by (rule ht_load_loop_step [OF _ bytes_size_size_bytes [OF lens(1)] _ _
          bytes_size_size_bytes [OF lens(2)] _ assms]) simp_all
qed

lemma ht_load_loop_entries:
  "ht_inv t \<Longrightarrow> \<forall>e\<in>set es. loadable (ekey e) (evalue e) \<Longrightarrow> distinct (map ekey es) \<Longrightarrow>
    \<forall>e\<in>set es. ht_abs t (ekey e) = None \<Longrightarrow>
    ht_inv (ht_load_loop (\<lambda>_. (True, True, mem_ok)) i t (concat (map save_entry es))) \<and>
    ht_abs (ht_load_loop (\<lambda>_. (True, True, mem_ok)) i t (concat (map save_entry es))) =
      ht_abs t ++ map_of (key_values es)"
proof (induction es arbitrary: i t)
  case Nil
  then show ?case by (subst (1 2) ht_load_loop.simps) simp
next
  case (Cons e es)
  let ?t = "snd (ht_set mem_ok t (ekey e) (evalue e))"
  have set: "ht_inv ?t" "ht_abs ?t = (ht_abs t)(ekey e \<mapsto> evalue e)"
    using ht_set_spec [OF Cons.prems(1), of mem_ok "ekey e" "evalue e"] by (auto simp: ht_set_ok)
  have new: "\<forall>e2\<in>set es. ht_abs ?t (ekey e2) = None"
    using Cons.prems(3,4) by (auto simp: set(2) image_iff dest: bspec)
  have "ekey e \<notin> dom (map_of (key_values es))"
    using Cons.prems(3) by (auto simp: dom_map_of_conv_image_fst image_image)
  then have merge: "ht_abs ?t ++ map_of (key_values es) =
      ht_abs t ++ map_of (key_values (e # es))"
    by (auto simp: set(2) map_add_def fun_eq_iff dom_def split: option.splits)
  have "loadable (ekey e) (evalue e)" using Cons.prems by simp
  note step = ht_load_loop_save [OF this, of mem_ok i t "concat (map save_entry es)"]
  have "\<forall>e\<in>set es. loadable (ekey e) (evalue e)" "distinct (map ekey es)"
    using Cons.prems by auto
  from Cons.IH [OF set(1) this new, of "i + 1"] show ?case
    by (simp only: list.map concat.simps step merge)
qed

lemma foldl_append_map: "foldl (\<lambda>f e. f @ g e) a es = a @ concat (map g es)"
  by (induction es arbitrary: a) auto

lemma ht_snapshot_entries: "ht_snapshot t = concat (map save_entry (concat (pool t)))"
  by (simp add: ht_snapshot_def ht_foreach_def foldl_foldl_concat foldl_append_map)

lemma ht_size_0_abs: "ht_inv t \<Longrightarrow> ht_size t = 0 \<Longrightarrow> ht_abs t = Map.empty"
  by (auto simp: ht_inv_def ht_abs_def simp del: length_concat)

section \<open>Properties\<close>

text \<open>\<open>is_prime\<close>, the trial division by 2, 3 and the numbers next to multiples of 6 up to
  the square root, decides primality.\<close>

theorem is_prime_correct: "is_prime n = prime_number n"
  by (rule is_prime_iff)

text \<open>\<open>next_prime\<close> returns for every argument from 2 on; its result is the least odd
  prime at or above the argument, and at most 1048573 for arguments up to that value, so the
  \<open>size_t\<close> arithmetic of a table of up to half a million buckets does not wrap.\<close>

theorem next_prime_least_odd_prime:
  assumes "2 \<le> n"
  shows "prime_number (next_prime n) \<and> odd (next_prime n) \<and> n \<le> next_prime n \<and>
    (\<forall>q. prime_number q \<and> odd q \<and> n \<le> q \<longrightarrow> next_prime n \<le> q) \<and>
    (n \<le> 1048573 \<longrightarrow> next_prime n \<le> 1048573)"
proof -
  note s = next_prime_spec [OF assms]
  have "odd (next_odd_prime k)" for k
    by (induction k rule: next_odd_prime.induct) (subst next_odd_prime.simps, auto)
  then have "odd (next_prime n)" using assms by (simp add: next_prime_def)
  moreover have "next_prime n \<le> q" if "prime_number q" "odd q" "n \<le> q" for q
  proof (rule s(3) [OF that(1) _ that(3)])
    have "q \<noteq> 2" using that(2) by auto
    then show "3 \<le> q" using that(1) by (auto simp: prime_number_def)
  qed
  ultimately show ?thesis using s(1,2) next_prime_le_1048573 [OF assms] by blast
qed

theorem next_prime_least_odd_prime_witness:
  "(2::nat) \<le> 202 \<and> prime_number (next_prime 202) \<and> next_prime 202 \<le> 1048573"
  using next_prime_least_odd_prime [of 202] by simp

text \<open>C1: \<open>ht_set\<close> on a well-formed table, for every pattern of allocation failures: it keeps
  the bucket invariant, and the table afterwards is the old map with the key bound to the value
  when it returns 1 and the old map unchanged (also after a resize) when it returns 0; with
  memory available it returns 1.\<close>

theorem ht_set_refines_map_update:
  assumes "ht_inv t"
  shows "ht_inv (snd (ht_set mem t k v)) \<and>
    (fst (ht_set mem t k v) \<longrightarrow> ht_abs (snd (ht_set mem t k v)) = (ht_abs t)(k \<mapsto> v)) \<and>
    (\<not> fst (ht_set mem t k v) \<longrightarrow> ht_abs (snd (ht_set mem t k v)) = ht_abs t) \<and>
    fst (ht_set mem_ok t k v)"
  using ht.set_inv [OF assms] ht.set_abs [OF assms] ht_set_ok by simp

theorem ht_set_refines_map_update_witness:
  "\<exists>t :: nat hash_table. ht_create True True 7 2 hash_key = Some t \<and>
     ht_abs (snd (ht_set mem_ok t ''sid'' [5])) = (ht_abs t)(''sid'' \<mapsto> [5])"
proof -
  obtain t :: "nat hash_table" where t: "ht_create True True 7 2 hash_key = Some t"
    by (simp add: ht_create_def)
  with ht_set_refines_map_update [OF ht_create_spec(1) [OF t], of mem_ok "''sid''" "[5]"]
  show ?thesis by (auto simp: ht_set_ok)
qed

text \<open>\<open>ht_delete\<close> keeps the invariant, removes exactly that key from the map, and returns 1
  exactly when the key was present.\<close>

theorem ht_delete_refines_map_delete:
  assumes "ht_inv t"
  shows "ht_inv (snd (ht_delete t k)) \<and> ht_abs (snd (ht_delete t k)) = (ht_abs t)(k := None) \<and>
    (fst (ht_delete t k) \<longleftrightarrow> k \<in> dom (ht_abs t))"
  using ht.delete_inv [OF assms] ht.delete_abs [OF assms] ht.delete_found [OF assms]
  by (auto simp: dom_def)

theorem ht_delete_refines_map_delete_witness:
  "\<exists>t :: nat hash_table. ht_create True True 7 0 hash_key = Some t \<and>
     ht_abs (snd (ht_delete t ''sid'')) = (ht_abs t)(''sid'' := None)"
proof -
  obtain t :: "nat hash_table" where t: "ht_create True True 7 0 hash_key = Some t"
    by (simp add: ht_create_def)
  with ht_delete_refines_map_delete [OF ht_create_spec(1) [OF t], of "''sid''"]
  show ?thesis by auto
qed

text \<open>C2: a snapshot written by \<open>ht_snapshot\<close> and read back by \<open>ht_load\<close> into an empty table,
  of any capacity and seed, gives the same map, as long as the keys and values are within the
  limits the loader enforces.\<close>

theorem ht_snapshot_load_roundtrip:
  assumes "ht_inv t" and "ht_inv t0" and "ht_size t0 = 0"
    and "\<forall>k v. ht_abs t k = Some v \<longrightarrow> loadable k v"
    and "ht_load (\<lambda>_. (True, True, mem_ok)) t0 (Some (ht_snapshot t)) = (ok, t')"
  shows "ok \<and> ht_inv t' \<and> ht_abs t' = ht_abs t"
proof -
  let ?es = "concat (pool t)"
  have d: "distinct (map ekey ?es)" using assms(1) buckets_entries(2) by (auto simp: ht_inv_def)
  have "\<forall>e\<in>set ?es. ht_abs t (ekey e) = Some (evalue e)"
    using d unfolding ht_abs_def by (auto intro!: map_of_is_SomeI simp: comp_def)
  with assms(4) have l: "\<forall>e\<in>set ?es. loadable (ekey e) (evalue e)" by blast
  have e: "ht_abs t0 = Map.empty" by (rule ht_size_0_abs [OF assms(2,3)])
  then have "\<forall>e\<in>set ?es. ht_abs t0 (ekey e) = None" by simp
  note loop = ht_load_loop_entries [OF assms(2) l d this, of 0]
  have "(ok, t') = (True, ht_load_loop (\<lambda>_. (True, True, mem_ok)) 0 t0 (concat (map save_entry ?es)))"
    using assms(3,5) by (simp add: ht_load_def ht_snapshot_entries)
  with loop e show ?thesis by (simp add: ht_abs_def [of t])
qed

theorem ht_snapshot_load_roundtrip_witness:
  "\<exists>t0 t :: byte hash_table. ht_create True True 7 2 hash_key = Some t0 \<and>
     t = snd (ht_set mem_ok t0 ''ip'' ''v'') \<and>
     fst (ht_load (\<lambda>_. (True, True, mem_ok)) t0 (Some (ht_snapshot t))) \<and>
     ht_abs (snd (ht_load (\<lambda>_. (True, True, mem_ok)) t0 (Some (ht_snapshot t)))) = [''ip'' \<mapsto> ''v'']"
proof -
  obtain t0 :: "byte hash_table" where t0: "ht_create True True 7 2 hash_key = Some t0"
    by (simp add: ht_create_def)
  let ?t = "snd (ht_set mem_ok t0 ''ip'' ''v'')"
  let ?r = "ht_load (\<lambda>_. (True, True, mem_ok)) t0 (Some (ht_snapshot ?t))"
  note i0 = ht_create_spec(1,2) [OF t0]
  have size: "ht_size t0 = 0" using t0 by (auto simp: ht_create_def Let_def split: if_splits)
  have t: "ht_inv ?t" "ht_abs ?t = [''ip'' \<mapsto> ''v'']"
    using ht_set_spec [OF i0(1), of mem_ok "''ip''" "''v''"] i0(2) by (simp_all add: ht_set_ok)
  have "\<forall>k v. ht_abs ?t k = Some v \<longrightarrow> loadable k v"
    unfolding t(2) by (auto simp: loadable_def MAX_KEY_LEN_def MAX_VALUE_SIZE_def split: if_splits)
  from ht_snapshot_load_roundtrip [OF t(1) i0(1) size this, of "fst ?r" "snd ?r"] t(2) t0
  show ?thesis by auto
qed

end
