(* ===== verification/Slab.thy ===== *)
theory Slab
  imports Prelude
begin

text \<open>
  The fixed-size block allocator of \<open>slab_allocator.c\<close>.  A chunk is named by the address
  \<open>calloc\<close> returned for it, a block by its chunk and its slot number (the back-pointer in the
  hidden header of a block is the first component); the free list threaded through the user
  areas is the list of its slots, and the doubly linked list of chunks is a list.
\<close>

section \<open>The interface of a block pool\<close>

locale block_pool =
  fixes inv :: "'p \<Rightarrow> bool"
    and live :: "'p \<Rightarrow> 'b set"
    and ok_mem :: "'m \<Rightarrow> 'p \<Rightarrow> bool"
    and alloc :: "'m \<Rightarrow> 'p \<Rightarrow> 'b option \<times> 'p"
    and release :: "'p \<Rightarrow> 'b \<Rightarrow> 'p"
  assumes alloc_inv: "inv p \<Longrightarrow> ok_mem m p \<Longrightarrow> inv (snd (alloc m p))"
    and alloc_fresh: "inv p \<Longrightarrow> ok_mem m p \<Longrightarrow> alloc m p = (Some b, p') \<Longrightarrow>
      b \<notin> live p \<and> live p' = insert b (live p)"
    and alloc_fail: "inv p \<Longrightarrow> alloc m p = (None, p') \<Longrightarrow> live p' = live p"
    and release_inv: "inv p \<Longrightarrow> b \<in> live p \<Longrightarrow> inv (release p b)"
    and release_live: "inv p \<Longrightarrow> b \<in> live p \<Longrightarrow> live (release p b) = live p - {b}"
begin

text \<open>Two blocks handed out without a release in between are different.\<close>

lemma allocs_differ:
  assumes "inv p" and "ok_mem m p" and "alloc m p = (Some b, p')"
    and "ok_mem m' p'" and "alloc m' p' = (Some b', p'')"
  shows "b \<noteq> b'"
proof -
  have "inv p'" using alloc_inv [OF assms(1,2)] assms(3) by simp
  from alloc_fresh [OF this assms(4,5)] alloc_fresh [OF assms(1-3)] show ?thesis by auto
qed

lemma alloc_release:
  assumes "inv p" and "ok_mem m p" and "alloc m p = (Some b, p')"
  shows "live (release p' b) = live p"
proof -
  have "inv p'" using alloc_inv [OF assms(1,2)] assms(3) by simp
  with alloc_fresh [OF assms] show ?thesis by (auto simp: release_live)
qed

end

section \<open>Data\<close>

record chunk =
  chunk_id :: nat
  local_free :: "nat list"
  used_count :: int
  chunk_capacity :: nat

record slab_pool =
  block_size :: nat
  internal_bsize :: nat
  slots_per_chunk :: nat
  chunks :: "chunk list"

type_synonym block = "nat \<times> nat"

definition POINTER_SIZE :: nat where
  "POINTER_SIZE = 8"

section \<open>Operations\<close>

text \<open>\<open>create_chunk\<close>: \<open>calloc\<close> returns a fresh address or nothing; the loop pushes every slot
  on the free list, so the last one ends at its head.\<close>

definition create_chunk :: "nat option \<Rightarrow> slab_pool \<Rightarrow> chunk option" where
  "create_chunk mem p =
     (case mem of
        None \<Rightarrow> None
      | Some a \<Rightarrow> Some \<lparr>chunk_id = a,
                      local_free = foldl (\<lambda>free i. i # free) [] [0..<slots_per_chunk p],
                      used_count = 0, chunk_capacity = slots_per_chunk p\<rparr>)"

definition slab_pool_init :: "nat option \<Rightarrow> nat \<Rightarrow> nat \<Rightarrow> bool \<times> slab_pool" where
  "slab_pool_init mem bs cap =
     (let p = \<lparr>block_size = bs, internal_bsize = POINTER_SIZE + bs, slots_per_chunk = cap,
               chunks = []\<rparr>
      in case create_chunk mem p of
           None \<Rightarrow> (False, p)
         | Some c \<Rightarrow> (True, p\<lparr>chunks := [c]\<rparr>))"

definition slab_pool_destroy :: "slab_pool \<Rightarrow> slab_pool" where
  "slab_pool_destroy p = p\<lparr>chunks := []\<rparr>"

text \<open>The walk to the first chunk with a free slot, and the pop from its free list.\<close>

fun pop_slot :: "chunk list \<Rightarrow> (block \<times> chunk list) option" where
  "pop_slot [] = None"
| "pop_slot (c # cs) =
     (case local_free c of
        [] \<Rightarrow> map_option (\<lambda>(b, cs'). (b, c # cs')) (pop_slot cs)
      | s # ss \<Rightarrow> Some ((chunk_id c, s),
                      c\<lparr>local_free := ss, used_count := used_count c + 1\<rparr> # cs))"

text \<open>If every chunk is full a new one is put in front.  A pool of zero slots per chunk, which
  the header forbids, has no block to return even then.\<close>

definition slab_pool_alloc :: "nat option \<Rightarrow> slab_pool \<Rightarrow> block option \<times> slab_pool" where
  "slab_pool_alloc mem p =
     (case pop_slot (chunks p) of
        Some (b, cs) \<Rightarrow> (Some b, p\<lparr>chunks := cs\<rparr>)
      | None \<Rightarrow>
          (case create_chunk mem p of
             None \<Rightarrow> (None, p)
           | Some c \<Rightarrow>
               (case pop_slot (c # chunks p) of
                  None \<Rightarrow> (None, p\<lparr>chunks := c # chunks p\<rparr>)
                | Some (b, cs) \<Rightarrow> (Some b, p\<lparr>chunks := cs\<rparr>))))"

text \<open>Returning a block to its chunk, and unlinking a chunk that became empty.\<close>

definition push_slot :: "block \<Rightarrow> chunk \<Rightarrow> chunk" where
  "push_slot b c =
     (if chunk_id c = fst b
      then c\<lparr>local_free := snd b # local_free c, used_count := used_count c - 1\<rparr> else c)"

definition slab_pool_free :: "slab_pool \<Rightarrow> block \<Rightarrow> slab_pool" where
  "slab_pool_free p b =
     (let cs = map (push_slot b) (chunks p) in
      if \<exists>c\<in>set cs. chunk_id c = fst b \<and> used_count c = 0 \<and> length cs > 1
      then p\<lparr>chunks := filter (\<lambda>c. chunk_id c \<noteq> fst b) cs\<rparr>
      else p\<lparr>chunks := cs\<rparr>)"

text \<open>The address of the user area of slot \<open>i\<close> in a chunk at address \<open>base\<close>: the fields
  before \<open>data\<close> (three pointers and two ints on a 64-bit target; \<open>data\<close> is not padded to the
  alignment of the struct), the blocks before it, and the hidden back-pointer.\<close>

definition CHUNK_HEADER :: nat where
  "CHUNK_HEADER = 32"

definition block_address :: "slab_pool \<Rightarrow> nat \<Rightarrow> nat \<Rightarrow> nat" where
  "block_address p base i = base + CHUNK_HEADER + i * internal_bsize p + POINTER_SIZE"

section \<open>Invariant and abstraction\<close>

definition chunk_ok :: "nat \<Rightarrow> chunk \<Rightarrow> bool" where
  "chunk_ok cap c \<longleftrightarrow> chunk_capacity c = cap \<and> distinct (local_free c) \<and>
     (\<forall>s\<in>set (local_free c). s < cap) \<and> used_count c = int cap - int (length (local_free c))"

definition slab_inv :: "slab_pool \<Rightarrow> bool" where
  "slab_inv p \<longleftrightarrow> 0 < slots_per_chunk p \<and> chunks p \<noteq> [] \<and> distinct (map chunk_id (chunks p)) \<and>
     (\<forall>c\<in>set (chunks p). chunk_ok (slots_per_chunk p) c) \<and>
     (length (chunks p) > 1 \<longrightarrow> (\<forall>c\<in>set (chunks p). used_count c > 0))"

definition chunk_live :: "chunk \<Rightarrow> block set" where
  "chunk_live c = {(chunk_id c, s) | s. s < chunk_capacity c \<and> s \<notin> set (local_free c)}"

definition live_blocks :: "slab_pool \<Rightarrow> block set" where
  "live_blocks p = (\<Union>c\<in>set (chunks p). chunk_live c)"

text \<open>\<open>calloc\<close> returns no address in use.\<close>

definition fresh_mem :: "nat option \<Rightarrow> slab_pool \<Rightarrow> bool" where
  "fresh_mem mem p \<longleftrightarrow> (\<forall>a. mem = Some a \<longrightarrow> a \<notin> chunk_id ` set (chunks p))"

lemma pop_slot_None: "pop_slot cs = None \<longleftrightarrow> (\<forall>c\<in>set cs. local_free c = [])"
  by (induction cs) (auto split: list.splits)

lemma pop_slot_Some:
  "pop_slot cs = Some (b, cs') \<Longrightarrow>
    \<exists>xs c s ss ys. cs = xs @ c # ys \<and> local_free c = s # ss \<and> b = (chunk_id c, s) \<and>
      cs' = xs @ c\<lparr>local_free := ss, used_count := used_count c + 1\<rparr> # ys"
proof (induction cs arbitrary: cs')
  case (Cons c cs)
  show ?case
  proof (cases "local_free c")
    case Nil
    with Cons.prems obtain cs2 where "pop_slot cs = Some (b, cs2)" "cs' = c # cs2" by auto
    with Cons.IH show ?thesis by (metis append_Cons)
  next
    case (Cons s ss)
    with Cons.prems show ?thesis by fastforce
  qed
qed simp

lemma foldl_push: "foldl (\<lambda>free i. i # free) acc xs = rev xs @ acc"
  by (induction xs arbitrary: acc) auto

lemma chunk_ok_empty_count: "chunk_ok cap c \<Longrightarrow> used_count c = 0 \<Longrightarrow> chunk_live c = {}"
proof -
  assume ok: "chunk_ok cap c" and 0: "used_count c = 0"
  have "card (set (local_free c)) = cap" using ok 0 by (simp add: chunk_ok_def distinct_card)
  moreover have "set (local_free c) \<subseteq> {..<cap}" using ok by (auto simp: chunk_ok_def)
  ultimately have "set (local_free c) = {..<cap}" by (simp add: card_subset_eq)
  with ok show ?thesis by (auto simp: chunk_live_def chunk_ok_def)
qed

lemma chunk_ok_live_count: "chunk_ok cap c \<Longrightarrow> b \<in> chunk_live c \<Longrightarrow> used_count c > 0"
proof -
  assume ok: "chunk_ok cap c" and b: "b \<in> chunk_live c"
  have "set (local_free c) \<subset> {..<cap}" using ok b by (auto simp: chunk_ok_def chunk_live_def)
  then have "card (set (local_free c)) < card {..<cap}" by (intro psubset_card_mono) auto
  with ok show ?thesis by (simp add: chunk_ok_def distinct_card)
qed

lemma chunk_ok_count_nonneg: "chunk_ok cap c \<Longrightarrow> used_count c \<ge> 0"
proof -
  assume ok: "chunk_ok cap c"
  have "card (set (local_free c)) \<le> card {..<cap}" using ok by (intro card_mono) (auto simp: chunk_ok_def)
  with ok show ?thesis by (simp add: chunk_ok_def distinct_card)
qed

lemma pop_in_chunk:
  assumes "chunk_ok cap c" and "local_free c = s # ss"
    and c': "c' = c\<lparr>local_free := ss, used_count := used_count c + 1\<rparr>"
  shows "chunk_ok cap c'" and "chunk_live c' = insert (chunk_id c, s) (chunk_live c)"
    and "(chunk_id c, s) \<notin> chunk_live c" and "used_count c' > 0" and "chunk_id c' = chunk_id c"
proof -
  show ok: "chunk_ok cap c'" and live: "chunk_live c' = insert (chunk_id c, s) (chunk_live c)"
    and "(chunk_id c, s) \<notin> chunk_live c" and "chunk_id c' = chunk_id c"
    using assms by (auto simp: chunk_ok_def chunk_live_def)
  show "used_count c' > 0" by (rule chunk_ok_live_count [OF ok, of "(chunk_id c, s)"]) (simp add: live)
qed

lemma chunk_live_id: "b \<in> chunk_live c \<Longrightarrow> fst b = chunk_id c"
  by (auto simp: chunk_live_def)

definition chunks_ok :: "nat \<Rightarrow> chunk list \<Rightarrow> bool" where
  "chunks_ok cap cs \<longleftrightarrow> distinct (map chunk_id cs) \<and> (\<forall>c\<in>set cs. chunk_ok cap c)"

definition chunks_live :: "chunk list \<Rightarrow> block set" where
  "chunks_live cs = (\<Union>c\<in>set cs. chunk_live c)"

lemma slab_inv_chunks: "slab_inv p \<longleftrightarrow> 0 < slots_per_chunk p \<and> chunks p \<noteq> [] \<and>
    chunks_ok (slots_per_chunk p) (chunks p) \<and>
    (length (chunks p) > 1 \<longrightarrow> (\<forall>c\<in>set (chunks p). used_count c > 0))"
  by (auto simp: slab_inv_def chunks_ok_def)

lemma live_blocks_chunks: "live_blocks p = chunks_live (chunks p)"
  by (simp add: live_blocks_def chunks_live_def)

lemma pop_slot_spec:
  assumes ok: "chunks_ok cap cs" and pop: "pop_slot cs = Some (b, cs')"
  shows "chunks_ok cap cs'" and "b \<notin> chunks_live cs" and "chunks_live cs' = insert b (chunks_live cs)"
    and "length cs' = length cs"
    and "(\<forall>c\<in>set cs. used_count c > 0) \<longrightarrow> (\<forall>c\<in>set cs'. used_count c > 0)"
proof -
  from pop_slot_Some [OF pop] obtain xs c s ss ys where
    cs: "cs = xs @ c # ys" "local_free c = s # ss" "b = (chunk_id c, s)"
      "cs' = xs @ c\<lparr>local_free := ss, used_count := used_count c + 1\<rparr> # ys"
    by (elim exE conjE)
  define c1 where "c1 = c\<lparr>local_free := ss, used_count := used_count c + 1\<rparr>"
  have okc: "chunk_ok cap c" using ok cs by (simp add: chunks_ok_def)
  note p = pop_in_chunk [OF okc cs(2) c1_def]
  note cs = cs(1,3) cs(4) [folded c1_def]
  show "chunks_ok cap cs'" using ok cs p(1,5) by (simp add: chunks_ok_def)
  have "chunk_id c \<notin> chunk_id ` (set xs \<union> set ys)"
    using ok cs by (simp add: chunks_ok_def image_Un)
  then have "b \<notin> chunk_live d" if "d \<in> set xs \<union> set ys" for d
    using that cs(2) chunk_live_id [of b d] by auto
  then show "b \<notin> chunks_live cs" using p(3) cs by (auto simp: chunks_live_def)
  show "chunks_live cs' = insert b (chunks_live cs)" using p(2) cs by (auto simp: chunks_live_def)
  show "length cs' = length cs" using cs by simp
  show "(\<forall>c\<in>set cs. used_count c > 0) \<longrightarrow> (\<forall>c\<in>set cs'. used_count c > 0)" using cs p(4) by auto
qed

lemma create_chunk_ok:
  "create_chunk mem p = Some c \<Longrightarrow> chunk_ok (slots_per_chunk p) c \<and> chunk_live c = {} \<and>
    mem = Some (chunk_id c) \<and> local_free c = rev [0..<slots_per_chunk p]"
  by (auto simp: create_chunk_def foldl_push chunk_ok_def chunk_live_def split: option.splits)

lemma slab_init_spec:
  "slab_pool_init mem bs cap = (True, p) \<Longrightarrow> 0 < cap \<Longrightarrow> slab_inv p \<and> live_blocks p = {}"
  by (auto simp: slab_pool_init_def Let_def slab_inv_def live_blocks_def dest!: create_chunk_ok
      split: option.splits)

lemma slab_alloc_spec:
  assumes inv: "slab_inv p" and mem: "fresh_mem mem p" and res: "slab_pool_alloc mem p = (r, p')"
  shows "slab_inv p'" and "r = Some b \<Longrightarrow> b \<notin> live_blocks p \<and> live_blocks p' = insert b (live_blocks p)"
    and "r = None \<Longrightarrow> p' = p \<and> mem = None"
proof -
  have ok: "chunks_ok (slots_per_chunk p) (chunks p)" and cap: "0 < slots_per_chunk p"
    using inv by (auto simp: slab_inv_chunks)
  have "slab_inv p' \<and> (r = Some b \<longrightarrow> b \<notin> live_blocks p \<and> live_blocks p' = insert b (live_blocks p)) \<and>
    (r = None \<longrightarrow> p' = p \<and> mem = None)"
  proof (cases "pop_slot (chunks p)")
    case (Some x)
    obtain b0 cs where x: "x = (b0, cs)" by (cases x)
    note s = pop_slot_spec [OF ok Some [unfolded x]]
    have ne: "cs \<noteq> []" using s(4) inv by (auto simp: slab_inv_def)
    have r: "r = Some b0" "p' = p\<lparr>chunks := cs\<rparr>"
      using res Some x by (simp_all add: slab_pool_alloc_def)
    have used: "length cs > 1 \<longrightarrow> (\<forall>c\<in>set cs. used_count c > 0)"
      using s(4,5) inv by (simp add: slab_inv_chunks)
    from r s(1-3) used ne cap show ?thesis
      by (auto simp: slab_inv_chunks live_blocks_chunks)
  next
    case None
    then have full: "\<forall>c\<in>set (chunks p). local_free c = []" by (simp add: pop_slot_None)
    have used: "\<forall>c\<in>set (chunks p). used_count c > 0"
      using full ok cap by (auto simp: chunks_ok_def chunk_ok_def)
    show ?thesis
    proof (cases "create_chunk mem p")
      case fail: None
      then have "mem = None" by (auto simp: create_chunk_def split: option.splits)
      with fail None res inv show ?thesis by (auto simp: slab_pool_alloc_def)
    next
      case (Some c)
      note c = create_chunk_ok [OF Some]
      have okc: "chunks_ok (slots_per_chunk p) (c # chunks p)"
        using ok c mem by (auto simp: chunks_ok_def fresh_mem_def)
      have "local_free c \<noteq> []" using c cap by simp
      then obtain s ss where fr: "local_free c = s # ss" by (cases "local_free c") auto
      define c1 where "c1 = c\<lparr>local_free := ss, used_count := used_count c + 1\<rparr>"
      have pop: "pop_slot (c # chunks p) = Some ((chunk_id c, s), c1 # chunks p)"
        using fr by (simp add: c1_def)
      note s = pop_slot_spec [OF okc pop]
      have "used_count c1 > 0" using pop_in_chunk(4) [OF _ fr c1_def] c by blast
      moreover have "chunks_live (c # chunks p) = chunks_live (chunks p)"
        using c by (simp add: chunks_live_def)
      moreover have "r = Some (chunk_id c, s)" "p' = p\<lparr>chunks := c1 # chunks p\<rparr>"
        using res None Some pop by (auto simp: slab_pool_alloc_def)
      ultimately show ?thesis using s(1-3) used cap
        by (auto simp: slab_inv_chunks live_blocks_chunks)
    qed
  qed
  then show "slab_inv p'" and "r = Some b \<Longrightarrow> b \<notin> live_blocks p \<and> live_blocks p' = insert b (live_blocks p)"
    and "r = None \<Longrightarrow> p' = p \<and> mem = None" by auto
qed

lemma push_in_chunk:
  assumes "chunk_ok cap c" and "(chunk_id c, s) \<in> chunk_live c"
    and c': "c' = c\<lparr>local_free := s # local_free c, used_count := used_count c - 1\<rparr>"
  shows "chunk_ok cap c'" and "chunk_live c' = chunk_live c - {(chunk_id c, s)}"
  using assms by (auto simp: chunk_ok_def chunk_live_def)

lemma slab_free_spec:
  assumes inv: "slab_inv p" and b: "b \<in> live_blocks p"
  shows "slab_inv (slab_pool_free p b) \<and> live_blocks (slab_pool_free p b) = live_blocks p - {b}"
proof -
  let ?cap = "slots_per_chunk p"
  let ?cs = "map (push_slot b) (chunks p)"
  have ok: "chunks_ok ?cap (chunks p)" using inv by (simp add: slab_inv_chunks)
  obtain c where c: "c \<in> set (chunks p)" "b \<in> chunk_live c" using b by (auto simp: live_blocks_def)
  then have bc: "b = (chunk_id c, snd b)" using chunk_live_id by (metis prod.collapse)
  have uniq: "\<And>d. d \<in> set (chunks p) \<Longrightarrow> chunk_id d = fst b \<Longrightarrow> d = c"
    using ok c bc by (metis chunks_ok_def distinct_map fst_conv inj_onD)
  have okc: "chunk_ok ?cap c" using ok c by (simp add: chunks_ok_def)
  let ?c = "push_slot b c"
  have pc: "?c = c\<lparr>local_free := snd b # local_free c, used_count := used_count c - 1\<rparr>"
    using bc by (simp add: push_slot_def) (metis fst_conv)
  have b2: "(chunk_id c, snd b) \<in> chunk_live c" using c(2) bc by simp
  note pushed = push_in_chunk [OF okc b2 pc]
  have ids: "map chunk_id ?cs = map chunk_id (chunks p)"
    by (simp add: push_slot_def)
  have other: "\<And>d. d \<in> set (chunks p) \<Longrightarrow> d \<noteq> c \<Longrightarrow> push_slot b d = d"
    using uniq by (auto simp: push_slot_def)
  have okcs: "chunks_ok ?cap ?cs"
    unfolding chunks_ok_def ids
    using ok pushed(1) other by (metis (no_types, lifting) chunks_ok_def image_iff list.set_map)
  have livecs: "chunks_live ?cs = live_blocks p - {b}"
  proof -
    have "chunk_live (push_slot b d) = chunk_live d - {b}" if d: "d \<in> set (chunks p)" for d
    proof (cases "d = c")
      case True
      with pushed(2) bc show ?thesis by simp
    next
      case False
      with d uniq have "b \<notin> chunk_live d" using chunk_live_id by metis
      with False d other show ?thesis by simp
    qed
    then show ?thesis by (auto simp: chunks_live_def live_blocks_def)
  qed
  have idc: "chunk_id ?c = fst b" by (subst bc) (simp add: pc)
  have mem: "d \<in> set ?cs \<Longrightarrow> chunk_id d = fst b \<Longrightarrow> d = ?c" for d
    using uniq by (auto simp: push_slot_def split: if_splits)
  have cin: "?c \<in> set ?cs" using c(1) by simp
  let ?gone = "used_count ?c = 0 \<and> length ?cs > 1"
  have cond: "(\<exists>d\<in>set ?cs. chunk_id d = fst b \<and> used_count d = 0 \<and> length ?cs > 1) \<longleftrightarrow> ?gone"
    using mem cin idc by metis
  have used: "\<forall>d\<in>set ?cs. d \<noteq> ?c \<longrightarrow> used_count d > 0" if "length ?cs > 1"
  proof (intro ballI impI)
    fix d assume d: "d \<in> set ?cs" "d \<noteq> ?c"
    then obtain d0 where d0: "d0 \<in> set (chunks p)" "d = push_slot b d0" by auto
    with d(2) have "d0 \<noteq> c" by auto
    with d0 other have "d = d0" by simp
    with d0 inv that show "used_count d > 0" by (simp add: slab_inv_def)
  qed
  show ?thesis
  proof (cases ?gone)
    case True
    let ?rest = "filter (\<lambda>d. chunk_id d \<noteq> fst b) ?cs"
    have free: "slab_pool_free p b = p\<lparr>chunks := ?rest\<rparr>"
      unfolding slab_pool_free_def Let_def cond using True by simp
    have "chunk_live ?c = {}" by (rule chunk_ok_empty_count [OF pushed(1)]) (use True in simp)
    then have "\<And>d. d \<in> set ?cs \<Longrightarrow> chunk_id d = fst b \<Longrightarrow> chunk_live d = {}"
      using mem by metis
    then have live: "chunks_live ?rest = chunks_live ?cs"
      unfolding chunks_live_def by (auto simp del: set_map)
    have "?rest \<noteq> []"
    proof
      assume "?rest = []"
      then have "set ?cs \<subseteq> {?c}" using mem by (auto simp: filter_empty_conv)
      moreover have "distinct ?cs" using okcs by (metis chunks_ok_def distinct_map)
      ultimately have "length ?cs \<le> 1" using distinct_card [of ?cs] card_mono [of "{?c}" "set ?cs"] by simp
      with True show False by simp
    qed
    moreover have "chunks_ok ?cap ?rest"
      using okcs unfolding chunks_ok_def by (metis distinct_map_filter_subset filter_is_subset subsetD)
    moreover have "\<forall>d\<in>set ?rest. used_count d > 0"
      using used True idc by (metis (mono_tags, lifting) mem_Collect_eq set_filter)
    ultimately show ?thesis
      unfolding free using live livecs inv by (simp add: slab_inv_chunks live_blocks_chunks)
  next
    case False
    have free: "slab_pool_free p b = p\<lparr>chunks := ?cs\<rparr>"
      unfolding slab_pool_free_def Let_def cond using False by (simp only: if_False)
    have "used_count ?c > 0" if "length ?cs > 1"
      using False that chunk_ok_count_nonneg [OF pushed(1)] by linarith
    with used have "length ?cs > 1 \<longrightarrow> (\<forall>d\<in>set ?cs. used_count d > 0)" by metis
    moreover have "?cs \<noteq> []" using c(1) by auto
    ultimately show ?thesis
      using free okcs livecs inv by (simp add: slab_inv_chunks live_blocks_chunks)
  qed
qed

interpretation slab: block_pool slab_inv live_blocks fresh_mem slab_pool_alloc slab_pool_free
proof unfold_locales
  fix p m b p'
  assume inv: "slab_inv p" and m: "fresh_mem m p"
  show "slab_inv (snd (slab_pool_alloc m p))"
    by (rule slab_alloc_spec(1) [OF inv m]) (rule prod.collapse [symmetric])
  assume "slab_pool_alloc m p = (Some b, p')"
  from slab_alloc_spec(2) [OF inv m this refl]
  show "b \<notin> live_blocks p \<and> live_blocks p' = insert b (live_blocks p)" .
next
  fix p m p'
  assume inv: "slab_inv p" and r: "slab_pool_alloc m p = (None, p')"
  show "live_blocks p' = live_blocks p"
  proof (cases m)
    case None
    then have "fresh_mem m p" by (simp add: fresh_mem_def)
    from slab_alloc_spec(3) [OF inv this r refl] show ?thesis by simp
  next
    case (Some a)
    have "pop_slot (chunks p) = None" using r by (auto simp: slab_pool_alloc_def split: option.splits)
    moreover have "create_chunk m p \<noteq> None" using Some by (simp add: create_chunk_def)
    ultimately obtain c where c: "create_chunk m p = Some c" "pop_slot (c # chunks p) = None"
      using r by (auto simp: slab_pool_alloc_def split: option.splits)
    moreover have "local_free c \<noteq> []"
      using inv create_chunk_ok [OF c(1)] by (auto simp: slab_inv_def)
    ultimately show ?thesis by (simp only: pop_slot_None) simp
  qed
qed (auto simp: slab_free_spec)

section \<open>Properties\<close>



text \<open>\<open>slab_pool_free\<close> of a live block makes exactly that block available again and keeps the
  pool well-formed: a chunk without live blocks is released at once unless it is the last one, so
  with two or more chunks every chunk is in use.\<close>

theorem slab_free_returns_block:
  assumes "slab_inv p" and "b \<in> live_blocks p"
  shows "slab_inv (slab_pool_free p b) \<and> live_blocks (slab_pool_free p b) = live_blocks p - {b} \<and>
    (length (chunks (slab_pool_free p b)) > 1 \<longrightarrow>
      (\<forall>c\<in>set (chunks (slab_pool_free p b)). chunk_live c \<noteq> {}))"
proof -
  note s = slab_free_spec [OF assms]
  have "chunk_live c \<noteq> {}" if "length (chunks (slab_pool_free p b)) > 1"
    and c: "c \<in> set (chunks (slab_pool_free p b))" for c
  proof
    assume "chunk_live c = {}"
    have ok: "chunk_ok (slots_per_chunk (slab_pool_free p b)) c" and "used_count c > 0"
      using s that by (auto simp: slab_inv_def)
    then have "set (local_free c) = {..<slots_per_chunk (slab_pool_free p b)}"
      using \<open>chunk_live c = {}\<close> by (auto simp: chunk_live_def chunk_ok_def)
    then have "length (local_free c) = slots_per_chunk (slab_pool_free p b)"
      using ok by (metis card_lessThan chunk_ok_def distinct_card)
    with ok \<open>used_count c > 0\<close> show False by (simp add: chunk_ok_def)
  qed
  with s show ?thesis by blast
qed

theorem slab_free_returns_block_witness:
  "live_blocks (slab_pool_free (snd (slab_pool_alloc None
     (snd (slab_pool_init (Some 4096) 512 2)))) (4096, 1)) = {}"
proof -
  let ?p = "snd (slab_pool_init (Some 4096) 512 2)"
  let ?q = "snd (slab_pool_alloc None ?p)"
  have i: "slab_pool_init (Some 4096) 512 2 = (True, ?p)"
    by (simp add: slab_pool_init_def create_chunk_def Let_def)
  have r: "fst (slab_pool_alloc None ?p) = Some (4096, 1)"
    by (simp add: slab_pool_init_def create_chunk_def Let_def slab_pool_alloc_def foldl_push
        upt_rec numeral_2_eq_2)
  have "slab_inv ?p" "live_blocks ?p = {}" "fresh_mem None ?p"
    using slab_init_spec [OF i] by (auto simp: fresh_mem_def)
  with slab_alloc_spec(1,2) [OF this(1,3) prod.collapse [symmetric]] r
  have q: "slab_inv ?q" "live_blocks ?q = {(4096, 1)}" by auto
  with slab_free_returns_block [OF q(1), of "(4096, 1)"] show ?thesis by simp
qed

text \<open>Blocks are not aligned for the type they hold.  \<open>ClientCtx\<close> is declared with 64-byte
  alignment, so its size is a multiple of 64; but the hidden back-pointer puts the user area of
  slot \<open>i\<close> at \<open>8 * (i + 1)\<close> past a multiple of the chunk's own alignment.  With \<open>calloc\<close>'s 16-byte
  alignment no even slot is even 16-byte aligned.\<close>

theorem slab_blocks_misaligned:
  assumes "slab_pool_init mem bs cap = (ok, p)" and "bs mod 64 = 0" and "base mod 16 = 0"
  shows "block_address p base i mod 16 = 8 * (i + 1) mod 16 \<and>
    (even i \<longrightarrow> block_address p base i mod 64 \<noteq> 0)"
proof -
  have ib: "internal_bsize p = 8 + bs"
    using assms(1) by (auto simp: slab_pool_init_def Let_def POINTER_SIZE_def split: option.splits)
  obtain k where k: "bs = 64 * k" using assms(2) by auto
  obtain b where b: "base = 16 * b" using assms(3) by auto
  have "block_address p base i = 16 * (b + 2 + 4 * (i * k)) + 8 * (i + 1)"
    unfolding block_address_def ib k b CHUNK_HEADER_def POINTER_SIZE_def by (simp add: algebra_simps)
  then have m: "block_address p base i mod 16 = 8 * (i + 1) mod 16"
    by (simp only: mod_mult_self4)
  moreover have "x mod 16 = 8 * (i + 1) mod 16 \<Longrightarrow> even i \<Longrightarrow> x mod 64 \<noteq> 0" for x :: nat
    by presburger
  ultimately show ?thesis by blast
qed

theorem slab_blocks_misaligned_witness:
  "block_address (snd (slab_pool_init (Some 4096) 512 2)) 4096 0 mod 64 \<noteq> 0"
  using slab_blocks_misaligned [of "Some 4096" 512 2 True _ 4096 0]
  by (simp add: slab_pool_init_def create_chunk_def Let_def)

end
