(* ===== verification/Clients.thy ===== *)
theory Clients
  imports Slab
begin

text \<open>
  The connection registry of \<open>client_manager.c\<close>.  The contexts live in a store indexed by the
  blocks of the slab pool; the active list is threaded through their \<open>next\<close> and \<open>prev\<close> fields
  exactly as in the code, and \<open>linked m xs\<close> says which list of contexts the pointers spell.
\<close>

section \<open>Data\<close>

text \<open>\<open>ClientCtx\<close> less its two libuv handles; \<open>pendingCloses\<close> is a two-bit field.\<close>

record client_ctx =
  closing :: bool
  pendingCloses :: "2 word"
  totalRead :: nat
  buffer :: "bytes option"
  ctx_next :: "block option"
  ctx_prev :: "block option"

record client_manager =
  clientPool :: slab_pool
  ctx_store :: "block \<Rightarrow> client_ctx"
  ptrActiveClientsHead :: "block option"
  activeClientsCount :: int

definition CLIENT_CHUNK_CAPACITY :: nat where
  "CLIENT_CHUNK_CAPACITY = 64"

definition ctx_update :: "block \<Rightarrow> (client_ctx \<Rightarrow> client_ctx) \<Rightarrow> client_manager \<Rightarrow> client_manager" where
  "ctx_update x f m = m\<lparr>ctx_store := (ctx_store m)(x := f (ctx_store m x))\<rparr>"

section \<open>Operations\<close>

text \<open>\<open>client_manager_init\<close> (the caller's context size is \<open>sizeof(ClientCtx)\<close>): only the pool is
  touched.\<close>

definition client_manager_init ::
  "nat option \<Rightarrow> nat \<Rightarrow> client_manager \<Rightarrow> bool \<times> client_manager" where
  "client_manager_init mem ctx_size m =
     (let (ok, p) = slab_pool_init mem ctx_size CLIENT_CHUNK_CAPACITY in (ok, m\<lparr>clientPool := p\<rparr>))"

definition client_manager_destroy :: "client_manager \<Rightarrow> client_manager" where
  "client_manager_destroy m =
     m\<lparr>clientPool := slab_pool_destroy (clientPool m), ptrActiveClientsHead := None,
       activeClientsCount := 0\<rparr>"

definition client_manager_alloc ::
  "nat option \<Rightarrow> client_manager \<Rightarrow> block option \<times> client_manager" where
  "client_manager_alloc mem m =
     (let (r, p) = slab_pool_alloc mem (clientPool m); m1 = m\<lparr>clientPool := p\<rparr> in
      case r of
        None \<Rightarrow> (None, m1)
      | Some x \<Rightarrow> (Some x, ctx_update x (\<lambda>c. c\<lparr>closing := False, pendingCloses := 0, totalRead := 0,
                     buffer := None, ctx_next := None, ctx_prev := None\<rparr>) m1))"

definition client_manager_release :: "block \<Rightarrow> client_manager \<Rightarrow> client_manager" where
  "client_manager_release x m =
     (let m1 = ctx_update x (\<lambda>c. c\<lparr>buffer := None\<rparr>) m in
      m1\<lparr>clientPool := slab_pool_free (clientPool m1) x\<rparr>)"

definition client_manager_link :: "block \<Rightarrow> client_manager \<Rightarrow> client_manager" where
  "client_manager_link x m =
     (let m1 = ctx_update x (\<lambda>c. c\<lparr>ctx_next := ptrActiveClientsHead m, ctx_prev := None\<rparr>) m;
          m2 = (case ptrActiveClientsHead m of
                  None \<Rightarrow> m1
                | Some h \<Rightarrow> ctx_update h (\<lambda>c. c\<lparr>ctx_prev := Some x\<rparr>) m1)
      in m2\<lparr>ptrActiveClientsHead := Some x, activeClientsCount := activeClientsCount m + 1\<rparr>)"

definition client_manager_unlink :: "block \<Rightarrow> client_manager \<Rightarrow> client_manager" where
  "client_manager_unlink x m =
     (let m1 = (case ctx_prev (ctx_store m x) of
                  Some p \<Rightarrow> ctx_update p (\<lambda>c. c\<lparr>ctx_next := ctx_next (ctx_store m x)\<rparr>) m
                | None \<Rightarrow> m\<lparr>ptrActiveClientsHead := ctx_next (ctx_store m x)\<rparr>);
          m2 = (case ctx_next (ctx_store m1 x) of
                  Some n \<Rightarrow> ctx_update n (\<lambda>c. c\<lparr>ctx_prev := ctx_prev (ctx_store m1 x)\<rparr>) m1
                | None \<Rightarrow> m1);
          m3 = ctx_update x (\<lambda>c. c\<lparr>ctx_next := None, ctx_prev := None\<rparr>) m2
      in m3\<lparr>activeClientsCount := activeClientsCount m3 - 1\<rparr>)"

definition client_manager_active_count :: "client_manager \<Rightarrow> int" where
  "client_manager_active_count m = activeClientsCount m"

text \<open>The loop of \<open>client_manager_close_all\<close>, which reads \<open>next\<close> before it calls \<open>fn\<close>.  The callback may change
  more of the program than the registry, so it maps a state \<open>'s\<close> in which \<open>clients\<close> finds the registry.  On a
  cyclic list the loop would not return.\<close>

partial_function (option) close_all_loop ::
  "('s \<Rightarrow> client_manager) \<Rightarrow> ('s \<Rightarrow> block \<Rightarrow> 's) \<Rightarrow> 's \<Rightarrow> block option \<Rightarrow> 's option" where
  "close_all_loop clients fn s cur =
     (case cur of
        None \<Rightarrow> Some s
      | Some x \<Rightarrow> (let next = ctx_next (ctx_store (clients s) x) in close_all_loop clients fn (fn s x) next))"

definition client_manager_close_all ::
  "('s \<Rightarrow> client_manager) \<Rightarrow> ('s \<Rightarrow> block \<Rightarrow> 's) \<Rightarrow> 's \<Rightarrow> 's option" where
  "client_manager_close_all clients fn s = close_all_loop clients fn s (ptrActiveClientsHead (clients s))"

section \<open>The list the pointers spell\<close>

definition hd_or :: "'a option \<Rightarrow> 'a list \<Rightarrow> 'a option" where
  "hd_or d xs = (case xs of [] \<Rightarrow> d | x # _ \<Rightarrow> Some x)"

definition last_or :: "'a option \<Rightarrow> 'a list \<Rightarrow> 'a option" where
  "last_or d xs = (if xs = [] then d else Some (last xs))"

lemma hd_or_simps [simp]: "hd_or d [] = d" "hd_or d (x # xs) = Some x"
  by (simp_all add: hd_or_def)

lemma hd_or_append [simp]: "hd_or d (xs @ ys) = hd_or (hd_or d ys) xs"
  by (simp add: hd_or_def split: list.splits)

lemma last_or_simps [simp]: "last_or d [] = d" "last_or d (xs @ [x]) = Some x"
  "last_or d (x # xs) = last_or (Some x) xs"
  by (simp_all add: last_or_def)

text \<open>The segment \<open>xs\<close>, entered from \<open>p\<close> and leading to \<open>q\<close>.\<close>

fun dll :: "(block \<Rightarrow> client_ctx) \<Rightarrow> block option \<Rightarrow> block list \<Rightarrow> block option \<Rightarrow> bool" where
  "dll h p [] q = True"
| "dll h p (x # xs) q \<longleftrightarrow>
     ctx_prev (h x) = p \<and> ctx_next (h x) = hd_or q xs \<and> dll h (Some x) xs q"

definition linked :: "client_manager \<Rightarrow> block list \<Rightarrow> bool" where
  "linked m xs \<longleftrightarrow> ptrActiveClientsHead m = hd_or None xs \<and> dll (ctx_store m) None xs None \<and>
     distinct xs"

definition client_inv :: "client_manager \<Rightarrow> block list \<Rightarrow> bool" where
  "client_inv m xs \<longleftrightarrow> slab_inv (clientPool m) \<and> linked m xs \<and>
     set xs \<subseteq> live_blocks (clientPool m) \<and> activeClientsCount m = int (length xs)"

definition same_links :: "client_ctx \<Rightarrow> client_ctx \<Rightarrow> bool" where
  "same_links a b \<longleftrightarrow> ctx_next a = ctx_next b \<and> ctx_prev a = ctx_prev b"

lemma dll_cong: "(\<And>x. x \<in> set xs \<Longrightarrow> same_links (h x) (h' x)) \<Longrightarrow> dll h p xs q = dll h' p xs q"
  by (induction xs arbitrary: p) (auto simp: same_links_def)

lemma dll_upd_other [simp]: "x \<notin> set xs \<Longrightarrow> dll (h(x := c)) p xs q = dll h p xs q"
  by (rule dll_cong) (auto simp: same_links_def)

lemma dll_append [simp]:
  "dll h p (xs @ ys) q \<longleftrightarrow> dll h p xs (hd_or q ys) \<and> dll h (last_or p xs) ys q"
  by (induction xs arbitrary: p) (auto)

lemma linked_same_links:
  assumes "\<And>x. x \<in> set xs \<Longrightarrow> same_links (ctx_store m x) (ctx_store m' x)"
    and "ptrActiveClientsHead m' = ptrActiveClientsHead m"
  shows "linked m' xs \<longleftrightarrow> linked m xs"
  using dll_cong [of xs "ctx_store m" "ctx_store m'"] assms by (auto simp: linked_def)

lemma ctx_update_simps [simp]:
  "clientPool (ctx_update x f m) = clientPool m"
  "ptrActiveClientsHead (ctx_update x f m) = ptrActiveClientsHead m"
  "activeClientsCount (ctx_update x f m) = activeClientsCount m"
  "ctx_store (ctx_update x f m) = (ctx_store m)(x := f (ctx_store m x))"
  by (simp_all add: ctx_update_def)

lemma link_linked:
  assumes "linked m xs" and "x \<notin> set xs"
  shows "linked (client_manager_link x m) (x # xs)"
  using assms by (cases xs) (auto simp: client_manager_link_def Let_def linked_def)

lemma link_frame [simp]:
  "clientPool (client_manager_link x m) = clientPool m"
  "activeClientsCount (client_manager_link x m) = activeClientsCount m + 1"
  by (simp_all add: client_manager_link_def Let_def split: option.splits)

lemma unlink_linked:
  assumes l: "linked m (as @ x # bs)"
  shows "linked (client_manager_unlink x m) (as @ bs)"
proof (cases as rule: rev_cases)
  case Nil
  with l show ?thesis
    by (cases bs) (auto simp: client_manager_unlink_def Let_def linked_def)
next
  case (snoc as' p)
  with l show ?thesis
    by (cases bs) (auto simp: client_manager_unlink_def Let_def linked_def)
qed

lemma unlink_frame [simp]:
  "clientPool (client_manager_unlink x m) = clientPool m"
  "activeClientsCount (client_manager_unlink x m) = activeClientsCount m - 1"
  by (simp_all add: client_manager_unlink_def Let_def split: option.splits)

section \<open>The invariant under the registry's operations\<close>

lemma linked_pool_upd [simp]: "linked (m\<lparr>clientPool := p\<rparr>) xs = linked m xs"
  by (simp add: linked_def)

lemma linked_upd_other: "x \<notin> set xs \<Longrightarrow> linked (ctx_update x f m) xs = linked m xs"
  by (rule linked_same_links) (auto simp: same_links_def)

lemma client_alloc_inv:
  assumes inv: "client_inv m xs" and m: "fresh_mem mem (clientPool m)"
    and r: "client_manager_alloc mem m = (r, m')"
  shows "client_inv m' xs"
    and "r = Some x \<Longrightarrow> x \<notin> live_blocks (clientPool m)"
    and "r = Some x \<Longrightarrow> live_blocks (clientPool m') = insert x (live_blocks (clientPool m))"
proof -
  obtain r0 p where a: "slab_pool_alloc mem (clientPool m) = (r0, p)" by fastforce
  have si: "slab_inv (clientPool m)" using inv by (simp add: client_inv_def)
  have pi: "slab_inv p" using slab.alloc_inv [OF si m] a by simp
  have "client_inv m' xs \<and> (r = Some x \<longrightarrow> x \<notin> live_blocks (clientPool m) \<and>
      live_blocks (clientPool m') = insert x (live_blocks (clientPool m)))" for x
  proof (cases r0)
    case None
    with a have "live_blocks p = live_blocks (clientPool m)" using slab.alloc_fail [OF si] by simp
    with None r a inv pi show ?thesis
      by (auto simp: client_manager_alloc_def client_inv_def)
  next
    case (Some y)
    have f: "y \<notin> live_blocks (clientPool m)" "live_blocks p = insert y (live_blocks (clientPool m))"
      using slab.alloc_fresh [OF si m a [unfolded Some]] by auto
    with inv have "y \<notin> set xs" by (auto simp: client_inv_def)
    with Some r a f inv pi show ?thesis
      by (auto simp: client_manager_alloc_def client_inv_def Let_def linked_upd_other)
  qed
  then show "client_inv m' xs" and "r = Some x \<Longrightarrow> x \<notin> live_blocks (clientPool m)"
    and "r = Some x \<Longrightarrow> live_blocks (clientPool m') = insert x (live_blocks (clientPool m))" by auto
qed

lemma client_link_inv:
  assumes "client_inv m xs" and "x \<in> live_blocks (clientPool m)" and "x \<notin> set xs"
  shows "client_inv (client_manager_link x m) (x # xs)"
  using assms by (simp add: client_inv_def link_linked)

lemma client_unlink_inv:
  assumes inv: "client_inv m xs" and x: "x \<in> set xs"
  shows "client_inv (client_manager_unlink x m) (remove1 x xs)"
proof -
  obtain as bs where xs: "xs = as @ x # bs" "x \<notin> set as" using x by (meson split_list_first)
  then have "linked (client_manager_unlink x m) (as @ bs)"
    using inv by (intro unlink_linked) (simp add: client_inv_def)
  with inv xs show ?thesis by (auto simp: client_inv_def remove1_append)
qed

lemma client_release_inv:
  assumes inv: "client_inv m xs" and x: "x \<in> live_blocks (clientPool m)" "x \<notin> set xs"
  shows "client_inv (client_manager_release x m) xs"
    and "live_blocks (clientPool (client_manager_release x m)) = live_blocks (clientPool m) - {x}"
proof -
  have si: "slab_inv (clientPool m)" using inv by (simp add: client_inv_def)
  show "live_blocks (clientPool (client_manager_release x m)) = live_blocks (clientPool m) - {x}"
    by (simp add: client_manager_release_def Let_def slab.release_live [OF si x(1)])
  then show "client_inv (client_manager_release x m) xs"
    using inv x slab.release_inv [OF si x(1)]
    by (auto simp: client_manager_release_def Let_def client_inv_def linked_upd_other)
qed

lemma client_init_inv:
  assumes "client_manager_init mem ctx_size m = (True, m')"
    and "ptrActiveClientsHead m = None" and "activeClientsCount m = 0"
  shows "client_inv m' []" and "live_blocks (clientPool m') = {}"
proof -
  obtain p where p: "slab_pool_init mem ctx_size CLIENT_CHUNK_CAPACITY = (True, p)" "m' = m\<lparr>clientPool := p\<rparr>"
    using assms(1) by (auto simp: client_manager_init_def split: prod.splits)
  from slab_init_spec [OF p(1)] p(2) assms(2,3)
  show "client_inv m' []" "live_blocks (clientPool m') = {}"
    by (auto simp: client_inv_def linked_def CLIENT_CHUNK_CAPACITY_def)
qed

section \<open>Visiting every client\<close>

text \<open>What \<open>client_manager_close_all\<close> needs of its callback: it leaves the list alone, or takes
  the client it was given out of it.\<close>

locale list_visitor =
  fixes clients :: "'s \<Rightarrow> client_manager" and fn :: "'s \<Rightarrow> block \<Rightarrow> 's"
  assumes visit: "linked (clients s) xs \<Longrightarrow> x \<in> set xs \<Longrightarrow>
    linked (clients (fn s x)) xs \<or> linked (clients (fn s x)) (remove1 x xs)"
begin

lemma close_all_loop_visits:
  "linked (clients s) (as @ bs) \<Longrightarrow>
    \<exists>as'. close_all_loop clients fn s (hd_or None bs) = Some (foldl fn s bs) \<and>
      linked (clients (foldl fn s bs)) as' \<and> set as' \<subseteq> set (as @ bs)"
proof (induction bs arbitrary: s as)
  case Nil
  then show ?case by (subst close_all_loop.simps) auto
next
  case (Cons b bs)
  have nx: "ctx_next (ctx_store (clients s) b) = hd_or None bs" and nin: "b \<notin> set as"
    using Cons.prems by (auto simp: linked_def)
  have "linked (clients (fn s b)) ((as @ [b]) @ bs) \<or> linked (clients (fn s b)) (as @ bs)"
    using visit [OF Cons.prems, of b] nin by (simp add: remove1_append)
  then obtain as' where l: "linked (clients (fn s b)) (as' @ bs)" and sub: "set as' \<subseteq> insert b (set as)" by fastforce
  from Cons.IH [OF l] sub show ?case
    by (subst close_all_loop.simps) (auto simp: Let_def nx)
qed

theorem close_all_visits_each_once:
  "linked (clients s) xs \<Longrightarrow> client_manager_close_all clients fn s = Some (foldl fn s xs)"
  using close_all_loop_visits [of s "[]" xs] by (auto simp: client_manager_close_all_def linked_def)

end

interpretation unlinker: list_visitor "\<lambda>m. m" "\<lambda>m x. client_manager_unlink x m"
proof
  fix m xs x
  assume l: "linked m xs" and x: "x \<in> set xs"
  obtain as bs where xs: "xs = as @ x # bs" "x \<notin> set as" using x by (meson split_list_first)
  with unlink_linked l show "linked (client_manager_unlink x m) xs \<or>
      linked (client_manager_unlink x m) (remove1 x xs)"
    by (auto simp: remove1_append)
qed

lemma foldl_unlink:
  "linked m (xs) \<Longrightarrow> linked (foldl (\<lambda>m x. client_manager_unlink x m) m xs) [] \<and>
    activeClientsCount (foldl (\<lambda>m x. client_manager_unlink x m) m xs) =
      activeClientsCount m - int (length xs)"
proof (induction xs arbitrary: m)
  case (Cons x xs)
  have "linked (client_manager_unlink x m) ([] @ xs)" by (rule unlink_linked) (use Cons.prems in simp)
  with Cons.IH [of "client_manager_unlink x m"] show ?case by simp
qed simp

section \<open>Properties\<close>

text \<open>The intrusive list behaves as a list with a counter.  \<open>client_manager_link\<close> of an
  allocated context that is not in the list puts it at the front; \<open>client_manager_unlink\<close> of a
  linked context removes exactly that one, wherever it stands, and clears its pointers; the pool,
  the well-formedness of both pointer directions and the count of active clients are kept.\<close>

theorem client_list_link_unlink:
  assumes "client_inv m xs"
  shows "(x \<in> live_blocks (clientPool m) \<and> x \<notin> set xs \<longrightarrow>
            client_inv (client_manager_link x m) (x # xs)) \<and>
    (x \<in> set xs \<longrightarrow> client_inv (client_manager_unlink x m) (remove1 x xs) \<and>
        ctx_next (ctx_store (client_manager_unlink x m) x) = None \<and>
        ctx_prev (ctx_store (client_manager_unlink x m) x) = None)"
proof -
  have "ctx_next (ctx_store (client_manager_unlink x m) x) = None \<and>
        ctx_prev (ctx_store (client_manager_unlink x m) x) = None"
    by (simp add: client_manager_unlink_def Let_def)
  with assms show ?thesis using client_link_inv client_unlink_inv by blast
qed

text \<open>A registry of one chunk with two slots, both in use, and both contexts linked.\<close>

definition two_clients :: client_manager where
  "two_clients =
     \<lparr>clientPool = \<lparr>block_size = 512, internal_bsize = 520, slots_per_chunk = 2,
        chunks = [\<lparr>chunk_id = 4096, local_free = [], used_count = 2, chunk_capacity = 2\<rparr>]\<rparr>,
      ctx_store = (\<lambda>b. \<lparr>closing = False, pendingCloses = 0, totalRead = 0, buffer = None,
        ctx_next = (if b = (4096, 1) then Some (4096, 0) else None),
        ctx_prev = (if b = (4096, 0) then Some (4096, 1) else None)\<rparr>),
      ptrActiveClientsHead = Some (4096, 1), activeClientsCount = 2\<rparr>"

lemma two_clients_inv: "client_inv two_clients [(4096, 1), (4096, 0)]"
  by (auto simp: two_clients_def client_inv_def linked_def slab_inv_def chunk_ok_def
      live_blocks_def chunk_live_def)

theorem client_list_link_unlink_witness:
  "client_inv (client_manager_unlink (4096, 0) two_clients) [(4096, 1)]"
  using client_list_link_unlink [OF two_clients_inv, of "(4096, 0)"] by simp

text \<open>\<open>client_manager_close_all\<close> terminates and calls \<open>fn\<close> exactly once for every active
  client, in list order, although \<open>fn\<close> unlinks the client it is given: the run over a well-formed
  list is the fold of \<open>fn\<close>, and with \<open>client_manager_unlink\<close> itself as \<open>fn\<close> it leaves the list
  empty and the counter at zero.\<close>

theorem client_close_all_unlinks_everyone:
  assumes "client_inv m xs"
  shows "\<exists>m'. client_manager_close_all (\<lambda>m. m) (\<lambda>m x. client_manager_unlink x m) m = Some m' \<and>
    m' = foldl (\<lambda>m x. client_manager_unlink x m) m xs \<and>
    client_inv m' [] \<and> client_manager_active_count m' = 0"
proof -
  let ?m = "foldl (\<lambda>m x. client_manager_unlink x m) m xs"
  have l: "linked m xs" using assms by (simp add: client_inv_def)
  have "clientPool (foldl (\<lambda>m x. client_manager_unlink x m) k ys) = clientPool k" for k ys
    by (induction ys arbitrary: k) auto
  with foldl_unlink [OF l] assms have "client_inv ?m []" "activeClientsCount ?m = 0"
    by (auto simp: client_inv_def)
  with unlinker.close_all_visits_each_once [OF l] show ?thesis
    by (simp add: client_manager_active_count_def)
qed

theorem client_close_all_unlinks_everyone_witness:
  "\<exists>m'. client_manager_close_all (\<lambda>m. m) (\<lambda>m x. client_manager_unlink x m) two_clients = Some m' \<and>
     client_manager_active_count m' = 0"
  using client_close_all_unlinks_everyone [OF two_clients_inv] by blast

text \<open>Unlinking a context that was allocated but never linked (the path \<open>on_new_connection\<close>
  takes when \<open>setup_client\<close> fails, through \<open>close_client\<close> and \<open>on_close\<close>) loses the whole active
  list: the head becomes NULL while the clients are still open, so \<open>client_manager_close_all\<close> no
  longer reaches them, and the counter the connection cap reads is one too low.\<close>

theorem client_unlink_of_unlinked_loses_list:
  assumes "client_inv m xs" and "fresh_mem mem (clientPool m)"
    and "client_manager_alloc mem m = (Some x, m1)"
  shows "ptrActiveClientsHead (client_manager_unlink x m1) = None \<and>
    client_manager_close_all (\<lambda>m. m) fn (client_manager_unlink x m1) = Some (client_manager_unlink x m1) \<and>
    client_manager_active_count (client_manager_unlink x m1) = int (length xs) - 1"
proof -
  have "ctx_next (ctx_store m1 x) = None" "ctx_prev (ctx_store m1 x) = None"
    using assms(3) by (auto simp: client_manager_alloc_def Let_def split: prod.splits option.splits)
  then have h: "ptrActiveClientsHead (client_manager_unlink x m1) = None"
    by (simp add: client_manager_unlink_def Let_def)
  have "activeClientsCount m1 = int (length xs)"
    using client_alloc_inv(1) [OF assms] by (simp add: client_inv_def)
  with h show ?thesis
    by (simp add: client_manager_close_all_def close_all_loop.simps client_manager_active_count_def)
qed

theorem client_unlink_of_unlinked_loses_list_witness:
  "let (r, m1) = client_manager_alloc (Some 8192) two_clients in
     r = Some (8192, 1) \<and>
     ptrActiveClientsHead (client_manager_unlink (8192, 1) m1) = None \<and>
     client_manager_active_count (client_manager_unlink (8192, 1) m1) = 1"
proof -
  obtain r m1 where a: "client_manager_alloc (Some 8192) two_clients = (r, m1)" by fastforce
  have r: "r = Some (8192, 1)"
    using a by (auto simp: client_manager_alloc_def two_clients_def slab_pool_alloc_def
        create_chunk_def foldl_push upt_rec numeral_2_eq_2 Let_def)
  have "fresh_mem (Some 8192) (clientPool two_clients)"
    by (simp add: fresh_mem_def two_clients_def)
  from client_unlink_of_unlinked_loses_list [OF two_clients_inv this a [unfolded r], of undefined]
  show ?thesis by (simp add: a r)
qed

end
