(* ===== verification/RateLimiter.thy ===== *)
theory RateLimiter
  imports HashTableSpec
begin

text \<open>
  The per-address rate limiter of \<open>rate_limiter.c\<close>, a client of the hash table: the table maps
  an address with its terminating NUL to one cell, the \<open>RateEntry\<close>.  \<open>time(NULL)\<close> and the outcome
  of the allocations are arguments.  The \<open>double\<close> arithmetic of the estimate is on integers far
  below \<open>2^53\<close>, where it is exact, so it is written on \<open>int\<close>.
\<close>

section \<open>Data and operations\<close>

record rate_entry =
  countCurr :: "64 word"
  countPrev :: "64 word"
  windowStartTime :: int

type_synonym rate_table = "rate_entry hash_table"

definition RATE_LIMIT_RPS :: int where
  "RATE_LIMIT_RPS = 100"

definition MAX_SAVED_IP :: nat where
  "MAX_SAVED_IP = 10000"

definition RATE_TABLE_CAPACITY :: nat where
  "RATE_TABLE_CAPACITY = 1024"

text \<open>What the environment supplies to one check: the clock, the allocations of \<open>ht_set\<close>, and
  the allocations and the seed of a new table.\<close>

record rate_env =
  re_now :: int
  re_set :: ht_mem
  re_table :: bool
  re_buckets :: bool
  re_seed :: "64 word"

definition rate_limiter_init :: "rate_env \<Rightarrow> bool \<times> rate_table option" where
  "rate_limiter_init env =
     (case ht_create (re_table env) (re_buckets env) (re_seed env) RATE_TABLE_CAPACITY hash_key of
        None \<Rightarrow> (False, None)
      | Some t \<Rightarrow> (True, Some t))"

definition rate_limiter_destroy :: "rate_table option \<Rightarrow> rate_table option" where
  "rate_limiter_destroy t = None"

definition zero_entry :: rate_entry where
  "zero_entry = \<lparr>countCurr = 0, countPrev = 0, windowStartTime = 0\<rparr>"

text \<open>The window rotation, the estimate and the decision, on the entry that \<open>ht_get\<close> read.\<close>

definition rotate_window :: "int \<Rightarrow> rate_entry \<Rightarrow> rate_entry" where
  "rotate_window now e =
     (if now - windowStartTime e \<ge> 1
      then e\<lparr>countPrev := countCurr e, countCurr := 0, windowStartTime := now\<rparr> else e)"

definition rate_estimate :: "int \<Rightarrow> rate_entry \<Rightarrow> int" where
  "rate_estimate now e =
     (let elapsed = now - windowStartTime e
      in uint (countPrev e) * (1 - elapsed) + uint (countCurr e))"

definition rate_step :: "int \<Rightarrow> rate_entry \<Rightarrow> bool \<times> rate_entry" where
  "rate_step now e0 =
     (let e = rotate_window now e0;
          allowed = rate_estimate now e < RATE_LIMIT_RPS
      in (allowed, if allowed then e\<lparr>countCurr := countCurr e + 1\<rparr> else e))"

text \<open>The table in use after the recycling test.\<close>

definition recycle_table :: "rate_env \<Rightarrow> rate_table \<Rightarrow> rate_table option" where
  "recycle_table env t =
     (if ht_size t > MAX_SAVED_IP
      then ht_create (re_table env) (re_buckets env) (re_seed env) RATE_TABLE_CAPACITY hash_key
      else Some t)"

text \<open>The key: \<open>strlen(ip) + 1\<close> bytes.\<close>

definition ip_key :: "bytes \<Rightarrow> bytes" where
  "ip_key ip = cstr ip @ [NUL]"

definition rate_limit_check ::
  "rate_env \<Rightarrow> bytes option \<Rightarrow> rate_table option \<Rightarrow> bool \<times> rate_table option" where
  "rate_limit_check env ip table =
     (case (ip, table) of
        (Some s, Some t0) \<Rightarrow>
          if cstr s = [] then (True, table)
          else (case recycle_table env t0 of
                  None \<Rightarrow> (True, None)
                | Some t \<Rightarrow>
                    let e = hd (snd (ht_get t (ip_key s) [zero_entry] 1));
                        (allowed, e') = rate_step (re_now env) e
                    in (allowed, Some (snd (ht_set (re_set env) t (ip_key s) [e']))))
      | _ \<Rightarrow> (True, table))"

section \<open>The abstract limiter\<close>

text \<open>The table as a map from addresses to entries; an address not in it has the zero entry.\<close>

definition rate_inv :: "rate_table \<Rightarrow> bool" where
  "rate_inv t \<longleftrightarrow> ht_inv t \<and> (\<forall>k v. ht_abs t k = Some v \<longrightarrow> (\<exists>e. v = [e])) \<and>
     ht_size t \<le> MAX_SAVED_IP + 1"

definition rate_abs :: "rate_table \<Rightarrow> bytes \<Rightarrow> rate_entry" where
  "rate_abs t ip = (case ht_abs t (ip_key ip) of Some [e] \<Rightarrow> e | _ \<Rightarrow> zero_entry)"

lemma ip_key_inject [simp]: "ip_key a = ip_key b \<longleftrightarrow> cstr a = cstr b"
  by (simp add: ip_key_def)

lemma recycle_table_inv: "rate_inv t \<Longrightarrow> recycle_table env t = Some t' \<Longrightarrow>
    rate_inv t' \<and> ht_size t' \<le> MAX_SAVED_IP \<and>
    (ht_size t \<le> MAX_SAVED_IP \<longrightarrow> t' = t) \<and>
    (ht_size t > MAX_SAVED_IP \<longrightarrow> ht_abs t' = Map.empty)"
  by (auto simp: recycle_table_def rate_inv_def ht_create_spec split: if_splits)
    (auto simp: ht_create_def split: if_splits)

lemma ht_set_size: "ht_size (snd (ht_set mem t k v)) \<le> ht_size t + 1"
  by (auto simp: ht_set_def Let_def ht_resize_def split: option.splits)

lemma rate_get: "rate_inv t \<Longrightarrow> hd (snd (ht_get t (ip_key s) [zero_entry] 1)) = rate_abs t s"
  by (cases "ht_abs t (ip_key s)")
    (auto simp: rate_inv_def rate_abs_def ht.get_abs split: list.splits)

lemma rate_set_inv:
  assumes "rate_inv t" and "ht_size t \<le> MAX_SAVED_IP"
  shows "rate_inv (snd (ht_set mem t k [e]))"
  using assms ht_set_size [of mem t k "[e]"]
  by (auto simp: rate_inv_def ht.set_inv ht.set_abs split: if_splits)

lemma rate_check_cases:
  assumes "cstr s \<noteq> []" and inv: "rate_inv t0" and r: "recycle_table env t0 = Some t"
  shows "rate_limit_check env (Some s) (Some t0) =
    (fst (rate_step (re_now env) (rate_abs t s)),
     Some (snd (ht_set (re_set env) t (ip_key s) [snd (rate_step (re_now env) (rate_abs t s))])))"
  using assms recycle_table_inv [OF inv r]
  by (simp add: rate_limit_check_def rate_get case_prod_beta Let_def del: One_nat_def)

section \<open>The counters of one address\<close>

definition rate_entry_ok :: "rate_entry \<Rightarrow> bool" where
  "rate_entry_ok e \<longleftrightarrow> uint (countPrev e) + uint (countCurr e) \<le> RATE_LIMIT_RPS"

lemma uint_inc: "uint (w :: 64 word) < 100 \<Longrightarrow> uint (w + 1) = uint w + 1"
  by (simp add: uint_word_ariths)

lemma rotate_window_ok:
  "rate_entry_ok e \<Longrightarrow> rate_entry_ok (rotate_window now e)"
  unfolding rate_entry_ok_def rotate_window_def
  by (simp, intro impI, rule order_trans [rotated], assumption) simp

lemma rate_step_simps:
  assumes "rate_entry_ok e" and "windowStartTime e \<le> now"
  shows "fst (rate_step now e) \<longleftrightarrow>
      uint (countPrev (rotate_window now e)) + uint (countCurr (rotate_window now e)) < 100"
    and "rate_entry_ok (snd (rate_step now e))"
    and "windowStartTime (snd (rate_step now e)) = now"
    and "countPrev (snd (rate_step now e)) = countPrev (rotate_window now e)"
    and "uint (countCurr (snd (rate_step now e))) =
      uint (countCurr (rotate_window now e)) + (if fst (rate_step now e) then 1 else 0)"
proof -
  let ?e = "rotate_window now e"
  have ws: "windowStartTime ?e = now" using assms(2) by (auto simp: rotate_window_def)
  then have est: "rate_estimate now ?e = uint (countPrev ?e) + uint (countCurr ?e)"
    by (simp add: rate_estimate_def)
  show a: "fst (rate_step now e) \<longleftrightarrow> uint (countPrev ?e) + uint (countCurr ?e) < 100"
    by (simp add: rate_step_def Let_def est RATE_LIMIT_RPS_def)
  show "windowStartTime (snd (rate_step now e)) = now"
    and cp: "countPrev (snd (rate_step now e)) = countPrev ?e"
    by (simp_all add: rate_step_def Let_def ws)
  show cc: "uint (countCurr (snd (rate_step now e))) =
      uint (countCurr ?e) + (if fst (rate_step now e) then 1 else 0)"
  proof (cases "fst (rate_step now e)")
    case True
    have "uint (countCurr ?e) < 100" using a True uint_ge_0 [of "countPrev ?e"] by linarith
    with True uint_inc show ?thesis by (simp add: rate_step_def Let_def)
  qed (simp add: rate_step_def Let_def)
  show "rate_entry_ok (snd (rate_step now e))"
    using rotate_window_ok [OF assms(1), of now] a unfolding rate_entry_ok_def cc cp RATE_LIMIT_RPS_def
    by simp
qed

text \<open>A run of checks of one address.\<close>

fun rate_run :: "rate_entry \<Rightarrow> int list \<Rightarrow> (int \<times> bool) list" where
  "rate_run e [] = []"
| "rate_run e (now # nows) =
     (now, fst (rate_step now e)) # rate_run (snd (rate_step now e)) nows"

definition accepted_at :: "int \<Rightarrow> (int \<times> bool) list \<Rightarrow> nat" where
  "accepted_at t log = length (filter (\<lambda>(n, a). n = t \<and> a) log)"

lemma accepted_at_simps [simp]:
  "accepted_at t [] = 0"
  "accepted_at t ((n, a) # log) = (if n = t \<and> a then 1 else 0) + accepted_at t log"
  by (auto simp: accepted_at_def)

lemma accepted_at_before: "\<forall>n\<in>set nows. t < n \<Longrightarrow> accepted_at t (rate_run e nows) = 0"
  by (induction nows arbitrary: e) auto

lemma rate_run_bounds:
  "rate_entry_ok e \<Longrightarrow> sorted (windowStartTime e # nows) \<Longrightarrow>
    int (accepted_at (windowStartTime e) (rate_run e nows)) + uint (countPrev e) + uint (countCurr e) \<le> 100 \<and>
    int (accepted_at (windowStartTime e) (rate_run e nows)) +
      int (accepted_at (windowStartTime e + 1) (rate_run e nows)) + uint (countCurr e) \<le> 100 \<and>
    (\<forall>t > windowStartTime e.
      accepted_at t (rate_run e nows) + accepted_at (t + 1) (rate_run e nows) \<le> 100)"
proof (induction nows arbitrary: e)
  case Nil
  moreover have "0 \<le> uint (countPrev e)" by simp
  ultimately show ?case unfolding rate_entry_ok_def RATE_LIMIT_RPS_def by (simp, linarith)
next
  case (Cons now nows)
  let ?r = "rotate_window now e" and ?e = "snd (rate_step now e)" and ?w = "windowStartTime e"
  have le: "?w \<le> now" using Cons.prems(2) by simp
  note st = rate_step_simps [OF Cons.prems(1) le]
  have IH: "int (accepted_at now (rate_run ?e nows)) + uint (countPrev ?e) + uint (countCurr ?e) \<le> 100"
    "int (accepted_at now (rate_run ?e nows)) + int (accepted_at (now + 1) (rate_run ?e nows)) +
       uint (countCurr ?e) \<le> 100"
    "\<And>t. t > now \<Longrightarrow> accepted_at t (rate_run ?e nows) + accepted_at (t + 1) (rate_run ?e nows) \<le> 100"
    using Cons.IH [OF st(2)] st(3) Cons.prems(2) by auto
  have early: "t < now \<Longrightarrow> accepted_at t (rate_run ?e nows) = 0" for t
    using Cons.prems(2) by (intro accepted_at_before) auto
  have nn: "uint (countPrev e) \<ge> 0" "uint (countCurr ?r) \<ge> 0" by simp_all
  show ?case
  proof (cases "now = ?w")
    case True
    then have r: "?r = e" by (simp add: rotate_window_def)
    show ?thesis using IH st(4,5) unfolding r unfolding True by (auto split: if_splits)
  next
    case False
    with le have r: "countPrev ?r = countCurr e" "uint (countCurr ?r) = 0" and lt: "?w < now"
      by (auto simp: rotate_window_def)
    have e: "uint (countPrev e) + uint (countCurr e) \<le> 100"
      using Cons.prems(1) by (simp add: rate_entry_ok_def RATE_LIMIT_RPS_def)
    show ?thesis
    proof (intro conjI allI impI, goal_cases)
      case 1
      show ?case using early [OF lt] lt e by simp
    next
      case 2
      show ?case using early [OF lt] early [of "?w + 1"] lt e IH(1) st(4,5) r nn
        by (cases "now = ?w + 1") (auto split: if_splits)
    next
      case (3 t)
      consider "t + 1 < now" | "t + 1 = now" | "t = now" | "t > now" by linarith
      then show ?case
      proof cases
        case 1
        then show ?thesis using early by auto
      next
        case 2
        have "int (accepted_at now (rate_run ?e nows)) + (if fst (rate_step now e) then 1 else 0) \<le> 100"
          using IH(1) st(5) r(2) uint_ge_0 [of "countPrev ?e"] by linarith
        with 2 early [of t] show ?thesis by (auto split: if_splits)
      next
        case 3
        then show ?thesis using IH(2) st(5) r by (auto split: if_splits)
      next
        case 4
        then show ?thesis using IH(3) by auto
      qed
    qed
  qed
qed

section \<open>Properties\<close>

text \<open>\<open>rate_limit_check\<close> on a well-formed table keeps the table well-formed with at most
  10001 addresses, decides by the stored entry of the address alone, and changes no other
  address's entry unless the table is being recycled; a table that cannot be re-created lets the
  request through.\<close>

theorem rate_limit_check_spec:
  assumes inv: "rate_inv t" and ip: "cstr ip \<noteq> []"
  shows "case rate_limit_check env (Some ip) (Some t) of
      (allowed, None) \<Rightarrow> allowed \<and> ht_size t > MAX_SAVED_IP
    | (allowed, Some t') \<Rightarrow> rate_inv t' \<and>
        (ht_size t \<le> MAX_SAVED_IP \<longrightarrow>
          allowed = fst (rate_step (re_now env) (rate_abs t ip)) \<and>
          (re_set env = mem_ok \<longrightarrow> rate_abs t' ip = snd (rate_step (re_now env) (rate_abs t ip))) \<and>
          (\<forall>other. cstr other \<noteq> cstr ip \<longrightarrow> rate_abs t' other = rate_abs t other)) \<and>
        (ht_size t > MAX_SAVED_IP \<longrightarrow> ht_size t' \<le> 1)"
proof (cases "recycle_table env t")
  case None
  then have "ht_size t > MAX_SAVED_IP" by (auto simp: recycle_table_def split: if_splits)
  with None ip show ?thesis by (simp add: rate_limit_check_def)
next
  case (Some t1)
  let ?st = "rate_step (re_now env) (rate_abs t1 ip)"
  let ?t' = "snd (ht_set (re_set env) t1 (ip_key ip) [snd ?st])"
  note t1 = recycle_table_inv [OF inv Some]
  then have hi: "ht_inv t1" by (simp add: rate_inv_def)
  have "ht_size t1 = 0" if "ht_size t > MAX_SAVED_IP"
    using Some that by (auto simp: recycle_table_def ht_create_def Let_def split: if_splits)
  then have "ht_size ?t' \<le> 1" if "ht_size t > MAX_SAVED_IP"
    using ht_set_size [of "re_set env" t1 "ip_key ip" "[snd ?st]"] that by simp
  moreover have "rate_inv ?t'" using t1 by (intro rate_set_inv) auto
  moreover have "rate_abs ?t' other = rate_abs t1 other" if "cstr other \<noteq> cstr ip" for other
    using that hi by (simp add: rate_abs_def ht.set_abs)
  moreover have "rate_abs ?t' ip = snd ?st" if "re_set env = mem_ok"
    using that hi by (simp add: rate_abs_def ht.set_abs ht_set_ok)
  ultimately show ?thesis unfolding rate_check_cases [OF ip inv Some] using t1
    by (cases "ht_size t \<le> MAX_SAVED_IP") simp_all
qed

lemma rate_table_example: "\<exists>t. rate_limiter_init \<lparr>re_now = 0, re_set = mem_ok, re_table = True,
    re_buckets = True, re_seed = 7\<rparr> = (True, Some t) \<and> rate_inv t \<and> ht_size t = 0 \<and> ht_abs t = Map.empty"
proof -
  obtain t :: rate_table where t: "ht_create True True 7 RATE_TABLE_CAPACITY hash_key = Some t"
    by (simp add: ht_create_def Let_def)
  then have "ht_size t = 0" by (auto simp: ht_create_def Let_def)
  with ht_create_spec [OF t] t show ?thesis
    by (auto simp: rate_limiter_init_def rate_inv_def)
qed

theorem rate_limit_check_spec_witness:
  "\<exists>t. rate_inv t \<and> fst (rate_limit_check \<lparr>re_now = 50, re_set = mem_ok, re_table = True,
     re_buckets = True, re_seed = 7\<rparr> (Some ''10.0.0.1'') (Some t))"
proof -
  let ?env = "\<lparr>re_now = 50, re_set = mem_ok, re_table = True, re_buckets = True, re_seed = 7\<rparr>"
  obtain t where t: "rate_inv t" "ht_size t = 0" "ht_abs t = Map.empty"
    using rate_table_example by blast
  have "cstr ''10.0.0.1'' \<noteq> []" by (simp add: cstr_def NUL_def)
  from rate_limit_check_spec [OF t(1) this, of ?env] t(2)
  have "fst (rate_limit_check ?env (Some ''10.0.0.1'') (Some t)) \<or>
     fst (rate_limit_check ?env (Some ''10.0.0.1'') (Some t)) = fst (rate_step 50 (rate_abs t ''10.0.0.1''))"
    by (auto split: prod.splits option.splits)
  moreover have "fst (rate_step 50 (rate_abs t ''10.0.0.1''))"
    using t(3) by (simp add: rate_abs_def rate_step_def rotate_window_def rate_estimate_def
        zero_entry_def RATE_LIMIT_RPS_def Let_def)
  ultimately show ?thesis using t(1) by blast
qed



text \<open>An address that used its 100 requests in some second and was then silent, for however
  long, is refused throughout the first second in which it comes back: the rotation moves the old
  count to \<open>countPrev\<close> without looking at how much time has passed.\<close>

theorem rate_idle_client_refused:
  assumes "countCurr e = 100" and "windowStartTime e < now"
  shows "accepted_at now (rate_run e (replicate n now)) = 0"
proof -
  have "countCurr e2 = 0 \<Longrightarrow> countPrev e2 = 100 \<Longrightarrow> windowStartTime e2 = now \<Longrightarrow>
      accepted_at now (rate_run e2 (replicate k now)) = 0" for k e2
    by (induction k) (simp_all add: rate_step_def rotate_window_def rate_estimate_def
        RATE_LIMIT_RPS_def)
  moreover have "\<not> fst (rate_step now e)" "countCurr (snd (rate_step now e)) = 0"
    "countPrev (snd (rate_step now e)) = 100" "windowStartTime (snd (rate_step now e)) = now"
    using assms by (simp_all add: rate_step_def rotate_window_def rate_estimate_def
        RATE_LIMIT_RPS_def Let_def)
  ultimately show ?thesis by (cases n) simp_all
qed

theorem rate_idle_client_refused_witness:
  "accepted_at 3600 (rate_run \<lparr>countCurr = 100, countPrev = 0, windowStartTime = 0\<rparr>
     (replicate 50 3600)) = 0"
  by (rule rate_idle_client_refused) simp_all

end
