(* ===== verification/Database.thy ===== *)
theory Database
  imports Prelude "HOL-Library.Option_ord" "HOL-Library.List_Lexorder"
begin

text \<open>
  The data layer of \<open>db.c\<close>.  The SQL the server sends is part of its source: \<open>stmt\<close> has one
  constructor per statement, with the values bound to it, \<open>sql_text\<close> and \<open>sql_fmt\<close> give the
  statement and the format string as written, and \<open>exec_stmt\<close> and the queries give what the
  statement does to the two tables.  SQLite itself is seen only through the outcome of its calls:
  \<open>db_call\<close> says whether a statement compiles, binds and gets its cursor, and how many of its
  steps succeed.
\<close>

section \<open>Tables\<close>

text \<open>A C \<open>double\<close>, by its bits: the data layer only stores and copies it.\<close>

type_synonym double = "64 word"

record user_row =
  ur_id :: int
  ur_username :: bytes
  ur_password_hash :: bytes
  ur_role :: int
  ur_city :: bytes
  ur_salt :: bytes

record report_row =
  rr_id :: int
  rr_author_id :: int
  rr_assigned_to :: "int option"
  rr_lat :: double
  rr_lon :: double
  rr_city :: bytes
  rr_category :: bytes
  rr_description :: bytes
  rr_status :: int
  rr_created_at :: int
  rr_assigned_at :: "int option"
  rr_resolved_at :: "int option"
  rr_feedback :: "int option"

text \<open>The tables in order of their row ids, the counters AUTOINCREMENT keeps, and the connection's
  \<open>last_insert_rowid\<close> and \<open>changes\<close>.\<close>

record tables =
  t_users :: "user_row list"
  t_reports :: "report_row list"
  t_user_seq :: int
  t_report_seq :: int
  t_last_rowid :: int
  t_changes :: int

text \<open>\<open>db\<close>: the open connection, if any.\<close>

type_synonym database = "tables option"

section \<open>Statements\<close>

datatype sql_val = SText bytes | SInt int | SInt64 int | SDouble double

datatype stmt =
    InsertUser bytes bytes int bytes bytes
  | SelectUserByName bytes
  | SelectUserById int
  | SelectAdminOfCity bytes
  | SelectOperators bytes
  | InsertReport int double double bytes bytes bytes int
  | AssignReport int int int
  | AcceptReport int int
  | RejectReport int int
  | ResolveReport int int int
  | FeedbackReport int int int
  | ResetReport int
  | SelectActiveOfOperator int
  | SelectActiveOfCitizen int
  | SelectArchivedOfOperator int
  | SelectArchivedOfCitizen int
  | SelectCityReports bytes
  | SelectReportById int
  | CountActive

definition SELECT_COLS :: bytes where
  "SELECT_COLS = ''id, author_id, assigned_to, lat, lon, city, category, description, status, created_at, assigned_at, resolved_at, feedback''"

fun sql_text :: "stmt \<Rightarrow> bytes" where
  "sql_text (InsertUser _ _ _ _ _) = ''INSERT INTO users (username, password_hash, role, city, salt) VALUES (?,?,?,?,?);''"
| "sql_text (SelectUserByName _) = ''SELECT id, username, password_hash, role, city, salt FROM users WHERE username = ?;''"
| "sql_text (SelectUserById _) = ''SELECT id, username, password_hash, role, city, salt FROM users WHERE id = ?;''"
| "sql_text (SelectAdminOfCity _) = ''SELECT id FROM users WHERE role = 2 AND city = ? LIMIT 1;''"
| "sql_text (SelectOperators _) = ''SELECT id, username FROM users WHERE role = 1 AND city = ? ORDER BY username;''"
| "sql_text (InsertReport _ _ _ _ _ _ _) = ''INSERT INTO reports (author_id, lat, lon, city, category, description, status, created_at) VALUES (?,?,?,?,?,?,0,?);''"
| "sql_text (AssignReport _ _ _) = ''UPDATE reports SET status = 1, assigned_to = ?, assigned_at = ? WHERE id = ? AND status = 0 AND assigned_to IS NULL;''"
| "sql_text (AcceptReport _ _) = ''UPDATE reports SET status = 2 WHERE id = ? AND assigned_to = ? AND status = 1;''"
| "sql_text (RejectReport _ _) = ''UPDATE reports SET status = 0, assigned_to = NULL, assigned_at = NULL WHERE id = ? AND assigned_to = ? AND status = 1;''"
| "sql_text (ResolveReport _ _ _) = ''UPDATE reports SET status = 3, resolved_at = ? WHERE id = ? AND assigned_to = ? AND status = 2;''"
| "sql_text (FeedbackReport _ _ _) = ''UPDATE reports SET feedback = ? WHERE id = ? AND author_id = ? AND status = 3 AND feedback IS NULL;''"
| "sql_text (ResetReport _) = ''UPDATE reports SET status=0, assigned_to=NULL, assigned_at=NULL WHERE id=? AND status=1;''"
| "sql_text (SelectActiveOfOperator _) = ''SELECT '' @ SELECT_COLS @ '' FROM reports WHERE assigned_to = ? AND status IN (1, 2) ORDER BY assigned_at DESC;''"
| "sql_text (SelectActiveOfCitizen _) = ''SELECT '' @ SELECT_COLS @ '' FROM reports WHERE author_id = ? AND status < 3 ORDER BY created_at DESC;''"
| "sql_text (SelectArchivedOfOperator _) = ''SELECT '' @ SELECT_COLS @ '' FROM reports WHERE assigned_to = ? AND status = 3 ORDER BY resolved_at DESC;''"
| "sql_text (SelectArchivedOfCitizen _) = ''SELECT '' @ SELECT_COLS @ '' FROM reports WHERE author_id = ? AND status = 3 ORDER BY resolved_at DESC;''"
| "sql_text (SelectCityReports _) = ''SELECT r.id, r.author_id, r.assigned_to, r.lat, r.lon, r.city, r.category, r.description, r.status, r.created_at, r.assigned_at, r.resolved_at, r.feedback, COALESCE(u.username, '' @ [CHR 0x27, CHR 0x27] @ '') AS operator_name FROM reports r LEFT JOIN users u ON u.id = r.assigned_to WHERE r.city = ? ORDER BY r.created_at DESC;''"
| "sql_text (SelectReportById _) = ''SELECT '' @ SELECT_COLS @ '' FROM reports WHERE id = ? LIMIT 1;''"
| "sql_text CountActive = ''SELECT COUNT(*) FROM reports WHERE status < 3;''"

fun sql_fmt :: "stmt \<Rightarrow> bytes" where
  "sql_fmt (InsertUser _ _ _ _ _) = ''ssiss''"
| "sql_fmt (SelectUserByName _) = ''s''"
| "sql_fmt (SelectUserById _) = ''l''"
| "sql_fmt (SelectAdminOfCity _) = ''s''"
| "sql_fmt (SelectOperators _) = ''s''"
| "sql_fmt (InsertReport _ _ _ _ _ _ _) = ''lffsssl''"
| "sql_fmt (AssignReport _ _ _) = ''lll''"
| "sql_fmt (AcceptReport _ _) = ''ll''"
| "sql_fmt (RejectReport _ _) = ''ll''"
| "sql_fmt (ResolveReport _ _ _) = ''lll''"
| "sql_fmt (FeedbackReport _ _ _) = ''lll''"
| "sql_fmt (SelectCityReports _) = ''s''"
| "sql_fmt CountActive = []"
| "sql_fmt _ = ''l''"

text \<open>The variadic arguments, in the order of the call.\<close>

fun sql_args :: "stmt \<Rightarrow> sql_val list" where
  "sql_args (InsertUser n h r c s) = [SText n, SText h, SInt r, SText c, SText s]"
| "sql_args (SelectUserByName n) = [SText n]"
| "sql_args (SelectUserById i) = [SInt64 i]"
| "sql_args (SelectAdminOfCity c) = [SText c]"
| "sql_args (SelectOperators c) = [SText c]"
| "sql_args (InsertReport a lat lon c k d t) =
     [SInt64 a, SDouble lat, SDouble lon, SText c, SText k, SText d, SInt64 t]"
| "sql_args (AssignReport op t i) = [SInt64 op, SInt64 t, SInt64 i]"
| "sql_args (AcceptReport i op) = [SInt64 i, SInt64 op]"
| "sql_args (RejectReport i op) = [SInt64 i, SInt64 op]"
| "sql_args (ResolveReport t i op) = [SInt64 t, SInt64 i, SInt64 op]"
| "sql_args (FeedbackReport s i a) = [SInt64 s, SInt64 i, SInt64 a]"
| "sql_args (ResetReport i) = [SInt64 i]"
| "sql_args (SelectActiveOfOperator u) = [SInt64 u]"
| "sql_args (SelectActiveOfCitizen u) = [SInt64 u]"
| "sql_args (SelectArchivedOfOperator u) = [SInt64 u]"
| "sql_args (SelectArchivedOfCitizen u) = [SInt64 u]"
| "sql_args (SelectCityReports c) = [SText c]"
| "sql_args (SelectReportById i) = [SInt64 i]"
| "sql_args CountActive = []"

section \<open>Calls\<close>

definition count_placeholders :: "bytes \<Rightarrow> nat" where
  "count_placeholders sql = length (filter (\<lambda>c. c = CHR ''?'') (cstr sql))"

text \<open>The \<open>switch\<close> of the binding loop: the C type \<open>va_arg\<close> reads for a format character, and
  whether the argument at that place has it.  \<open>n\<close> consumes no argument, any other character is
  an error.\<close>

fun bind_loop :: "bytes \<Rightarrow> sql_val list \<Rightarrow> bool" where
  "bind_loop [] _ = True"
| "bind_loop (c # fmt) args =
     (if c = CHR ''s'' then (case args of SText _ # as \<Rightarrow> bind_loop fmt as | _ \<Rightarrow> False)
      else if c = CHR ''i'' then (case args of SInt _ # as \<Rightarrow> bind_loop fmt as | _ \<Rightarrow> False)
      else if c = CHR ''l'' then (case args of SInt64 _ # as \<Rightarrow> bind_loop fmt as | _ \<Rightarrow> False)
      else if c = CHR ''f'' then (case args of SDouble _ # as \<Rightarrow> bind_loop fmt as | _ \<Rightarrow> False)
      else if c = CHR ''n'' then bind_loop fmt args
      else False)"

text \<open>What SQLite answers during one \<open>db_exec\<close> or one cursor: the statement compiles and binds and
  the cursor is allocated; the number of \<open>sqlite3_step\<close> calls that do not fail.\<close>

record db_call =
  dc_prepared :: bool
  dc_steps :: nat

definition db_call_ok :: db_call where
  "db_call_ok = \<lparr>dc_prepared = True, dc_steps = 2 ^ 63\<rparr>"

definition prepare :: "db_call \<Rightarrow> database \<Rightarrow> bytes \<Rightarrow> bytes \<Rightarrow> sql_val list \<Rightarrow> bool" where
  "prepare c db sql fmt args \<longleftrightarrow>
     (if db = None then False
      else if \<not> dc_prepared c then False
      else if count_placeholders sql \<noteq> length fmt then False
      else bind_loop fmt args)"

section \<open>What the statements do\<close>

definition next_rowid :: "int \<Rightarrow> int option" where
  "next_rowid seq = (if seq < 2 ^ 63 - 1 then Some (seq + 1) else None)"

definition update_reports ::
  "(report_row \<Rightarrow> bool) \<Rightarrow> (report_row \<Rightarrow> report_row) \<Rightarrow> tables \<Rightarrow> tables" where
  "update_reports P f t =
     t\<lparr>t_reports := map (\<lambda>r. if P r then f r else r) (t_reports t),
       t_changes := int (length (filter P (t_reports t)))\<rparr>"

text \<open>\<open>sqlite3_step\<close> on a statement that writes: None is a violated constraint or a full sequence.
  Text is bound with length -1, so it ends at its first NUL.\<close>

fun exec_stmt :: "stmt \<Rightarrow> tables \<Rightarrow> tables option" where
  "exec_stmt (InsertUser n h r c s) t =
     (if cstr n \<in> ur_username ` set (t_users t) then None
      else case next_rowid (t_user_seq t) of
             None \<Rightarrow> None
           | Some i \<Rightarrow> Some (t\<lparr>t_users := t_users t @ [\<lparr>ur_id = i, ur_username = cstr n,
                 ur_password_hash = cstr h, ur_role = r, ur_city = cstr c, ur_salt = cstr s\<rparr>],
               t_user_seq := i, t_last_rowid := i, t_changes := 1\<rparr>))"
| "exec_stmt (InsertReport a lat lon c k d now) t =
     (case next_rowid (t_report_seq t) of
        None \<Rightarrow> None
      | Some i \<Rightarrow> Some (t\<lparr>t_reports := t_reports t @ [\<lparr>rr_id = i, rr_author_id = a,
            rr_assigned_to = None, rr_lat = lat, rr_lon = lon, rr_city = cstr c,
            rr_category = cstr k, rr_description = cstr d, rr_status = 0, rr_created_at = now,
            rr_assigned_at = None, rr_resolved_at = None, rr_feedback = None\<rparr>],
          t_report_seq := i, t_last_rowid := i, t_changes := 1\<rparr>))"
| "exec_stmt (AssignReport op now i) t =
     Some (update_reports (\<lambda>r. rr_id r = i \<and> rr_status r = 0 \<and> rr_assigned_to r = None)
       (\<lambda>r. r\<lparr>rr_status := 1, rr_assigned_to := Some op, rr_assigned_at := Some now\<rparr>) t)"
| "exec_stmt (AcceptReport i op) t =
     Some (update_reports (\<lambda>r. rr_id r = i \<and> rr_assigned_to r = Some op \<and> rr_status r = 1)
       (\<lambda>r. r\<lparr>rr_status := 2\<rparr>) t)"
| "exec_stmt (RejectReport i op) t =
     Some (update_reports (\<lambda>r. rr_id r = i \<and> rr_assigned_to r = Some op \<and> rr_status r = 1)
       (\<lambda>r. r\<lparr>rr_status := 0, rr_assigned_to := None, rr_assigned_at := None\<rparr>) t)"
| "exec_stmt (ResolveReport now i op) t =
     Some (update_reports (\<lambda>r. rr_id r = i \<and> rr_assigned_to r = Some op \<and> rr_status r = 2)
       (\<lambda>r. r\<lparr>rr_status := 3, rr_resolved_at := Some now\<rparr>) t)"
| "exec_stmt (FeedbackReport s i a) t =
     Some (update_reports (\<lambda>r. rr_id r = i \<and> rr_author_id r = a \<and> rr_status r = 3 \<and> rr_feedback r = None)
       (\<lambda>r. r\<lparr>rr_feedback := Some s\<rparr>) t)"
| "exec_stmt (ResetReport i) t =
     Some (update_reports (\<lambda>r. rr_id r = i \<and> rr_status r = 1)
       (\<lambda>r. r\<lparr>rr_status := 0, rr_assigned_to := None, rr_assigned_at := None\<rparr>) t)"
| "exec_stmt _ t = Some t"

text \<open>\<open>ORDER BY ... DESC\<close>; rows with equal keys stay in the order of their ids, which SQL leaves
  open.\<close>

definition order_desc :: "('a \<Rightarrow> 'b::linorder) \<Rightarrow> 'a list \<Rightarrow> 'a list" where
  "order_desc key rows = rev (sort_key key (rev rows))"

fun select_users :: "stmt \<Rightarrow> tables \<Rightarrow> user_row list" where
  "select_users (SelectUserByName n) t = filter (\<lambda>u. ur_username u = cstr n) (t_users t)"
| "select_users (SelectUserById i) t = filter (\<lambda>u. ur_id u = i) (t_users t)"
| "select_users (SelectAdminOfCity c) t =
     take 1 (filter (\<lambda>u. ur_role u = 2 \<and> ur_city u = cstr c) (t_users t))"
| "select_users (SelectOperators c) t =
     sort_key ur_username (filter (\<lambda>u. ur_role u = 1 \<and> ur_city u = cstr c) (t_users t))"
| "select_users _ t = []"

fun select_reports :: "stmt \<Rightarrow> tables \<Rightarrow> report_row list" where
  "select_reports (SelectActiveOfOperator u) t =
     order_desc rr_assigned_at
       (filter (\<lambda>r. rr_assigned_to r = Some u \<and> rr_status r \<in> {1, 2}) (t_reports t))"
| "select_reports (SelectActiveOfCitizen u) t =
     order_desc rr_created_at (filter (\<lambda>r. rr_author_id r = u \<and> rr_status r < 3) (t_reports t))"
| "select_reports (SelectArchivedOfOperator u) t =
     order_desc rr_resolved_at
       (filter (\<lambda>r. rr_assigned_to r = Some u \<and> rr_status r = 3) (t_reports t))"
| "select_reports (SelectArchivedOfCitizen u) t =
     order_desc rr_resolved_at (filter (\<lambda>r. rr_author_id r = u \<and> rr_status r = 3) (t_reports t))"
| "select_reports (SelectCityReports c) t =
     order_desc rr_created_at (filter (\<lambda>r. rr_city r = cstr c) (t_reports t))"
| "select_reports (SelectReportById i) t = take 1 (filter (\<lambda>r. rr_id r = i) (t_reports t))"
| "select_reports _ t = []"

section \<open>The API of the data layer\<close>

definition prepare_stmt :: "db_call \<Rightarrow> database \<Rightarrow> stmt \<Rightarrow> bool" where
  "prepare_stmt c db s = prepare c db (sql_text s) (sql_fmt s) (sql_args s)"

text \<open>\<open>db_exec\<close>: True is its return value 0, False its return value -1.\<close>

definition db_exec :: "db_call \<Rightarrow> stmt \<Rightarrow> database \<Rightarrow> bool \<times> database" where
  "db_exec c s db =
     (if \<not> prepare_stmt c db s then (False, db)
      else if dc_steps c = 0 then (False, db)
      else case exec_stmt s (the db) of None \<Rightarrow> (False, db) | Some t \<Rightarrow> (True, Some t))"

text \<open>A cursor drained with \<open>db_cursor_next\<close>: None is the NULL cursor, and a step that fails looks
  like the end of the rows.\<close>

definition db_cursor_users :: "db_call \<Rightarrow> stmt \<Rightarrow> database \<Rightarrow> user_row list option" where
  "db_cursor_users c s db =
     (if \<not> prepare_stmt c db s then None
      else Some (take (dc_steps c) (select_users s (the db))))"

definition db_cursor_reports :: "db_call \<Rightarrow> stmt \<Rightarrow> database \<Rightarrow> report_row list option" where
  "db_cursor_reports c s db =
     (if \<not> prepare_stmt c db s then None
      else Some (take (dc_steps c) (select_reports s (the db))))"

text \<open>The first row a cursor yields; \<open>db_cursor_next\<close> on the NULL cursor is false.\<close>

definition cursor_first :: "'r list option \<Rightarrow> 'r option" where
  "cursor_first rows = (case rows of Some (r # _) \<Rightarrow> Some r | _ \<Rightarrow> None)"

definition db_cursor_count :: "db_call \<Rightarrow> database \<Rightarrow> int" where
  "db_cursor_count c db =
     (if prepare_stmt c db CountActive \<and> dc_steps c > 0
      then int (length (filter (\<lambda>r. rr_status r < 3) (t_reports (the db)))) else 0)"

definition db_last_insert_id :: "database \<Rightarrow> int" where
  "db_last_insert_id db = (case db of None \<Rightarrow> 0 | Some t \<Rightarrow> t_last_rowid t)"

definition db_changes :: "database \<Rightarrow> int" where
  "db_changes db = (case db of None \<Rightarrow> 0 | Some t \<Rightarrow> t_changes t)"

text \<open>\<open>db_init\<close> closes an open connection first; after a failed open no statement compiles.\<close>

definition db_close :: "database \<Rightarrow> database" where
  "db_close db = None"

definition db_init :: "tables option \<Rightarrow> database \<Rightarrow> bool \<times> database" where
  "db_init opened db =
     (let db0 = db_close db in case opened of None \<Rightarrow> (False, db0) | Some t \<Rightarrow> (True, Some t))"

section \<open>The invariant of the tables\<close>

text \<open>The columns of a report row agree with its status.\<close>

definition report_row_ok :: "report_row \<Rightarrow> bool" where
  "report_row_ok r \<longleftrightarrow> rr_status r \<in> {0, 1, 2, 3} \<and>
     (rr_status r = 0 \<longleftrightarrow> rr_assigned_to r = None) \<and>
     (rr_status r = 0 \<longleftrightarrow> rr_assigned_at r = None) \<and>
     (rr_status r = 3 \<longleftrightarrow> rr_resolved_at r \<noteq> None) \<and>
     (\<forall>s. rr_feedback r = Some s \<longrightarrow> rr_status r = 3 \<and> 1 \<le> s \<and> s \<le> 5)"

definition keys_ok :: "int \<Rightarrow> int list \<Rightarrow> bool" where
  "keys_ok seq ids \<longleftrightarrow> sorted_wrt (<) ids \<and> (\<forall>i\<in>set ids. 0 < i \<and> i \<le> seq) \<and> 0 \<le> seq \<and> seq < 2 ^ 63"

definition tables_inv :: "tables \<Rightarrow> bool" where
  "tables_inv t \<longleftrightarrow>
     keys_ok (t_user_seq t) (map ur_id (t_users t)) \<and>
     distinct (map ur_username (t_users t)) \<and>
     (\<forall>u\<in>set (t_users t). ur_role u \<in> {0, 1, 2}) \<and>
     keys_ok (t_report_seq t) (map rr_id (t_reports t)) \<and>
     (\<forall>r\<in>set (t_reports t). report_row_ok r)"

definition no_tables :: tables where
  "no_tables = \<lparr>t_users = [], t_reports = [], t_user_seq = 0, t_report_seq = 0, t_last_rowid = 0,
     t_changes = 0\<rparr>"

text \<open>The range of the arguments the callers keep.\<close>

fun stmt_ok :: "stmt \<Rightarrow> bool" where
  "stmt_ok (InsertUser _ _ r _ _) \<longleftrightarrow> r \<in> {0, 1, 2}"
| "stmt_ok (FeedbackReport s _ _) \<longleftrightarrow> 1 \<le> s \<and> s \<le> 5"
| "stmt_ok _ \<longleftrightarrow> True"

inductive db_reaches :: "tables \<Rightarrow> tables \<Rightarrow> bool" where
  db_refl: "db_reaches t t"
| db_step: "db_reaches t t' \<Longrightarrow> stmt_ok s \<Longrightarrow> exec_stmt s t' = Some t'' \<Longrightarrow> db_reaches t t''"

lemma no_tables_inv [simp]: "tables_inv no_tables"
  by (simp add: tables_inv_def no_tables_def keys_ok_def)

lemma keys_ok_append:
  "keys_ok seq ids \<Longrightarrow> next_rowid seq = Some i \<Longrightarrow> keys_ok i (ids @ [i]) \<and> i \<notin> set ids"
  by (auto simp: keys_ok_def next_rowid_def sorted_wrt_append split: if_splits)

lemma keys_ok_distinct: "keys_ok seq ids \<Longrightarrow> distinct ids"
  by (auto simp: keys_ok_def strict_sorted_iff)

lemma update_reports_simps [simp]:
  "t_users (update_reports P f t) = t_users t"
  "t_user_seq (update_reports P f t) = t_user_seq t"
  "t_report_seq (update_reports P f t) = t_report_seq t"
  "t_reports (update_reports P f t) = map (\<lambda>r. if P r then f r else r) (t_reports t)"
  "t_last_rowid (update_reports P f t) = t_last_rowid t"
  "t_changes (update_reports P f t) = int (length (filter P (t_reports t)))"
  by (simp_all add: update_reports_def)

lemma update_reports_inv:
  assumes "tables_inv t" and "\<And>r. P r \<Longrightarrow> rr_id (f r) = rr_id r"
    and "\<And>r. report_row_ok r \<Longrightarrow> P r \<Longrightarrow> report_row_ok (f r)"
  shows "tables_inv (update_reports P f t)"
proof -
  have ids: "map rr_id (map (\<lambda>r. if P r then f r else r) (t_reports t)) = map rr_id (t_reports t)"
    using assms(2) by auto
  from assms(1,3) show ?thesis
    unfolding tables_inv_def update_reports_simps ids by auto
qed

lemma exec_stmt_inv:
  assumes "tables_inv t" and "stmt_ok s" and "exec_stmt s t = Some t'"
  shows "tables_inv t'"
proof (cases s)
  case (InsertUser n h r c sa)
  then show ?thesis
    using assms keys_ok_append [of "t_user_seq t" "map ur_id (t_users t)"]
    by (auto simp: tables_inv_def split: if_splits option.splits)
next
  case (InsertReport a lat lon c k d now)
  then show ?thesis
    using assms keys_ok_append [of "t_report_seq t" "map rr_id (t_reports t)"]
    by (auto simp: tables_inv_def report_row_ok_def split: option.splits)
qed (use assms in \<open>auto intro!: update_reports_inv simp: report_row_ok_def\<close>)

lemma db_reaches_inv: "db_reaches t t' \<Longrightarrow> tables_inv t \<Longrightarrow> tables_inv t'"
  by (induction rule: db_reaches.induct) (auto intro: exec_stmt_inv)

lemma db_reaches_trans: "db_reaches t' t'' \<Longrightarrow> db_reaches t t' \<Longrightarrow> db_reaches t t''"
  by (induction rule: db_reaches.induct) (auto intro: db_step)

section \<open>The life of a report\<close>

text \<open>What one statement may do to one row.\<close>

definition row_step :: "report_row \<Rightarrow> report_row \<Rightarrow> bool" where
  "row_step r r' \<longleftrightarrow>
     (rr_id r', rr_author_id r', rr_lat r', rr_lon r', rr_city r', rr_category r',
      rr_description r', rr_created_at r') =
     (rr_id r, rr_author_id r, rr_lat r, rr_lon r, rr_city r, rr_category r,
      rr_description r, rr_created_at r) \<and>
     (rr_status r, rr_status r') \<in> {(0, 0), (0, 1), (1, 1), (1, 0), (1, 2), (2, 2), (2, 3), (3, 3)} \<and>
     (rr_status r = rr_status r' \<longrightarrow> rr_assigned_to r' = rr_assigned_to r \<and>
        rr_assigned_at r' = rr_assigned_at r \<and> rr_resolved_at r' = rr_resolved_at r) \<and>
     (0 < rr_status r \<and> 0 < rr_status r' \<longrightarrow> rr_assigned_to r' = rr_assigned_to r) \<and>
     (rr_feedback r \<noteq> None \<longrightarrow> rr_feedback r' = rr_feedback r)"

lemma row_step_refl: "report_row_ok r \<Longrightarrow> row_step r r"
  by (auto simp: row_step_def report_row_ok_def)

lemma map_row_step:
  assumes "r \<in> set (t_reports t)" and "tables_inv t"
    and "\<And>r. report_row_ok r \<Longrightarrow> P r \<Longrightarrow> row_step r (f r)"
  shows "\<exists>r'\<in>set (t_reports (update_reports P f t)). row_step r r'"
proof -
  have "report_row_ok r" using assms(1,2) by (auto simp: tables_inv_def)
  with assms(3) row_step_refl have "row_step r (if P r then f r else r)" by auto
  moreover have "(if P r then f r else r) \<in> set (t_reports (update_reports P f t))"
    unfolding update_reports_simps set_map by (rule imageI) (rule assms(1))
  ultimately show ?thesis by blast
qed

lemma exec_stmt_row_step:
  assumes inv: "tables_inv t" and s: "exec_stmt s t = Some t'" and r: "r \<in> set (t_reports t)"
  shows "\<exists>r'\<in>set (t_reports t'). row_step r r'"
proof -
  have ok: "report_row_ok r" using inv r by (auto simp: tables_inv_def)
  note m = map_row_step [OF r inv]
  have same: "\<exists>r'\<in>set (t_reports t). row_step r r'" using row_step_refl [OF ok] r by blast
  have upd: "\<exists>r'\<in>set (t_reports t'). row_step r r'"
    if "t' = update_reports P f t" and "\<And>r. report_row_ok r \<Longrightarrow> P r \<Longrightarrow> row_step r (f r)" for P f
    unfolding that(1) by (rule m) (rule that(2))
  show ?thesis
  proof (cases s)
    case (InsertUser n h ro c sa)
    with s same show ?thesis by (auto split: if_splits option.splits)
  next
    case (InsertReport a lat lon c k d now)
    with s same show ?thesis by (auto split: option.splits)
  next
    case (AssignReport op now i)
    show ?thesis
      by (rule upd [OF s [unfolded AssignReport exec_stmt.simps option.inject, symmetric]])
        (auto simp: row_step_def)
  next
    case (AcceptReport i op)
    show ?thesis
      by (rule upd [OF s [unfolded AcceptReport exec_stmt.simps option.inject, symmetric]])
        (auto simp: row_step_def)
  next
    case (RejectReport i op)
    show ?thesis
      by (rule upd [OF s [unfolded RejectReport exec_stmt.simps option.inject, symmetric]])
        (auto simp: row_step_def)
  next
    case (ResolveReport now i op)
    show ?thesis
      by (rule upd [OF s [unfolded ResolveReport exec_stmt.simps option.inject, symmetric]])
        (auto simp: row_step_def)
  next
    case (FeedbackReport st i a)
    show ?thesis
      by (rule upd [OF s [unfolded FeedbackReport exec_stmt.simps option.inject, symmetric]])
        (auto simp: row_step_def)
  next
    case (ResetReport i)
    show ?thesis
      by (rule upd [OF s [unfolded ResetReport exec_stmt.simps option.inject, symmetric]])
        (auto simp: row_step_def)
  qed (use s same in simp_all)
qed

text \<open>What no sequence of statements undoes.\<close>

definition row_kept :: "report_row \<Rightarrow> report_row \<Rightarrow> bool" where
  "row_kept r r' \<longleftrightarrow>
     (rr_id r', rr_author_id r', rr_lat r', rr_lon r', rr_city r', rr_category r',
      rr_description r', rr_created_at r') =
     (rr_id r, rr_author_id r, rr_lat r, rr_lon r, rr_city r, rr_category r,
      rr_description r, rr_created_at r) \<and>
     (2 \<le> rr_status r \<longrightarrow> rr_status r \<le> rr_status r' \<and> rr_assigned_to r' = rr_assigned_to r) \<and>
     (rr_status r = 3 \<longrightarrow> rr_resolved_at r' = rr_resolved_at r) \<and>
     (rr_feedback r \<noteq> None \<longrightarrow> rr_feedback r' = rr_feedback r)"

lemma row_step_kept:
  assumes k: "row_kept r r1" and st: "row_step r1 r2"
  shows "row_kept r r2"
proof -
  note st = st [unfolded row_step_def]
  have "(rr_status r1, rr_status r2) \<in> {(0, 0), (0, 1), (1, 1), (1, 0), (1, 2), (2, 2), (2, 3), (3, 3)}"
    by (rule st [THEN conjunct2, THEN conjunct1])
  then have s: "2 \<le> rr_status r1 \<Longrightarrow> rr_status r1 \<le> rr_status r2 \<and> 0 < rr_status r1 \<and> 0 < rr_status r2"
    "rr_status r1 = 3 \<Longrightarrow> rr_status r2 = 3" "rr_status r1 \<le> 3" by auto
  note st = st [THEN conjunct1] st [THEN conjunct2, THEN conjunct2]
  show ?thesis unfolding row_kept_def
  proof (intro conjI impI, goal_cases)
    case 1
    from k st(1) show ?case by (simp add: row_kept_def)
  next
    case 2
    with k s(1) show ?case by (auto simp: row_kept_def)
  next
    case 3
    with k s(1) st(2) show ?case by (auto simp: row_kept_def)
  next
    case 4
    then have "rr_status r1 = 3" "rr_resolved_at r1 = rr_resolved_at r"
      using k s(3) by (auto simp: row_kept_def)
    with s(2) st(2) show ?case by auto
  next
    case 5
    with k st(2) show ?case by (auto simp: row_kept_def)
  qed
qed

lemma db_reaches_row_kept:
  "db_reaches t t' \<Longrightarrow> tables_inv t \<Longrightarrow> r \<in> set (t_reports t) \<Longrightarrow>
    \<exists>r'\<in>set (t_reports t'). row_kept r r'"
proof (induction rule: db_reaches.induct)
  case (db_refl t)
  then show ?case by (auto simp: row_kept_def)
next
  case (db_step t t' s t'')
  then obtain r1 where r1: "r1 \<in> set (t_reports t')" "row_kept r r1" by blast
  have "tables_inv t'" using db_step by (auto intro: db_reaches_inv)
  from exec_stmt_row_step [OF this db_step.hyps(3) r1(1)]
  obtain r2 where r2: "r2 \<in> set (t_reports t'')" "row_step r1 r2" by blast
  have "row_kept r r2" by (rule row_step_kept [OF r1(2) r2(2)])
  with r2(1) show ?case by blast
qed

section \<open>Facts the modules above use\<close>

lemma filter_rr_id:
  "tables_inv t \<Longrightarrow> r \<in> set (t_reports t) \<Longrightarrow> filter (\<lambda>x. rr_id x = rr_id r) (t_reports t) = [r]"
proof -
  assume inv: "tables_inv t" and r: "r \<in> set (t_reports t)"
  have d: "distinct (map rr_id (t_reports t))"
    using inv keys_ok_distinct by (auto simp: tables_inv_def)
  obtain as bs where ab: "t_reports t = as @ r # bs" using r by (meson split_list)
  with d have "filter (\<lambda>x. rr_id x = rr_id r) as = []" "filter (\<lambda>x. rr_id x = rr_id r) bs = []"
    by (auto simp: filter_empty_conv) (metis image_eqI)+
  with ab show ?thesis by simp
qed

lemma prepare_stmt_iff: "prepare_stmt c db s \<longleftrightarrow> db \<noteq> None \<and> dc_prepared c"
  by (cases s) (simp_all add: prepare_stmt_def prepare_def count_placeholders_def cstr_def NUL_def
      SELECT_COLS_def)

section \<open>Properties\<close>




text \<open>C6: over any sequence of statements a report is never lost, its author, place, texts and
  submission time never change, a report in progress keeps its operator and never goes back, a
  resolved one stays resolved with its resolution time, and a rating once given is final.\<close>

theorem report_history_is_kept:
  assumes "db_reaches t t'" and "tables_inv t" and "r \<in> set (t_reports t)"
  shows "tables_inv t' \<and> (\<exists>r'. filter (\<lambda>x. rr_id x = rr_id r) (t_reports t') = [r'] \<and> row_kept r r')"
proof -
  have inv: "tables_inv t'" using assms(1,2) by (rule db_reaches_inv)
  obtain r' where r': "r' \<in> set (t_reports t')" "row_kept r r'"
    using db_reaches_row_kept [OF assms] by blast
  then have "rr_id r' = rr_id r" by (simp add: row_kept_def)
  with filter_rr_id [OF inv r'(1)] r'(2) inv show ?thesis by auto
qed

theorem report_history_is_kept_witness:
  "\<exists>t1 t2 r'. exec_stmt (InsertReport 1 0 0 ''Pisa'' ''road'' ''hole'' 100) no_tables = Some t1 \<and>
     exec_stmt (AssignReport 7 200 1) t1 = Some t2 \<and> t_reports t2 = [r'] \<and>
     rr_author_id r' = 1 \<and> rr_created_at r' = 100"
proof -
  obtain t1 where t1: "exec_stmt (InsertReport 1 0 0 ''Pisa'' ''road'' ''hole'' 100) no_tables = Some t1"
    by (simp add: next_rowid_def no_tables_def)
  obtain t2 where t2: "exec_stmt (AssignReport 7 200 1) t1 = Some t2" by simp
  have inv: "tables_inv t1" by (rule exec_stmt_inv [OF no_tables_inv _ t1]) simp
  have r: "db_reaches t1 t2" by (rule db_step [OF db_refl _ t2]) simp
  obtain x where x: "t_reports t1 = [x]" "rr_author_id x = 1" "rr_created_at x = 100" "rr_id x = 1"
    using t1 by (auto simp: next_rowid_def no_tables_def)
  obtain r' where "filter (\<lambda>y. rr_id y = rr_id x) (t_reports t2) = [r']" "row_kept x r'"
    using report_history_is_kept [OF r inv, of x] x by auto
  moreover have "filter (\<lambda>y. rr_id y = rr_id x) (t_reports t2) = t_reports t2"
    using t2 x by auto
  ultimately show ?thesis using t1 t2 x by (auto simp: row_kept_def)
qed

end
