(* ===== verification/Users.thy ===== *)
theory Users
  imports Database
begin

text \<open>
  Accounts: \<open>user.c\<close>.  A \<open>User\<close> struct is a record whose character arrays are given by the C
  string they hold; the passwords are the salted DJB2 hash of the code, in 64-bit arithmetic.
  cJSON is a parameter: \<open>json\<close> is the tree the code builds with it, and the printer is an
  argument of the operations that print.
\<close>

unbundle bit_operations_syntax

section \<open>Data\<close>

datatype json = JInt int | JReal double | JStr bytes | JArr "json list" | JObj "(bytes \<times> json) list"

text \<open>\<open>cJSON_PrintPreallocated(root, buf, max, 0)\<close>: the text, or None when it reports that the
  buffer is too small.  What its documentation promises: a C string that fits.\<close>

type_synonym json_printer = "json \<Rightarrow> nat \<Rightarrow> bytes option"

definition printer_ok :: "json_printer \<Rightarrow> bool" where
  "printer_ok pr \<longleftrightarrow> (\<forall>j n s. pr j n = Some s \<longrightarrow> nul_free s \<and> s \<noteq> [] \<and> length s < n)"

definition USERNAME_LEN :: nat where
  "USERNAME_LEN = 32"

definition PWD_HASH_LEN :: nat where
  "PWD_HASH_LEN = 32"

definition SALT_HEX_LEN :: nat where
  "SALT_HEX_LEN = 32"

definition CITY_LEN :: nat where
  "CITY_LEN = 32"

definition SALT_RAW_LEN :: nat where
  "SALT_RAW_LEN = 16"

definition ROLE_CITIZEN :: "32 word" where
  "ROLE_CITIZEN = 0"

definition ROLE_OPERATOR :: "32 word" where
  "ROLE_OPERATOR = 1"

definition ROLE_ADMIN :: "32 word" where
  "ROLE_ADMIN = 2"

record user =
  userId :: "64 word"
  username :: bytes
  passwordHash :: bytes
  salt :: bytes
  city :: bytes
  role :: "32 word"

definition hex_digit :: "nat \<Rightarrow> byte" where
  "hex_digit d = ''0123456789abcdef'' ! d"

section \<open>Salt and hash\<close>

text \<open>\<open>generate_salt\<close>: the bytes read from /dev/urandom, or the successive results of \<open>rand\<close>.\<close>

definition hex_encode :: "bytes \<Rightarrow> bytes" where
  "hex_encode buf = concat (map (\<lambda>b. [hex_digit (byte_val b div 16), hex_digit (byte_val b mod 16)]) buf)"

definition generate_salt :: "bytes option \<Rightarrow> (nat \<Rightarrow> nat) \<Rightarrow> bytes" where
  "generate_salt urandom rnd =
     (case urandom of
        Some buf \<Rightarrow> if length buf = SALT_RAW_LEN then hex_encode buf
                    else map (\<lambda>i. hex_digit (rnd i mod 16)) [0..<32]
      | None \<Rightarrow> map (\<lambda>i. hex_digit (rnd i mod 16)) [0..<32])"

definition djb2_step :: "64 word \<Rightarrow> byte \<Rightarrow> 64 word" where
  "djb2_step h c = (push_bit 5 h + h) + word_of_nat (byte_val c)"

definition djb2 :: "bytes \<Rightarrow> bytes \<Rightarrow> 64 word" where
  "djb2 s p = foldl djb2_step (foldl djb2_step 5381 (cstr s)) (cstr p)"

text \<open>\<open>%016llx\<close>.\<close>

definition hex16 :: "64 word \<Rightarrow> bytes" where
  "hex16 w = map (\<lambda>i. hex_digit (unat w div 16 ^ (15 - i) mod 16)) [0..<16]"

definition hash_password :: "bytes \<Rightarrow> bytes \<Rightarrow> bytes" where
  "hash_password s plain =
     (let h = djb2 s plain
      in take PWD_HASH_LEN (hex16 h @ hex16 (h XOR 0xDEADBEEFDEADBEEF)))"

text \<open>The bytes of a zero-padded character array.\<close>

definition buf_at :: "bytes \<Rightarrow> nat \<Rightarrow> byte" where
  "buf_at s i = (if i < length s then s ! i else NUL)"

definition constant_time_compare :: "bytes \<Rightarrow> bytes \<Rightarrow> bool" where
  "constant_time_compare a b =
     (foldl (\<lambda>result i. result OR ((of_nat (byte_val (buf_at a i)) :: 32 word) XOR
                                   of_nat (byte_val (buf_at b i))))
        0 [0..<PWD_HASH_LEN] = 0)"

section \<open>Operations\<close>

text \<open>\<open>cursor_to_user\<close> on a row of the table.\<close>

definition cursor_to_user :: "user_row \<Rightarrow> user" where
  "cursor_to_user r =
     \<lparr>userId = word_of_int (ur_id r),
      username = str_trunc (USERNAME_LEN - 1) (ur_username r),
      passwordHash = str_trunc PWD_HASH_LEN (ur_password_hash r),
      salt = str_trunc SALT_HEX_LEN (ur_salt r),
      city = str_trunc (CITY_LEN - 1) (ur_city r),
      role = word_of_int (ur_role r)\<rparr>"

definition user_register ::
  "db_call \<Rightarrow> bytes option \<Rightarrow> (nat \<Rightarrow> nat) \<Rightarrow> bytes \<Rightarrow> bytes \<Rightarrow> bytes \<Rightarrow> 32 word \<Rightarrow> database
     \<Rightarrow> bool \<times> database" where
  "user_register c urandom rnd name plain cty rl db =
     (let s = generate_salt urandom rnd;
          h = hash_password s plain
      in db_exec c (InsertUser name h (sint rl) cty s) db)"

text \<open>\<open>user_authenticate\<close>: the second component is \<open>*out\<close>, which is written whenever the name
  exists.\<close>

definition user_authenticate ::
  "db_call \<Rightarrow> bytes option \<Rightarrow> bytes option \<Rightarrow> user \<Rightarrow> database \<Rightarrow> bool \<times> user" where
  "user_authenticate c name plain out db =
     (case (name, plain) of
        (Some n, Some p) \<Rightarrow>
          (case cursor_first (db_cursor_users c (SelectUserByName n) db) of
             None \<Rightarrow> (False, out)
           | Some r \<Rightarrow>
               let u = cursor_to_user r;
                   loginHash = hash_password (salt u) p
               in (constant_time_compare (passwordHash u) loginHash, u))
      | _ \<Rightarrow> (False, out))"

definition user_get_by_id :: "db_call \<Rightarrow> 64 word \<Rightarrow> user \<Rightarrow> database \<Rightarrow> bool \<times> user" where
  "user_get_by_id c i out db =
     (case cursor_first (db_cursor_users c (SelectUserById (sint i)) db) of
        None \<Rightarrow> (False, out)
      | Some r \<Rightarrow> (True, cursor_to_user r))"

definition user_is_operator :: "user option \<Rightarrow> bool" where
  "user_is_operator u = (case u of None \<Rightarrow> False | Some x \<Rightarrow> role x = ROLE_OPERATOR)"

definition user_is_admin :: "user option \<Rightarrow> bool" where
  "user_is_admin u = (case u of None \<Rightarrow> False | Some x \<Rightarrow> role x = ROLE_ADMIN)"

text \<open>\<open>user_register_admin\<close>: 0, -1 or -2.\<close>

definition user_register_admin ::
  "db_call \<Rightarrow> db_call \<Rightarrow> bytes option \<Rightarrow> (nat \<Rightarrow> nat) \<Rightarrow> bytes \<Rightarrow> bytes \<Rightarrow> bytes \<Rightarrow> database
     \<Rightarrow> int \<times> database" where
  "user_register_admin c1 c2 urandom rnd name plain cty db =
     (let exists = cursor_first (db_cursor_users c1 (SelectAdminOfCity cty) db) \<noteq> None in
      if exists then (-2, db)
      else let (ok, db') = user_register c2 urandom rnd name plain cty ROLE_ADMIN db
           in (if ok then 0 else -1, db'))"

definition operators_json :: "user_row list \<Rightarrow> json" where
  "operators_json rows =
     JArr (map (\<lambda>r. JObj [(''id'', JInt (ur_id r)), (''username'', JStr (cstr (ur_username r)))]) rows)"

text \<open>\<open>user_get_operators_json\<close>: the length it returns and the text it left in the buffer.\<close>

definition user_get_operators_json ::
  "json_printer \<Rightarrow> db_call \<Rightarrow> nat \<Rightarrow> bytes \<Rightarrow> database \<Rightarrow> nat \<times> bytes" where
  "user_get_operators_json pr c mx cty db =
     (case db_cursor_users c (SelectOperators cty) db of
        None \<Rightarrow> if mx > 2 then (2, ''[]'') else (0, [])
      | Some rows \<Rightarrow>
          (case pr (operators_json rows) mx of
             None \<Rightarrow> (0, [])
           | Some s \<Rightarrow> (length s, s)))"

section \<open>Hexadecimal digits\<close>

lemma hex_digit_inj: "a < 16 \<Longrightarrow> b < 16 \<Longrightarrow> hex_digit a = hex_digit b \<Longrightarrow> a = b"
  unfolding hex_digit_def
  by (rule nth_eq_iff_index_eq [of "''0123456789abcdef''", THEN iffD1]) simp_all

lemma hex_digit_in: "d < 16 \<Longrightarrow> hex_digit d \<in> set ''0123456789abcdef''"
  unfolding hex_digit_def by (rule nth_mem) simp

lemma hex_digit_not_NUL: "d < 16 \<Longrightarrow> hex_digit d \<noteq> NUL"
  using hex_digit_in [of d] by (auto simp: NUL_def)

lemma hex_digit_mod [simp]: "hex_digit (n mod 16) \<noteq> NUL" "NUL \<noteq> hex_digit (n mod 16)"
  using hex_digit_not_NUL [of "n mod 16"] by auto

lemma length_hex16 [simp]: "length (hex16 w) = 16"
  by (simp add: hex16_def)

lemma nul_free_hex16 [simp]: "nul_free (hex16 w)"
  by (auto simp: hex16_def nul_free_def simp del: upt_rec_numeral)

lemma digits_eq:
  "(\<forall>i<k. (a::nat) div 16 ^ i mod 16 = b div 16 ^ i mod 16) \<Longrightarrow> a < 16 ^ k \<Longrightarrow> b < 16 ^ k \<Longrightarrow> a = b"
proof (induction k arbitrary: a b)
  case (Suc k)
  have "a mod 16 = b mod 16" using Suc.prems(1) by (auto dest: spec [of _ 0])
  moreover have "a div 16 = b div 16"
  proof (rule Suc.IH)
    show "\<forall>i<k. a div 16 div 16 ^ i mod 16 = b div 16 div 16 ^ i mod 16"
      using Suc.prems(1) by (auto dest: spec [of _ "Suc _"] simp: div_mult2_eq)
  qed (use Suc.prems(2,3) in auto)
  ultimately show ?case by (metis div_mult_mod_eq)
qed simp

lemma hex16_inj: "hex16 a = hex16 b \<Longrightarrow> a = b"
proof -
  assume eq: "hex16 a = hex16 b"
  have "unat a div 16 ^ i mod 16 = unat b div 16 ^ i mod 16" if i: "i < 16" for i
  proof -
    have "hex16 a ! (15 - i) = hex16 b ! (15 - i)" by (simp only: eq)
    moreover have "[0..<16] ! (15 - i) = 15 - i" using i by (subst nth_upt) auto
    ultimately have "hex_digit (unat a div 16 ^ i mod 16) = hex_digit (unat b div 16 ^ i mod 16)"
      using i by (simp add: hex16_def)
    then show ?thesis by (rule hex_digit_inj [rotated 2]) simp_all
  qed
  moreover have "unat w < 16 ^ 16" for w :: "64 word" using unsigned_less [of w] by simp
  ultimately have "unat a = unat b" by (intro digits_eq [of 16]) blast+
  then show "a = b" by (rule word_unat_eq_iff [THEN iffD2])
qed

lemma hash_password_eq: "hash_password s p = hash_password s' p' \<longleftrightarrow> djb2 s p = djb2 s' p'"
  by (auto simp: hash_password_def PWD_HASH_LEN_def Let_def dest: hex16_inj)

lemma hash_password_props:
  "nul_free (hash_password s p)" "length (hash_password s p) = 32"
  by (simp_all add: hash_password_def PWD_HASH_LEN_def Let_def)

lemma salt_props:
  "nul_free (generate_salt u rnd) \<and> length (generate_salt u rnd) = 32"
proof -
  have f: "nul_free (map (\<lambda>i. hex_digit (rnd i mod 16)) xs)" for xs
    by (auto simp: nul_free_def)
  have "nul_free (hex_encode b) \<and> length (hex_encode b) = 2 * length b" for b
  proof (induction b)
    case (Cons c b)
    have "byte_val c div 16 < 16" using byte_val_bound [of c] by simp
    with Cons show ?case using hex_digit_not_NUL by (auto simp: hex_encode_def)
  qed (simp add: hex_encode_def)
  with f show ?thesis by (auto simp: generate_salt_def SALT_RAW_LEN_def split: option.splits)
qed

section \<open>The comparison\<close>

lemma compare_fold:
  "foldl (\<lambda>result i. result OR (f i XOR g i)) (0::32 word) [0..<n] = 0 \<longleftrightarrow> (\<forall>i<n. f i = g i)"
proof (induction n)
  case (Suc n)
  have "x XOR y = 0 \<longleftrightarrow> x = y" for x y :: "32 word" by (metis xor_self_eq xor.right_neutral xor.assoc)
  moreover have "x OR y = 0 \<longleftrightarrow> x = 0 \<and> y = 0" for x y :: "32 word"
    by (auto simp: bit_eq_iff bit_or_iff)
  ultimately show ?case using Suc by (simp add: All_less_Suc conj_commute)
qed simp

lemma buf_at_eq:
  assumes "nul_free a" and "nul_free b" and "length a \<le> n" and "length b \<le> n"
    and "\<forall>i<n. buf_at a i = buf_at b i"
  shows "a = b"
proof -
  have "length a = length b"
  proof (rule ccontr)
    assume "length a \<noteq> length b"
    then consider "length a < length b" | "length b < length a" by linarith
    then show False
    proof cases
      case 1
      then have "b ! length a = NUL" using assms(4,5) by (auto simp: buf_at_def dest!: spec [of _ "length a"])
      with 1 assms(2) show False by (metis nth_mem nul_free_def)
    next
      case 2
      then have "a ! length b = NUL" using assms(3,5) by (auto simp: buf_at_def dest!: spec [of _ "length b"])
      with 2 assms(1) show False by (metis nth_mem nul_free_def)
    qed
  qed
  moreover have "a ! i = b ! i" if "i < length a" for i
    using assms(3,5) that calculation by (auto simp: buf_at_def dest: spec [of _ i])
  ultimately show ?thesis by (rule nth_equalityI)
qed

lemma constant_time_compare_eq:
  assumes "nul_free a" and "nul_free b" and "length a \<le> 32" and "length b \<le> 32"
  shows "constant_time_compare a b \<longleftrightarrow> a = b"
proof
  assume c: "constant_time_compare a b"
  have "(of_nat (byte_val x) :: 32 word) = of_nat (byte_val y) \<Longrightarrow> x = y" for x y
  proof -
    assume "(of_nat (byte_val x) :: 32 word) = of_nat (byte_val y)"
    then have "unat (of_nat (byte_val x) :: 32 word) = unat (of_nat (byte_val y) :: 32 word)" by simp
    then have "byte_val x = byte_val y"
      using byte_val_bound [of x] byte_val_bound [of y] by (simp add: unat_of_nat)
    then show "x = y" by (rule byte_val_inj)
  qed
  with c assms show "a = b"
    by (intro buf_at_eq [of a b 32]) (auto simp: constant_time_compare_def compare_fold PWD_HASH_LEN_def)
next
  assume "a = b"
  then show "constant_time_compare a b" unfolding constant_time_compare_def compare_fold by simp
qed

section \<open>Accounts in the tables\<close>

definition one_admin_per_city :: "tables \<Rightarrow> bool" where
  "one_admin_per_city t \<longleftrightarrow> distinct (map ur_city (filter (\<lambda>u. ur_role u = 2) (t_users t)))"

lemma user_register_cases:
  assumes "user_register c urandom rnd n p cty rl (Some t) = (ok, db')"
  obtains (failed) "\<not> ok" "db' = Some t"
  | (stored) i t' where "ok" "db' = Some t'" "next_rowid (t_user_seq t) = Some i"
      "cstr n \<notin> ur_username ` set (t_users t)" "dc_prepared c" "0 < dc_steps c"
      "t' = t\<lparr>t_users := t_users t @ [\<lparr>ur_id = i, ur_username = cstr n,
         ur_password_hash = hash_password (generate_salt urandom rnd) p, ur_role = sint rl,
         ur_city = cstr cty, ur_salt = generate_salt urandom rnd\<rparr>],
         t_user_seq := i, t_last_rowid := i, t_changes := 1\<rparr>"
  using assms hash_password_props(1) salt_props
  by (auto simp: user_register_def Let_def db_exec_def prepare_stmt_iff cstr_id
      split: if_splits option.splits)

lemma user_by_name:
  assumes "tables_inv t" and "u \<in> set (t_users t)"
  shows "filter (\<lambda>x. ur_username x = ur_username u) (t_users t) = [u]"
proof -
  have d: "distinct (map ur_username (t_users t))" using assms(1) by (simp add: tables_inv_def)
  obtain as bs where ab: "t_users t = as @ u # bs" using assms(2) by (meson split_list)
  with d have "filter (\<lambda>x. ur_username x = ur_username u) as = []"
    "filter (\<lambda>x. ur_username x = ur_username u) bs = []"
    by (auto simp: filter_empty_conv) (metis image_eqI)+
  with ab show ?thesis by simp
qed

lemma user_authenticate_row:
  assumes "tables_inv t" and "u \<in> set (t_users t)" and "ur_username u = cstr n"
    and "dc_prepared c" and "0 < dc_steps c"
  shows "user_authenticate c (Some n) (Some p) out (Some t) =
    (constant_time_compare (passwordHash (cursor_to_user u)) (hash_password (salt (cursor_to_user u)) p),
     cursor_to_user u)"
  using assms user_by_name [OF assms(1,2)]
  by (cases "dc_steps c") (simp_all add: user_authenticate_def db_cursor_users_def prepare_stmt_iff cursor_first_def Let_def)

section \<open>Properties\<close>

text \<open>\<open>constant_time_compare\<close> decides equality of the two hashes: on C strings of at most 32
  characters in zero-padded buffers it is 1 exactly when they are the same string.\<close>

theorem constant_time_compare_decides:
  assumes "nul_free a" and "nul_free b" and "length a \<le> PWD_HASH_LEN" and "length b \<le> PWD_HASH_LEN"
  shows "constant_time_compare a b = (a = b)"
  using assms by (intro constant_time_compare_eq) (simp_all add: PWD_HASH_LEN_def)

theorem constant_time_compare_decides_witness:
  "\<not> constant_time_compare ''00ff'' ''00fe'' \<and> constant_time_compare ''00ff'' ''00ff''"
  using constant_time_compare_decides [of "''00ff''" "''00fe''"]
    constant_time_compare_decides [of "''00ff''" "''00ff''"]
  by (simp add: NUL_def PWD_HASH_LEN_def)





text \<open>C12: \<open>user_register_admin\<close> keeps one administrator per city whenever its check can be run: it
  refuses a second one with -2 and no change; but the check fails open, so when the query fails
  and the insertion succeeds, a second administrator of the same city is created.\<close>

theorem one_admin_per_city_kept:
  assumes "one_admin_per_city t" and "tables_inv t"
    and "user_register_admin c1 c2 urandom rnd n p cty (Some t) = (res, Some t')"
  shows "tables_inv t' \<and>
    (dc_prepared c1 \<and> 0 < dc_steps c1 \<longrightarrow> one_admin_per_city t' \<and>
      (cstr cty \<in> ur_city ` {u \<in> set (t_users t). ur_role u = 2} \<longrightarrow> res = -2 \<and> t' = t)) \<and>
    (\<not> dc_prepared c1 \<and> res = 0 \<and> cstr cty \<in> ur_city ` {u \<in> set (t_users t). ur_role u = 2} \<longrightarrow>
      \<not> one_admin_per_city t')"
proof -
  let ?adm = "filter (\<lambda>u. ur_role u = 2 \<and> ur_city u = cstr cty) (t_users t)"
  let ?exists = "cursor_first (db_cursor_users c1 (SelectAdminOfCity cty) (Some t)) \<noteq> None"
  have ex: "?exists \<longleftrightarrow> dc_prepared c1 \<and> 0 < dc_steps c1 \<and> ?adm \<noteq> []"
    by (cases ?adm; cases "dc_steps c1")
      (auto simp: cursor_first_def db_cursor_users_def prepare_stmt_iff)
  have adm: "?adm \<noteq> [] \<longleftrightarrow> cstr cty \<in> ur_city ` {u \<in> set (t_users t). ur_role u = 2}"
    by (auto simp: filter_empty_conv image_iff)
  show ?thesis
  proof (cases ?exists)
    case True
    then have "res = -2" "t' = t" using assms(3) by (simp_all add: user_register_admin_def Let_def)
    with assms ex True show ?thesis by auto
  next
    case False
    obtain ok db where r: "user_register c2 urandom rnd n p cty ROLE_ADMIN (Some t) = (ok, db)"
      by fastforce
    have res: "res = (if ok then 0 else -1)" "db = Some t'"
      using False assms(3) r by (simp_all add: user_register_admin_def Let_def split: if_splits)
    from r show ?thesis
    proof (cases rule: user_register_cases)
      case failed
      with res assms False ex adm show ?thesis by auto
    next
      case (stored i t2)
      have inv: "tables_inv t'"
        by (rule exec_stmt_inv [OF assms(2), of "InsertUser n (hash_password (generate_salt urandom rnd) p)
            2 cty (generate_salt urandom rnd)"])
          (use stored res hash_password_props(1) salt_props in \<open>auto simp: cstr_id ROLE_ADMIN_def\<close>)
      have one: "one_admin_per_city t' \<longleftrightarrow> ?adm = []"
        using stored res assms(1)
        by (auto simp: one_admin_per_city_def ROLE_ADMIN_def filter_empty_conv image_iff)
      show ?thesis using inv one False ex adm res stored by auto
    qed
  qed
qed

theorem one_admin_per_city_kept_witness:
  "\<exists>t t'. tables_inv t \<and> one_admin_per_city t \<and>
     user_register_admin \<lparr>dc_prepared = False, dc_steps = 0\<rparr> db_call_ok None id ''eve'' ''pw'' ''Pisa''
       (Some t) = (0, Some t') \<and> \<not> one_admin_per_city t'"
proof -
  let ?t = "no_tables\<lparr>t_users := [\<lparr>ur_id = 1, ur_username = ''ada'', ur_password_hash = [],
      ur_role = 2, ur_city = ''Pisa'', ur_salt = []\<rparr>], t_user_seq := 1\<rparr>"
  let ?c = "\<lparr>dc_prepared = False, dc_steps = 0\<rparr>"
  have inv: "tables_inv ?t" "one_admin_per_city ?t"
    by (simp_all add: tables_inv_def no_tables_def keys_ok_def one_admin_per_city_def)
  obtain t' where t': "user_register_admin ?c db_call_ok None id ''eve'' ''pw'' ''Pisa'' (Some ?t) = (0, Some t')"
    by (simp add: user_register_admin_def user_register_def Let_def db_exec_def prepare_stmt_iff
        db_call_ok_def no_tables_def next_rowid_def db_cursor_users_def cursor_first_def cstr_def NUL_def)
  have "cstr ''Pisa'' = ''Pisa''" by (simp add: cstr_def NUL_def)
  with one_admin_per_city_kept [OF inv(2,1) t'] have "\<not> one_admin_per_city t'"
    by (simp add: image_iff)
  with inv t' show ?thesis by blast
qed

end
