(* ===== verification/Reports.thy ===== *)
theory Reports
  imports Users
begin

text \<open>
  Reports: \<open>report.c\<close>.  The write operations are guarded UPDATE statements, the list operations
  print query results through cJSON and keep them in a cache of 32 entries for five seconds.
  Each operation takes the SQLite outcomes of its calls in the order it makes them.
\<close>

section \<open>Data\<close>

definition CACHE_TTL_SECONDS :: int where
  "CACHE_TTL_SECONDS = 5"

definition CACHE_MAX_ENTRIES :: nat where
  "CACHE_MAX_ENTRIES = 32"

definition CACHE_JSON_MAX :: nat where
  "CACHE_JSON_MAX = 16 * 1024"

definition CAT_LEN :: nat where
  "CAT_LEN = 16"

definition DESC_LEN :: nat where
  "DESC_LEN = 128"

definition STATUS_ACTIVE :: "32 word" where
  "STATUS_ACTIVE = 0"

definition STATUS_ASSIGNED :: "32 word" where
  "STATUS_ASSIGNED = 1"

definition STATUS_IN_PROGRESS :: "32 word" where
  "STATUS_IN_PROGRESS = 2"

definition STATUS_RESOLVED :: "32 word" where
  "STATUS_RESOLVED = 3"

record report =
  reportId :: "64 word"
  authorId :: "64 word"
  assignedTo :: "64 word"
  lat :: double
  lon :: double
  createdAt :: int
  assignedAt :: int
  resolvedAt :: int
  report_city :: bytes
  category :: bytes
  status :: "32 word"
  feedback :: int
  description :: bytes

text \<open>A cache slot; \<open>cachedAt = 0\<close> marks it free, and \<open>jsonLen\<close> is the length of its text.\<close>

record cache_entry =
  ce_city :: bytes
  ce_userId :: "64 word"
  ce_isOperator :: bool
  ce_isArchived :: bool
  cachedAt :: int
  ce_json :: bytes

type_synonym cache = "cache_entry list"

definition empty_slot :: cache_entry where
  "empty_slot = \<lparr>ce_city = [], ce_userId = 0, ce_isOperator = False, ce_isArchived = False,
     cachedAt = 0, ce_json = []\<rparr>"

definition g_cache_init :: cache where
  "g_cache_init = replicate CACHE_MAX_ENTRIES empty_slot"

section \<open>Rows to JSON\<close>

text \<open>A NULL integer column reads as 0.\<close>

definition col_int :: "int option \<Rightarrow> int" where
  "col_int x = (case x of None \<Rightarrow> 0 | Some i \<Rightarrow> i)"

definition cursor_to_report :: "report_row \<Rightarrow> report" where
  "cursor_to_report r =
     \<lparr>reportId = word_of_int (rr_id r), authorId = word_of_int (rr_author_id r),
      assignedTo = word_of_int (col_int (rr_assigned_to r)), lat = rr_lat r, lon = rr_lon r,
      createdAt = rr_created_at r, assignedAt = col_int (rr_assigned_at r),
      resolvedAt = col_int (rr_resolved_at r),
      report_city = str_trunc (CITY_LEN - 1) (rr_city r),
      category = str_trunc (CAT_LEN - 1) (rr_category r),
      status = word_of_int (rr_status r), feedback = col_int (rr_feedback r),
      description = str_trunc (DESC_LEN - 1) (rr_description r)\<rparr>"

definition report_fields :: "report \<Rightarrow> (bytes \<times> json) list" where
  "report_fields r =
     [(''id'', JInt (uint (reportId r))), (''author_id'', JInt (uint (authorId r))),
      (''assigned_to'', JInt (uint (assignedTo r))), (''lat'', JReal (lat r)), (''lon'', JReal (lon r)),
      (''city'', JStr (report_city r)), (''category'', JStr (category r)),
      (''description'', JStr (description r)), (''status'', JInt (uint (status r))),
      (''created_at'', JInt (createdAt r)), (''assigned_at'', JInt (assignedAt r)),
      (''resolved_at'', JInt (resolvedAt r)), (''feedback'', JInt (feedback r))]"

text \<open>\<open>report_to_cjson\<close>: None when cJSON cannot allocate the object.\<close>

definition report_to_cjson :: "bool \<Rightarrow> report \<Rightarrow> json option" where
  "report_to_cjson mem r = (if mem then Some (JObj (report_fields r)) else None)"

text \<open>The outcome of the cJSON allocations of one listing: the array, and the object of each row.\<close>

record json_mem =
  jm_array :: bool
  jm_object :: "nat \<Rightarrow> bool"

definition json_mem_ok :: json_mem where
  "json_mem_ok = \<lparr>jm_array = True, jm_object = (\<lambda>_. True)\<rparr>"

definition report_rows_json :: "(nat \<Rightarrow> bool) \<Rightarrow> report_row list \<Rightarrow> json" where
  "report_rows_json mem rows =
     JArr (List.map_filter (\<lambda>(i, r). report_to_cjson (mem i) (cursor_to_report r)) (enumerate 0 rows))"

text \<open>\<open>cursor_to_json_array\<close>: the length returned and the C string left in the buffer.  On the
  NULL cursor the loop does not run, so the array is empty.\<close>

definition cursor_to_json_array ::
  "json_printer \<Rightarrow> json_mem \<Rightarrow> nat \<Rightarrow> report_row list option \<Rightarrow> nat \<times> bytes" where
  "cursor_to_json_array pr jm mx c =
     (if \<not> jm_array jm then (0, [])
      else case pr (report_rows_json (jm_object jm) (case c of None \<Rightarrow> [] | Some rows \<Rightarrow> rows)) mx of
             None \<Rightarrow> (0, [])
           | Some s \<Rightarrow> (length s, s))"

section \<open>The cache\<close>

definition slot_matches :: "bytes \<Rightarrow> 64 word \<Rightarrow> bool \<Rightarrow> bool \<Rightarrow> cache_entry \<Rightarrow> bool" where
  "slot_matches cty uid isOp isArch e \<longleftrightarrow>
     ce_isOperator e = isOp \<and> ce_isArchived e = isArch \<and> strn_eq CITY_LEN (ce_city e) cty \<and>
     ce_userId e = uid"

text \<open>\<open>cache_find\<close>: the text of the matching slot, and the cache with the stale slots before it
  freed.\<close>

fun cache_find :: "int \<Rightarrow> bytes \<Rightarrow> 64 word \<Rightarrow> bool \<Rightarrow> bool \<Rightarrow> cache \<Rightarrow> bytes option \<times> cache" where
  "cache_find now cty uid isOp isArch [] = (None, [])"
| "cache_find now cty uid isOp isArch (e # es) =
     (if cachedAt e = 0 then
        (let (r, es') = cache_find now cty uid isOp isArch es in (r, e # es'))
      else if now - cachedAt e > CACHE_TTL_SECONDS then
        (let (r, es') = cache_find now cty uid isOp isArch es in (r, e\<lparr>cachedAt := 0\<rparr> # es'))
      else if slot_matches cty uid isOp isArch e then (Some (ce_json e), e # es)
      else (let (r, es') = cache_find now cty uid isOp isArch es in (r, e # es')))"

text \<open>The one pass of \<open>cache_store\<close>: the first free slot, or the first of the oldest ones.\<close>

fun pick_slot :: "nat \<Rightarrow> nat \<Rightarrow> int \<Rightarrow> cache \<Rightarrow> nat" where
  "pick_slot i oldestIdx oldestTime [] = oldestIdx"
| "pick_slot i oldestIdx oldestTime (e # es) =
     (if cachedAt e = 0 then i
      else if cachedAt e < oldestTime then pick_slot (i + 1) i (cachedAt e) es
      else pick_slot (i + 1) oldestIdx oldestTime es)"

definition cache_store ::
  "int \<Rightarrow> bytes \<Rightarrow> 64 word \<Rightarrow> bool \<Rightarrow> bool \<Rightarrow> bytes \<Rightarrow> cache \<Rightarrow> cache" where
  "cache_store now cty uid isOp isArch json g =
     (if length json \<ge> CACHE_JSON_MAX then g
      else g[pick_slot 0 0 (cachedAt (g ! 0)) g :=
               \<lparr>ce_city = str_trunc (CITY_LEN - 1) cty, ce_userId = uid, ce_isOperator = isOp,
                ce_isArchived = isArch, cachedAt = now, ce_json = json\<rparr>])"

definition report_cache_invalidate_city :: "bytes \<Rightarrow> 64 word \<Rightarrow> cache \<Rightarrow> cache" where
  "report_cache_invalidate_city cty author g =
     map (\<lambda>e. if cachedAt e = 0 then e
              else if \<not> strn_eq CITY_LEN (ce_city e) cty then e
              else if ce_isOperator e \<or> ce_userId e = author then e\<lparr>cachedAt := 0\<rparr>
              else e) g"

section \<open>Write operations\<close>

definition report_get_by_id :: "db_call \<Rightarrow> 64 word \<Rightarrow> database \<Rightarrow> report option" where
  "report_get_by_id c i db =
     map_option cursor_to_report (cursor_first (db_cursor_reports c (SelectReportById (sint i)) db))"

text \<open>The last steps of every update: read the report back and drop the cached views of it.\<close>

definition invalidate_report :: "db_call \<Rightarrow> 64 word \<Rightarrow> database \<Rightarrow> cache \<Rightarrow> cache" where
  "invalidate_report c i db g =
     (case report_get_by_id c i db of
        None \<Rightarrow> g
      | Some r \<Rightarrow> report_cache_invalidate_city (report_city r) (authorId r) g)"

text \<open>Sending one guarded UPDATE: -1, 0 or 1.\<close>

definition guarded_update ::
  "db_call \<Rightarrow> db_call \<Rightarrow> stmt \<Rightarrow> 64 word \<Rightarrow> database \<times> cache \<Rightarrow> int \<times> database \<times> cache" where
  "guarded_update c1 c2 s i st =
     (let (ok, db) = db_exec c1 s (fst st) in
      if \<not> ok then (-1, db, snd st)
      else if db_changes db = 0 then (0, db, snd st)
      else (1, db, invalidate_report c2 i db (snd st)))"

definition report_insert ::
  "db_call \<Rightarrow> int \<Rightarrow> 64 word \<Rightarrow> double \<Rightarrow> double \<Rightarrow> bytes \<Rightarrow> bytes \<Rightarrow> bytes \<Rightarrow> database \<times> cache
     \<Rightarrow> 64 word \<times> database \<times> cache" where
  "report_insert c now author la lo cty cat desc st =
     (let (ok, db) = db_exec c (InsertReport (sint author) la lo cty cat desc now) (fst st) in
      if \<not> ok then (0, db, snd st)
      else let i = db_last_insert_id db in
           if i \<le> 0 then (0, db, snd st)
           else (word_of_int i, db, report_cache_invalidate_city cty author (snd st)))"

definition report_assign ::
  "db_call \<Rightarrow> db_call \<Rightarrow> int \<Rightarrow> 64 word \<Rightarrow> 64 word \<Rightarrow> database \<times> cache \<Rightarrow> int \<times> database \<times> cache" where
  "report_assign c1 c2 now i operatorId st =
     guarded_update c1 c2 (AssignReport (sint operatorId) now (sint i)) i st"

definition report_accept ::
  "db_call \<Rightarrow> db_call \<Rightarrow> 64 word \<Rightarrow> 64 word \<Rightarrow> database \<times> cache \<Rightarrow> int \<times> database \<times> cache" where
  "report_accept c1 c2 i operatorId st =
     guarded_update c1 c2 (AcceptReport (sint i) (sint operatorId)) i st"

definition report_reject ::
  "db_call \<Rightarrow> db_call \<Rightarrow> 64 word \<Rightarrow> 64 word \<Rightarrow> database \<times> cache \<Rightarrow> int \<times> database \<times> cache" where
  "report_reject c1 c2 i operatorId st =
     guarded_update c1 c2 (RejectReport (sint i) (sint operatorId)) i st"

definition report_resolve ::
  "db_call \<Rightarrow> db_call \<Rightarrow> int \<Rightarrow> 64 word \<Rightarrow> 64 word \<Rightarrow> database \<times> cache \<Rightarrow> int \<times> database \<times> cache" where
  "report_resolve c1 c2 now i operatorId st =
     guarded_update c1 c2 (ResolveReport now (sint i) (sint operatorId)) i st"

definition report_set_feedback ::
  "db_call \<Rightarrow> db_call \<Rightarrow> 64 word \<Rightarrow> 64 word \<Rightarrow> int \<Rightarrow> database \<times> cache \<Rightarrow> int \<times> database \<times> cache" where
  "report_set_feedback c1 c2 i author stars st =
     (if stars < 1 \<or> stars > 5 then (-1, st)
      else guarded_update c1 c2 (FeedbackReport stars (sint i) (sint author)) i st)"

section \<open>Read operations\<close>

definition active_query :: "64 word \<Rightarrow> bool \<Rightarrow> stmt" where
  "active_query uid isOp =
     (if isOp then SelectActiveOfOperator (sint uid) else SelectActiveOfCitizen (sint uid))"

definition archived_query :: "64 word \<Rightarrow> bool \<Rightarrow> stmt" where
  "archived_query uid isOp =
     (if isOp then SelectArchivedOfOperator (sint uid) else SelectArchivedOfCitizen (sint uid))"

text \<open>What the two cached listings share: \<open>q\<close> is the query of the listing.\<close>

definition cached_listing ::
  "json_printer \<Rightarrow> json_mem \<Rightarrow> db_call \<Rightarrow> int \<Rightarrow> stmt \<Rightarrow> nat \<Rightarrow> 64 word \<Rightarrow> bytes \<Rightarrow> bool \<Rightarrow> bool
     \<Rightarrow> database \<Rightarrow> cache \<Rightarrow> nat \<times> bytes \<times> cache" where
  "cached_listing pr jm c now q mx uid cty isOp isArch db g =
     (case cache_find now cty uid isOp isArch g of
        (Some s, g1) \<Rightarrow> (length s, s, g1)
      | (None, g1) \<Rightarrow>
          let (len, s) = cursor_to_json_array pr jm mx (db_cursor_reports c q db) in
          (len, s, if len > 0 then cache_store now cty uid isOp isArch s g1 else g1))"

definition report_get_active_json ::
  "json_printer \<Rightarrow> json_mem \<Rightarrow> db_call \<Rightarrow> int \<Rightarrow> nat \<Rightarrow> 64 word \<Rightarrow> bytes \<Rightarrow> bool \<Rightarrow> database \<Rightarrow> cache
     \<Rightarrow> nat \<times> bytes \<times> cache" where
  "report_get_active_json pr jm c now mx uid cty isOp db g =
     cached_listing pr jm c now (active_query uid isOp) mx uid cty isOp False db g"

definition report_get_archived_json ::
  "json_printer \<Rightarrow> json_mem \<Rightarrow> db_call \<Rightarrow> int \<Rightarrow> nat \<Rightarrow> 64 word \<Rightarrow> bytes \<Rightarrow> bool \<Rightarrow> database \<Rightarrow> cache
     \<Rightarrow> nat \<times> bytes \<times> cache" where
  "report_get_archived_json pr jm c now mx uid cty isOp db g =
     cached_listing pr jm c now (archived_query uid isOp) mx uid cty isOp True db g"

text \<open>The LEFT JOIN of the administrator's view: the name of the user a report is assigned to.\<close>

definition operator_name :: "tables \<Rightarrow> report_row \<Rightarrow> bytes" where
  "operator_name t r =
     (case rr_assigned_to r of
        None \<Rightarrow> []
      | Some i \<Rightarrow> (case filter (\<lambda>u. ur_id u = i) (t_users t) of [] \<Rightarrow> [] | u # _ \<Rightarrow> ur_username u))"

definition city_rows_json :: "tables \<Rightarrow> (nat \<Rightarrow> bool) \<Rightarrow> report_row list \<Rightarrow> json" where
  "city_rows_json t mem rows =
     JArr (List.map_filter (\<lambda>(i, r).
             if mem i then Some (JObj (report_fields (cursor_to_report r) @
                                   [(''operator_name'', JStr (cstr (operator_name t r)))]))
             else None) (enumerate 0 rows))"

definition report_get_all_city_json ::
  "json_printer \<Rightarrow> json_mem \<Rightarrow> db_call \<Rightarrow> nat \<Rightarrow> bytes \<Rightarrow> database \<Rightarrow> nat \<times> bytes" where
  "report_get_all_city_json pr jm c mx cty db =
     (case db_cursor_reports c (SelectCityReports cty) db of
        None \<Rightarrow> (0, if mx > 2 then ''[]'' else [])
      | Some rows \<Rightarrow>
          if \<not> jm_array jm then (0, [])
          else (case pr (city_rows_json (the db) (jm_object jm) rows) mx of
                  None \<Rightarrow> (0, [])
                | Some s \<Rightarrow> (length s, s)))"

definition report_count_active :: "db_call \<Rightarrow> database \<Rightarrow> 32 word" where
  "report_count_active c db = word_of_int (db_cursor_count c db)"

section \<open>Guarded updates\<close>

lemma filter_id_and:
  assumes "tables_inv t" and "r \<in> set (t_reports t)"
  shows "filter (\<lambda>x. rr_id x = rr_id r \<and> P x) (t_reports t) = (if P r then [r] else [])"
proof -
  have "filter (\<lambda>x. rr_id x = rr_id r \<and> P x) (t_reports t) =
      filter P (filter (\<lambda>x. rr_id x = rr_id r) (t_reports t))"
    by (simp add: conj_commute)
  then show ?thesis by (simp add: filter_rr_id [OF assms])
qed

definition call_ok :: "db_call \<Rightarrow> bool" where
  "call_ok c \<longleftrightarrow> dc_prepared c \<and> 0 < dc_steps c"

lemma call_ok_example [simp]: "call_ok db_call_ok"
  by (simp add: call_ok_def db_call_ok_def)

lemma guarded_update_cases:
  assumes "tables_inv t" and "r \<in> set (t_reports t)" and "call_ok c1"
    and s: "exec_stmt s t = Some (update_reports (\<lambda>x. rr_id x = rr_id r \<and> P x) f t)"
  shows "guarded_update c1 c2 s i (Some t, g) =
    (let t' = update_reports (\<lambda>x. rr_id x = rr_id r \<and> P x) f t in
     if P r then (1, Some t', invalidate_report c2 i (Some t') g) else (0, Some t', g))"
proof -
  have "db_exec c1 s (Some t) = (True, Some (update_reports (\<lambda>x. rr_id x = rr_id r \<and> P x) f t))"
    using assms(3) s by (simp add: db_exec_def prepare_stmt_iff call_ok_def)
  then show ?thesis
    by (simp add: guarded_update_def Let_def db_changes_def filter_id_and [OF assms(1,2)])
qed

lemma guarded_update_fail:
  "\<not> call_ok c1 \<Longrightarrow> guarded_update c1 c2 s i (Some t, g) = (-1, Some t, g)"
  by (auto simp: guarded_update_def Let_def db_exec_def prepare_stmt_iff call_ok_def)

text \<open>Row ids and 64-bit ids.\<close>

lemma word_of_sint: "word_of_int (sint (w :: 64 word)) = w"
  by (rule signed_word_eqI) (simp add: sint_sbintrunc')

lemma sint_id: "0 \<le> i \<Longrightarrow> i < 2 ^ 63 \<Longrightarrow> sint (word_of_int i :: 64 word) = i"
  by (simp add: sint_sbintrunc' signed_take_bit_int_eq_self)

lemma row_id_bounds:
  assumes "tables_inv t" and "r \<in> set (t_reports t)"
  shows "0 \<le> rr_id r" and "rr_id r < 2 ^ 63"
proof -
  have "keys_ok (t_report_seq t) (map rr_id (t_reports t))" using assms(1) by (simp add: tables_inv_def)
  then have "0 < rr_id r \<and> rr_id r \<le> t_report_seq t \<and> t_report_seq t < 2 ^ 63"
    using assms(2) unfolding keys_ok_def by auto
  then show "0 \<le> rr_id r" and "rr_id r < 2 ^ 63" by linarith+
qed

lemma row_id_word:
  "tables_inv t \<Longrightarrow> r \<in> set (t_reports t) \<Longrightarrow> sint (word_of_int (rr_id r) :: 64 word) = rr_id r"
  by (rule sint_id) (rule row_id_bounds; assumption)+

section \<open>What a listing shows\<close>

definition listing_query :: "64 word \<Rightarrow> bool \<Rightarrow> bool \<Rightarrow> stmt" where
  "listing_query uid isOp isArch = (if isArch then archived_query uid isOp else active_query uid isOp)"

definition shown :: "64 word \<Rightarrow> bool \<Rightarrow> bool \<Rightarrow> report_row \<Rightarrow> bool" where
  "shown uid isOp isArch r \<longleftrightarrow>
     (if isOp then rr_assigned_to r = Some (sint uid) \<and>
                   (if isArch then rr_status r = 3 else rr_status r \<in> {1, 2})
      else rr_author_id r = sint uid \<and> (if isArch then rr_status r = 3 else rr_status r < 3))"

lemma select_listing_cong:
  assumes "filter (shown uid isOp isArch) (t_reports t') = filter (shown uid isOp isArch) (t_reports t)"
  shows "select_reports (listing_query uid isOp isArch) t' = select_reports (listing_query uid isOp isArch) t"
  using assms by (cases isOp; cases isArch)
    (simp_all add: listing_query_def archived_query_def active_query_def shown_def [abs_def])

text \<open>The text of a listing of the tables, and slots that hold it.\<close>

definition listing_text :: "json_printer \<Rightarrow> nat \<Rightarrow> tables \<Rightarrow> 64 word \<Rightarrow> bool \<Rightarrow> bool \<Rightarrow> bytes option" where
  "listing_text pr mx t uid isOp isArch =
     pr (report_rows_json (\<lambda>_. True) (select_reports (listing_query uid isOp isArch) t)) mx"

definition slot_coherent :: "json_printer \<Rightarrow> nat \<Rightarrow> (64 word \<Rightarrow> bytes) \<Rightarrow> tables \<Rightarrow> cache_entry \<Rightarrow> bool" where
  "slot_coherent pr mx home t e \<longleftrightarrow>
     (cachedAt e \<noteq> 0 \<longrightarrow> ce_city e = home (ce_userId e) \<and>
        listing_text pr mx t (ce_userId e) (ce_isOperator e) (ce_isArchived e) = Some (ce_json e))"

definition cache_coherent :: "json_printer \<Rightarrow> nat \<Rightarrow> (64 word \<Rightarrow> bytes) \<Rightarrow> tables \<Rightarrow> cache \<Rightarrow> bool" where
  "cache_coherent pr mx home t g \<longleftrightarrow> (\<forall>e\<in>set g. slot_coherent pr mx home t e)"

text \<open>Every report belongs to the city of its author, and to the city of its operator.\<close>

definition reports_home :: "(64 word \<Rightarrow> bytes) \<Rightarrow> tables \<Rightarrow> bool" where
  "reports_home home t \<longleftrightarrow> (\<forall>u. nul_free (home u) \<and> length (home u) < CITY_LEN) \<and>
     (\<forall>r\<in>set (t_reports t). rr_city r = home (word_of_int (rr_author_id r)) \<and>
        (\<forall>op. rr_assigned_to r = Some op \<longrightarrow> rr_city r = home (word_of_int op)))"

lemma coherent_empty: "cache_coherent pr mx home t g_cache_init"
  by (simp add: cache_coherent_def g_cache_init_def slot_coherent_def empty_slot_def)

lemma cache_find_coherent:
  "cache_coherent pr mx home t g \<Longrightarrow> cache_find now cty uid isOp isArch g = (res, g') \<Longrightarrow>
    cache_coherent pr mx home t g' \<and> length g' = length g \<and>
    (\<forall>s. res = Some s \<longrightarrow> listing_text pr mx t uid isOp isArch = Some s)"
proof (induction g arbitrary: res g')
  case (Cons e g)
  obtain res2 g2 where r: "cache_find now cty uid isOp isArch g = (res2, g2)" by fastforce
  with Cons.prems Cons.IH [OF _ r] show ?case
    by (auto simp: cache_coherent_def slot_coherent_def slot_matches_def split: if_splits)
qed (simp add: cache_coherent_def)

lemma pick_slot_less: "old < i + length g \<Longrightarrow> pick_slot i old time g < i + length g"
proof (induction g arbitrary: i old time)
  case (Cons e g)
  from Cons.prems Cons.IH [of i "i + 1"] Cons.IH [of old "i + 1"] show ?case by auto
qed simp

lemma store_coherent:
  assumes "cache_coherent pr mx home t g" and "listing_text pr mx t uid isOp isArch = Some s"
    and "cty = home uid" and "nul_free cty" and "length cty < CITY_LEN"
  shows "cache_coherent pr mx home t (cache_store now cty uid isOp isArch s g)"
proof -
  let ?e = "\<lparr>ce_city = str_trunc (CITY_LEN - 1) cty, ce_userId = uid, ce_isOperator = isOp,
                ce_isArchived = isArch, cachedAt = now, ce_json = s\<rparr>"
  have "slot_coherent pr mx home t ?e"
    using assms(2-5) by (simp add: slot_coherent_def str_trunc_id CITY_LEN_def)
  with assms(1) show ?thesis
    by (auto simp: cache_store_def cache_coherent_def dest!: set_update_subset_insert [THEN subsetD])
qed

lemma length_cache_store [simp]: "length (cache_store now cty uid isOp isArch s g) = length g"
  by (simp add: cache_store_def)

lemma filter_changed:
  assumes "\<And>r. r \<in> set rows \<Longrightarrow> Q r \<Longrightarrow> \<not> P r \<and> \<not> P (f r)"
  shows "filter P (map (\<lambda>r. if Q r then f r else r) rows) = filter P rows"
  using assms by (induction rows) auto

text \<open>Invalidating the city and the author of a changed report keeps the rest coherent.\<close>

lemma invalidate_coherent:
  assumes coh: "cache_coherent pr mx home t g"
    and city: "nul_free cty" "length cty < CITY_LEN"
    and same: "\<And>uid isOp isArch. cty = home uid \<Longrightarrow> \<not> isOp \<Longrightarrow> uid \<noteq> author \<Longrightarrow>
        listing_text pr mx t' uid isOp isArch = listing_text pr mx t uid isOp isArch"
    and other: "\<And>uid isOp isArch. cty \<noteq> home uid \<Longrightarrow>
        listing_text pr mx t' uid isOp isArch = listing_text pr mx t uid isOp isArch"
    and home: "\<And>u. nul_free (home u) \<and> length (home u) < CITY_LEN"
  shows "cache_coherent pr mx home t' (report_cache_invalidate_city cty author g)"
proof -
  have slot: "slot_coherent pr mx home t' e'"
    if e: "e \<in> set g" and e': "e' = (if cachedAt e = 0 then e
              else if \<not> strn_eq CITY_LEN (ce_city e) cty then e
              else if ce_isOperator e \<or> ce_userId e = author then e\<lparr>cachedAt := 0\<rparr> else e)" for e e'
  proof (cases "cachedAt e' = 0")
    case False
    then have live: "cachedAt e \<noteq> 0" "e' = e" using e' by (auto split: if_splits)
    have c: "ce_city e = home (ce_userId e)"
      "listing_text pr mx t (ce_userId e) (ce_isOperator e) (ce_isArchived e) = Some (ce_json e)"
      using coh e live by (auto simp: cache_coherent_def slot_coherent_def)
    have eq: "strn_eq CITY_LEN (ce_city e) cty \<longleftrightarrow> home (ce_userId e) = cty"
      using city home [of "ce_userId e"] by (simp add: c strn_eq_iff)
    show ?thesis
    proof (cases "home (ce_userId e) = cty")
      case True
      with eq e' False have "\<not> ce_isOperator e \<and> ce_userId e \<noteq> author" by (auto split: if_splits)
      with same True c live show ?thesis by (simp add: slot_coherent_def)
    next
      case ne: False
      with other c live show ?thesis by (auto simp: slot_coherent_def)
    qed
  qed (simp add: slot_coherent_def)
  show ?thesis unfolding cache_coherent_def report_cache_invalidate_city_def set_map
    by (intro ballI, elim imageE) (rule slot)
qed

section \<open>Coherence of the cache under the write operations\<close>

lemma listing_text_cong:
  "filter (shown uid isOp isArch) (t_reports t') = filter (shown uid isOp isArch) (t_reports t) \<Longrightarrow>
    listing_text pr mx t' uid isOp isArch = listing_text pr mx t uid isOp isArch"
  by (drule select_listing_cong) (simp add: listing_text_def)

lemma reports_homeD:
  assumes "reports_home home t" and "r \<in> set (t_reports t)"
  shows "rr_city r = home (word_of_int (rr_author_id r))" and "nul_free (rr_city r)"
    and "length (rr_city r) < CITY_LEN" and "str_trunc (CITY_LEN - 1) (rr_city r) = rr_city r"
    and "rr_assigned_to r = Some op \<Longrightarrow> rr_city r = home (word_of_int op)"
proof -
  have h: "\<forall>u. nul_free (home u) \<and> length (home u) < CITY_LEN"
    using assms(1) unfolding reports_home_def by (rule conjunct1)
  have h2: "rr_city r = home (word_of_int (rr_author_id r)) \<and>
        (\<forall>op. rr_assigned_to r = Some op \<longrightarrow> rr_city r = home (word_of_int op))"
    using assms(1) [unfolded reports_home_def, THEN conjunct2] assms(2) by (rule bspec)
  show c: "rr_city r = home (word_of_int (rr_author_id r))" using h2 by (rule conjunct1)
  show n: "nul_free (rr_city r)" and l: "length (rr_city r) < CITY_LEN"
    unfolding c using h by simp_all
  have "length (rr_city r) \<le> CITY_LEN - 1" using l by linarith
  with n show "str_trunc (CITY_LEN - 1) (rr_city r) = rr_city r" by (rule str_trunc_id)
  show "rr_assigned_to r = Some op \<Longrightarrow> rr_city r = home (word_of_int op)" using h2 [THEN conjunct2] by simp
qed

lemma get_by_id_row:
  assumes "tables_inv t" and "r \<in> set (t_reports t)" and "call_ok c" and "sint i = rr_id r"
  shows "report_get_by_id c i (Some t) = Some (cursor_to_report r)"
  using assms(3,4) filter_rr_id [OF assms(1,2)]
  by (cases "dc_steps c") (simp_all add: report_get_by_id_def db_cursor_reports_def prepare_stmt_iff
      call_ok_def cursor_first_def)

text \<open>An update of one row whose author, city and id stay, and that only concerns operators of the
  row's city.\<close>

lemma update_coherent:
  assumes inv: "tables_inv t" and home: "reports_home home t" and r: "r \<in> set (t_reports t)"
    and coh: "cache_coherent pr mx home t g" and c2: "call_ok c2"
    and upd: "t' = update_reports (\<lambda>x. rr_id x = rr_id r \<and> P x) f t"
    and inv': "tables_inv t'" and i: "sint i = rr_id r"
    and keep: "\<And>x. rr_id (f x) = rr_id x" "\<And>x. rr_author_id (f x) = rr_author_id x"
      "\<And>x. rr_city (f x) = rr_city x"
    and ops: "\<And>op. rr_assigned_to (f r) = Some op \<Longrightarrow> P r \<Longrightarrow> rr_city r = home (word_of_int op)"
  shows "cache_coherent pr mx home t' (invalidate_report c2 i (Some t') g)"
    and "reports_home home t'"
proof -
  let ?Q = "\<lambda>x. rr_id x = rr_id r \<and> P x"
  have only: "x = r" if "x \<in> set (t_reports t)" "?Q x" for x
  proof -
    have "x \<in> set (filter (\<lambda>y. rr_id y = rr_id r) (t_reports t))" using that by simp
    then show ?thesis by (simp add: filter_rr_id [OF inv r])
  qed
  have unchanged: "listing_text pr mx t' uid isOp isArch = listing_text pr mx t uid isOp isArch"
    if "\<not> shown uid isOp isArch r" and "P r \<longrightarrow> \<not> shown uid isOp isArch (f r)" for uid isOp isArch
    unfolding upd by (rule listing_text_cong) (use only that in \<open>auto intro!: filter_changed\<close>)
  note h = reports_homeD [OF home r]
  have op_home: "rr_city r = home uid" if "shown uid True isArch r \<or> P r \<and> shown uid True isArch (f r)" for uid isArch
    using that h(5) [of "sint uid"] ops [of "sint uid"] by (auto simp: shown_def)
  have auth: "uid = word_of_int (rr_author_id r)" if "shown uid False isArch r \<or> shown uid False isArch (f r)" for uid isArch
    using that by (auto simp: shown_def keep)
  have "set (t_reports t') \<subseteq> set (t_reports t) \<union> (if P r then {f r} else {})"
    using only by (auto simp: upd)
  then have sub: "x \<in> set (t_reports t) \<or> P r \<and> x = f r" if "x \<in> set (t_reports t')" for x
    using that by (auto split: if_splits)
  show "reports_home home t'"
    unfolding reports_home_def
  proof (intro conjI ballI)
    show "\<forall>u. nul_free (home u) \<and> length (home u) < CITY_LEN"
      using home unfolding reports_home_def by blast
  next
    fix x assume "x \<in> set (t_reports t')"
    from sub [OF this] show "rr_city x = home (word_of_int (rr_author_id x))"
      using reports_homeD(1) [OF home] h(1) keep by metis
  next
    fix x assume "x \<in> set (t_reports t')"
    from sub [OF this] show "\<forall>op. rr_assigned_to x = Some op \<longrightarrow> rr_city x = home (word_of_int op)"
      using reports_homeD(5) [OF home] ops keep(3) by metis
  qed
  obtain r' where r': "r' \<in> set (t_reports t')" "rr_id r' = rr_id r" "rr_city r' = rr_city r"
    "rr_author_id r' = rr_author_id r"
  proof
    show "(if ?Q r then f r else r) \<in> set (t_reports t')"
      unfolding upd update_reports_simps set_map by (rule imageI) (rule r)
  qed (simp_all add: keep)
  have inval: "invalidate_report c2 i (Some t') g =
      report_cache_invalidate_city (rr_city r) (word_of_int (rr_author_id r)) g"
    using get_by_id_row [OF inv' r'(1) c2] i r'
    by (simp add: invalidate_report_def cursor_to_report_def h(4) del: One_nat_def)
  show "cache_coherent pr mx home t' (invalidate_report c2 i (Some t') g)"
    unfolding inval
  proof (rule invalidate_coherent [OF coh h(2,3)])
    fix uid isOp isArch assume "rr_city r = home uid" "\<not> isOp" "uid \<noteq> word_of_int (rr_author_id r)"
    then show "listing_text pr mx t' uid isOp isArch = listing_text pr mx t uid isOp isArch"
      using auth by (intro unchanged) auto
  next
    fix uid isOp isArch assume "rr_city r \<noteq> home uid"
    then show "listing_text pr mx t' uid isOp isArch = listing_text pr mx t uid isOp isArch"
      using auth op_home h(1) by (intro unchanged; cases isOp) auto
  qed (use home in \<open>simp add: reports_home_def\<close>)
qed

lemma insert_coherent:
  assumes inv: "tables_inv t" and home: "reports_home home t"
    and coh: "cache_coherent pr mx home t g" and cty: "cty = home author"
    and ins: "report_insert c now author la lo cty cat desc (Some t, g) = (i, Some t', g')"
  shows "tables_inv t'" and "reports_home home t'" and "cache_coherent pr mx home t' g'"
proof -
  have hc: "nul_free cty" "length cty < CITY_LEN" and hu: "\<And>u. nul_free (home u) \<and> length (home u) < CITY_LEN"
    using home cty by (auto simp: reports_home_def)
  have "tables_inv t' \<and> reports_home home t' \<and> cache_coherent pr mx home t' g'"
  proof (cases "prepare_stmt c (Some t) (InsertReport (sint author) la lo cty cat desc now) \<and>
      dc_steps c \<noteq> 0 \<and> next_rowid (t_report_seq t) \<noteq> None")
    case False
    then have "t' = t \<and> g' = g"
      using ins by (auto simp: report_insert_def db_exec_def Let_def split: if_splits option.splits)
    with inv home coh show ?thesis by simp
  next
    case True
    then obtain k where k: "next_rowid (t_report_seq t) = Some k" by auto
    let ?r = "\<lparr>rr_id = k, rr_author_id = sint author, rr_assigned_to = None, rr_lat = la, rr_lon = lo,
        rr_city = cstr cty, rr_category = cstr cat, rr_description = cstr desc, rr_status = 0,
        rr_created_at = now, rr_assigned_at = None, rr_resolved_at = None, rr_feedback = None\<rparr>"
    let ?s = "InsertReport (sint author) la lo cty cat desc now"
    have ex: "exec_stmt ?s t = Some (t\<lparr>t_reports := t_reports t @ [?r], t_report_seq := k,
        t_last_rowid := k, t_changes := 1\<rparr>)"
      using k by simp
    have kpos: "0 < k" using k inv by (auto simp: next_rowid_def tables_inv_def keys_ok_def split: if_splits)
    have t': "t' = t\<lparr>t_reports := t_reports t @ [?r], t_report_seq := k,
        t_last_rowid := k, t_changes := 1\<rparr>" and g': "g' = report_cache_invalidate_city cty author g"
      using ins True ex kpos
      by (simp_all add: report_insert_def db_exec_def Let_def db_last_insert_id_def del: exec_stmt.simps)
    have inv': "tables_inv t'" by (rule exec_stmt_inv [OF inv _ ex [folded t']]) simp
    have home': "reports_home home t'"
      using home cty hc by (auto simp: reports_home_def t' cstr_id)
    have same: "listing_text pr mx t' uid isOp isArch = listing_text pr mx t uid isOp isArch"
      if "isOp \<or> uid \<noteq> author" for uid isOp isArch
      by (rule listing_text_cong) (use that in \<open>auto simp: t' shown_def dest: signed_word_eqI\<close>)
    have "cache_coherent pr mx home t' g'" unfolding g'
    proof (rule invalidate_coherent [OF coh hc])
      fix uid isOp isArch assume "cty \<noteq> home uid"
      with cty show "listing_text pr mx t' uid isOp isArch = listing_text pr mx t uid isOp isArch"
        by (intro same) auto
    qed (use same hu in auto)
    with inv' home' show ?thesis by blast
  qed
  then show "tables_inv t'" and "reports_home home t'" and "cache_coherent pr mx home t' g'" by auto
qed

text \<open>The shape all five updates share.\<close>

lemma guarded_update_coherent:
  assumes inv: "tables_inv t" and home: "reports_home home t" and coh: "cache_coherent pr mx home t g"
    and c2: "call_ok c2" and ok: "stmt_ok s"
    and s: "exec_stmt s t = Some (update_reports (\<lambda>x. rr_id x = sint i \<and> P x) f t)"
    and keep: "\<And>x. rr_id (f x) = rr_id x" "\<And>x. rr_author_id (f x) = rr_author_id x"
      "\<And>x. rr_city (f x) = rr_city x"
    and ops: "\<And>r op. r \<in> set (t_reports t) \<Longrightarrow> rr_id r = sint i \<Longrightarrow> rr_assigned_to (f r) = Some op \<Longrightarrow>
        P r \<Longrightarrow> rr_city r = home (word_of_int op)"
    and res: "guarded_update c1 c2 s i (Some t, g) = (rc, Some t', g')"
  shows "tables_inv t' \<and> reports_home home t' \<and> cache_coherent pr mx home t' g'"
proof (cases "call_ok c1")
  case False
  with res guarded_update_fail have "t' = t \<and> g' = g" by fastforce
  with inv home coh show ?thesis by simp
next
  case c1: True
  let ?t = "update_reports (\<lambda>x. rr_id x = sint i \<and> P x) f t"
  have inv': "tables_inv ?t" by (rule exec_stmt_inv [OF inv ok s])
  have "db_exec c1 s (Some t) = (True, Some ?t)"
    using c1 s by (simp add: db_exec_def prepare_stmt_iff call_ok_def)
  then have r: "t' = ?t" "g' = (if t_changes ?t = 0 then g else invalidate_report c2 i (Some ?t) g)"
    using res by (auto simp: guarded_update_def Let_def db_changes_def split: if_splits)
  show ?thesis
  proof (cases "\<exists>r\<in>set (t_reports t). rr_id r = sint i \<and> P r")
    case True
    then obtain r0 where r0: "r0 \<in> set (t_reports t)" "rr_id r0 = sint i" "P r0" by blast
    have eq: "?t = update_reports (\<lambda>x. rr_id x = rr_id r0 \<and> P x) f t" by (simp only: r0(2))
    have ops0: "\<And>op. rr_assigned_to (f r0) = Some op \<Longrightarrow> P r0 \<Longrightarrow> rr_city r0 = home (word_of_int op)"
      using ops [OF r0(1,2)] by blast
    note u = update_coherent [OF inv home r0(1) coh c2 eq inv' r0(2) [symmetric] keep ops0]
    have "filter (\<lambda>x. rr_id x = sint i \<and> P x) (t_reports t) \<noteq> []"
      using r0 by (metis (mono_tags, lifting) filter_empty_conv)
    then have "t_changes ?t \<noteq> 0" by simp
    with r have "t' = ?t" "g' = invalidate_report c2 i (Some ?t) g" by simp_all
    with u inv' show ?thesis by simp
  next
    case False
    then have rows: "t_reports ?t = t_reports t" by (auto intro!: map_idI)
    have "filter (\<lambda>x. rr_id x = sint i \<and> P x) (t_reports t) = []"
      using False by (metis (mono_tags, lifting) filter_empty_conv)
    then have "t_changes ?t = 0" by simp
    with r have r': "t' = ?t" "g' = g" by simp_all
    have "listing_text pr mx ?t uid isOp isArch = listing_text pr mx t uid isOp isArch" for uid isOp isArch
      by (rule listing_text_cong) (simp only: rows)
    with coh have "cache_coherent pr mx home ?t g" by (simp only: cache_coherent_def slot_coherent_def)
    moreover have "reports_home home ?t" using home unfolding reports_home_def rows .
    ultimately show ?thesis using r' inv' by simp
  qed
qed

text \<open>Each update with its guard.\<close>

lemma assigned_home:
  assumes "reports_home home t" and "r \<in> set (t_reports t)" and "rr_assigned_to r = Some op"
  shows "rr_city r = home (word_of_int op)"
  using reports_homeD(5) [OF assms] .

lemma assign_coherent:
  assumes inv: "tables_inv t" "reports_home home t" "cache_coherent pr mx home t g" "call_ok c2"
    and a: "report_assign c1 c2 now i op (Some t, g) = (rc, Some t', g')"
    and h: "\<And>r. r \<in> set (t_reports t) \<Longrightarrow> rr_id r = sint i \<Longrightarrow> rr_city r = home op"
  shows "tables_inv t' \<and> reports_home home t' \<and> cache_coherent pr mx home t' g'"
proof -
  have o: "rr_city r = home (word_of_int opa)"
    if "r \<in> set (t_reports t)" "rr_id r = sint i"
      "rr_assigned_to (r\<lparr>rr_status := 1, rr_assigned_to := Some (sint op), rr_assigned_at := Some now\<rparr>) = Some opa"
    for r opa
    using that h word_of_sint [of op] by auto
  show ?thesis
    using guarded_update_coherent [OF inv _ exec_stmt.simps(3) _ _ _ _ a [unfolded report_assign_def]] o by simp
qed

lemma operator_update_coherent:
  assumes inv: "tables_inv t" "reports_home home t" "cache_coherent pr mx home t g" "call_ok c2"
  shows "report_accept c1 c2 i op (Some t, g) = (rc, Some t', g') \<Longrightarrow>
      tables_inv t' \<and> reports_home home t' \<and> cache_coherent pr mx home t' g'"
    and "report_reject c1 c2 i op (Some t, g) = (rc, Some t', g') \<Longrightarrow>
      tables_inv t' \<and> reports_home home t' \<and> cache_coherent pr mx home t' g'"
    and "report_resolve c1 c2 now i op (Some t, g) = (rc, Some t', g') \<Longrightarrow>
      tables_inv t' \<and> reports_home home t' \<and> cache_coherent pr mx home t' g'"
proof -
  note gu = guarded_update_coherent [OF inv] and rh = assigned_home [OF inv(2)]
  show "tables_inv t' \<and> reports_home home t' \<and> cache_coherent pr mx home t' g'"
    if "report_accept c1 c2 i op (Some t, g) = (rc, Some t', g')"
    using gu [of "AcceptReport (sint i) (sint op)" i, OF _ exec_stmt.simps(4) _ _ _ _ that [unfolded report_accept_def]] rh
    by auto
  show "tables_inv t' \<and> reports_home home t' \<and> cache_coherent pr mx home t' g'"
    if "report_reject c1 c2 i op (Some t, g) = (rc, Some t', g')"
    using gu [of "RejectReport (sint i) (sint op)" i, OF _ exec_stmt.simps(5) _ _ _ _ that [unfolded report_reject_def]]
    by auto
  show "tables_inv t' \<and> reports_home home t' \<and> cache_coherent pr mx home t' g'"
    if "report_resolve c1 c2 now i op (Some t, g) = (rc, Some t', g')"
    using gu [of "ResolveReport now (sint i) (sint op)" i, OF _ exec_stmt.simps(6) _ _ _ _ that [unfolded report_resolve_def]] rh
    by auto
qed

lemma feedback_coherent:
  assumes inv: "tables_inv t" "reports_home home t" "cache_coherent pr mx home t g" "call_ok c2"
    and f: "report_set_feedback c1 c2 i author stars (Some t, g) = (rc, Some t', g')"
  shows "tables_inv t' \<and> reports_home home t' \<and> cache_coherent pr mx home t' g'"
proof (cases "stars < 1 \<or> stars > 5")
  case True
  with f inv show ?thesis by (simp add: report_set_feedback_def)
next
  case False
  with f have "guarded_update c1 c2 (FeedbackReport stars (sint i) (sint author)) i (Some t, g) = (rc, Some t', g')"
    by (simp add: report_set_feedback_def)
  from guarded_update_coherent [OF inv _ exec_stmt.simps(7) _ _ _ _ this] assigned_home [OF inv(2)] False show ?thesis by auto
qed

text \<open>A listing: what it returns, and that it keeps the cache coherent.\<close>

lemma listing_rows:
  assumes "dc_prepared c" and "length (t_reports t) \<le> dc_steps c"
  shows "db_cursor_reports c (listing_query uid isOp isArch) (Some t) =
    Some (select_reports (listing_query uid isOp isArch) t)"
proof -
  have "length (select_reports (listing_query uid isOp isArch) t) \<le> length (t_reports t)"
    by (cases isOp; cases isArch) (simp_all add: listing_query_def active_query_def archived_query_def order_desc_def)
  then show ?thesis using assms by (simp add: db_cursor_reports_def prepare_stmt_iff)
qed

lemma listing_is_cached:
  "(if isArch then report_get_archived_json else report_get_active_json) pr jm c now mx uid cty isOp db g =
    cached_listing pr jm c now (listing_query uid isOp isArch) mx uid cty isOp isArch db g"
  by (simp add: report_get_active_json_def report_get_archived_json_def listing_query_def)

lemma cached_listing_coherent:
  assumes coh: "cache_coherent pr mx home t g" and home: "nul_free (home uid)" "length (home uid) < CITY_LEN"
    and c: "dc_prepared c" "length (t_reports t) \<le> dc_steps c"
    and r: "cached_listing pr json_mem_ok c now (listing_query uid isOp isArch) mx uid (home uid) isOp isArch
      (Some t) g = (len, out, g')"
  shows "cache_coherent pr mx home t g'" and "len = length out"
    and "out = (case listing_text pr mx t uid isOp isArch of None \<Rightarrow> [] | Some s \<Rightarrow> s)"
proof -
  obtain res g1 where f: "cache_find now (home uid) uid isOp isArch g = (res, g1)" by fastforce
  note cf = cache_find_coherent [OF coh f]
  have miss: "len = length out \<and> out = (case listing_text pr mx t uid isOp isArch of None \<Rightarrow> [] | Some s \<Rightarrow> s) \<and>
      g' = (if len > 0 then cache_store now (home uid) uid isOp isArch out g1 else g1)" if "res = None"
  proof -
    have "cursor_to_json_array pr json_mem_ok mx (db_cursor_reports c (listing_query uid isOp isArch) (Some t)) =
        (case listing_text pr mx t uid isOp isArch of None \<Rightarrow> (0, []) | Some s \<Rightarrow> (length s, s))"
      by (simp add: listing_rows [OF c] cursor_to_json_array_def json_mem_ok_def listing_text_def)
    with r f that show ?thesis
      by (cases "listing_text pr mx t uid isOp isArch") (auto simp: cached_listing_def Let_def)
  qed
  have hit: "len = length out \<and> listing_text pr mx t uid isOp isArch = Some out \<and> g' = g1" if "res = Some s" for s
  proof -
    have "(length s, s, g1) = (len, out, g')" using r f that by (simp only: cached_listing_def prod.case option.case)
    then have "s = out" "len = length out" "g' = g1" by auto
    with cf that show ?thesis by simp
  qed
  have all: "len = length out \<and> out = (case listing_text pr mx t uid isOp isArch of None \<Rightarrow> [] | Some s \<Rightarrow> s) \<and>
      cache_coherent pr mx home t g'"
  proof (cases res)
    case None
    show ?thesis
    proof (cases "len > 0")
      case True
      then have "listing_text pr mx t uid isOp isArch = Some out" using miss [OF None] by (cases "listing_text pr mx t uid isOp isArch") auto
      from store_coherent [OF conjunct1 [OF cf] this refl home] miss [OF None] True show ?thesis by simp
    next
      case False
      with miss [OF None] cf show ?thesis by simp
    qed
  next
    case (Some s)
    from hit [OF Some] cf show ?thesis by simp
  qed
  then show "len = length out" "out = (case listing_text pr mx t uid isOp isArch of None \<Rightarrow> [] | Some s \<Rightarrow> s)"
    "cache_coherent pr mx home t g'" by blast+
qed

section \<open>Properties\<close>

text \<open>Only the row \<open>r\<close> may differ afterwards, and no row does unless the result is 1.\<close>

definition touches_only :: "report_row \<Rightarrow> tables \<Rightarrow> int \<times> database \<times> cache \<Rightarrow> bool" where
  "touches_only r t res \<longleftrightarrow>
     (case fst (snd res) of
        None \<Rightarrow> False
      | Some t' \<Rightarrow> t_users t' = t_users t \<and> (fst res \<noteq> 1 \<longrightarrow> t_reports t' = t_reports t) \<and>
          filter (\<lambda>x. rr_id x \<noteq> rr_id r) (t_reports t') = filter (\<lambda>x. rr_id x \<noteq> rr_id r) (t_reports t))"

lemma guarded_update_touches:
  assumes "tables_inv t" and "r \<in> set (t_reports t)" and "call_ok c1"
    and s: "exec_stmt s t = Some (update_reports (\<lambda>x. rr_id x = rr_id r \<and> P x) f t)"
    and f: "\<And>x. rr_id (f x) = rr_id x"
  shows "touches_only r t (guarded_update c1 c2 s i (Some t, g)) \<and>
    fst (guarded_update c1 c2 s i (Some t, g)) = (if P r then 1 else 0)"
proof -
  have "filter (\<lambda>x. rr_id x \<noteq> rr_id r) (map (\<lambda>x. if rr_id x = rr_id r \<and> P x then f x else x) (t_reports t)) =
      filter (\<lambda>x. rr_id x \<noteq> rr_id r) (t_reports t)"
    by (rule filter_changed) (auto simp: f)
  moreover have "map (\<lambda>x. if rr_id x = rr_id r \<and> P x then f x else x) (t_reports t) = t_reports t"
    if "\<not> P r"
  proof (rule map_idI)
    fix x assume x: "x \<in> set (t_reports t)"
    have "filter (\<lambda>y. rr_id y = rr_id r \<and> P y) (t_reports t) = []"
      using filter_id_and [OF assms(1,2), of P] that by simp
    with x show "(if rr_id x = rr_id r \<and> P x then f x else x) = x" by (auto simp: filter_empty_conv)
  qed
  ultimately show ?thesis
    by (simp add: guarded_update_cases [OF assms(1-4)] touches_only_def Let_def)
qed


definition example_report :: report_row where
  "example_report = \<lparr>rr_id = 1, rr_author_id = 4, rr_assigned_to = None, rr_lat = 0, rr_lon = 0,
     rr_city = ''Pisa'', rr_category = ''road'', rr_description = ''hole'', rr_status = 0,
     rr_created_at = 100, rr_assigned_at = None, rr_resolved_at = None, rr_feedback = None\<rparr>"

definition example_tables :: tables where
  "example_tables = no_tables\<lparr>t_reports := [example_report], t_report_seq := 1\<rparr>"

lemma example_tables_inv: "tables_inv example_tables" "example_report \<in> set (t_reports example_tables)"
  by (simp_all add: example_tables_def example_report_def no_tables_def tables_inv_def keys_ok_def
      report_row_ok_def)



lemma example_home: "reports_home (\<lambda>_. ''Pisa'') example_tables"
  by (simp add: reports_home_def example_tables_def example_report_def no_tables_def CITY_LEN_def NUL_def)


text \<open>The cache is transparent: when its slots are coherent and SQLite and cJSON answer, a listing
  returns what the database shows now, the text of the query of that user, role and kind, whether it
  comes from a slot or from the query, and the cache is coherent afterwards.\<close>

theorem report_listing_fresh:
  assumes coh: "cache_coherent pr mx home t g" and home: "nul_free (home uid)" "length (home uid) < CITY_LEN"
    and tx: "listing_text pr mx t uid isOp isArch = Some s" and s: "s \<noteq> []"
    and c: "dc_prepared c" "length (t_reports t) \<le> dc_steps c"
    and r: "(if isArch then report_get_archived_json else report_get_active_json)
        pr json_mem_ok c now mx uid (home uid) isOp (Some t) g = (len, out, g')"
  shows "out = s \<and> len = length s \<and> cache_coherent pr mx home t g'"
  using cached_listing_coherent [OF coh home c r [unfolded listing_is_cached]] tx coh by simp

theorem report_listing_fresh_witness:
  "fst (snd (report_get_active_json (\<lambda>j n. Some ''[]'') json_mem_ok db_call_ok 7 100 4 ''Pisa'' False
     (Some example_tables) g_cache_init)) = ''[]''"
proof -
  obtain len out g' where r: "report_get_active_json (\<lambda>j n. Some ''[]'') json_mem_ok db_call_ok 7 100 4 ''Pisa'' False
     (Some example_tables) g_cache_init = (len, out, g')" using prod_cases3 by blast
  from report_listing_fresh [OF coherent_empty, where home = "\<lambda>_. ''Pisa''" and isArch = False and uid = 4 and
      isOp = False and t = example_tables and c = db_call_ok and now = 7 and mx = 100 and
      pr = "\<lambda>j n. Some ''[]''" and s = "''[]''"] r
  show ?thesis
    by (simp add: CITY_LEN_def NUL_def listing_text_def db_call_ok_def example_tables_def no_tables_def)
qed

text \<open>A failed query is cached as an empty list.  When the database cannot run a listing, the code
  prints the empty array, whose length 2 passes the test for non-empty results, and stores it: for the
  next five seconds the same listing is empty although the database answers again and has rows.\<close>

theorem report_failed_query_cached:
  assumes "cached_listing pr json_mem_ok \<lparr>dc_prepared = False, dc_steps = 0\<rparr> now q mx uid cty isOp isArch
      db g_cache_init = (len, out, g')"
    and "pr (JArr []) mx = Some ''[]''" and "0 < now" and "now \<le> later" and "later \<le> now + 5"
    and "nul_free cty" and "length cty < CITY_LEN"
  shows "out = ''[]'' \<and>
    cached_listing pr' jm' c' later q mx' uid cty isOp isArch db' g' = (2, ''[]'', g')"
proof -
  have init: "g_cache_init = empty_slot # replicate 31 empty_slot"
    by (simp add: g_cache_init_def CACHE_MAX_ENTRIES_def numeral_eq_Suc)
  have miss: "cache_find now cty uid isOp isArch (replicate n empty_slot) = (None, replicate n empty_slot)" for n
    by (induction n) (simp_all add: empty_slot_def)
  have miss: "cache_find now cty uid isOp isArch g_cache_init = (None, g_cache_init)"
    unfolding g_cache_init_def by (rule miss)
  have "\<not> prepare_stmt \<lparr>dc_prepared = False, dc_steps = 0\<rparr> db q" by (simp add: prepare_stmt_iff)
  then have out: "out = ''[]''" and g': "g' = cache_store now cty uid isOp isArch ''[]'' g_cache_init"
    using assms(1,2) miss
    by (auto simp: cached_listing_def db_cursor_reports_def cursor_to_json_array_def json_mem_ok_def
        report_rows_json_def)
  have "cache_store now cty uid isOp isArch ''[]'' g_cache_init =
      \<lparr>ce_city = cty, ce_userId = uid, ce_isOperator = isOp, ce_isArchived = isArch, cachedAt = now,
       ce_json = ''[]''\<rparr> # replicate 31 empty_slot"
    unfolding init using assms(6,7)
    by (simp add: cache_store_def CACHE_JSON_MAX_def str_trunc_id CITY_LEN_def) (simp add: empty_slot_def)
  with g' assms(3-7) have "cache_find later cty uid isOp isArch g' = (Some ''[]'', g')"
    by (simp add: slot_matches_def CACHE_TTL_SECONDS_def)
  with out show ?thesis by (simp add: cached_listing_def)
qed

theorem report_failed_query_cached_witness:
  "\<exists>g'. snd (snd (cached_listing (\<lambda>j n. Some ''[]'') json_mem_ok \<lparr>dc_prepared = False, dc_steps = 0\<rparr> 100
      (SelectActiveOfCitizen 4) 99 4 ''Pisa'' False False (Some example_tables) g_cache_init)) = g' \<and>
    fst (cached_listing (\<lambda>j n. Some ''other'') json_mem_ok db_call_ok 105 (SelectActiveOfCitizen 4) 99 4 ''Pisa''
      False False (Some example_tables) g') = 2"
proof -
  obtain len out g' where r: "cached_listing (\<lambda>j n. Some ''[]'') json_mem_ok \<lparr>dc_prepared = False, dc_steps = 0\<rparr> 100
      (SelectActiveOfCitizen 4) 99 4 ''Pisa'' False False (Some example_tables) g_cache_init = (len, out, g')"
    using prod_cases3 by blast
  from report_failed_query_cached [OF r, of 105 "\<lambda>j n. Some ''other''" json_mem_ok db_call_ok 99 "Some example_tables"] r
  show ?thesis by (simp add: NUL_def CITY_LEN_def)
qed

end
