(* ===== verification/Session.thy ===== *)
theory Session
  imports HashTableSpec Users
begin

text \<open>
  Sessions: \<open>session.c\<close>, a client of the hash table.  A token with its terminating NUL maps to one
  cell, the \<open>Session\<close> struct with the user copied in.  The clock, the bytes read from
  /dev/urandom, the results of \<open>rand\<close> and the allocations are arguments.
\<close>

section \<open>Data and operations\<close>

definition TOKEN_HEX_LEN :: nat where
  "TOKEN_HEX_LEN = 32"

definition SESSION_MAX_AGE :: int where
  "SESSION_MAX_AGE = 24 * 60 * 60"

definition SESSION_CREATE_MAX_TRIES :: nat where
  "SESSION_CREATE_MAX_TRIES = 5"

definition SESSION_COOKIE_NAME :: bytes where
  "SESSION_COOKIE_NAME = ''sid''"

record session =
  s_user :: user
  s_createdAt :: int

type_synonym sessions = "session hash_table"

text \<open>The randomness of one token: the result of reading /dev/urandom, and of the calls of
  \<open>rand\<close> the fallback makes.\<close>

record token_source =
  ts_urandom :: "bytes option"
  ts_rand :: "nat \<Rightarrow> nat"

definition generate_token :: "token_source \<Rightarrow> nat \<Rightarrow> bytes" where
  "generate_token src len =
     (let n = min (len div 2) (TOKEN_HEX_LEN div 2);
          fallback = map (\<lambda>i. hex_digit (ts_rand src i mod 256 mod 16)) [0..<len]
      in case ts_urandom src of
           None \<Rightarrow> fallback
         | Some buf \<Rightarrow> if length buf = n then hex_encode buf else fallback)"

definition session_init :: "bool \<Rightarrow> bool \<Rightarrow> 64 word \<Rightarrow> bool \<times> sessions option" where
  "session_init mem_table mem_buckets sd =
     (case ht_create mem_table mem_buckets sd 0 hash_key of
        None \<Rightarrow> (False, None)
      | Some t \<Rightarrow> (True, Some t))"

definition session_destroy_all :: "sessions option \<Rightarrow> sessions option" where
  "session_destroy_all t = None"

definition token_key :: "bytes \<Rightarrow> bytes" where
  "token_key token = cstr token @ [NUL]"

text \<open>\<open>session_verify\<close>: the user of a valid session, and the table with an expired one evicted.\<close>

definition session_verify :: "int \<Rightarrow> bytes \<Rightarrow> sessions option \<Rightarrow> user option \<times> sessions option" where
  "session_verify now token table =
     (case table of
        None \<Rightarrow> (None, table)
      | Some t \<Rightarrow>
          (case ht_get t (token_key token) [undefined] 1 of
             (False, _) \<Rightarrow> (None, table)
           | (True, cells) \<Rightarrow>
               let s = hd cells in
               if now - s_createdAt s > SESSION_MAX_AGE
               then (None, Some (snd (ht_delete t (token_key token))))
               else (Some (s_user s), table)))"

definition session_destroy :: "bytes \<Rightarrow> sessions option \<Rightarrow> sessions option" where
  "session_destroy token table =
     (case table of None \<Rightarrow> None | Some t \<Rightarrow> Some (snd (ht_delete t (token_key token))))"

text \<open>The loop of \<open>session_create\<close>: a fresh token within the tries left.\<close>

fun create_loop ::
  "nat \<Rightarrow> (nat \<Rightarrow> token_source) \<Rightarrow> int \<Rightarrow> sessions option \<Rightarrow> bytes option \<times> sessions option" where
  "create_loop 0 src now table = (None, table)"
| "create_loop (Suc n) src now table =
     (let token = generate_token (src (SESSION_CREATE_MAX_TRIES - Suc n)) TOKEN_HEX_LEN;
          (found, table') = session_verify now token table
      in case found of None \<Rightarrow> (Some token, table') | Some _ \<Rightarrow> create_loop n src now table')"

definition session_create ::
  "ht_mem \<Rightarrow> (nat \<Rightarrow> token_source) \<Rightarrow> int \<Rightarrow> user \<Rightarrow> sessions option \<Rightarrow> bytes option \<times> sessions option" where
  "session_create mem src now u table =
     (if table = None then (None, table)
      else case create_loop SESSION_CREATE_MAX_TRIES src now table of
             (None, table') \<Rightarrow> (None, table')
           | (Some token, table') \<Rightarrow>
               (case table' of
                  None \<Rightarrow> (None, table')
                | Some t \<Rightarrow>
                    let (ok, t') = ht_set mem t (token_key token) [\<lparr>s_user = u, s_createdAt = now\<rparr>]
                    in (if ok then Some token else None, Some t')))"

section \<open>The abstract session store\<close>

definition sessions_inv :: "sessions option \<Rightarrow> bool" where
  "sessions_inv table \<longleftrightarrow>
     (case table of None \<Rightarrow> True
      | Some t \<Rightarrow> ht_inv t \<and> (\<forall>k v. ht_abs t k = Some v \<longrightarrow> (\<exists>s. v = [s])))"

text \<open>The session stored under a token, expired or not.\<close>

definition sessions_abs :: "sessions option \<Rightarrow> bytes \<Rightarrow> session option" where
  "sessions_abs table token =
     (case table of None \<Rightarrow> None
      | Some t \<Rightarrow> (case ht_abs t (token_key token) of Some [s] \<Rightarrow> Some s | _ \<Rightarrow> None))"

definition valid_at :: "int \<Rightarrow> session \<Rightarrow> bool" where
  "valid_at now s \<longleftrightarrow> now - s_createdAt s \<le> SESSION_MAX_AGE"

definition verify_abs :: "int \<Rightarrow> sessions option \<Rightarrow> bytes \<Rightarrow> user option" where
  "verify_abs now table token =
     (case sessions_abs table token of
        Some s \<Rightarrow> if valid_at now s then Some (s_user s) else None
      | None \<Rightarrow> None)"

lemma token_key_inject [simp]: "token_key a = token_key b \<longleftrightarrow> cstr a = cstr b"
  by (simp add: token_key_def)

lemma sessions_abs_cstr: "cstr a = cstr b \<Longrightarrow> sessions_abs table a = sessions_abs table b"
  by (simp only: sessions_abs_def token_key_def)

lemma delete_token:
  assumes "sessions_inv (Some t)"
  shows "sessions_inv (Some (snd (ht_delete t (token_key token))))"
    and "sessions_abs (Some (snd (ht_delete t (token_key token)))) x =
      (if cstr x = cstr token then None else sessions_abs (Some t) x)"
  using assms by (auto simp: sessions_inv_def sessions_abs_def ht.delete_inv ht.delete_abs)

lemma set_token:
  assumes "sessions_inv (Some t)"
  shows "sessions_inv (Some (snd (ht_set mem t (token_key token) [s])))"
    and "sessions_abs (Some (snd (ht_set mem t (token_key token) [s]))) x =
      (if fst (ht_set mem t (token_key token) [s]) \<and> cstr x = cstr token then Some s
       else sessions_abs (Some t) x)"
  using assms by (auto simp: sessions_inv_def sessions_abs_def ht.set_inv ht.set_abs)

lemma verify_cases:
  assumes "sessions_inv table"
  shows "session_verify now token table =
    (verify_abs now table token,
     if \<exists>s. sessions_abs table token = Some s \<and> \<not> valid_at now s
     then session_destroy token table else table)"
proof (cases table)
  case None
  then show ?thesis by (simp add: session_verify_def verify_abs_def sessions_abs_def)
next
  case (Some t)
  with assms have inv: "ht_inv t" and one: "\<And>v. ht_abs t (token_key token) = Some v \<Longrightarrow> \<exists>s. v = [s]"
    by (auto simp: sessions_inv_def)
  show ?thesis
  proof (cases "ht_abs t (token_key token)")
    case None
    with Some show ?thesis
      by (simp add: session_verify_def verify_abs_def sessions_abs_def ht.get_abs [OF inv])
  next
    case found: (Some v)
    with one obtain s where "v = [s]" by blast
    with Some found show ?thesis
      by (simp add: session_verify_def verify_abs_def sessions_abs_def ht.get_abs [OF inv]
          valid_at_def session_destroy_def Let_def)
  qed
qed

lemma verify_keeps:
  assumes "sessions_inv table" and v: "session_verify now token table = (r, table')"
  shows "sessions_inv table'" and "r = verify_abs now table token"
    and "later \<ge> now \<Longrightarrow> verify_abs later table' x = verify_abs later table x"
    and "table' = None \<longleftrightarrow> table = None"
proof -
  note c = verify_cases [OF assms(1), of now token, unfolded v]
  show "r = verify_abs now table token" using c by simp
  show "sessions_inv table'" using c assms(1) delete_token(1)
    by (cases table) (auto simp: session_destroy_def split: if_splits)
  show "table' = None \<longleftrightarrow> table = None" using c
    by (cases table) (auto simp: session_destroy_def split: if_splits)
  show "verify_abs later table' x = verify_abs later table x" if "later \<ge> now"
  proof (cases "\<exists>s. sessions_abs table token = Some s \<and> \<not> valid_at now s")
    case True
    then obtain t s where t: "table = Some t" "sessions_abs (Some t) token = Some s" "\<not> valid_at now s"
      by (cases table) (auto simp: sessions_abs_def)
    have "table' = Some (snd (ht_delete t (token_key token)))"
      using c True t(1) by (simp add: session_destroy_def)
    with t delete_token(2) [of t token x] assms(1) that sessions_abs_cstr [of x token "Some t"]
    show ?thesis by (auto simp: verify_abs_def valid_at_def)
  next
    case False
    with c show ?thesis by simp
  qed
qed

lemma create_loop_spec:
  "sessions_inv table \<Longrightarrow> create_loop n src now table = (r, table') \<Longrightarrow>
    sessions_inv table' \<and> (table' = None \<longleftrightarrow> table = None) \<and>
    (\<forall>later x. later \<ge> now \<longrightarrow> verify_abs later table' x = verify_abs later table x) \<and>
    (\<forall>token. r = Some token \<longrightarrow> verify_abs now table token = None \<and>
      (\<exists>i. token = generate_token (src i) TOKEN_HEX_LEN))"
proof (induction n arbitrary: table)
  case (Suc n)
  let ?tok = "generate_token (src (SESSION_CREATE_MAX_TRIES - Suc n)) TOKEN_HEX_LEN"
  obtain f t1 where v: "session_verify now ?tok table = (f, t1)" by fastforce
  note k = verify_keeps [OF Suc.prems(1) v]
  show ?case
  proof (cases f)
    case None
    with Suc.prems v k show ?thesis by (auto simp: Let_def)
  next
    case (Some u)
    with Suc.prems(2) v have "create_loop n src now t1 = (r, table')" by (simp add: Let_def)
    from Suc.IH [OF k(1) this] k(3,4) show ?thesis by auto
  qed
qed auto

lemma generated_token_cstr: "cstr (generate_token src TOKEN_HEX_LEN) = generate_token src TOKEN_HEX_LEN"
proof (rule cstr_id)
  have h: "nul_free (hex_encode b)" for b
  proof (induction b)
    case (Cons c b)
    have "byte_val c div 16 < 16" using byte_val_bound [of c] by simp
    with Cons show ?case using hex_digit_not_NUL by (auto simp: hex_encode_def)
  qed (simp add: hex_encode_def)
  show "nul_free (generate_token src TOKEN_HEX_LEN)"
    using h by (auto simp: generate_token_def Let_def nul_free_def split: option.splits)
qed

lemma session_example:
  "\<exists>table. session_init True True 7 = (True, table) \<and> sessions_inv table \<and> table \<noteq> None \<and>
     (\<forall>x. sessions_abs table x = None)"
proof -
  obtain t :: sessions where t: "ht_create True True 7 0 hash_key = Some t"
    by (simp add: ht_create_def Let_def)
  with ht_create_spec [OF t] show ?thesis
    by (auto simp: session_init_def sessions_inv_def sessions_abs_def)
qed

text \<open>What a successful \<open>session_create\<close> leaves: the session under its token, the rest as the loop left it.\<close>

lemma session_create_stored:
  assumes inv: "sessions_inv table" and c: "session_create mem src now u table = (Some token, table')"
  shows "\<exists>t1. create_loop SESSION_CREATE_MAX_TRIES src now table = (Some token, t1) \<and> sessions_inv table' \<and>
    cstr token = token \<and>
    (\<forall>x. sessions_abs table' x = (if cstr x = token then Some \<lparr>s_user = u, s_createdAt = now\<rparr> else sessions_abs t1 x))"
proof -
  obtain r t1 where l: "create_loop SESSION_CREATE_MAX_TRIES src now table = (r, t1)" by fastforce
  note sp = create_loop_spec [OF inv l]
  obtain t2 where t2: "r = Some token" "t1 = Some t2"
    and st: "fst (ht_set mem t2 (token_key token) [\<lparr>s_user = u, s_createdAt = now\<rparr>])"
    "table' = Some (snd (ht_set mem t2 (token_key token) [\<lparr>s_user = u, s_createdAt = now\<rparr>]))"
    using c l by (auto simp: session_create_def split: if_splits option.splits prod.splits)
  have inv2: "sessions_inv (Some t2)" using sp t2 by simp
  have tok: "cstr token = token" using sp t2(1) generated_token_cstr by metis
  have "sessions_abs table' x = (if cstr x = token then Some \<lparr>s_user = u, s_createdAt = now\<rparr> else sessions_abs t1 x)" for x
    using set_token(2) [OF inv2, of mem token _ x] st t2 tok by simp
  with l t2(1) tok set_token(1) [OF inv2] st(2) show ?thesis by simp
qed

section \<open>Properties\<close>

definition example_user :: user where
  "example_user = \<lparr>userId = 4, username = ''ada'', passwordHash = ''00'', salt = ''1'', city = ''Pisa'', role = ROLE_CITIZEN\<rparr>"

text \<open>C10: a session that \<open>session_create\<close> opened is found under its token, with the user it was
  opened for, at every time up to 24 hours later; its token belonged to no valid session before;
  and what every other token gives, at any later time, is unchanged, although the search for a
  free token may have evicted expired sessions.\<close>

theorem session_create_verify:
  assumes inv: "sessions_inv table" and c: "session_create mem src now u table = (Some token, table')"
    and t: "now \<le> later"
  shows "sessions_inv table' \<and> verify_abs now table token = None \<and>
    fst (session_verify later token table') = (if later - now \<le> SESSION_MAX_AGE then Some u else None) \<and>
    (\<forall>other. cstr other \<noteq> token \<longrightarrow>
      fst (session_verify later other table') = fst (session_verify later other table))"
proof -
  from session_create_stored [OF inv c] obtain t1 where sp: "create_loop SESSION_CREATE_MAX_TRIES src now table = (Some token, t1)"
    and inv': "sessions_inv table'" and tok: "cstr token = token"
    and look: "\<And>x. sessions_abs table' x = (if cstr x = token then Some \<lparr>s_user = u, s_createdAt = now\<rparr> else sessions_abs t1 x)"
    by blast
  note sp = create_loop_spec [OF inv sp]
  have ver: "fst (session_verify later x tb) = verify_abs later tb x" if "sessions_inv tb" for x tb
    using verify_cases [OF that] by simp
  have "verify_abs later table' token = (if later - now \<le> SESSION_MAX_AGE then Some u else None)"
    using look [of token] tok by (simp add: verify_abs_def valid_at_def)
  moreover have "verify_abs later table' other = verify_abs later table other" if "cstr other \<noteq> token" for other
  proof -
    have "verify_abs later table' other = verify_abs later t1 other"
      using look [of other] that by (simp add: verify_abs_def)
    with sp t show ?thesis by simp
  qed
  ultimately show ?thesis using sp inv inv' ver by simp
qed

theorem session_create_verify_witness:
  "\<exists>table token table'. session_create mem_ok (\<lambda>i. \<lparr>ts_urandom = None, ts_rand = id\<rparr>) 1000 example_user table = (Some token, table') \<and>
     fst (session_verify 87400 token table') = Some example_user \<and> fst (session_verify 87401 token table') = None"
proof -
  let ?src = "\<lambda>i::nat. \<lparr>ts_urandom = None, ts_rand = id\<rparr>"
  obtain t where t: "sessions_inv (Some t)" "\<forall>x. sessions_abs (Some t) x = None"
    using session_example by blast
  have "session_verify 1000 x (Some t) = (None, Some t)" for x
    using verify_cases [OF t(1), of 1000 x] t(2) by (simp add: verify_abs_def)
  then obtain token where "create_loop SESSION_CREATE_MAX_TRIES ?src 1000 (Some t) = (Some token, Some t)"
    by (simp add: SESSION_CREATE_MAX_TRIES_def numeral_eq_Suc Let_def)
  then obtain table' where c: "session_create mem_ok ?src 1000 example_user (Some t) = (Some token, table')"
    using ht_set_ok [of t "token_key token" "[\<lparr>s_user = example_user, s_createdAt = 1000\<rparr>]"]
    by (auto simp: session_create_def case_prod_beta)
  from session_create_verify [OF t(1) c, of 87400] session_create_verify [OF t(1) c, of 87401] c
  show ?thesis by (auto simp: SESSION_MAX_AGE_def)
qed

text \<open>A session ends by age or by logout and never comes back by itself: verifying a token more
  than 24 hours after its session was opened fails and removes the session, destroying a token
  removes its session, and in both cases every other session stays.\<close>

theorem session_end:
  assumes inv: "sessions_inv table" and s: "sessions_abs table token = Some s"
    and e: "table' = session_destroy token table \<or>
      now - s_createdAt s > SESSION_MAX_AGE \<and> session_verify now token table = (r, table')"
  shows "sessions_inv table' \<and> sessions_abs table' token = None \<and>
    fst (session_verify later token table') = None \<and>
    (\<forall>other. cstr other \<noteq> cstr token \<longrightarrow> sessions_abs table' other = sessions_abs table other)"
proof -
  obtain t where t: "table = Some t" using s by (cases table) (auto simp: sessions_abs_def)
  have "table' = session_destroy token table"
    using e verify_cases [OF inv, of now token] s by (auto simp: valid_at_def)
  then have table': "table' = Some (snd (ht_delete t (token_key token)))"
    by (simp add: session_destroy_def t)
  note d = delete_token [OF inv [unfolded t], of token, folded table']
  have gone: "sessions_abs table' token = None" using d(2) by simp
  moreover have "fst (session_verify later token table') = None"
    using verify_cases [OF d(1), of later token] gone by (simp add: verify_abs_def)
  ultimately show ?thesis using d t by auto
qed

theorem session_end_witness:
  "\<exists>table s. sessions_abs table ''cafe'' = Some s \<and>
     fst (session_verify 5 ''cafe'' (session_destroy ''cafe'' table)) = None"
proof -
  obtain t where t: "sessions_inv (Some t)" using session_example by blast
  let ?s = "\<lparr>s_user = example_user, s_createdAt = 0\<rparr>"
  let ?table = "Some (snd (ht_set mem_ok t (token_key ''cafe'') [?s]))"
  have "sessions_inv ?table" "sessions_abs ?table ''cafe'' = Some ?s"
    using set_token [OF t, of mem_ok "''cafe''" ?s] ht_set_ok [of t "token_key ''cafe''" "[?s]"] by simp_all
  with session_end [OF this, of "session_destroy ''cafe'' ?table" 0 None 5] show ?thesis by blast
qed

end
