(* ===== verification/PicoHttp.thy ===== *)
theory PicoHttp
  imports Prelude
begin

text \<open>
  The HTTP parser \<open>picohttpparser.c\<close>, as compiled without SSE 4.2 (the Makefile passes no such
  flag, so \<open>findchar_fast\<close> is the identity).  A position in the buffer is the suffix of bytes from
  it to \<open>buf_end\<close>; a slice between two positions is the difference of two suffixes; the two return
  codes -1 and -2 are the constructors \<open>Malformed\<close> and \<open>Incomplete\<close>.
\<close>

section \<open>Results\<close>

datatype perr = Malformed | Incomplete

type_synonym 'a parse_result = "perr + 'a \<times> bytes"

definition and_then :: "'e + 'a \<Rightarrow> ('a \<Rightarrow> 'e + 'b) \<Rightarrow> 'e + 'b" where
  "and_then r f = (case r of Inl e \<Rightarrow> Inl e | Inr x \<Rightarrow> f x)"

lemma and_then_simps [simp]: "and_then (Inl e) f = Inl e" "and_then (Inr x) f = f x"
  by (simp_all add: and_then_def)

text \<open>The bytes from position \<open>s\<close> up to the later position \<open>r\<close>.\<close>

definition slice :: "bytes \<Rightarrow> bytes \<Rightarrow> bytes" where
  "slice s r = take (length s - length r) s"

lemma slice_append [simp]: "slice (a @ r) r = a"
  by (simp add: slice_def)

lemma slice_Cons [simp]: "slice (c # a @ r) r = c # a"
  using slice_append [of "c # a" r] by simp

section \<open>Characters\<close>

text \<open>\<open>IS_PRINTABLE_ASCII\<close>: \<open>c - 040u < 0137u\<close> in unsigned arithmetic.\<close>

definition is_printable_ascii :: "byte \<Rightarrow> bool" where
  "is_printable_ascii c \<longleftrightarrow> (word_of_nat (byte_val c) - 32 :: 32 word) < 95"

definition is_ctl :: "byte \<Rightarrow> bool" where
  "is_ctl c \<longleftrightarrow> byte_val c < 32 \<and> c \<noteq> TAB \<or> byte_val c = 127"

definition token_char_map :: "nat list" where
  "token_char_map =
     [0,0,0,0,0,0,0,0,0,0,0,0,0,0,0,0,0,0,0,0,0,0,0,0,0,0,0,0,0,0,0,0,
      0,1,0,1,1,1,1,1,0,0,1,1,0,1,1,0,1,1,1,1,1,1,1,1,1,1,0,0,0,0,0,0,
      0,1,1,1,1,1,1,1,1,1,1,1,1,1,1,1,1,1,1,1,1,1,1,1,1,1,1,0,0,0,1,1,
      1,1,1,1,1,1,1,1,1,1,1,1,1,1,1,1,1,1,1,1,1,1,1,1,1,1,1,0,1,0,1,0]
     @ replicate 128 0"

definition is_token_char :: "byte \<Rightarrow> bool" where
  "is_token_char c \<longleftrightarrow> token_char_map ! byte_val c \<noteq> 0"

section \<open>Elements\<close>

definition expect_char :: "byte \<Rightarrow> bytes \<Rightarrow> unit parse_result" where
  "expect_char ch s =
     (case s of [] \<Rightarrow> Inl Incomplete | c # r \<Rightarrow> if c = ch then Inr ((), r) else Inl Malformed)"

text \<open>\<open>get_token_to_eol\<close>: the unrolled loop over eight bytes (\<open>True\<close> is the jump to
  \<open>NonPrintable\<close>), the loop around it (\<open>True\<close> is the jump to \<open>FOUND_CTL\<close>), and the plain loop.\<close>

fun doit :: "nat \<Rightarrow> bytes \<Rightarrow> bool \<times> bytes" where
  "doit (Suc k) (c # r) = (if \<not> is_printable_ascii c then (True, c # r) else doit k r)"
| "doit _ s = (False, s)"

lemma doit_length: "doit k s = (b, r) \<Longrightarrow> k \<le> length s \<Longrightarrow>
    length r \<le> length s \<and> (b \<longrightarrow> r \<noteq> []) \<and> (\<not> b \<longrightarrow> length r + k = length s)"
  by (induction k s rule: doit.induct) (auto split: if_splits)

function fast_scan :: "bytes \<Rightarrow> bool \<times> bytes" where
  "fast_scan s =
     (if length s < 8 then (False, s)
      else case doit 8 s of
             (non_printable, r) \<Rightarrow>
               if \<not> non_printable then fast_scan r
               else if is_ctl (hd r) then (True, r)
               else fast_scan (tl r))"
  by pat_completeness auto
termination
proof (relation "measure length")
  fix s np r
  assume long: "\<not> length s < 8" and d: "(np, r) = doit 8 s"
  note l = doit_length [OF d [symmetric]]
  show "\<not> np \<Longrightarrow> (r, s) \<in> measure length" using l long by auto
  show "\<not> \<not> np \<Longrightarrow> \<not> is_ctl (hd r) \<Longrightarrow> (tl r, s) \<in> measure length"
    using l long by (cases r) auto
qed simp

declare fast_scan.simps [simp del]

fun slow_scan :: "bytes \<Rightarrow> bool \<times> bytes" where
  "slow_scan [] = (False, [])"
| "slow_scan (c # r) =
     (if \<not> is_printable_ascii c \<and> is_ctl c then (True, c # r) else slow_scan r)"

text \<open>From \<open>FOUND_CTL\<close> on, with the token that started at \<open>s\<close>.\<close>

definition found_ctl :: "bytes \<Rightarrow> bytes \<Rightarrow> bytes parse_result" where
  "found_ctl s r =
     (if hd r = CR then
        (case expect_char LF (tl r) of
           Inl e \<Rightarrow> Inl e
         | Inr (_, r') \<Rightarrow> Inr (take (length s - length r' - 2) s, r'))
      else if hd r = LF then Inr (slice s r, tl r)
      else Inl Malformed)"

definition get_token_to_eol :: "bytes \<Rightarrow> bytes parse_result" where
  "get_token_to_eol s =
     (case fast_scan s of
        (True, r) \<Rightarrow> found_ctl s r
      | (False, r) \<Rightarrow>
          (case slow_scan r of
             (True, r') \<Rightarrow> found_ctl s r'
           | (False, _) \<Rightarrow> Inl Incomplete))"

fun complete_loop :: "nat \<Rightarrow> bytes \<Rightarrow> perr + bytes" where
  "complete_loop n [] = Inl Incomplete"
| "complete_loop n (c # r) =
     (if c = CR then
        (case r of
           [] \<Rightarrow> Inl Incomplete
         | d # r' \<Rightarrow> if d \<noteq> LF then Inl Malformed
                     else if n + 1 = 2 then Inr r' else complete_loop (n + 1) r')
      else if c = LF then (if n + 1 = 2 then Inr r else complete_loop (n + 1) r)
      else complete_loop 0 r)"

definition is_complete :: "bytes \<Rightarrow> nat \<Rightarrow> perr + bytes" where
  "is_complete buf last_len = complete_loop 0 (if last_len < 3 then buf else drop (last_len - 3) buf)"

fun token_loop :: "byte \<Rightarrow> bytes \<Rightarrow> perr + bytes" where
  "token_loop next_char [] = Inl Incomplete"
| "token_loop next_char (c # r) =
     (if c = next_char then Inr (c # r)
      else if \<not> is_token_char c then Inl Malformed
      else token_loop next_char r)"

definition parse_token :: "byte \<Rightarrow> bytes \<Rightarrow> bytes parse_result" where
  "parse_token next_char s = and_then (token_loop next_char s) (\<lambda>r. Inr (slice s r, r))"

text \<open>\<open>ADVANCE_TOKEN\<close>.\<close>

fun advance_loop :: "bytes \<Rightarrow> perr + bytes" where
  "advance_loop [] = Inl Incomplete"
| "advance_loop (c # r) =
     (if c = CHR '' '' then Inr (c # r)
      else if \<not> is_printable_ascii c \<and> (byte_val c < 32 \<or> byte_val c = 127) then Inl Malformed
      else advance_loop r)"

definition advance_token :: "bytes \<Rightarrow> bytes parse_result" where
  "advance_token s = and_then (advance_loop s) (\<lambda>r. Inr (slice s r, r))"

text \<open>\<open>do { ++buf; CHECK_EOF(); } while ( *buf == ' ');\<close>\<close>

fun space_loop :: "bytes \<Rightarrow> perr + bytes" where
  "space_loop [] = Inl Incomplete"
| "space_loop (c # r) = (if c = CHR '' '' then space_loop r else Inr (c # r))"

definition skip_spaces :: "bytes \<Rightarrow> unit parse_result" where
  "skip_spaces s = and_then (space_loop (tl s)) (\<lambda>r. Inr ((), r))"

text \<open>\<open>PARSE_INT\<close> with factor \<open>m\<close> at a position that has a byte.\<close>

definition parse_int :: "int \<Rightarrow> bytes \<Rightarrow> int parse_result" where
  "parse_int m s =
     (case s of
        [] \<Rightarrow> Inl Incomplete
      | c # r \<Rightarrow> if byte_val c < 48 \<or> 57 < byte_val c then Inl Malformed
                 else Inr (m * (int (byte_val c) - 48), r))"

text \<open>\<open>EXPECT_CHAR_NO_CHECK\<close> for each character of a literal.\<close>

fun expect_all :: "bytes \<Rightarrow> bytes \<Rightarrow> unit parse_result" where
  "expect_all [] s = Inr ((), s)"
| "expect_all (ch # chs) s = and_then (expect_char ch s) (\<lambda>(_, r). expect_all chs r)"

definition parse_http_version :: "bytes \<Rightarrow> int parse_result" where
  "parse_http_version s =
     (if length s < 9 then Inl Incomplete
      else and_then (expect_all ''HTTP/1.'' s) (\<lambda>(_, r). parse_int 1 r))"

section \<open>Headers\<close>

record phr_header =
  h_name :: "bytes option" \<comment> \<open>None (NULL) on a continuation line\<close>
  h_value :: bytes
  h_trail :: bytes \<comment> \<open>the blanks after the value, which its pointer still reaches\<close>

text \<open>The end of a line that carries nothing more: LF or CR LF, anything else is for the caller.\<close>

fun blank_loop :: "bytes \<Rightarrow> perr + bytes" where
  "blank_loop [] = Inl Incomplete"
| "blank_loop (c # r) = (if c = CHR '' '' \<or> c = TAB then blank_loop r else Inr (c # r))"

definition header_name :: "bool \<Rightarrow> bytes \<Rightarrow> bytes option parse_result" where
  "header_name first s =
     (if \<not> (\<not> first \<and> (hd s = CHR '' '' \<or> hd s = TAB)) then
        and_then (parse_token (CHR '':'') s) (\<lambda>(name, r).
          if name = [] then Inl Malformed
          else and_then (blank_loop (tl r)) (\<lambda>r'. Inr (Some name, r')))
      else Inr (None, s))"

definition strip_trailing :: "bytes \<Rightarrow> bytes" where
  "strip_trailing v = rev (dropWhile (\<lambda>c. c = CHR '' '' \<or> c = TAB) (rev v))"

definition header_line :: "bool \<Rightarrow> bytes \<Rightarrow> phr_header parse_result" where
  "header_line first s =
     and_then (header_name first s) (\<lambda>(name, r).
       and_then (get_token_to_eol r) (\<lambda>(v, r').
         Inr (\<lparr>h_name = name, h_value = strip_trailing v,
               h_trail = drop (length (strip_trailing v)) v\<rparr>, r')))"

section \<open>Facts about positions\<close>

lemma printable_iff: "is_printable_ascii c \<longleftrightarrow> 32 \<le> byte_val c \<and> byte_val c < 127"
proof -
  have "unat (word_of_nat (byte_val c) - 32 :: 32 word) =
      (if 32 \<le> byte_val c then byte_val c - 32 else 2 ^ 32 + byte_val c - 32)"
    using byte_val_bound [of c] by (simp add: unat_sub_if_size unat_of_nat word_size)
  then show ?thesis by (auto simp: is_printable_ascii_def word_less_nat_alt)
qed

lemma doit_slow: "doit k s = (b, r) \<Longrightarrow> slow_scan s = slow_scan r"
  by (induction k s rule: doit.induct) (auto split: if_splits)

lemma doit_stop: "doit k s = (True, r) \<Longrightarrow> r \<noteq> [] \<and> \<not> is_printable_ascii (hd r)"
  by (induction k s rule: doit.induct) (auto split: if_splits)

text \<open>Wherever the fast loop stops, the plain loop goes on to the same place.\<close>

lemma fast_scan_slow: "fast_scan s = (b, r) \<Longrightarrow> slow_scan s = slow_scan r \<and> (b \<longrightarrow> slow_scan r = (True, r))"
proof (induction s rule: fast_scan.induct)
  case (1 s)
  show ?case
  proof (cases "length s < 8")
    case True
    with "1.prems" show ?thesis by (simp add: fast_scan.simps [of s])
  next
    case long: False
    obtain b1 r1 where d: "doit 8 s = (b1, r1)" by fastforce
    show ?thesis
    proof (cases b1)
      case False
      with d long "1.prems" have "fast_scan r1 = (b, r)" by (simp add: fast_scan.simps [of s])
      from "1.IH"(1) [OF long d [symmetric] False this] doit_slow [OF d] show ?thesis by simp
    next
      case True
      with doit_stop d have r1: "r1 \<noteq> []" "\<not> is_printable_ascii (hd r1)" by auto
      then obtain c r2 where c: "r1 = c # r2" by (cases r1) auto
      show ?thesis
      proof (cases "is_ctl c")
        case ctl: True
        with d True long "1.prems" c have "b" "r = r1" by (auto simp: fast_scan.simps [of s])
        with doit_slow [OF d] r1 c ctl show ?thesis by simp
      next
        case noctl: False
        with d True long "1.prems" c have f: "fast_scan r2 = (b, r)" by (simp add: fast_scan.simps [of s])
        from "1.IH"(2) [OF long d [symmetric]] True c noctl f
        have "slow_scan r2 = slow_scan r \<and> (b \<longrightarrow> slow_scan r = (True, r))" by simp
        with doit_slow [OF d] c noctl show ?thesis by simp
      qed
    qed
  qed
qed

lemma get_token_to_eol_slow:
  "get_token_to_eol s =
     (case slow_scan s of (True, r) \<Rightarrow> found_ctl s r | (False, _) \<Rightarrow> Inl Incomplete)"
proof -
  obtain b r where f: "fast_scan s = (b, r)" by fastforce
  note e = fast_scan_slow [OF f]
  show ?thesis using f e by (cases b) (simp_all add: get_token_to_eol_def)
qed

lemma slow_scan_append:
  "slow_scan s = (b, r) \<Longrightarrow> \<exists>a. s = a @ r \<and> (b \<longrightarrow> r \<noteq> [] \<and> (\<forall>t. slow_scan (s @ t) = (True, r @ t)))"
proof (induction s)
  case (Cons c s)
  show ?case
  proof (cases "\<not> is_printable_ascii c \<and> is_ctl c")
    case True
    with Cons.prems show ?thesis by auto
  next
    case False
    with Cons.prems Cons.IH obtain a where
      "s = a @ r \<and> (b \<longrightarrow> r \<noteq> [] \<and> (\<forall>t. slow_scan (s @ t) = (True, r @ t)))" by auto
    with False show ?thesis by (intro exI [of _ "c # a"]) auto
  qed
qed simp

section \<open>Stability under arrival of more bytes\<close>

text \<open>A parser is stable when a success or a rejection is final: more bytes at the end change
  neither the result nor the position.  Success also leaves a suffix of the input.\<close>

definition stable :: "(bytes \<Rightarrow> 'a parse_result) \<Rightarrow> bool" where
  "stable p \<longleftrightarrow> (\<forall>s t. (\<forall>x r. p s = Inr (x, r) \<longrightarrow> suffix r s \<and> p (s @ t) = Inr (x, r @ t)) \<and>
     (p s = Inl Malformed \<longrightarrow> p (s @ t) = Inl Malformed))"

definition stable_pos :: "(bytes \<Rightarrow> perr + bytes) \<Rightarrow> bool" where
  "stable_pos p \<longleftrightarrow> (\<forall>s t. (\<forall>r. p s = Inr r \<longrightarrow> suffix r s \<and> p (s @ t) = Inr (r @ t)) \<and>
     (p s = Inl Malformed \<longrightarrow> p (s @ t) = Inl Malformed))"

named_theorems stable_intros \<open>stability of the parsers\<close>

lemma stableD:
  "stable p \<Longrightarrow> p s = Inr (x, r) \<Longrightarrow> suffix r s \<and> p (s @ t) = Inr (x, r @ t)"
  "stable p \<Longrightarrow> p s = Inl Malformed \<Longrightarrow> p (s @ t) = Inl Malformed"
  by (auto simp: stable_def)

lemma stableI:
  assumes "\<And>s t x r. p s = Inr (x, r) \<Longrightarrow> suffix r s \<and> p (s @ t) = Inr (x, r @ t)"
    and "\<And>s t. p s = Inl Malformed \<Longrightarrow> p (s @ t) = Inl Malformed"
  shows "stable p"
  using assms by (auto simp: stable_def)

lemma stable_and_then [stable_intros]:
  assumes p: "stable p" and q: "\<And>x. stable (q x)"
  shows "stable (\<lambda>s. and_then (p s) (\<lambda>(x, r). q x r))"
proof (rule stableI)
  fix s t y r assume a: "and_then (p s) (\<lambda>(x, r). q x r) = Inr (y, r)"
  then obtain x r1 where p1: "p s = Inr (x, r1)" by (auto simp: and_then_def split: sum.splits)
  with a have q1: "q x r1 = Inr (y, r)" by simp
  from stableD(1) [OF p p1, of t] stableD(1) [OF q q1, of t] p1
  show "suffix r s \<and> and_then (p (s @ t)) (\<lambda>(x, r). q x r) = Inr (y, r @ t)"
    by (auto intro: suffix_order.trans)
next
  fix s t assume a: "and_then (p s) (\<lambda>(x, r). q x r) = Inl Malformed"
  show "and_then (p (s @ t)) (\<lambda>(x, r). q x r) = Inl Malformed"
  proof (cases "p s")
    case (Inl e)
    with a have "p s = Inl Malformed" by simp
    with stableD(2) [OF p] show ?thesis by simp
  next
    case (Inr z)
    obtain x r1 where z: "z = (x, r1)" by fastforce
    with a Inr have "q x r1 = Inl Malformed" by simp
    with stableD(2) [OF q this, of t] stableD(1) [OF p, of s x r1 t] Inr z show ?thesis by simp
  qed
qed

lemma stable_return [stable_intros]: "stable (\<lambda>s. Inr (x, s))" "stable (\<lambda>s. Inl Malformed)"
  by (simp_all add: stable_def)

lemma stable_if [stable_intros]: "stable p \<Longrightarrow> stable q \<Longrightarrow> stable (\<lambda>s. if b then p s else q s)"
  by (cases b) simp_all

lemma stable_slice [stable_intros]:
  assumes "stable_pos p"
  shows "stable (\<lambda>s. and_then (p s) (\<lambda>r. Inr (slice s r, r)))"
proof (rule stableI)
  fix s t x r assume "and_then (p s) (\<lambda>r. Inr (slice s r, r)) = Inr (x, r)"
  then have "p s = Inr r" "x = slice s r" by (auto simp: and_then_def split: sum.splits)
  with assms show "suffix r s \<and> and_then (p (s @ t)) (\<lambda>r. Inr (slice (s @ t) r, r)) = Inr (x, r @ t)"
    by (auto simp: stable_pos_def suffix_def slice_def)
next
  fix s t assume "and_then (p s) (\<lambda>r. Inr (slice s r, r)) = Inl Malformed"
  with assms show "and_then (p (s @ t)) (\<lambda>r. Inr (slice (s @ t) r, r)) = Inl Malformed"
    by (auto simp: stable_pos_def and_then_def split: sum.splits)
qed

lemma stable_posI:
  assumes "\<And>s t r. p s = Inr r \<Longrightarrow> suffix r s \<and> p (s @ t) = Inr (r @ t)"
    and "\<And>s t. p s = Inl Malformed \<Longrightarrow> p (s @ t) = Inl Malformed"
  shows "stable_pos p"
  using assms by (auto simp: stable_pos_def)

lemma suffix_ConsI': "suffix r s \<Longrightarrow> suffix r (c # s)"
  by (rule suffix_ConsI)

lemma token_loop_stable [stable_intros]: "stable_pos (token_loop ch)"
proof (rule stable_posI)
  fix s t r show "token_loop ch s = Inr r \<Longrightarrow> suffix r s \<and> token_loop ch (s @ t) = Inr (r @ t)"
    by (induction s) (auto split: if_splits intro: suffix_ConsI)
next
  fix s t show "token_loop ch s = Inl Malformed \<Longrightarrow> token_loop ch (s @ t) = Inl Malformed"
    by (induction s) (auto split: if_splits)
qed

lemma advance_loop_stable [stable_intros]: "stable_pos advance_loop"
proof (rule stable_posI)
  fix s t r show "advance_loop s = Inr r \<Longrightarrow> suffix r s \<and> advance_loop (s @ t) = Inr (r @ t)"
    by (induction s) (auto split: if_splits intro: suffix_ConsI)
next
  fix s t show "advance_loop s = Inl Malformed \<Longrightarrow> advance_loop (s @ t) = Inl Malformed"
    by (induction s) (auto split: if_splits)
qed

lemma space_loop_stable: "stable_pos space_loop"
proof (rule stable_posI)
  fix s t r show "space_loop s = Inr r \<Longrightarrow> suffix r s \<and> space_loop (s @ t) = Inr (r @ t)"
    by (induction s) (auto split: if_splits intro: suffix_ConsI)
next
  fix s t show "space_loop s = Inl Malformed \<Longrightarrow> space_loop (s @ t) = Inl Malformed"
    by (induction s) (auto split: if_splits)
qed

lemma blank_loop_stable: "stable_pos blank_loop"
proof (rule stable_posI)
  fix s t r show "blank_loop s = Inr r \<Longrightarrow> suffix r s \<and> blank_loop (s @ t) = Inr (r @ t)"
    by (induction s) (auto split: if_splits intro: suffix_ConsI)
next
  fix s t show "blank_loop s = Inl Malformed \<Longrightarrow> blank_loop (s @ t) = Inl Malformed"
    by (induction s) (auto split: if_splits)
qed

lemma stable_tl:
  assumes "stable_pos p" and "p [] = Inl Incomplete"
  shows "stable (\<lambda>s. and_then (p (tl s)) (\<lambda>r. Inr (x, r)))"
proof (rule stableI)
  fix s t y r assume a: "and_then (p (tl s)) (\<lambda>r. Inr (x, r)) = Inr (y, r)"
  then have p: "p (tl s) = Inr r" "y = x" by (auto simp: and_then_def split: sum.splits)
  with assms(2) obtain c s' where s: "s = c # s'" by (cases s) auto
  with p assms(1) show "suffix r s \<and> and_then (p (tl (s @ t))) (\<lambda>r. Inr (x, r)) = Inr (y, r @ t)"
    by (auto simp: stable_pos_def intro: suffix_ConsI)
next
  fix s t assume "and_then (p (tl s)) (\<lambda>r. Inr (x, r)) = Inl Malformed"
  with assms show "and_then (p (tl (s @ t))) (\<lambda>r. Inr (x, r)) = Inl Malformed"
    by (cases s) (auto simp: stable_pos_def and_then_def split: sum.splits)
qed

lemma expect_char_stable [stable_intros]: "stable (expect_char ch)"
  by (rule stableI) (auto simp: expect_char_def suffix_ConsI split: list.splits if_splits)

lemma parse_int_stable [stable_intros]: "stable (parse_int m)"
  by (rule stableI) (auto simp: parse_int_def suffix_ConsI split: list.splits if_splits)

lemma expect_all_stable [stable_intros]: "stable (expect_all chs)"
proof (induction chs)
  case Nil
  have "expect_all [] = (\<lambda>s. Inr ((), s))" by (rule ext) simp
  with stable_return show ?case by metis
next
  case (Cons c chs)
  have "stable (\<lambda>s. and_then (expect_char c s) (\<lambda>(u, r). expect_all chs r))"
    by (rule stable_and_then) (rule expect_char_stable, rule Cons)
  moreover have "expect_all (c # chs) = (\<lambda>s. and_then (expect_char c s) (\<lambda>(u, r). expect_all chs r))"
    by (rule ext) simp
  ultimately show ?case by simp
qed

lemma parse_token_stable [stable_intros]: "stable (parse_token ch)"
  unfolding parse_token_def by (intro stable_intros)

lemma advance_token_stable [stable_intros]: "stable advance_token"
  unfolding advance_token_def by (intro stable_intros)

lemma skip_spaces_stable [stable_intros]: "stable skip_spaces"
  unfolding skip_spaces_def by (rule stable_tl [OF space_loop_stable]) simp

lemma parse_http_version_stable [stable_intros]: "stable parse_http_version"
proof -
  have st: "stable (\<lambda>s. and_then (expect_all ''HTTP/1.'' s) (\<lambda>(u, r). parse_int 1 r))"
    by (intro stable_intros)
  show ?thesis
  proof (rule stableI)
    fix s t x r assume a: "parse_http_version s = Inr (x, r)"
    then have len: "\<not> length s < 9" by (auto simp: parse_http_version_def)
    with a stableD(1) [OF st] show "suffix r s \<and> parse_http_version (s @ t) = Inr (x, r @ t)"
      by (simp add: parse_http_version_def)
  next
    fix s t assume a: "parse_http_version s = Inl Malformed"
    then have len: "\<not> length s < 9" by (auto simp: parse_http_version_def)
    with a stableD(2) [OF st] show "parse_http_version (s @ t) = Inl Malformed"
      by (simp add: parse_http_version_def)
  qed
qed

lemma found_ctl_append:
  assumes "s = a @ r" and "r \<noteq> []"
  shows "found_ctl s r = Inr (x, r') \<Longrightarrow> suffix r' s \<and> length r' < length s \<and> found_ctl (s @ t) (r @ t) = Inr (x, r' @ t)"
    and "found_ctl s r = Inl Malformed \<Longrightarrow> found_ctl (s @ t) (r @ t) = Inl Malformed"
proof -
  obtain c r2 where r: "r = c # r2" using assms(2) by (cases r) auto
  show "found_ctl s r = Inr (x, r') \<Longrightarrow> suffix r' s \<and> length r' < length s \<and> found_ctl (s @ t) (r @ t) = Inr (x, r' @ t)"
    unfolding assms(1) r
    by (cases r2) (auto simp: found_ctl_def expect_char_def slice_def suffix_def split: if_splits)
  show "found_ctl s r = Inl Malformed \<Longrightarrow> found_ctl (s @ t) (r @ t) = Inl Malformed"
    unfolding assms(1) r
    by (cases r2) (auto simp: found_ctl_def expect_char_def split: if_splits)
qed

lemma get_token_to_eol_stable [stable_intros]: "stable get_token_to_eol"
proof (rule stableI)
  fix s t x r assume a: "get_token_to_eol s = Inr (x, r)"
  then obtain r1 where s1: "slow_scan s = (True, r1)" "found_ctl s r1 = Inr (x, r)"
    by (auto simp: get_token_to_eol_slow split: prod.splits bool.splits)
  from slow_scan_append [OF s1(1)] obtain a where
    "s = a @ r1" "r1 \<noteq> []" "slow_scan (s @ t) = (True, r1 @ t)" by auto
  with found_ctl_append(1) [OF this(1,2) s1(2), of t]
  show "suffix r s \<and> get_token_to_eol (s @ t) = Inr (x, r @ t)" by (simp add: get_token_to_eol_slow)
next
  fix s t assume a: "get_token_to_eol s = Inl Malformed"
  then obtain r1 where s1: "slow_scan s = (True, r1)" "found_ctl s r1 = Inl Malformed"
    by (auto simp: get_token_to_eol_slow split: prod.splits bool.splits)
  from slow_scan_append [OF s1(1)] obtain a where
    "s = a @ r1" "r1 \<noteq> []" "slow_scan (s @ t) = (True, r1 @ t)" by auto
  with found_ctl_append(2) [OF this(1,2) s1(2), of t]
  show "get_token_to_eol (s @ t) = Inl Malformed" by (simp add: get_token_to_eol_slow)
qed

lemma get_token_to_eol_shorter: "get_token_to_eol s = Inr (x, r) \<Longrightarrow> length r < length s"
proof -
  assume a: "get_token_to_eol s = Inr (x, r)"
  then obtain r1 where s1: "slow_scan s = (True, r1)" "found_ctl s r1 = Inr (x, r)"
    by (auto simp: get_token_to_eol_slow split: prod.splits bool.splits)
  from slow_scan_append [OF s1(1)] obtain a where "s = a @ r1" "r1 \<noteq> []" by auto
  from found_ctl_append(1) [OF this s1(2)] show ?thesis by simp
qed

section \<open>Header blocks and requests\<close>

lemma header_name_append:
  assumes "s \<noteq> []"
  shows "header_name first s = Inr (x, r) \<Longrightarrow> suffix r s \<and> header_name first (s @ t) = Inr (x, r @ t)"
    and "header_name first s = Inl Malformed \<Longrightarrow> header_name first (s @ t) = Inl Malformed"
proof -
  let ?p = "\<lambda>s. and_then (parse_token (CHR '':'') s) (\<lambda>(name, r). if name = [] then Inl Malformed
          else and_then (blank_loop (tl r)) (\<lambda>r'. Inr (Some name, r')))"
  have st: "stable ?p"
    by (intro stable_intros stable_tl [OF blank_loop_stable]) simp
  have hd: "hd (s @ t) = hd s" using assms by simp
  show "header_name first s = Inr (x, r) \<Longrightarrow> suffix r s \<and> header_name first (s @ t) = Inr (x, r @ t)"
    using stableD(1) [OF st, of s x r t] unfolding header_name_def hd
    by (cases "\<not> first \<and> (hd s = CHR '' '' \<or> hd s = TAB)") (simp_all)
  show "header_name first s = Inl Malformed \<Longrightarrow> header_name first (s @ t) = Inl Malformed"
    using stableD(2) [OF st, of s t] unfolding header_name_def hd
    by (cases "\<not> first \<and> (hd s = CHR '' '' \<or> hd s = TAB)") (simp_all)
qed

lemma header_line_append:
  assumes "s \<noteq> []"
  shows "header_line first s = Inr (x, r) \<Longrightarrow>
      suffix r s \<and> length r < length s \<and> header_line first (s @ t) = Inr (x, r @ t)"
    and "header_line first s = Inl Malformed \<Longrightarrow> header_line first (s @ t) = Inl Malformed"
proof -
  let ?q = "\<lambda>name s. and_then (get_token_to_eol s) (\<lambda>(v, r').
      Inr (\<lparr>h_name = name, h_value = strip_trailing v, h_trail = drop (length (strip_trailing v)) v\<rparr>, r'))"
  have st: "stable (?q name)" for name by (intro stable_intros)
  show "suffix r s \<and> length r < length s \<and> header_line first (s @ t) = Inr (x, r @ t)"
    if a: "header_line first s = Inr (x, r)"
  proof -
    obtain name r1 where n: "header_name first s = Inr (name, r1)"
      using a by (auto simp: header_line_def and_then_def split: sum.splits)
    with a have q: "?q name r1 = Inr (x, r)" by (simp add: header_line_def)
    then have "length r < length r1"
      by (auto simp: and_then_def split: sum.splits dest: get_token_to_eol_shorter)
    with header_name_append(1) [OF assms n, of t] stableD(1) [OF st q, of t] show ?thesis
      by (auto simp: header_line_def intro: suffix_order.trans dest: suffix_length_le)
  qed
  show "header_line first (s @ t) = Inl Malformed" if a: "header_line first s = Inl Malformed"
  proof (cases "header_name first s")
    case (Inl e)
    with a have "header_name first s = Inl Malformed" by (simp add: header_line_def)
    with header_name_append(2) [OF assms] show ?thesis by (simp add: header_line_def)
  next
    case (Inr z)
    obtain name r1 where z: "z = (name, r1)" by fastforce
    with a Inr have "?q name r1 = Inl Malformed" by (simp add: header_line_def)
    with stableD(2) [OF st this, of t] header_name_append(1) [OF assms, of first name r1 t] Inr z
    show ?thesis by (simp add: header_line_def)
  qed
qed

lemma and_then_cong [fundef_cong]:
  "r = r' \<Longrightarrow> (\<And>x. r' = Inr x \<Longrightarrow> f x = g x) \<Longrightarrow> and_then r f = and_then r' g"
  by (auto simp: and_then_def split: sum.splits)

text \<open>\<open>parse_headers\<close> with \<open>n\<close> headers already stored.\<close>

function parse_headers :: "nat \<Rightarrow> nat \<Rightarrow> bytes \<Rightarrow> phr_header list parse_result" where
  "parse_headers n max_headers s =
     (if s = [] then Inl Incomplete
      else if hd s = CR then and_then (expect_char LF (tl s)) (\<lambda>(_, r). Inr ([], r))
      else if hd s = LF then Inr ([], tl s)
      else if n = max_headers then Inl Malformed
      else and_then (header_line (n = 0) s) (\<lambda>(h, r).
             and_then (parse_headers (n + 1) max_headers r) (\<lambda>(hs, r'). Inr (h # hs, r'))))"
  by pat_completeness auto
termination
  by (relation "measure (\<lambda>(n, m, s). length s)") (auto dest: header_line_append(1) [rotated])

declare parse_headers.simps [simp del]

record phr_request =
  req_method :: bytes
  req_path :: bytes
  req_minor :: int
  req_headers :: "phr_header list"

text \<open>The line end before the method, if there is one, and the one after the version.\<close>

definition skip_empty_line :: "bytes \<Rightarrow> unit parse_result" where
  "skip_empty_line s =
     (case s of
        [] \<Rightarrow> Inl Incomplete
      | c # r \<Rightarrow> if c = CR then expect_char LF r
                 else if c = LF then Inr ((), r)
                 else Inr ((), c # r))"

definition end_of_line :: "bytes \<Rightarrow> unit parse_result" where
  "end_of_line s =
     (case s of
        [] \<Rightarrow> Inl Incomplete
      | c # r \<Rightarrow> if c = CR then expect_char LF r
                 else if c = LF then Inr ((), r)
                 else Inl Malformed)"

definition parse_request :: "nat \<Rightarrow> bytes \<Rightarrow> phr_request parse_result" where
  "parse_request max_headers s =
     and_then (skip_empty_line s) (\<lambda>(_, s).
     and_then (parse_token (CHR '' '') s) (\<lambda>(method, s).
     and_then (skip_spaces s) (\<lambda>(_, s).
     and_then (advance_token s) (\<lambda>(path, s).
     and_then (skip_spaces s) (\<lambda>(_, s).
     if method = [] \<or> path = [] then Inl Malformed
     else
     and_then (parse_http_version s) (\<lambda>(minor, s).
     and_then (end_of_line s) (\<lambda>(_, s).
     and_then (parse_headers 0 max_headers s) (\<lambda>(hs, s).
       Inr (\<lparr>req_method = method, req_path = path, req_minor = minor, req_headers = hs\<rparr>, s)))))))))"

text \<open>\<open>phr_parse_request\<close>: the request and the number of bytes consumed.\<close>

definition phr_parse_request :: "bytes \<Rightarrow> nat \<Rightarrow> nat \<Rightarrow> perr + phr_request \<times> nat" where
  "phr_parse_request buf max_headers last_len =
     (case (if last_len \<noteq> 0 then is_complete buf last_len else Inr []) of
        Inl e \<Rightarrow> Inl e
      | Inr _ \<Rightarrow> and_then (parse_request max_headers buf) (\<lambda>(req, r). Inr (req, length buf - length r)))"

section \<open>Responses and header blocks alone\<close>

record phr_response =
  rsp_minor :: int
  rsp_status :: int
  rsp_msg :: bytes
  rsp_headers :: "phr_header list"

text \<open>\<open>PARSE_INT_3\<close>.\<close>

definition parse_int_3 :: "bytes \<Rightarrow> int parse_result" where
  "parse_int_3 s =
     and_then (parse_int 100 s) (\<lambda>(a, s).
     and_then (parse_int 10 s) (\<lambda>(b, s).
     and_then (parse_int 1 s) (\<lambda>(c, s). Inr (a + b + c, s))))"

definition parse_response :: "nat \<Rightarrow> bytes \<Rightarrow> phr_response parse_result" where
  "parse_response max_headers s =
     and_then (parse_http_version s) (\<lambda>(minor, s).
     if hd s \<noteq> CHR '' '' then Inl Malformed
     else
     and_then (skip_spaces s) (\<lambda>(_, s).
     if length s < 4 then Inl Incomplete
     else
     and_then (parse_int_3 s) (\<lambda>(status, s).
     and_then (get_token_to_eol s) (\<lambda>(msg, s).
     if msg \<noteq> [] \<and> hd msg \<noteq> CHR '' '' then Inl Malformed
     else
     and_then (parse_headers 0 max_headers s) (\<lambda>(hs, s).
       Inr (\<lparr>rsp_minor = minor, rsp_status = status,
             rsp_msg = dropWhile (\<lambda>c. c = CHR '' '') msg, rsp_headers = hs\<rparr>, s))))))"

definition phr_parse_response :: "bytes \<Rightarrow> nat \<Rightarrow> nat \<Rightarrow> perr + phr_response \<times> nat" where
  "phr_parse_response buf max_headers last_len =
     (case (if last_len \<noteq> 0 then is_complete buf last_len else Inr []) of
        Inl e \<Rightarrow> Inl e
      | Inr _ \<Rightarrow> and_then (parse_response max_headers buf) (\<lambda>(rsp, r). Inr (rsp, length buf - length r)))"

definition phr_parse_headers :: "bytes \<Rightarrow> nat \<Rightarrow> nat \<Rightarrow> perr + phr_header list \<times> nat" where
  "phr_parse_headers buf max_headers last_len =
     (case (if last_len \<noteq> 0 then is_complete buf last_len else Inr []) of
        Inl e \<Rightarrow> Inl e
      | Inr _ \<Rightarrow> and_then (parse_headers 0 max_headers buf) (\<lambda>(hs, r). Inr (hs, length buf - length r)))"

section \<open>Stability of the request parser\<close>

lemma parse_headers_Cons:
  "parse_headers n m (c # r) =
     (if c = CR then and_then (expect_char LF r) (\<lambda>(_, r). Inr ([], r))
      else if c = LF then Inr ([], r)
      else if n = m then Inl Malformed
      else and_then (header_line (n = 0) (c # r)) (\<lambda>(h, r).
             and_then (parse_headers (n + 1) m r) (\<lambda>(hs, r'). Inr (h # hs, r'))))"
  by (subst parse_headers.simps) simp

lemma parse_headers_Nil: "parse_headers n m [] = Inl Incomplete"
  by (subst parse_headers.simps) simp

lemma parse_headers_stable [stable_intros]: "stable (parse_headers n m)"
proof -
  have "(parse_headers n m s = Inr (x, r) \<longrightarrow> suffix r s \<and> parse_headers n m (s @ t) = Inr (x, r @ t)) \<and>
      (parse_headers n m s = Inl Malformed \<longrightarrow> parse_headers n m (s @ t) = Inl Malformed)" for s t x r
  proof (induction n m s arbitrary: x r rule: parse_headers.induct)
    case (1 n m s)
    show ?case
    proof (cases s)
      case Nil
      then show ?thesis by (simp add: parse_headers_Nil)
    next
      case (Cons c s')
      show ?thesis
      proof (cases "hd s = CR \<or> hd s = LF \<or> n = m")
        case True
        have st: "stable (\<lambda>s. and_then (expect_char LF s) (\<lambda>(u, r). Inr ([] :: phr_header list, r)))"
          by (intro stable_intros)
        show ?thesis
          using True Cons stableD(1) [OF st, of s' x r t] stableD(2) [OF st, of s' t]
          by (auto simp: parse_headers_Cons suffix_ConsI split: if_splits)
      next
        case False
        let ?k = "\<lambda>h r. and_then (parse_headers (n + 1) m r) (\<lambda>(hs, r'). Inr (h # hs, r'))"
        have eq: "parse_headers n m s = and_then (header_line (n = 0) s) (\<lambda>(h, r). ?k h r)"
          "parse_headers n m (s @ t) = and_then (header_line (n = 0) (s @ t)) (\<lambda>(h, r). ?k h r)"
          using False Cons by (simp_all add: parse_headers_Cons)
        have ne: "s \<noteq> []" using Cons by simp
        show ?thesis
        proof (cases "header_line (n = 0) s")
          case (Inl e)
          with header_line_append(2) [OF ne, of "n = 0" t] show ?thesis by (simp add: eq)
        next
          case (Inr z)
          obtain h r1 where z: "z = (h, r1)" by fastforce
          note a = header_line_append(1) [OF ne Inr [unfolded z], of t]
          have IH: "(parse_headers (n + 1) m r1 = Inr (y, r2) \<longrightarrow>
                suffix r2 r1 \<and> parse_headers (n + 1) m (r1 @ t) = Inr (y, r2 @ t)) \<and>
              (parse_headers (n + 1) m r1 = Inl Malformed \<longrightarrow> parse_headers (n + 1) m (r1 @ t) = Inl Malformed)"
            for y r2 by (rule "1.IH" [OF ne _ _ _ Inr]) (use False z in auto)
          have e1: "parse_headers n m s = ?k h r1" using Inr z by (simp add: eq)
          have e2: "parse_headers n m (s @ t) = ?k h (r1 @ t)" using a by (simp add: eq)
          show ?thesis
          proof (cases "parse_headers (n + 1) m r1")
            case (Inl e)
            with IH show ?thesis by (auto simp: e1 e2)
          next
            case (Inr w)
            obtain y r2 where w: "w = (y, r2)" by fastforce
            with Inr IH [of y r2] a show ?thesis by (auto simp: e1 e2 intro: suffix_order.trans)
          qed
        qed
      qed
    qed
  qed
  then show ?thesis by (simp add: stable_def)
qed

lemma skip_empty_line_stable [stable_intros]: "stable skip_empty_line"
  by (rule stableI)
    (auto simp: skip_empty_line_def suffix_ConsI dest: stableD [OF expect_char_stable]
      split: list.splits if_splits)

lemma end_of_line_stable [stable_intros]: "stable end_of_line"
  by (rule stableI)
    (auto simp: end_of_line_def suffix_ConsI dest: stableD [OF expect_char_stable]
      split: list.splits if_splits)

lemma parse_request_stable: "stable (parse_request m)"
  unfolding parse_request_def by (intro stable_intros)

section \<open>Printing\<close>

text \<open>The request a client sends, and when it is one the grammar of the parser covers.\<close>

definition render_header :: "phr_header \<Rightarrow> bytes" where
  "render_header h = the (h_name h) @ '': '' @ h_value h @ [CR, LF]"

definition render_request :: "phr_request \<Rightarrow> bytes" where
  "render_request req =
     req_method req @ '' '' @ req_path req @ '' HTTP/1.'' @ [digit_char (nat (req_minor req))] @ [CR, LF] @
     concat (map render_header (req_headers req)) @ [CR, LF]"

definition blank :: "byte \<Rightarrow> bool" where
  "blank c \<longleftrightarrow> c = CHR '' '' \<or> c = TAB"

definition header_ok :: "phr_header \<Rightarrow> bool" where
  "header_ok h \<longleftrightarrow>
     (case h_name h of None \<Rightarrow> False | Some n \<Rightarrow> n \<noteq> [] \<and> list_all is_token_char n) \<and>
     list_all (\<lambda>c. \<not> is_ctl c) (h_value h) \<and> h_trail h = [] \<and>
     (h_value h \<noteq> [] \<longrightarrow> \<not> blank (hd (h_value h)) \<and> \<not> blank (last (h_value h)))"

definition request_ok :: "phr_request \<Rightarrow> bool" where
  "request_ok req \<longleftrightarrow>
     req_method req \<noteq> [] \<and> list_all is_token_char (req_method req) \<and>
     req_path req \<noteq> [] \<and>
     list_all (\<lambda>c. c \<noteq> CHR '' '' \<and> 32 \<le> byte_val c \<and> byte_val c \<noteq> 127) (req_path req) \<and>
     0 \<le> req_minor req \<and> req_minor req < 10 \<and> list_all header_ok (req_headers req)"

lemma char_values [simp]:
  "byte_val CR = 13" "byte_val LF = 10" "byte_val TAB = 9" "CR \<noteq> LF" "LF \<noteq> CR"
  "is_ctl CR" "is_ctl LF" "\<not> is_printable_ascii CR" "\<not> is_printable_ascii LF"
  by (simp_all add: CR_def LF_def TAB_def byte_val_def is_ctl_def printable_iff)

lemma not_token [simp]:
  "\<not> is_token_char CR" "\<not> is_token_char LF" "\<not> is_token_char (CHR '' '')" "\<not> is_token_char (CHR '':'')"
  "\<not> is_token_char TAB"
  by (simp_all add: is_token_char_def token_char_map_def byte_val_def CR_def LF_def TAB_def nth_append
      numeral_eq_Suc)

lemma token_loop_all:
  "list_all is_token_char a \<Longrightarrow> \<not> is_token_char ch \<Longrightarrow> token_loop ch (a @ ch # r) = Inr (ch # r)"
  by (induction a) auto

lemma advance_loop_all:
  "list_all (\<lambda>c. c \<noteq> CHR '' '' \<and> 32 \<le> byte_val c \<and> byte_val c \<noteq> 127) a \<Longrightarrow>
    advance_loop (a @ CHR '' '' # r) = Inr (CHR '' '' # r)"
  by (induction a) auto

lemma slow_scan_all: "list_all (\<lambda>c. \<not> is_ctl c) a \<Longrightarrow> slow_scan (a @ CR # r) = (True, CR # r)"
  by (induction a) auto

lemma get_token_crlf:
  "list_all (\<lambda>c. \<not> is_ctl c) a \<Longrightarrow> get_token_to_eol (a @ CR # LF # r) = Inr (a, r)"
  by (simp add: get_token_to_eol_slow slow_scan_all found_ctl_def expect_char_def)

lemma strip_trailing_id: "(v \<noteq> [] \<longrightarrow> \<not> blank (last v)) \<Longrightarrow> strip_trailing v = v"
  by (cases v rule: rev_cases) (auto simp: strip_trailing_def blank_def)

lemma blank_loop_value:
  "(v \<noteq> [] \<longrightarrow> \<not> blank (hd v)) \<Longrightarrow> blank_loop (CHR '' '' # v @ CR # r) = Inr (v @ CR # r)"
  by (cases v) (auto simp: blank_def CR_def TAB_def)

lemma header_line_render:
  assumes "header_ok h"
  shows "header_line first (render_header h @ r) = Inr (h, r)"
proof -
  obtain n where n: "h_name h = Some n" "n \<noteq> []" "list_all is_token_char n"
    using assms by (auto simp: header_ok_def split: option.splits)
  obtain c n' where c: "n = c # n'" using n(2) by (cases n) auto
  have "c \<noteq> CHR '' ''" "c \<noteq> TAB" using n(3) c not_token by auto
  moreover have "blank_loop (CHR '' '' # h_value h @ CR # LF # r) = Inr (h_value h @ CR # LF # r)"
    using assms by (intro blank_loop_value) (simp add: header_ok_def)
  moreover have "get_token_to_eol (h_value h @ CR # LF # r) = Inr (h_value h, r)"
    using assms by (intro get_token_crlf) (simp add: header_ok_def)
  moreover have "strip_trailing (h_value h) = h_value h"
    using assms by (intro strip_trailing_id) (simp add: header_ok_def)
  moreover have "token_loop (CHR '':'') (n @ CHR '':'' # CHR '' '' # h_value h @ CR # LF # r) =
      Inr (CHR '':'' # CHR '' '' # h_value h @ CR # LF # r)"
    using n by (intro token_loop_all) simp_all
  ultimately show ?thesis
    using n c assms by (simp add: header_ok_def header_line_def header_name_def parse_token_def render_header_def)
qed

lemma render_header_start:
  assumes "header_ok h"
  shows "\<exists>c r. render_header h = c # r \<and> c \<noteq> CR \<and> c \<noteq> LF"
proof -
  obtain c n where "h_name h = Some (c # n)" "is_token_char c"
    using assms by (auto simp: header_ok_def neq_Nil_conv split: option.splits)
  then show ?thesis using not_token by (auto simp: render_header_def)
qed

lemma parse_headers_render:
  "list_all header_ok hs \<Longrightarrow> n + length hs \<le> m \<Longrightarrow>
    parse_headers n m (concat (map render_header hs) @ CR # LF # r) = Inr (hs, r)"
proof (induction hs arbitrary: n)
  case Nil
  then show ?case by (simp add: parse_headers_Cons expect_char_def)
next
  case (Cons h hs)
  then obtain c u where u: "render_header h = c # u" "c \<noteq> CR" "c \<noteq> LF"
    using render_header_start by (auto dest: render_header_start)
  have l: "header_line (n = 0) (c # u @ concat (map render_header hs) @ CR # LF # r) =
      Inr (h, concat (map render_header hs) @ CR # LF # r)"
    using header_line_render [of h "n = 0" "concat (map render_header hs) @ CR # LF # r"] Cons.prems u by simp
  from Cons u l show ?case by (simp add: parse_headers_Cons)
qed

lemma digit_char_val: "d < 10 \<Longrightarrow> byte_val (digit_char d) = 48 + d"
  by (simp add: digit_char_def)

lemma parse_request_render:
  assumes ok: "request_ok req" and n: "length (req_headers req) \<le> m"
  shows "parse_request m (render_request req @ body) = Inr (req, body)"
proof -
  obtain c k where m: "req_method req = c # k" and tm: "list_all is_token_char (c # k)"
    using ok by (cases "req_method req") (auto simp: request_ok_def)
  have c: "c \<noteq> CR" "c \<noteq> LF" using tm not_token by auto
  obtain p q where p: "req_path req = p # q" "p \<noteq> CHR '' ''"
    using ok by (cases "req_path req") (auto simp: request_ok_def)
  have tp: "list_all (\<lambda>c. c \<noteq> CHR '' '' \<and> 32 \<le> byte_val c \<and> byte_val c \<noteq> 127) (p # q)"
    using ok p(1) by (simp add: request_ok_def)
  let ?hs = "concat (map render_header (req_headers req)) @ CR # LF # body"
  let ?d = "digit_char (nat (req_minor req))"
  have minor: "0 \<le> req_minor req" "nat (req_minor req) < 10" using ok by (auto simp: request_ok_def)
  have v: "parse_http_version (''HTTP/1.'' @ ?d # CR # LF # ?hs) = Inr (req_minor req, CR # LF # ?hs)"
    using minor by (simp add: parse_http_version_def expect_char_def parse_int_def digit_char_val)
  have h: "parse_headers 0 m ?hs = Inr (req_headers req, body)"
    using ok n by (intro parse_headers_render) (simp_all add: request_ok_def)
  have t: "token_loop (CHR '' '') ((c # k) @ CHR '' '' # u) = Inr (CHR '' '' # u)" for u
    using tm by (intro token_loop_all) simp_all
  have a: "advance_loop ((p # q) @ CHR '' '' # u) = Inr (CHR '' '' # u)" for u
    using tp by (rule advance_loop_all)
  have "parse_request m ((c # k) @ CHR '' '' # (p # q) @ CHR '' '' # ''HTTP/1.'' @ ?d # CR # LF # ?hs) =
      Inr (\<lparr>req_method = c # k, req_path = p # q, req_minor = req_minor req, req_headers = req_headers req\<rparr>, body)"
    unfolding parse_request_def parse_token_def advance_token_def skip_spaces_def
    using c p(2) v h t a slice_append [of "c # k"] slice_append [of "p # q"]
    by (simp add: skip_empty_line_def end_of_line_def expect_char_def)
  then show ?thesis using m p(1) by (simp add: render_request_def)
qed

section \<open>Properties\<close>

text \<open>Parsing a request can be repeated as bytes arrive.  A success consumes a prefix of the
  buffer, and both a success and a rejection are final: with any more bytes after the buffer, the
  parser returns the same request and the same number of bytes, or rejects again.  Only -2, for an
  incomplete request, can change.\<close>

theorem phr_parse_request_stable:
  "case phr_parse_request buf m 0 of
     Inr (req, n) \<Rightarrow> n \<le> length buf \<and> phr_parse_request (buf @ extra) m 0 = Inr (req, n)
   | Inl Malformed \<Rightarrow> phr_parse_request (buf @ extra) m 0 = Inl Malformed
   | Inl Incomplete \<Rightarrow> True"
proof (cases "parse_request m buf")
  case (Inl e)
  with stableD(2) [OF parse_request_stable, of m buf extra] show ?thesis
    by (auto simp: phr_parse_request_def split: perr.splits)
next
  case (Inr z)
  obtain req r where z: "z = (req, r)" by fastforce
  with Inr stableD(1) [OF parse_request_stable, of m buf req r extra] show ?thesis
    by (simp add: phr_parse_request_def)
qed

text \<open>The unrolled scan of \<open>get_token_to_eol\<close>, which tests eight bytes at a time for printable
  characters, finds what the plain byte loop finds: the result, the position and the error are
  those of the scan by single bytes, for every buffer.\<close>

theorem get_token_to_eol_fast_path:
  "get_token_to_eol s =
     (case slow_scan s of (True, r) \<Rightarrow> found_ctl s r | (False, _) \<Rightarrow> Inl Incomplete)"
  by (rule get_token_to_eol_slow)

text \<open>C14: parsing inverts printing.  For every request with a method and header names of token
  characters, a path of visible characters, a minor version of one digit and header values without
  control characters or blanks at their ends, the parser reads back exactly the printed request,
  consumes exactly its bytes and leaves the body, as long as the headers fit the caller's array.\<close>

theorem phr_parse_request_roundtrip:
  assumes "request_ok req" and "length (req_headers req) \<le> m"
  shows "phr_parse_request (render_request req @ body) m 0 = Inr (req, length (render_request req))"
  using parse_request_render [OF assms, of body] by (simp add: phr_parse_request_def)

theorem phr_parse_request_roundtrip_witness:
  "let req = \<lparr>req_method = ''POST'', req_path = ''/login'', req_minor = 1,
      req_headers = [\<lparr>h_name = Some ''Host'', h_value = ''a b'', h_trail = []\<rparr>, \<lparr>h_name = Some ''X'', h_value = [], h_trail = []\<rparr>]\<rparr>
   in phr_parse_request (render_request req @ ''u=1'') 32 0 = Inr (req, length (render_request req))"
  unfolding Let_def
  by (rule phr_parse_request_roundtrip)
    (simp_all add: request_ok_def header_ok_def is_token_char_def token_char_map_def byte_val_def
      nth_append numeral_eq_Suc is_ctl_def blank_def TAB_def)

end
