(* ===== verification/HttpUtils.thy ===== *)
theory HttpUtils
  imports PicoHttp
begin

text \<open>
  Requests and responses: \<open>http_utils.c\<close> and the two structs of \<open>http_types.h\<close>.  The body of a
  request is the rest of the receive buffer, which the connection terminates with a NUL; a NULL
  pointer is None.
\<close>

section \<open>Data\<close>

definition HTTP_MAX_HEADERS :: nat where
  "HTTP_MAX_HEADERS = 32"

definition COOKIE_MAX :: nat where
  "COOKIE_MAX = 512"

definition LOCATION_MAX :: nat where
  "LOCATION_MAX = 256"

definition MAX_NUMBER_LEN :: nat where
  "MAX_NUMBER_LEN = 24"

record http_request =
  hr_method :: bytes
  hr_path :: bytes
  hr_headers :: "phr_header list"
  hr_minorVersion :: int
  hr_body :: "bytes option"

text \<open>\<open>body\<close> is what the body buffer holds, of which \<open>bodyLen\<close> bytes are sent.\<close>

record http_response =
  statusCode :: int
  contentType :: "bytes option"
  body :: bytes
  bodyLen :: nat
  setCookie :: bytes
  location :: bytes

section \<open>Decoding\<close>

definition is_xdigit :: "byte \<Rightarrow> bool" where
  "is_xdigit c \<longleftrightarrow> is_digit c \<or> 65 \<le> byte_val c \<and> byte_val c \<le> 70 \<or> 97 \<le> byte_val c \<and> byte_val c \<le> 102"

definition hex_val :: "byte \<Rightarrow> nat" where
  "hex_val c =
     (if 48 \<le> byte_val c \<and> byte_val c \<le> 57 then byte_val c - 48
      else if 97 \<le> byte_val c \<and> byte_val c \<le> 102 then byte_val c - 97 + 10
      else if 65 \<le> byte_val c \<and> byte_val c \<le> 70 then byte_val c - 65 + 10
      else 0)"

text \<open>\<open>src[k]\<close> of a C string, NUL past its end.\<close>

definition char_at :: "bytes \<Rightarrow> nat \<Rightarrow> byte" where
  "char_at s k = (if k < length s then s ! k else NUL)"

definition url_stop :: "byte \<Rightarrow> bool" where
  "url_stop c \<longleftrightarrow> c = NUL \<or> c = CHR ''&'' \<or> c = CHR '' '' \<or> c = CR \<or> c = LF"

text \<open>The loop of \<open>url_decode\<close> with room for that many more characters.\<close>

function url_decode_loop :: "bytes \<Rightarrow> nat \<Rightarrow> bytes" where
  "url_decode_loop s room =
     (if url_stop (char_at s 0) \<or> room = 0 then []
      else if char_at s 0 = CHR ''%'' \<and> is_xdigit (char_at s 1) \<and> is_xdigit (char_at s 2) then
        (let c = char_of ((16 * hex_val (char_at s 1) + hex_val (char_at s 2)) mod 256) in
         if c = NUL then [] else c # url_decode_loop (drop 3 s) (room - 1))
      else if char_at s 0 = CHR ''+'' then CHR '' '' # url_decode_loop (drop 1 s) (room - 1)
      else char_at s 0 # url_decode_loop (drop 1 s) (room - 1))"
  by pat_completeness auto
termination
  by (relation "measure snd") auto

declare url_decode_loop.simps [simp del]

definition url_decode :: "bytes \<Rightarrow> nat \<Rightarrow> bytes" where
  "url_decode src mx = url_decode_loop src (mx - 1)"

definition http_status_msg :: "int \<Rightarrow> bytes" where
  "http_status_msg code =
     (if code = 200 then ''OK''
      else if code = 302 then ''Found''
      else if code = 400 then ''Bad Request''
      else if code = 401 then ''Unauthorized''
      else if code = 403 then ''Forbidden''
      else if code = 404 then ''Not Found''
      else if code = 405 then ''Method Not Allowed''
      else if code = 429 then ''Too Many Requests''
      else if code = 500 then ''Internal Server Error''
      else ''OK'')"

definition infer_contentType :: "bytes \<Rightarrow> bytes option \<Rightarrow> bytes" where
  "infer_contentType bdy override =
     (if override \<noteq> None \<and> cstr (the override) \<noteq> [] then the override
      else if char_at bdy 0 = CHR ''<'' then ''text/html; charset=utf-8''
      else if char_at bdy 0 = CHR ''{'' \<or> char_at bdy 0 = CHR ''['' then ''application/json''
      else ''text/plain; charset=utf-8'')"

section \<open>Requests\<close>

text \<open>The loop over the headers of a POST: the first Content-Length decides.\<close>

fun content_length_loop :: "phr_header list \<Rightarrow> nat \<Rightarrow> bool" where
  "content_length_loop [] received = True"
| "content_length_loop (h # hs) received =
     (case h_name h of
        None \<Rightarrow> content_length_loop hs received
      | Some n \<Rightarrow>
          if length n \<noteq> 14 then content_length_loop hs received
          else if \<not> strncase_eq 14 n ''content-length'' then content_length_loop hs received
          else let val = take (min (length (h_value h)) (MAX_NUMBER_LEN - 1)) (h_value h);
                   cl = strtol val
               in if cl \<le> 0 then True else int received \<ge> cl)"

definition http_is_request_complete :: "bytes \<Rightarrow> bool" where
  "http_is_request_complete buf =
     (case phr_parse_request buf HTTP_MAX_HEADERS 0 of
        Inl Incomplete \<Rightarrow> False
      | Inl Malformed \<Rightarrow> True
      | Inr (req, r) \<Rightarrow>
          if req_method req \<noteq> ''POST'' then True
          else content_length_loop (req_headers req) (length buf - r))"

definition http_request_parse :: "bytes \<Rightarrow> http_request option" where
  "http_request_parse raw =
     (case phr_parse_request raw HTTP_MAX_HEADERS 0 of
        Inl _ \<Rightarrow> None
      | Inr (req, r) \<Rightarrow>
          Some \<lparr>hr_method = req_method req,
                hr_path = takeWhile (\<lambda>c. c \<noteq> CHR ''?'') (req_path req),
                hr_headers = req_headers req, hr_minorVersion = req_minor req,
                hr_body = (if length raw > r then Some (drop r raw) else None)\<rparr>)"

text \<open>\<open>http_request_header\<close>: the first header of that name.\<close>

definition http_request_header :: "http_request \<Rightarrow> bytes \<Rightarrow> phr_header option" where
  "http_request_header req name =
     find (\<lambda>h. case h_name h of
                 None \<Rightarrow> name = []
               | Some n \<Rightarrow> length n = length name \<and> strncase_eq (length name) n name) (hr_headers req)"

text \<open>The search loop of \<open>http_request_cookie\<close>: \<open>s\<close> is the rest of the value and \<open>prev\<close> the
  byte before it (None at the start).  What \<open>url_decode\<close> reads past the value are the blanks up to
  the end of the line.\<close>

fun cookie_loop :: "bytes \<Rightarrow> byte option \<Rightarrow> bytes \<Rightarrow> bytes option" where
  "cookie_loop name prev [] = None"
| "cookie_loop name prev (c # s) =
     (if prefix name (c # s) \<and> (prev = None \<or> prev = Some (CHR '' '') \<or> prev = Some (CHR '';'')) \<and>
         length name < length (c # s) \<and> (c # s) ! length name = CHR ''=''
      then Some (drop (length name + 1) (c # s))
      else cookie_loop name (Some c) s)"

definition http_request_cookie :: "http_request \<Rightarrow> bytes \<Rightarrow> nat \<Rightarrow> bytes" where
  "http_request_cookie req name mx =
     (case http_request_header req ''cookie'' of
        None \<Rightarrow> []
      | Some h \<Rightarrow>
          (case cookie_loop name None (h_value h) of
             None \<Rightarrow> []
           | Some s \<Rightarrow> url_decode (s @ h_trail h @ [LF]) mx))"

definition http_is_request_path :: "http_request \<Rightarrow> bytes \<Rightarrow> bool" where
  "http_is_request_path req path \<longleftrightarrow> length (hr_path req) = length path \<and> hr_path req = path"

definition http_is_request_method :: "http_request \<Rightarrow> bytes \<Rightarrow> bool" where
  "http_is_request_method req method \<longleftrightarrow> length (hr_method req) = length method \<and> hr_method req = method"

definition http_request_contains_keepalive :: "http_request \<Rightarrow> bool" where
  "http_request_contains_keepalive req \<longleftrightarrow>
     (case http_request_header req ''connection'' of
        None \<Rightarrow> False
      | Some h \<Rightarrow> length (h_value h) \<ge> 10 \<and> strncase_eq 10 (h_value h) ''keep-alive'')"

section \<open>Responses\<close>

text \<open>\<open>append_to_buffer\<close> on the bytes written so far; None when the text and its NUL do not fit.\<close>

definition append_to_buffer :: "nat \<Rightarrow> bytes \<Rightarrow> bytes \<Rightarrow> bytes option" where
  "append_to_buffer outMax out txt =
     (let remaining = outMax - length out in
      if length txt \<ge> remaining then None else Some (out @ txt))"

definition crlf :: bytes where
  "crlf = [CR, LF]"

definition response_head :: "http_response \<Rightarrow> bool \<Rightarrow> nat \<Rightarrow> bytes" where
  "response_head resp keepAlive len =
     ''HTTP/1.1 '' @ show_int (statusCode resp) @ '' '' @ http_status_msg (statusCode resp) @ crlf @
     ''Content-Type: '' @ cstr (infer_contentType (body resp) (contentType resp)) @ crlf @
     ''Content-Length: '' @ show_nat len @ crlf @
     ''Connection: '' @ (if keepAlive then ''keep-alive'' else ''close'') @ crlf @
     ''Access-Control-Allow-Origin: *'' @ crlf"

definition http_response_render :: "http_response \<Rightarrow> bool \<Rightarrow> nat \<Rightarrow> bytes option" where
  "http_response_render resp keepAlive outMax =
     (let len = (if statusCode resp = 302 then 0 else bodyLen resp) in
      case append_to_buffer outMax [] (response_head resp keepAlive len) of
        None \<Rightarrow> None
      | Some out \<Rightarrow>
          (case (if cstr (setCookie resp) \<noteq> []
                 then append_to_buffer outMax out (''Set-Cookie: '' @ cstr (setCookie resp) @ crlf)
                 else Some out) of
             None \<Rightarrow> None
           | Some out \<Rightarrow>
               (case (if cstr (location resp) \<noteq> []
                      then append_to_buffer outMax out (''Location: '' @ cstr (location resp) @ crlf)
                      else Some out) of
                  None \<Rightarrow> None
                | Some out \<Rightarrow>
                    (case append_to_buffer outMax out crlf of
                       None \<Rightarrow> None
                     | Some out \<Rightarrow>
                         if length out + len > outMax then None
                         else Some (out @ take len (body resp))))))"

section \<open>Form fields and HTML\<close>

text \<open>The loop of \<open>get_field\<close>: \<open>boundary\<close> says that the position is the start or follows \<open>&\<close>.\<close>

fun field_loop :: "bytes \<Rightarrow> bool \<Rightarrow> bytes \<Rightarrow> bytes option" where
  "field_loop param boundary [] = None"
| "field_loop param boundary (c # s) =
     (if prefix param (c # s) \<and> boundary then Some (drop (length param) (c # s))
      else field_loop param (c = CHR ''&'') s)"

definition get_field :: "bytes option \<Rightarrow> bytes \<Rightarrow> nat \<Rightarrow> bytes" where
  "get_field src param mx =
     (case src of
        None \<Rightarrow> []
      | Some s \<Rightarrow>
          (case field_loop param True (cstr s) of None \<Rightarrow> [] | Some v \<Rightarrow> url_decode v mx))"

definition html_entity :: "byte \<Rightarrow> bytes" where
  "html_entity c =
     (if c = CHR ''<'' then ''&lt;''
      else if c = CHR ''>'' then ''&gt;''
      else if c = CHR ''&'' then ''&amp;''
      else if c = CHR 0x22 then ''&quot;''
      else if c = CHR 0x27 then ''&#39;''
      else [c])"

fun html_escape_loop :: "bytes \<Rightarrow> nat \<Rightarrow> nat \<Rightarrow> bytes" where
  "html_escape_loop [] i mx = []"
| "html_escape_loop (c # s) i mx =
     (if c = NUL \<or> \<not> i + 7 < mx then []
      else html_entity c @ html_escape_loop s (i + length (html_entity c)) mx)"

definition html_escape :: "bytes \<Rightarrow> nat \<Rightarrow> bytes" where
  "html_escape src mx = html_escape_loop src 0 mx"

definition make_error_block :: "bytes \<Rightarrow> nat \<Rightarrow> bytes" where
  "make_error_block msg mx =
     (if cstr msg = [] then []
      else take (mx - 1) (''<div class='' @ [CHR 0x27] @ ''alert alert-err'' @ [CHR 0x27] @ ''>'' @
                          cstr msg @ ''</div>''))"

section \<open>Facts about decoding\<close>

lemma char_at_simps [simp]:
  "char_at [] k = NUL" "char_at (c # s) 0 = c" "char_at (c # s) (Suc k) = char_at s k"
  by (simp_all add: char_at_def)

lemma url_decode_loop_bounds: "length (url_decode_loop s room) \<le> room \<and> nul_free (url_decode_loop s room)"
proof (induction room arbitrary: s)
  case 0
  then show ?case by (subst (1 2) url_decode_loop.simps) simp
next
  case (Suc k)
  have l: "length (url_decode_loop s' k) \<le> k" and n: "nul_free (url_decode_loop s' k)" for s'
    using Suc.IH by blast+
  show ?case
    by (subst (1 2) url_decode_loop.simps) (auto simp: l n Let_def url_stop_def NUL_def)
qed

lemma url_decode_bounds: "length (url_decode s mx) \<le> mx - 1" "nul_free (url_decode s mx)"
  using url_decode_loop_bounds [of s "mx - 1"] by (simp_all add: url_decode_def)

text \<open>Percent-encoding as browsers do it, for the round trip.\<close>

definition unreserved :: "byte \<Rightarrow> bool" where
  "unreserved c \<longleftrightarrow> is_digit c \<or> 65 \<le> byte_val c \<and> byte_val c \<le> 90 \<or> 97 \<le> byte_val c \<and> byte_val c \<le> 122
     \<or> byte_val c = 95"

definition hex_char :: "nat \<Rightarrow> byte" where
  "hex_char d = (if d < 10 then char_of (48 + d) else char_of (55 + d))"

definition url_encode_byte :: "byte \<Rightarrow> bytes" where
  "url_encode_byte c =
     (if unreserved c then [c]
      else [CHR ''%'', hex_char (byte_val c div 16), hex_char (byte_val c mod 16)])"

definition url_encode :: "bytes \<Rightarrow> bytes" where
  "url_encode s = concat (map url_encode_byte s)"

lemma byte_val_eqs [simp]:
  "byte_val NUL = 0" "byte_val (CHR ''&'') = 38" "byte_val (CHR '' '') = 32" "byte_val (CHR ''%'') = 37"
  "byte_val (CHR ''+'') = 43" "byte_val (CHR ''='') = 61"
  by (simp_all add: byte_val_def NUL_def)

lemma hex_char_props:
  "d < 16 \<Longrightarrow> is_xdigit (hex_char d) \<and> hex_val (hex_char d) = d \<and> hex_char d \<noteq> CHR ''&''"
  by (auto simp: is_xdigit_def hex_char_def hex_val_def is_digit_def dest!: arg_cong [where f = byte_val])

lemma unreserved_props:
  "unreserved c \<Longrightarrow> \<not> url_stop c \<and> c \<noteq> CHR ''%'' \<and> c \<noteq> CHR ''+'' \<and> c \<noteq> CHR ''='' \<and> c \<noteq> CHR ''&''"
  by (auto simp: unreserved_def url_stop_def is_digit_def)

lemma not_stop_percent: "\<not> url_stop (CHR ''%'')"
  by (auto simp: url_stop_def NUL_def CR_def LF_def)

lemma url_decode_encode:
  "nul_free s \<Longrightarrow> url_stop (char_at r 0) \<Longrightarrow> url_decode_loop (url_encode s @ r) room = take room s"
proof (induction s arbitrary: room)
  case Nil
  then show ?case by (subst url_decode_loop.simps) (simp add: url_encode_def)
next
  case (Cons c s)
  show ?case
  proof (cases room)
    case 0
    then show ?thesis by (subst url_decode_loop.simps) simp
  next
    case (Suc k)
    have IH: "url_decode_loop (url_encode s @ r) k = take k s" using Cons by simp
    show ?thesis
    proof (cases "unreserved c")
      case True
      with IH Suc unreserved_props [OF True] show ?thesis
        by (subst url_decode_loop.simps) (simp add: url_encode_def url_encode_byte_def)
    next
      case False
      have b: "byte_val c div 16 < 16" "byte_val c mod 16 < 16" using byte_val_bound [of c] by simp_all
      have "(16 * hex_val (hex_char (byte_val c div 16)) + hex_val (hex_char (byte_val c mod 16))) mod 256 = byte_val c"
        using hex_char_props [OF b(1)] hex_char_props [OF b(2)] byte_val_bound [of c] by simp
      moreover have "c \<noteq> NUL" using Cons.prems by simp
      ultimately show ?thesis
        using False IH Suc hex_char_props [OF b(1)] hex_char_props [OF b(2)] not_stop_percent
        by (subst url_decode_loop.simps)
          (simp add: url_encode_def url_encode_byte_def numeral_2_eq_2 numeral_3_eq_3)
    qed
  qed
qed

lemma url_encode_no_amp: "CHR ''&'' \<notin> set (url_encode s)"
proof -
  have "CHR ''&'' \<notin> set (url_encode_byte c)" for c
  proof -
    have b: "byte_val c div 16 < 16" "byte_val c mod 16 < 16" using byte_val_bound [of c] by simp_all
    show ?thesis
      using hex_char_props [OF b(1)] hex_char_props [OF b(2)] unreserved_props [of c]
      by (auto simp: url_encode_byte_def)
  qed
  then show ?thesis by (auto simp: url_encode_def)
qed

section \<open>Form bodies\<close>

text \<open>The body a form submission has.\<close>

fun form_body :: "(bytes \<times> bytes) list \<Rightarrow> bytes" where
  "form_body [] = []"
| "form_body [(k, v)] = k @ ''='' @ url_encode v"
| "form_body ((k, v) # fs) = k @ ''='' @ url_encode v @ ''&'' @ form_body fs"

definition field_ok :: "bytes \<times> bytes \<Rightarrow> bool" where
  "field_ok f \<longleftrightarrow> list_all unreserved (fst f) \<and> nul_free (snd f)"

lemma field_loop_skip:
  "CHR ''&'' \<notin> set a \<Longrightarrow> field_loop p False (a @ CHR ''&'' # r) = field_loop p True r"
  "CHR ''&'' \<notin> set a \<Longrightarrow> field_loop p False a = None"
  by (induction a) auto

lemma prefix_key:
  assumes "list_all unreserved k" and "list_all unreserved j"
  shows "prefix (k @ ''='') (j @ CHR ''='' # r) \<longleftrightarrow> k = j"
  using assms
proof (induction k arbitrary: j)
  case Nil
  then show ?case using unreserved_props by (cases j) auto
next
  case (Cons c k)
  then show ?case using unreserved_props by (cases j) auto
qed

lemma nul_free_form:
  assumes "list_all field_ok fs"
  shows "nul_free (form_body fs)"
proof -
  have e: "nul_free (url_encode v)" for v
  proof -
    have "NUL \<notin> set (url_encode_byte c)" for c
    proof -
      have b: "byte_val c div 16 < 16" "byte_val c mod 16 < 16" using byte_val_bound [of c] by simp_all
      have "NUL \<noteq> hex_char d" if "d < 16" for d
        using hex_char_props [OF that] by (auto simp: is_xdigit_def is_digit_def dest!: sym [of NUL])
      with b unreserved_props [of c] show ?thesis
        by (auto simp: url_encode_byte_def url_stop_def NUL_def)
    qed
    then show ?thesis by (auto simp: url_encode_def nul_free_def)
  qed
  have k: "nul_free k" if "list_all unreserved k" for k
    using that unreserved_props by (auto simp: nul_free_def list_all_iff url_stop_def)
  show ?thesis using assms
    by (induction fs rule: form_body.induct) (auto simp: field_ok_def e k NUL_def)
qed

lemma field_loop_form:
  assumes "list_all unreserved k" and "list_all field_ok fs"
  shows "(case field_loop (k @ ''='') True (form_body fs) of None \<Rightarrow> [] | Some v \<Rightarrow> url_decode v mx) =
    (case map_of fs k of None \<Rightarrow> [] | Some v \<Rightarrow> take (mx - 1) v)"
  using assms(2)
proof (induction fs rule: form_body.induct)
  case (2 j v)
  let ?s = "j @ CHR ''='' # url_encode v"
  obtain c u where cu: "?s = c # u" by (cases ?s) auto
  have amp: "CHR ''&'' \<notin> set ?s"
    using 2 url_encode_no_amp unreserved_props by (auto simp: field_ok_def list_all_iff)
  have m: "prefix (k @ ''='') ?s \<longleftrightarrow> k = j" using assms(1) 2 by (intro prefix_key) (auto simp: field_ok_def)
  show ?case
  proof (cases "k = j")
    case True
    have "field_loop (k @ ''='') True ?s = Some (drop (length (k @ ''='')) ?s)"
      using m True unfolding cu by simp
    then have "field_loop (k @ ''='') True ?s = Some (url_encode v)" using True by simp
    with True url_decode_encode [of v "[]" "mx - 1"] 2 show ?thesis
      by (simp add: url_decode_def field_ok_def url_stop_def)
  next
    case False
    then have "field_loop (k @ ''='') True ?s = field_loop (k @ ''='') False u"
      using m cu amp by auto
    also have "\<dots> = None" using amp cu by (intro field_loop_skip) auto
    finally show ?thesis using False by simp
  qed
next
  case (3 j v f fs)
  let ?r = "form_body (f # fs)"
  let ?a = "j @ CHR ''='' # url_encode v"
  have s: "form_body ((j, v) # f # fs) = ?a @ CHR ''&'' # ?r" by simp
  obtain c u where cu: "?a = c # u" by (cases ?a) auto
  have amp: "CHR ''&'' \<notin> set ?a"
    using 3 url_encode_no_amp unreserved_props by (auto simp: field_ok_def list_all_iff)
  have m: "prefix (k @ ''='') (?a @ CHR ''&'' # ?r) \<longleftrightarrow> k = j"
    using assms(1) 3 prefix_key [of k j "url_encode v @ CHR ''&'' # ?r"] by (auto simp: field_ok_def)
  show ?case
  proof (cases "k = j")
    case True
    have "field_loop (k @ ''='') True (?a @ CHR ''&'' # ?r) =
        Some (drop (length (k @ ''='')) (?a @ CHR ''&'' # ?r))"
      using m True unfolding cu by simp
    then have "field_loop (k @ ''='') True (?a @ CHR ''&'' # ?r) = Some (url_encode v @ CHR ''&'' # ?r)"
      using True by simp
    with True url_decode_encode [of v "CHR ''&'' # ?r" "mx - 1"] 3 show ?thesis
      unfolding s by (simp add: url_decode_def field_ok_def url_stop_def)
  next
    case False
    then have "field_loop (k @ ''='') True (?a @ CHR ''&'' # ?r) =
        field_loop (k @ ''='') False (u @ CHR ''&'' # ?r)"
      using m amp unfolding cu by auto
    also have "\<dots> = field_loop (k @ ''='') True ?r" using amp cu by (intro field_loop_skip) auto
    finally show ?thesis unfolding s using False 3 by simp
  qed
qed simp

section \<open>Escaping\<close>

lemma html_escape_loop_whole:
  "\<exists>n. html_escape_loop s i mx = concat (map html_entity (take n s)) \<and> nul_free (take n s) \<and>
     (i + 1 \<le> mx \<longrightarrow> i + length (html_escape_loop s i mx) < mx)"
proof (induction s arbitrary: i)
  case (Cons c s)
  show ?case
  proof (cases "c = NUL \<or> \<not> i + 7 < mx")
    case True
    then show ?thesis by (intro exI [of _ 0]) auto
  next
    case False
    let ?i = "i + length (html_entity c)"
    obtain n where n: "html_escape_loop s ?i mx = concat (map html_entity (take n s))"
      "nul_free (take n s)" "?i + 1 \<le> mx \<longrightarrow> ?i + length (html_escape_loop s ?i mx) < mx"
      using Cons.IH [of ?i] by blast
    have "length (html_entity c) \<le> 6" by (simp add: html_entity_def)
    with False n show ?thesis by (intro exI [of _ "Suc n"]) auto
  qed
qed auto

lemma html_entity_safe:
  "c' \<in> set (html_entity c) \<Longrightarrow> c' \<noteq> CHR ''<'' \<and> c' \<noteq> CHR ''>'' \<and> c' \<noteq> CHR 0x22 \<and> c' \<noteq> CHR 0x27"
  by (auto simp: html_entity_def split: if_splits)

end
