(* ===== verification/HttpSpec.thy ===== *)
theory HttpSpec
  imports HttpUtils
begin

text \<open>
  What \<open>http_utils.c\<close> promises: responses that parse back, completeness of requests against their
  Content-Length, form fields and HTML escaping.
\<close>

section \<open>Responses read back\<close>

text \<open>The header fields of a response, in the order they are written.\<close>

definition response_headers :: "http_response \<Rightarrow> bool \<Rightarrow> nat \<Rightarrow> phr_header list" where
  "response_headers resp keepAlive len =
     map (\<lambda>(n, v). \<lparr>h_name = Some n, h_value = v, h_trail = []\<rparr>)
       ([(''Content-Type'', cstr (infer_contentType (body resp) (contentType resp))),
         (''Content-Length'', show_nat len),
         (''Connection'', if keepAlive then ''keep-alive'' else ''close''),
         (''Access-Control-Allow-Origin'', ''*'')] @
        (if cstr (setCookie resp) \<noteq> [] then [(''Set-Cookie'', cstr (setCookie resp))] else []) @
        (if cstr (location resp) \<noteq> [] then [(''Location'', cstr (location resp))] else []))"

definition field_value_ok :: "bytes \<Rightarrow> bool" where
  "field_value_ok v \<longleftrightarrow> list_all (\<lambda>c. \<not> is_ctl c) v \<and> (v \<noteq> [] \<longrightarrow> \<not> blank (hd v) \<and> \<not> blank (last v))"

definition response_ok :: "http_response \<Rightarrow> bool" where
  "response_ok resp \<longleftrightarrow> 100 \<le> statusCode resp \<and> statusCode resp < 1000 \<and>
     (\<forall>ct. contentType resp = Some ct \<longrightarrow> field_value_ok (cstr ct)) \<and>
     field_value_ok (cstr (setCookie resp)) \<and> field_value_ok (cstr (location resp))"

lemma render_Some:
  assumes "http_response_render resp ka mx = Some out" and "len = (if statusCode resp = 302 then 0 else bodyLen resp)"
  shows "out = ''HTTP/1.1 '' @ show_int (statusCode resp) @ '' '' @ http_status_msg (statusCode resp) @ crlf @
    concat (map render_header (response_headers resp ka len)) @ crlf @ take len (body resp)"
    and "length out \<le> mx"
proof -
  have "out = ''HTTP/1.1 '' @ show_int (statusCode resp) @ '' '' @ http_status_msg (statusCode resp) @ crlf @
      concat (map render_header (response_headers resp ka len)) @ crlf @ take len (body resp) \<and> length out \<le> mx"
    using assms unfolding http_response_render_def append_to_buffer_def Let_def assms(2) [symmetric]
    by (auto simp: response_head_def response_headers_def render_header_def crlf_def split: if_splits option.splits)
  then show "out = ''HTTP/1.1 '' @ show_int (statusCode resp) @ '' '' @ http_status_msg (statusCode resp) @ crlf @
    concat (map render_header (response_headers resp ka len)) @ crlf @ take len (body resp)"
    and "length out \<le> mx" by auto
qed

lemma digit_props: "is_digit c \<Longrightarrow> \<not> is_ctl c \<and> \<not> blank c"
  by (auto simp: is_digit_def is_ctl_def blank_def TAB_def byte_val_def)

lemma show_nat_value: "field_value_ok (show_nat n)"
  using show_nat_digits [of n] digit_props
  by (auto simp: field_value_ok_def list_all_iff)

lemma const_values:
  "field_value_ok ''text/html; charset=utf-8''" "field_value_ok ''application/json''"
  "field_value_ok ''text/plain; charset=utf-8''" "field_value_ok ''keep-alive''" "field_value_ok ''close''"
  "field_value_ok ''*''"
  by (simp_all add: field_value_ok_def is_ctl_def blank_def TAB_def byte_val_def)

lemma const_nul_free:
  "nul_free ''text/html; charset=utf-8''" "nul_free ''application/json''" "nul_free ''text/plain; charset=utf-8''"
  by (simp_all add: NUL_def)

lemma const_names:
  "list_all is_token_char ''Content-Type''" "list_all is_token_char ''Content-Length''"
  "list_all is_token_char ''Connection''" "list_all is_token_char ''Access-Control-Allow-Origin''"
  "list_all is_token_char ''Set-Cookie''" "list_all is_token_char ''Location''"
  by (simp_all add: is_token_char_def token_char_map_def byte_val_def nth_append numeral_eq_Suc)

lemma infer_value:
  assumes "response_ok resp"
  shows "field_value_ok (cstr (infer_contentType (body resp) (contentType resp)))"
  using assms const_values
  by (auto simp: infer_contentType_def response_ok_def cstr_id [OF const_nul_free(1)]
      cstr_id [OF const_nul_free(2)] cstr_id [OF const_nul_free(3)])

lemma response_headers_ok: "response_ok resp \<Longrightarrow> list_all header_ok (response_headers resp ka len)"
  using infer_value [of resp] show_nat_value const_values const_names
  by (auto simp: response_headers_def header_ok_def response_ok_def field_value_ok_def)

lemma status_msg_ok: "list_all (\<lambda>c. \<not> is_ctl c) (http_status_msg c) \<and> http_status_msg c \<noteq> [] \<and>
    hd (http_status_msg c) \<noteq> CHR '' ''"
  by (simp add: http_status_msg_def is_ctl_def byte_val_def TAB_def)

lemma show_nat_3:
  assumes "100 \<le> n" and "n < 1000"
  shows "show_nat n = [digit_char (n div 100), digit_char (n div 10 mod 10), digit_char (n mod 10)]"
proof -
  have "\<not> n < 10" "\<not> n div 10 < 10" "n div 10 div 10 < 10" using assms by auto
  then show ?thesis
    by (subst show_nat.simps, subst show_nat.simps, subst show_nat.simps) (simp add: div_mult2_eq [symmetric])
qed

lemma parse_int_digit: "d < 10 \<Longrightarrow> parse_int m (digit_char d # r) = Inr (m * int d, r)"
  by (simp add: parse_int_def digit_char_val)

lemma parse_int_3_digits:
  assumes "a < 10" "b < 10" "c < 10"
  shows "parse_int_3 (digit_char a # digit_char b # digit_char c # r) = Inr (int (100 * a + 10 * b + c), r)"
  using assms by (simp add: parse_int_3_def parse_int_digit)

lemma parse_int_3_show:
  assumes "100 \<le> n" and "n < 1000"
  shows "parse_int_3 (show_nat n @ r) = Inr (int n, r)"
proof -
  have d: "n div 100 < 10" "n div 10 mod 10 < 10" "n mod 10 < 10" using assms by auto
  have "n div 100 = n div 10 div 10" by (simp add: div_mult2_eq [symmetric])
  then have e: "100 * (n div 100) + 10 * (n div 10 mod 10) + n mod 10 = n"
    using div_mult_mod_eq [of n 10] div_mult_mod_eq [of "n div 10" 10] by linarith
  show ?thesis unfolding show_nat_3 [OF assms] append_Cons append_Nil parse_int_3_digits [OF d] e ..
qed

lemma version_1_1: "parse_http_version (''HTTP/1.1'' @ CHR '' '' # u) = Inr (1, CHR '' '' # u)"
  by (simp add: parse_http_version_def expect_char_def parse_int_def byte_val_def)

lemma parse_response_steps:
  assumes "parse_http_version s = Inr (m, CHR '' '' # s1)" and "skip_spaces (CHR '' '' # s1) = Inr ((), s2)"
    and "4 \<le> length s2" and "parse_int_3 s2 = Inr (st, s3)"
    and "get_token_to_eol s3 = Inr (CHR '' '' # msg, s4)" and "parse_headers 0 mh s4 = Inr (hs, s5)"
  shows "parse_response mh s =
    Inr (\<lparr>rsp_minor = m, rsp_status = st, rsp_msg = dropWhile (\<lambda>c. c = CHR '' '') msg, rsp_headers = hs\<rparr>, s5)"
  using assms by (simp add: parse_response_def)

lemma parse_response_render:
  assumes ok: "response_ok resp" and r: "http_response_render resp ka mx = Some out"
    and len: "len = (if statusCode resp = 302 then 0 else bodyLen resp)"
  shows "parse_response 32 out =
    Inr (\<lparr>rsp_minor = 1, rsp_status = statusCode resp, rsp_msg = http_status_msg (statusCode resp),
          rsp_headers = response_headers resp ka len\<rparr>, take len (body resp))"
proof -
  let ?b = "take len (body resp)" and ?msg = "http_status_msg (statusCode resp)"
  let ?hs = "concat (map render_header (response_headers resp ka len)) @ CR # LF # ?b"
  let ?n = "nat (statusCode resp)"
  have n: "100 \<le> ?n" "?n < 1000" "int ?n = statusCode resp" using ok by (auto simp: response_ok_def)
  have si: "show_int (statusCode resp) = show_nat ?n" using n by (simp add: show_int_def)
  have out: "out = (''HTTP/1.1'' @ CHR '' '' # show_nat ?n @ CHR '' '' # ?msg @ CR # LF # ?hs)"
    using render_Some(1) [OF r len] unfolding si crlf_def by simp
  have msg: "get_token_to_eol ((CHR '' '' # ?msg) @ CR # LF # ?hs) = Inr (CHR '' '' # ?msg, ?hs)"
    using status_msg_ok by (intro get_token_crlf) (simp add: is_ctl_def byte_val_def)
  have h: "parse_headers 0 32 ?hs = Inr (response_headers resp ka len, ?b)"
    using response_headers_ok [OF ok] by (intro parse_headers_render) (simp_all add: response_headers_def)
  have drop: "dropWhile (\<lambda>c. c = CHR '' '') ?msg = ?msg"
    using status_msg_ok [of "statusCode resp"] by (cases ?msg) auto
  have d: "is_digit (digit_char (?n div 100))" using n(1,2) by (intro digit_char_digit [THEN conjunct1]) simp
  then have sk: "skip_spaces (CHR '' '' # show_nat ?n @ w) = Inr ((), show_nat ?n @ w)" for w
    unfolding show_nat_3 [OF n(1,2)] by (auto simp: skip_spaces_def is_digit_def)
  show ?thesis
    using parse_response_steps [OF version_1_1 sk _ parse_int_3_show [OF n(1,2)] msg [unfolded append_Cons] h]
    unfolding out drop n(3) by (simp add: show_nat_3 [OF n(1,2)])
qed

section \<open>Completeness of requests\<close>

lemma signed_val_show: "signed_val (show_nat n) = int n"
proof -
  have d: "list_all is_digit (show_nat n)" using show_nat_digits by (simp add: list_all_iff)
  then have nf: "nul_free (show_nat n)" by (auto simp: nul_free_def list_all_iff is_digit_def)
  obtain c u where cu: "show_nat n = c # u" by (cases "show_nat n") auto
  with d have c: "\<not> is_space c" "c \<noteq> CHR ''-''" "c \<noteq> CHR ''+''"
    by (auto simp: is_digit_def is_space_def byte_val_def)
  have "cstr (show_nat n) = show_nat n" by (rule cstr_id [OF nf])
  then have "dropWhile is_space (cstr (show_nat n)) = c # u" using cu c by simp
  moreover have "digits_val 0 (c # u) = n" using cu digits_val_show_nat [of n] by simp
  ultimately show ?thesis using c by (simp add: signed_val_def Let_def del: digits_val.simps)
qed

lemma length_show_nat: "n < 10 ^ k \<Longrightarrow> 0 < k \<Longrightarrow> length (show_nat n) \<le> k"
proof (induction k arbitrary: n)
  case (Suc k)
  show ?case
  proof (cases "n < 10")
    case True
    then show ?thesis by (subst show_nat.simps) simp
  next
    case False
    then have "0 < k" "n div 10 < 10 ^ k" using Suc.prems by (cases k, auto)
    with Suc.IH [of "n div 10"] False show ?thesis by (subst show_nat.simps) simp
  qed
qed simp

lemma content_length_mono: "content_length_loop hs n \<Longrightarrow> n \<le> m \<Longrightarrow> content_length_loop hs m"
  by (induction hs n rule: content_length_loop.induct) (auto simp: Let_def split: option.splits if_splits)

lemma content_length_name: "strncase_eq 14 ''Content-Length'' ''content-length''"
  by code_simp

lemma content_length_first:
  assumes "list_all (\<lambda>h. h_name h \<noteq> None \<and> length (the (h_name h)) \<noteq> 14) hs" and "0 < n" and "n < 2 ^ 63"
  shows "content_length_loop (hs @ \<lparr>h_name = Some ''Content-Length'', h_value = show_nat n, h_trail = []\<rparr> # hs') m
    \<longleftrightarrow> n \<le> m"
  using assms(1)
proof (induction hs)
  case Nil
  note e = content_length_name
  have "length (show_nat n) \<le> 19" using assms(3) by (intro length_show_nat) simp_all
  then have t: "take (min (length (show_nat n)) (MAX_NUMBER_LEN - Suc 0)) (show_nat n) = show_nat n"
    by (simp add: MAX_NUMBER_LEN_def)
  have s: "strtol (show_nat n) = int n" using assms(3) by (simp add: strtol_def signed_val_show)
  show ?case using assms(2) by (simp add: e t s Let_def)
next
  case (Cons h hs)
  then show ?case by (auto split: option.splits)
qed

lemma complete_append:
  assumes "http_is_request_complete buf"
  shows "http_is_request_complete (buf @ extra)"
proof (cases "parse_request HTTP_MAX_HEADERS buf")
  case (Inl e)
  with assms have "e = Malformed"
    by (cases e) (auto simp: http_is_request_complete_def phr_parse_request_def)
  with Inl stableD(2) [OF parse_request_stable, of HTTP_MAX_HEADERS buf extra] show ?thesis
    by (simp add: http_is_request_complete_def phr_parse_request_def)
next
  case (Inr z)
  obtain req r where z: "z = (req, r)" by fastforce
  have st: "suffix r buf" "parse_request HTTP_MAX_HEADERS (buf @ extra) = Inr (req, r @ extra)"
    using stableD(1) [OF parse_request_stable] Inr z by blast+
  with assms Inr z show ?thesis
    by (auto simp: http_is_request_complete_def phr_parse_request_def suffix_def
        elim!: content_length_mono)
qed

text \<open>The whole head of a response, and rendering as one test of the room it needs.\<close>

definition full_head :: "http_response \<Rightarrow> bool \<Rightarrow> nat \<Rightarrow> bytes" where
  "full_head resp ka len =
     ''HTTP/1.1 '' @ show_int (statusCode resp) @ '' '' @ http_status_msg (statusCode resp) @ crlf @
     concat (map render_header (response_headers resp ka len)) @ crlf"

lemma append_chain:
  "(case append_to_buffer mx [] a of None \<Rightarrow> None
    | Some o1 \<Rightarrow> (case (if P then append_to_buffer mx o1 b else Some o1) of None \<Rightarrow> None
    | Some o2 \<Rightarrow> (case (if Q then append_to_buffer mx o2 c else Some o2) of None \<Rightarrow> None
    | Some o3 \<Rightarrow> (case append_to_buffer mx o3 e of None \<Rightarrow> None
    | Some h \<Rightarrow> if length h + len > mx then None else Some (h @ d))))) =
   (let h = a @ (if P then b else []) @ (if Q then c else []) @ e in
    if length h < mx \<and> length h + len \<le> mx then Some (h @ d) else None)"
  by (cases P; cases Q) (auto simp: append_to_buffer_def Let_def)

lemma full_head_eq:
  "full_head resp ka len = response_head resp ka len @
     (if cstr (setCookie resp) \<noteq> [] then ''Set-Cookie: '' @ cstr (setCookie resp) @ crlf else []) @
     (if cstr (location resp) \<noteq> [] then ''Location: '' @ cstr (location resp) @ crlf else []) @ crlf"
  by (simp add: full_head_def response_head_def response_headers_def render_header_def crlf_def)

lemma render_eq:
  assumes "len = (if statusCode resp = 302 then 0 else bodyLen resp)"
  shows "http_response_render resp ka mx =
    (if length (full_head resp ka len) < mx \<and> length (full_head resp ka len) + len \<le> mx
     then Some (full_head resp ka len @ take len (body resp)) else None)"
  unfolding http_response_render_def full_head_eq assms [symmetric] Let_def append_chain ..

lemma form_field:
  assumes "list_all unreserved k" and "list_all field_ok fs"
  shows "get_field (Some (form_body fs)) (k @ ''='') mx =
    (case map_of fs k of None \<Rightarrow> [] | Some v \<Rightarrow> take (mx - 1) v)"
  using field_loop_form [OF assms, of mx] by (simp add: get_field_def cstr_id [OF nul_free_form [OF assms(2)]])

section \<open>Properties\<close>

text \<open>C15: a response either does not fit the buffer or it is written exactly and reads back.
  Rendering fails exactly when the head leaves no room for a NUL or head and body exceed the buffer.
  Otherwise at most the given number of bytes is written, an HTTP response parser reads back the
  status, its message and every header in order, among them the Content-Length of the body that
  follows, and what remains after the head is exactly the body (no body for a redirect).\<close>

theorem http_response_roundtrip:
  assumes "response_ok resp" and "len = (if statusCode resp = 302 then 0 else bodyLen resp)"
    and "head = full_head resp ka len"
  shows "case http_response_render resp ka mx of
      None \<Rightarrow> mx \<le> length head \<or> mx < length head + len
    | Some out \<Rightarrow> length head < mx \<and> length out \<le> mx \<and> out = head @ take len (body resp) \<and>
        phr_parse_response out 32 0 =
          Inr (\<lparr>rsp_minor = 1, rsp_status = statusCode resp, rsp_msg = http_status_msg (statusCode resp),
                rsp_headers = response_headers resp ka len\<rparr>, length head)"
  using parse_response_render [OF assms(1) _ assms(2)] render_eq [OF assms(2), of ka mx] assms(3)
  by (auto simp: phr_parse_response_def)

theorem http_response_roundtrip_witness:
  "let resp = \<lparr>statusCode = 200, contentType = None, body = ''<p>'', bodyLen = 3, setCookie = ''s=1'', location = []\<rparr>
   in \<exists>out. http_response_render resp True 300 = Some out \<and>
        phr_parse_response out 32 0 =
          Inr (\<lparr>rsp_minor = 1, rsp_status = 200, rsp_msg = ''OK'', rsp_headers = response_headers resp True 3\<rparr>,
               length (full_head resp True 3))"
proof -
  let ?resp = "\<lparr>statusCode = 200, contentType = None, body = ''<p>'', bodyLen = 3, setCookie = ''s=1'', location = []\<rparr>"
  have ok: "response_ok ?resp"
    by (simp add: response_ok_def field_value_ok_def cstr_def NUL_def is_ctl_def blank_def byte_val_def TAB_def)
  have c: "length (cstr ''text/html; charset=utf-8'') = 24" "cstr ''s=1'' = ''s=1''" "show_nat 3 = ''3''" "show_nat 200 = ''200''" by code_simp+
  have s: "http_response_render ?resp True 300 \<noteq> None"
    by (simp add: render_eq [OF refl] full_head_def response_headers_def render_header_def infer_contentType_def
        show_int_def crlf_def http_status_msg_def c)
  have m: "http_status_msg 200 = ''OK''" by (simp add: http_status_msg_def)
  show ?thesis
    using http_response_roundtrip [OF ok refl refl, of 300 True] s m
    by (cases "http_response_render ?resp True 300") (simp_all add: Let_def)
qed



text \<open>C17: form fields survive the trip from the browser.  For a form whose field names are
  unreserved characters, each value percent-encoded, \<open>get_field\<close> returns the first field of exactly
  that name (never a field whose name only ends or starts like it), decoded and cut to the caller's
  buffer, and the empty string when there is none.\<close>

theorem get_field_form_roundtrip:
  assumes "list_all unreserved k" and "list_all field_ok fs"
  shows "get_field (Some (form_body fs)) (k @ ''='') mx =
    (case map_of fs k of None \<Rightarrow> [] | Some v \<Rightarrow> take (mx - 1) v)"
  by (rule form_field [OF assms])

theorem get_field_form_roundtrip_witness:
  "get_field (Some (form_body [(''lastname'', ''a&b''), (''name'', ''c d'')])) ''name='' 10 = ''c d''"
proof -
  have "list_all unreserved ''name''" "list_all field_ok [(''lastname'', ''a&b''), (''name'', ''c d'')]"
    by (simp_all add: field_ok_def unreserved_def is_digit_def byte_val_def NUL_def)
  from get_field_form_roundtrip [OF this, of 10] show ?thesis by simp
qed

text \<open>Escaped text is safe to put into a page.  \<open>html_escape\<close> stays below the size of the
  buffer, never emits one of the four characters that end an HTML text or attribute, and what it
  emits is the entities of a prefix of the text, none of them cut.\<close>

theorem html_escape_safe:
  "(0 < mx \<longrightarrow> length (html_escape s mx) < mx) \<and>
   (\<forall>c\<in>set (html_escape s mx). c \<noteq> CHR ''<'' \<and> c \<noteq> CHR ''>'' \<and> c \<noteq> CHR 0x22 \<and> c \<noteq> CHR 0x27) \<and>
   (\<exists>n. html_escape s mx = concat (map html_entity (take n s)) \<and> nul_free (take n s))"
proof -
  obtain n where n: "html_escape s mx = concat (map html_entity (take n s))" "nul_free (take n s)"
    "0 + 1 \<le> mx \<longrightarrow> 0 + length (html_escape s mx) < mx"
    using html_escape_loop_whole [of s 0 mx] unfolding html_escape_def by blast
  then show ?thesis using html_entity_safe by auto
qed

theorem html_escape_safe_witness:
  "length (html_escape ''<b>'' 20) < 20 \<and> CHR ''<'' \<notin> set (html_escape ''<b>'' 20)"
  using html_escape_safe [where mx = 20 and s = "''<b>''"] by auto

end
