(* ===== verification/Chunked.thy ===== *)
theory Chunked
  imports PicoHttp
begin

text \<open>
  The decoder of chunked bodies at the end of \<open>picohttpparser.c\<close>.  The server does not call it; it is part of the
  parser.  It keeps its state between calls, so that a body may arrive in any fragments.
\<close>

section \<open>The decoder\<close>

datatype chunk_state = CHUNKED_IN_CHUNK_SIZE | CHUNKED_IN_CHUNK_EXT | CHUNKED_IN_CHUNK_HEADER_EXPECT_LF
  | CHUNKED_IN_CHUNK_DATA | CHUNKED_IN_CHUNK_DATA_EXPECT_CR | CHUNKED_IN_CHUNK_DATA_EXPECT_LF
  | CHUNKED_IN_TRAILERS_LINE_HEAD | CHUNKED_IN_TRAILERS_LINE_MIDDLE

record phr_chunked_decoder =
  bytes_left_in_chunk :: "64 word"
  consume_trailer :: bool
  hex_count :: nat
  dec_state :: chunk_state
  total_read :: "64 word"
  total_overhead :: "64 word"

definition decode_hex :: "byte \<Rightarrow> int" where
  "decode_hex ch =
     (if 48 \<le> byte_val ch \<and> byte_val ch \<le> 57 then int (byte_val ch) - 48
      else if 65 \<le> byte_val ch \<and> byte_val ch \<le> 70 then int (byte_val ch) - 65 + 10
      else if 97 \<le> byte_val ch \<and> byte_val ch \<le> 102 then int (byte_val ch) - 97 + 10
      else -1)"

text \<open>The ways out of the loop: \<open>Exit\<close> with -1 or -2, and \<open>Complete\<close>.\<close>

datatype chunk_exit = Exit perr | Complete

text \<open>The loop over the digits of a size: it leaves the function, or stops at the first other byte.\<close>

fun size_loop :: "phr_chunked_decoder \<Rightarrow> bytes \<Rightarrow> perr option \<times> phr_chunked_decoder \<times> bytes" where
  "size_loop d [] = (Some Incomplete, d, [])"
| "size_loop d (c # r) =
     (if decode_hex c = -1 then
        (if hex_count d = 0 then (Some Malformed, d, c # r)
         else if c \<in> {CHR 0x20, TAB, CHR 0x3B, LF, CR} then (None, d, c # r)
         else (Some Malformed, d, c # r))
      else if hex_count d = 16 then (Some Malformed, d, c # r)
      else size_loop (d\<lparr>bytes_left_in_chunk := bytes_left_in_chunk d * 16 + word_of_int (decode_hex c),
                        hex_count := hex_count d + 1\<rparr>) r)"

fun ext_loop :: "bytes \<Rightarrow> perr option \<times> bytes" where
  "ext_loop [] = (Some Incomplete, [])"
| "ext_loop (c # r) =
     (if c = CR then (None, c # r) else if c = LF then (Some Malformed, c # r) else ext_loop r)"

lemma size_loop_length: "size_loop d s = (e, d', r) \<Longrightarrow> length r \<le> length s \<and> (e = None \<longrightarrow> r \<noteq> [])"
  by (induction d s rule: size_loop.induct) (auto split: if_splits)

lemma ext_loop_length: "ext_loop s = (e, r) \<Longrightarrow> length r \<le> length s \<and> (e = None \<longrightarrow> r \<noteq> [])"
  by (induction s rule: ext_loop.induct) (auto split: if_splits)

lemma dropWhile_shorter: "dropWhile P s = c # r \<Longrightarrow> length r < length s"
  using length_dropWhile_le [of P s] by simp

fun state_rank :: "chunk_state \<Rightarrow> nat" where
  "state_rank CHUNKED_IN_CHUNK_SIZE = 6"
| "state_rank CHUNKED_IN_CHUNK_EXT = 5"
| "state_rank CHUNKED_IN_CHUNK_HEADER_EXPECT_LF = 4"
| "state_rank CHUNKED_IN_CHUNK_DATA = 3"
| "state_rank CHUNKED_IN_CHUNK_DATA_EXPECT_CR = 2"
| "state_rank _ = 1"

text \<open>The loop \<open>while (1)\<close> over the \<open>switch\<close>, from the decoded bytes so far and the bytes not yet read; a case that falls
  through comes back with its new state.\<close>

function decode_loop :: "phr_chunked_decoder \<Rightarrow> bytes \<Rightarrow> bytes \<Rightarrow> chunk_exit \<times> phr_chunked_decoder \<times> bytes \<times> bytes" where
  "decode_loop d out s =
     (case dec_state d of
        CHUNKED_IN_CHUNK_SIZE \<Rightarrow>
          (case size_loop d s of
             (Some e, d, r) \<Rightarrow> (Exit e, d, out, r)
           | (None, d, r) \<Rightarrow> decode_loop (d\<lparr>hex_count := 0, dec_state := CHUNKED_IN_CHUNK_EXT\<rparr>) out r)
      | CHUNKED_IN_CHUNK_EXT \<Rightarrow>
          (case ext_loop s of
             (Some e, r) \<Rightarrow> (Exit e, d, out, r)
           | (None, r) \<Rightarrow> decode_loop (d\<lparr>dec_state := CHUNKED_IN_CHUNK_HEADER_EXPECT_LF\<rparr>) out (tl r))
      | CHUNKED_IN_CHUNK_HEADER_EXPECT_LF \<Rightarrow>
          (case s of
             [] \<Rightarrow> (Exit Incomplete, d, out, [])
           | c # r \<Rightarrow>
               if c \<noteq> LF then (Exit Malformed, d, out, c # r)
               else if bytes_left_in_chunk d = 0 then
                 (if consume_trailer d then decode_loop (d\<lparr>dec_state := CHUNKED_IN_TRAILERS_LINE_HEAD\<rparr>) out r
                  else (Complete, d, out, r))
               else decode_loop (d\<lparr>dec_state := CHUNKED_IN_CHUNK_DATA\<rparr>) out r)
      | CHUNKED_IN_CHUNK_DATA \<Rightarrow>
          (if length s < unat (bytes_left_in_chunk d)
           then (Exit Incomplete, d\<lparr>bytes_left_in_chunk := bytes_left_in_chunk d - word_of_nat (length s)\<rparr>, out @ s, [])
           else decode_loop (d\<lparr>bytes_left_in_chunk := 0, dec_state := CHUNKED_IN_CHUNK_DATA_EXPECT_CR\<rparr>)
                  (out @ take (unat (bytes_left_in_chunk d)) s) (drop (unat (bytes_left_in_chunk d)) s))
      | CHUNKED_IN_CHUNK_DATA_EXPECT_CR \<Rightarrow>
          (case s of
             [] \<Rightarrow> (Exit Incomplete, d, out, [])
           | c # r \<Rightarrow>
               if c \<noteq> CR then (Exit Malformed, d, out, c # r)
               else decode_loop (d\<lparr>dec_state := CHUNKED_IN_CHUNK_DATA_EXPECT_LF\<rparr>) out r)
      | CHUNKED_IN_CHUNK_DATA_EXPECT_LF \<Rightarrow>
          (case s of
             [] \<Rightarrow> (Exit Incomplete, d, out, [])
           | c # r \<Rightarrow>
               if c \<noteq> LF then (Exit Malformed, d, out, c # r)
               else decode_loop (d\<lparr>dec_state := CHUNKED_IN_CHUNK_SIZE\<rparr>) out r)
      | CHUNKED_IN_TRAILERS_LINE_HEAD \<Rightarrow>
          (case dropWhile (\<lambda>c. c = CR) s of
             [] \<Rightarrow> (Exit Incomplete, d, out, [])
           | c # r \<Rightarrow>
               if c = LF then (Complete, d, out, r)
               else decode_loop (d\<lparr>dec_state := CHUNKED_IN_TRAILERS_LINE_MIDDLE\<rparr>) out r)
      | CHUNKED_IN_TRAILERS_LINE_MIDDLE \<Rightarrow>
          (case dropWhile (\<lambda>c. c \<noteq> LF) s of
             [] \<Rightarrow> (Exit Incomplete, d, out, [])
           | c # r \<Rightarrow> decode_loop (d\<lparr>dec_state := CHUNKED_IN_TRAILERS_LINE_HEAD\<rparr>) out r))"
  by pat_completeness auto

termination
proof (relation "measure (\<lambda>(d, out, s). 7 * length s + state_rank (dec_state d))", goal_cases)
  case (2 d out s p q d' r)
  then show ?case using size_loop_length [of d s None d' r] by simp
next
  case (3 d out s p r)
  then show ?case using ext_loop_length [of s None r] by (cases r) auto
next
  case (9 d out s c r)
  then show ?case using dropWhile_shorter [of "\<lambda>c. c = CR" s c r] by simp
next
  case (10 d out s c r)
  then show ?case using dropWhile_shorter [of "\<lambda>c. c \<noteq> LF" s c r] by simp
qed (auto simp: min_def)

declare decode_loop.simps [simp del]

text \<open>The result is -1, -2 or the number of bytes left over, and the buffer holds the decoded bytes and then those.\<close>

definition phr_decode_chunked ::
  "phr_chunked_decoder \<Rightarrow> bytes \<Rightarrow> int \<times> phr_chunked_decoder \<times> bytes \<times> bytes" where
  "phr_decode_chunked d buf =
     (let d = d\<lparr>total_read := total_read d + word_of_nat (length buf)\<rparr> in
      case decode_loop d [] buf of
        (Complete, d, out, r) \<Rightarrow> (int (length r), d, out, r)
      | (Exit Malformed, d, out, r) \<Rightarrow> (-1, d, out, r)
      | (Exit Incomplete, d, out, r) \<Rightarrow>
          let d = d\<lparr>total_overhead := total_overhead d + word_of_nat (length buf - length out)\<rparr> in
          (if total_overhead d \<ge> 100 * 1024 \<and> total_read d - total_overhead d < total_read d div 4 then -1 else -2, d, out, r))"

definition phr_decode_chunked_is_in_data :: "phr_chunked_decoder \<Rightarrow> bool" where
  "phr_decode_chunked_is_in_data d \<longleftrightarrow> dec_state d = CHUNKED_IN_CHUNK_DATA"

section \<open>One byte at a time\<close>

text \<open>What one byte does, in a state in which it is read: it is refused, it is the last of the body, or it is passed with
  the decoded bytes it gives.\<close>

datatype fed = Refused | Last | Passed phr_chunked_decoder bytes

definition ext_byte :: "phr_chunked_decoder \<Rightarrow> byte \<Rightarrow> fed" where
  "ext_byte d c =
     (if c = CR then Passed (d\<lparr>dec_state := CHUNKED_IN_CHUNK_HEADER_EXPECT_LF\<rparr>) []
      else if c = LF then Refused else Passed d [])"

definition expect :: "byte \<Rightarrow> byte \<Rightarrow> phr_chunked_decoder \<Rightarrow> fed" where
  "expect ch c d = (if c = ch then Passed d [] else Refused)"

definition byte_step :: "phr_chunked_decoder \<Rightarrow> byte \<Rightarrow> fed" where
  "byte_step d c =
     (case dec_state d of
        CHUNKED_IN_CHUNK_SIZE \<Rightarrow>
          if decode_hex c = -1 then
            (if hex_count d = 0 \<or> c \<notin> {CHR 0x20, TAB, CHR 0x3B, LF, CR} then Refused
             else ext_byte (d\<lparr>hex_count := 0, dec_state := CHUNKED_IN_CHUNK_EXT\<rparr>) c)
          else if hex_count d = 16 then Refused
          else Passed (d\<lparr>bytes_left_in_chunk := bytes_left_in_chunk d * 16 + word_of_int (decode_hex c),
                         hex_count := hex_count d + 1\<rparr>) []
      | CHUNKED_IN_CHUNK_EXT \<Rightarrow> ext_byte d c
      | CHUNKED_IN_CHUNK_HEADER_EXPECT_LF \<Rightarrow>
          if c \<noteq> LF then Refused
          else if bytes_left_in_chunk d \<noteq> 0 then Passed (d\<lparr>dec_state := CHUNKED_IN_CHUNK_DATA\<rparr>) []
          else if consume_trailer d then Passed (d\<lparr>dec_state := CHUNKED_IN_TRAILERS_LINE_HEAD\<rparr>) []
          else Last
      | CHUNKED_IN_CHUNK_DATA \<Rightarrow>
          let left = bytes_left_in_chunk d - 1 in
          Passed (d\<lparr>bytes_left_in_chunk := left,
                    dec_state := (if left = 0 then CHUNKED_IN_CHUNK_DATA_EXPECT_CR else CHUNKED_IN_CHUNK_DATA)\<rparr>) [c]
      | CHUNKED_IN_CHUNK_DATA_EXPECT_CR \<Rightarrow> expect CR c (d\<lparr>dec_state := CHUNKED_IN_CHUNK_DATA_EXPECT_LF\<rparr>)
      | CHUNKED_IN_CHUNK_DATA_EXPECT_LF \<Rightarrow> expect LF c (d\<lparr>dec_state := CHUNKED_IN_CHUNK_SIZE\<rparr>)
      | CHUNKED_IN_TRAILERS_LINE_HEAD \<Rightarrow>
          if c = CR then Passed d []
          else if c = LF then Last
          else Passed (d\<lparr>dec_state := CHUNKED_IN_TRAILERS_LINE_MIDDLE\<rparr>) []
      | CHUNKED_IN_TRAILERS_LINE_MIDDLE \<Rightarrow>
          if c = LF then Passed (d\<lparr>dec_state := CHUNKED_IN_TRAILERS_LINE_HEAD\<rparr>) [] else Passed d [])"

fun run_bytes :: "phr_chunked_decoder \<Rightarrow> bytes \<Rightarrow> bytes \<Rightarrow> chunk_exit \<times> phr_chunked_decoder \<times> bytes \<times> bytes" where
  "run_bytes d out [] = (Exit Incomplete, d, out, [])"
| "run_bytes d out (c # r) =
     (case byte_step d c of
        Refused \<Rightarrow> (Exit Malformed, d, out, c # r)
      | Last \<Rightarrow> (Complete, d, out, r)
      | Passed d' x \<Rightarrow> run_bytes d' (out @ x) r)"

text \<open>Data is read only while some is left.\<close>

definition dec_inv :: "phr_chunked_decoder \<Rightarrow> bool" where
  "dec_inv d \<longleftrightarrow> (dec_state d = CHUNKED_IN_CHUNK_DATA \<longrightarrow> bytes_left_in_chunk d \<noteq> 0)"

text \<open>Two runs agree; the decoder only matters when more is to come.\<close>

fun agree :: "chunk_exit \<times> phr_chunked_decoder \<times> bytes \<times> bytes \<Rightarrow> chunk_exit \<times> phr_chunked_decoder \<times> bytes \<times> bytes \<Rightarrow> bool" where
  "agree (e1, d1, o1, r1) (e2, d2, o2, r2) \<longleftrightarrow> e1 = e2 \<and> o1 = o2 \<and> r1 = r2 \<and> (e1 = Exit Incomplete \<longrightarrow> d1 = d2)"

lemma agree_refl [simp]: "agree x x"
  by (cases x) simp

lemma agree_trans: "agree x y \<Longrightarrow> agree y z \<Longrightarrow> agree x z"
  by (cases x; cases y; cases z) auto

lemma byte_step_inv: "byte_step d c = Passed d' x \<Longrightarrow> dec_inv d \<Longrightarrow> dec_inv d'"
  by (auto simp: byte_step_def ext_byte_def expect_def dec_inv_def Let_def split: chunk_state.splits if_splits)

lemma size_loop_run:
  "dec_state d = CHUNKED_IN_CHUNK_SIZE \<Longrightarrow> size_loop d s = (e, d', r) \<Longrightarrow>
    (case e of Some x \<Rightarrow> agree (Exit x, d', out, r) (run_bytes d out s)
     | None \<Rightarrow> agree (run_bytes (d'\<lparr>hex_count := 0, dec_state := CHUNKED_IN_CHUNK_EXT\<rparr>) out r) (run_bytes d out s))"
proof (induction d s rule: size_loop.induct)
  case (2 d c rs)
  show ?case
  proof (cases "decode_hex c = -1 \<or> hex_count d = 16")
    case True
    with 2(2,3) show ?thesis
      by (auto simp: byte_step_def split: if_splits) (auto simp: ext_byte_def)
  next
    case False
    let ?d = "d\<lparr>bytes_left_in_chunk := bytes_left_in_chunk d * 16 + word_of_int (decode_hex c), hex_count := hex_count d + 1\<rparr>"
    have eq: "run_bytes d out (c # rs) = run_bytes ?d out rs" using False 2(2) by (simp add: byte_step_def)
    from False 2(3) have "size_loop (d\<lparr>bytes_left_in_chunk := bytes_left_in_chunk d * 16 + word_of_int (decode_hex c),
        hex_count := hex_count d + 1\<rparr>) rs = (e, d', r)" by simp
    from 2(1) [OF _ _ _ this] False 2(2) show ?thesis unfolding eq by simp
  qed
qed auto

lemma ext_loop_run:
  "dec_state d = CHUNKED_IN_CHUNK_EXT \<Longrightarrow> ext_loop s = (e, r) \<Longrightarrow>
    (case e of Some x \<Rightarrow> agree (Exit x, d, out, r) (run_bytes d out s)
     | None \<Rightarrow> run_bytes d out s = run_bytes (d\<lparr>dec_state := CHUNKED_IN_CHUNK_HEADER_EXPECT_LF\<rparr>) out (tl r))"
proof (induction s rule: ext_loop.induct)
  case (2 c rs)
  show ?case
  proof (cases "c = CR \<or> c = LF")
    case True
    with 2(2,3) show ?thesis by (auto simp: byte_step_def ext_byte_def)
  next
    case False
    with 2(2,3) have eq: "run_bytes d out (c # rs) = run_bytes d out rs" and l: "ext_loop rs = (e, r)"
      by (simp_all add: byte_step_def ext_byte_def)
    from 2(1) [OF _ _ 2(2) l] False show ?thesis unfolding eq by simp
  qed
qed auto

lemma same_state: "dec_state d = x \<Longrightarrow> d\<lparr>dec_state := x\<rparr> = d"
  by (cases d) simp

lemma data_run:
  assumes "dec_state d = CHUNKED_IN_CHUNK_DATA" and "length s \<le> unat (bytes_left_in_chunk d)" and "bytes_left_in_chunk d \<noteq> 0"
  shows "run_bytes d out (s @ t) = run_bytes (d\<lparr>bytes_left_in_chunk := bytes_left_in_chunk d - word_of_nat (length s),
      dec_state := (if length s < unat (bytes_left_in_chunk d) then CHUNKED_IN_CHUNK_DATA else CHUNKED_IN_CHUNK_DATA_EXPECT_CR)\<rparr>)
      (out @ s) t"
  using assms
proof (induction s arbitrary: d out)
  case Nil
  then have "0 < unat (bytes_left_in_chunk d)" by (simp add: unat_gt_0)
  with Nil show ?case by (simp add: same_state)
next
  case (Cons c s)
  let ?d = "d\<lparr>bytes_left_in_chunk := bytes_left_in_chunk d - 1,
    dec_state := (if bytes_left_in_chunk d - 1 = 0 then CHUNKED_IN_CHUNK_DATA_EXPECT_CR else CHUNKED_IN_CHUNK_DATA)\<rparr>"
  have step: "run_bytes d out ((c # s) @ t) = run_bytes ?d (out @ [c]) (s @ t)"
    using Cons.prems(1) by (simp add: byte_step_def Let_def)
  have u: "unat (bytes_left_in_chunk d - 1) = unat (bytes_left_in_chunk d) - 1"
    using Cons.prems(3) by (rule unat_minus_one)
  show ?case
  proof (cases "bytes_left_in_chunk d - 1 = 0")
    case True
    with u have "unat (bytes_left_in_chunk d) \<le> 1" by simp
    then have "s = []" "bytes_left_in_chunk d = 1" using Cons.prems(2) True by auto
    then show ?thesis unfolding step using True by simp
  next
    case False
    have "run_bytes ?d (out @ [c]) (s @ t) = run_bytes (?d\<lparr>bytes_left_in_chunk := bytes_left_in_chunk ?d - word_of_nat (length s),
      dec_state := (if length s < unat (bytes_left_in_chunk ?d) then CHUNKED_IN_CHUNK_DATA else CHUNKED_IN_CHUNK_DATA_EXPECT_CR)\<rparr>)
      ((out @ [c]) @ s) t"
      by (rule Cons.IH) (use False u Cons.prems(2) in simp_all)
    moreover have "length s < unat (bytes_left_in_chunk d - 1) \<longleftrightarrow> length (c # s) < unat (bytes_left_in_chunk d)"
      using u Cons.prems(2) by auto
    moreover have "bytes_left_in_chunk d - 1 - word_of_nat (length s) = bytes_left_in_chunk d - word_of_nat (length (c # s))"
      by simp
    ultimately show ?thesis unfolding step by simp
  qed
qed

lemma head_run:
  "dec_state d = CHUNKED_IN_TRAILERS_LINE_HEAD \<Longrightarrow> run_bytes d out s = run_bytes d out (dropWhile (\<lambda>c. c = CR) s)"
  by (induction s) (simp_all add: byte_step_def)

lemma middle_run:
  "dec_state d = CHUNKED_IN_TRAILERS_LINE_MIDDLE \<Longrightarrow> run_bytes d out s = run_bytes d out (dropWhile (\<lambda>c. c \<noteq> LF) s)"
  by (induction s) (simp_all add: byte_step_def)

text \<open>The loop of the code does what reading byte by byte does.\<close>

lemma decode_loop_run: "dec_inv d \<Longrightarrow> agree (decode_loop d out s) (run_bytes d out s)"
proof (induction d out s rule: decode_loop.induct)
  case (1 d out s)
  note IH = 1(1-9) and inv = 1(10)
  show ?case
  proof (cases "dec_state d")
    case st: CHUNKED_IN_CHUNK_SIZE
    obtain e d' r where l: "size_loop d s = (e, d', r)" by (rule prod_cases3)
    show ?thesis
    proof (cases e)
      case None
      from IH(1) [OF st l [symmetric] None refl] size_loop_run [OF st l, of out] None
      have "agree (decode_loop (d'\<lparr>hex_count := 0, dec_state := CHUNKED_IN_CHUNK_EXT\<rparr>) out r) (run_bytes d out s)"
        by (auto simp: dec_inv_def intro: agree_trans)
      then show ?thesis by (subst decode_loop.simps) (simp add: st l None)
    next
      case (Some x)
      with size_loop_run [OF st l, of out] show ?thesis by (subst decode_loop.simps) (simp add: st l)
    qed
  next
    case st: CHUNKED_IN_CHUNK_EXT
    obtain e r where l: "ext_loop s = (e, r)" by fastforce
    show ?thesis
    proof (cases e)
      case None
      from IH(2) [OF st l [symmetric] None] ext_loop_run [OF st l, of out] None
      have "agree (decode_loop (d\<lparr>dec_state := CHUNKED_IN_CHUNK_HEADER_EXPECT_LF\<rparr>) out (tl r)) (run_bytes d out s)"
        by (simp add: dec_inv_def)
      then show ?thesis by (subst decode_loop.simps) (simp add: st l None)
    next
      case (Some x)
      with ext_loop_run [OF st l, of out] show ?thesis by (subst decode_loop.simps) (simp add: st l)
    qed
  next
    case st: CHUNKED_IN_CHUNK_HEADER_EXPECT_LF
    show ?thesis
    proof (cases s)
      case (Cons c r)
      from IH(3,4) [OF st Cons] show ?thesis
        by (subst decode_loop.simps) (simp add: st Cons byte_step_def dec_inv_def)
    qed (subst decode_loop.simps, simp add: st)
  next
    case st: CHUNKED_IN_CHUNK_DATA
    with inv have nz: "bytes_left_in_chunk d \<noteq> 0" by (simp add: dec_inv_def)
    let ?n = "unat (bytes_left_in_chunk d)"
    show ?thesis
    proof (cases "length s < ?n")
      case True
      with data_run [OF st _ nz, of s out "[]"] show ?thesis
        by (subst decode_loop.simps) (simp add: st same_state)
    next
      case False
      have w: "bytes_left_in_chunk d - word_of_nat ?n = 0" by simp
      from data_run [OF st _ nz, of "take ?n s" out "drop ?n s"] False
      have "run_bytes d out s = run_bytes (d\<lparr>bytes_left_in_chunk := 0, dec_state := CHUNKED_IN_CHUNK_DATA_EXPECT_CR\<rparr>)
          (out @ take ?n s) (drop ?n s)" by (simp add: min_def)
      with IH(5) [OF st False] show ?thesis by (subst decode_loop.simps) (simp add: st False dec_inv_def)
    qed
  next
    case st: CHUNKED_IN_CHUNK_DATA_EXPECT_CR
    show ?thesis
    proof (cases s)
      case (Cons c r)
      from IH(6) [OF st Cons] show ?thesis
        by (subst decode_loop.simps) (simp add: st Cons byte_step_def expect_def dec_inv_def)
    qed (subst decode_loop.simps, simp add: st)
  next
    case st: CHUNKED_IN_CHUNK_DATA_EXPECT_LF
    show ?thesis
    proof (cases s)
      case (Cons c r)
      from IH(7) [OF st Cons] show ?thesis
        by (subst decode_loop.simps) (simp add: st Cons byte_step_def expect_def dec_inv_def)
    qed (subst decode_loop.simps, simp add: st)
  next
    case st: CHUNKED_IN_TRAILERS_LINE_HEAD
    show ?thesis
    proof (cases "dropWhile (\<lambda>c. c = CR) s")
      case Nil
      have "run_bytes d out s = (Exit Incomplete, d, out, [])" unfolding head_run [OF st, of out s] Nil by simp
      then show ?thesis by (subst decode_loop.simps) (simp add: st Nil del: dropWhile_eq_Nil_conv)
    next
      case (Cons c r)
      then have "c \<noteq> CR" using hd_dropWhile [of "\<lambda>c. c = CR" s] by simp
      with head_run [OF st, of out s] IH(8) [OF st Cons] Cons show ?thesis
        by (subst decode_loop.simps) (simp add: st byte_step_def dec_inv_def)
    qed
  next
    case st: CHUNKED_IN_TRAILERS_LINE_MIDDLE
    show ?thesis
    proof (cases "dropWhile (\<lambda>c. c \<noteq> LF) s")
      case Nil
      have "run_bytes d out s = (Exit Incomplete, d, out, [])" unfolding middle_run [OF st, of out s] Nil by simp
      then show ?thesis by (subst decode_loop.simps) (simp add: st Nil del: dropWhile_eq_Nil_conv)
    next
      case (Cons c r)
      then have "c = LF" using hd_dropWhile [of "\<lambda>c. c \<noteq> LF" s] by simp
      with middle_run [OF st, of out s] IH(9) [OF st Cons] Cons show ?thesis
        by (subst decode_loop.simps) (simp add: st byte_step_def dec_inv_def)
    qed
  qed
qed

text \<open>A run goes on where it stopped.\<close>

lemma run_append:
  "run_bytes d out (s @ t) = (case run_bytes d out s of
     (Exit Incomplete, d', o', r) \<Rightarrow> run_bytes d' o' t | (e, d', o', r) \<Rightarrow> (e, d', o', r @ t))"
  by (induction d out s rule: run_bytes.induct) (simp_all split: fed.split)

lemma run_out:
  "run_bytes d (p @ out) s = (case run_bytes d out s of (e, d', o', r) \<Rightarrow> (e, d', p @ o', r))"
proof (induction s arbitrary: d out)
  case (Cons c s)
  show ?case
  proof (cases "byte_step d c")
    case (Passed d' x)
    with Cons [of d' "out @ x"] show ?thesis by simp
  qed simp_all
qed simp

lemma run_from: "run_bytes d p s = (case run_bytes d [] s of (e, d', o', r) \<Rightarrow> (e, d', p @ o', r))"
  using run_out [of d p "[]" s] by simp

text \<open>The counters play no part.\<close>

definition set_counts :: "64 word \<Rightarrow> 64 word \<Rightarrow> phr_chunked_decoder \<Rightarrow> phr_chunked_decoder" where
  "set_counts x y d = d\<lparr>total_read := x, total_overhead := y\<rparr>"

lemma set_counts_simps [simp]:
  "dec_state (set_counts x y d) = dec_state d" "bytes_left_in_chunk (set_counts x y d) = bytes_left_in_chunk d"
  "hex_count (set_counts x y d) = hex_count d" "consume_trailer (set_counts x y d) = consume_trailer d"
  "total_read (set_counts x y d) = x" "total_overhead (set_counts x y d) = y"
  "set_counts x y d\<lparr>dec_state := z\<rparr> = set_counts x y (d\<lparr>dec_state := z\<rparr>)"
  "set_counts x y d\<lparr>bytes_left_in_chunk := n\<rparr> = set_counts x y (d\<lparr>bytes_left_in_chunk := n\<rparr>)"
  "set_counts x y d\<lparr>hex_count := k\<rparr> = set_counts x y (d\<lparr>hex_count := k\<rparr>)"
  by (simp_all add: set_counts_def)

lemma byte_step_counts:
  "byte_step (set_counts x y d) c = (case byte_step d c of
     Refused \<Rightarrow> Refused | Last \<Rightarrow> Last | Passed d' b \<Rightarrow> Passed (set_counts x y d') b)"
  by (cases "dec_state d") (simp_all add: byte_step_def ext_byte_def expect_def Let_def)

lemma run_counts:
  "run_bytes (set_counts x y d) out s = (case run_bytes d out s of (e, d', o', r) \<Rightarrow> (e, set_counts x y d', o', r))"
  by (induction d out s rule: run_bytes.induct) (simp_all add: byte_step_counts split: fed.split)

lemma run_incomplete:
  "run_bytes d out s = (Exit Incomplete, d', o', r) \<Longrightarrow> r = [] \<and> (dec_inv d \<longrightarrow> dec_inv d') \<and>
    total_read d' = total_read d \<and> total_overhead d' = total_overhead d"
proof (induction d out s rule: run_bytes.induct)
  case (2 d out c cs)
  then obtain d1 x where b: "byte_step d c = Passed d1 x" "run_bytes d1 (out @ x) cs = (Exit Incomplete, d', o', r)"
    by (auto split: fed.splits)
  have "total_read d1 = total_read d \<and> total_overhead d1 = total_overhead d"
    using b(1) by (auto simp: byte_step_def ext_byte_def expect_def Let_def split: chunk_state.splits if_splits)
  with 2(1) [OF b] byte_step_inv [OF b(1)] show ?case by auto
qed auto

lemma byte_step_length: "byte_step d c = Passed d' x \<Longrightarrow> length x \<le> 1"
  by (auto simp: byte_step_def ext_byte_def expect_def Let_def split: chunk_state.splits if_splits)

lemma run_length: "run_bytes d out s = (e, d', o', r) \<Longrightarrow> length o' + length r \<le> length out + length s \<and> length r \<le> length s"
proof (induction d out s rule: run_bytes.induct)
  case (2 d out c s)
  then show ?case using byte_step_length [of d c] by (fastforce split: fed.splits)
qed auto

section \<open>Printed bodies\<close>

text \<open>A chunk has the digits of its size, an extension and its data; a body has its chunks, the digits and the extension of
  the last chunk, and the lines of a trailer.\<close>

type_synonym http_chunk = "bytes \<times> bytes \<times> bytes"
type_synonym chunked_body = "http_chunk list \<times> bytes \<times> bytes \<times> bytes list"

definition hex_value :: "bytes \<Rightarrow> int" where
  "hex_value ds = foldl (\<lambda>n c. n * 16 + decode_hex c) 0 ds"

definition good_size :: "bytes \<Rightarrow> nat \<Rightarrow> bool" where
  "good_size ds n \<longleftrightarrow> ds \<noteq> [] \<and> length ds \<le> 16 \<and> (\<forall>c\<in>set ds. decode_hex c \<noteq> -1) \<and> hex_value ds = int n \<and> n < 2 ^ 64"

definition good_ext :: "bytes \<Rightarrow> bool" where
  "good_ext e \<longleftrightarrow> (e \<noteq> [] \<longrightarrow> hd e \<in> {CHR 0x20, TAB, CHR 0x3B}) \<and> CR \<notin> set e \<and> LF \<notin> set e"

fun good_chunk :: "http_chunk \<Rightarrow> bool" where
  "good_chunk (ds, e, data) \<longleftrightarrow> good_size ds (length data) \<and> good_ext e \<and> data \<noteq> []"

definition good_trailer :: "bytes \<Rightarrow> bool" where
  "good_trailer l \<longleftrightarrow> l \<noteq> [] \<and> hd l \<noteq> CR \<and> LF \<notin> set l"

fun good_body :: "chunked_body \<Rightarrow> bool" where
  "good_body (cs, ds, e, ts) \<longleftrightarrow> (\<forall>c\<in>set cs. good_chunk c) \<and> good_size ds 0 \<and> good_ext e \<and> (\<forall>l\<in>set ts. good_trailer l)"

fun print_chunk :: "http_chunk \<Rightarrow> bytes" where
  "print_chunk (ds, e, data) = ds @ e @ CR # LF # data @ [CR, LF]"

fun print_chunked :: "bool \<Rightarrow> chunked_body \<Rightarrow> bytes" where
  "print_chunked trailer (cs, ds, e, ts) = concat (map print_chunk cs) @ ds @ e @ CR # LF #
     (if trailer then concat (map (\<lambda>l. l @ [CR, LF]) ts) @ [CR, LF] else [])"

fun body_data :: "chunked_body \<Rightarrow> bytes" where
  "body_data (cs, ds, e, ts) = concat (map (\<lambda>(ds, e, data). data) cs)"

lemma decode_hex_CR_LF [simp]: "decode_hex CR = -1" "decode_hex LF = -1"
  by code_simp+

lemma decode_hex_ext [simp]: "c \<in> {CHR 0x20, TAB, CHR 0x3B} \<Longrightarrow> decode_hex c = -1"
  by (elim insertE emptyE) (simp_all, code_simp+)

lemma size_run:
  "dec_state d = CHUNKED_IN_CHUNK_SIZE \<Longrightarrow> \<forall>c\<in>set ds. decode_hex c \<noteq> -1 \<Longrightarrow> hex_count d + length ds \<le> 16 \<Longrightarrow>
    run_bytes d out (ds @ t) = run_bytes (d\<lparr>
      bytes_left_in_chunk := foldl (\<lambda>n c. n * 16 + word_of_int (decode_hex c)) (bytes_left_in_chunk d) ds,
      hex_count := hex_count d + length ds\<rparr>) out t"
  by (induction ds arbitrary: d) (simp_all add: byte_step_def)

lemma hex_fold:
  "foldl (\<lambda>n c. n * 16 + word_of_int (decode_hex c)) (word_of_int k) ds
    = (word_of_int (foldl (\<lambda>n c. n * 16 + decode_hex c) k ds) :: 64 word)"
proof (induction ds arbitrary: k)
  case (Cons c ds)
  have "word_of_int k * 16 + word_of_int (decode_hex c) = (word_of_int (k * 16 + decode_hex c) :: 64 word)" by simp
  with Cons [of "k * 16 + decode_hex c"] show ?case by (simp only: foldl_Cons)
qed simp

lemma ext_run:
  "dec_state d = CHUNKED_IN_CHUNK_EXT \<Longrightarrow> CR \<notin> set e \<Longrightarrow> LF \<notin> set e \<Longrightarrow>
    run_bytes d out (e @ CR # t) = run_bytes (d\<lparr>dec_state := CHUNKED_IN_CHUNK_HEADER_EXPECT_LF\<rparr>) out t"
  by (induction e) (auto simp: byte_step_def ext_byte_def)

lemma size_ext_run:
  assumes st: "dec_state d = CHUNKED_IN_CHUNK_SIZE" and n: "hex_count d \<noteq> 0" and e: "good_ext e"
  shows "run_bytes d out (e @ CR # t) = run_bytes (d\<lparr>hex_count := 0, dec_state := CHUNKED_IN_CHUNK_HEADER_EXPECT_LF\<rparr>) out t"
proof (cases e)
  case Nil
  with st n show ?thesis by (simp add: byte_step_def ext_byte_def)
next
  case (Cons c e')
  let ?d = "d\<lparr>hex_count := 0, dec_state := CHUNKED_IN_CHUNK_EXT\<rparr>"
  from e Cons have c: "c \<in> {CHR 0x20, TAB, CHR 0x3B}" "c \<noteq> CR" "c \<noteq> LF" and e': "CR \<notin> set e'" "LF \<notin> set e'"
    by (auto simp: good_ext_def)
  from c(1) have in5: "c \<in> {CHR 0x20, TAB, CHR 0x3B, LF, CR}" by blast
  have "byte_step d c = Passed ?d []"
    using st n c(2,3) in5 decode_hex_ext [OF c(1)] by (simp add: byte_step_def ext_byte_def)
  with ext_run [of ?d e' out t] e' show ?thesis by (simp add: Cons)
qed

text \<open>Between two chunks.\<close>

definition between :: "phr_chunked_decoder \<Rightarrow> bool" where
  "between d \<longleftrightarrow> dec_state d = CHUNKED_IN_CHUNK_SIZE \<and> hex_count d = 0 \<and> bytes_left_in_chunk d = 0"

lemma header_run:
  assumes "between d" and "good_size ds n" and "good_ext e"
  shows "run_bytes d out (ds @ e @ CR # t) = run_bytes (d\<lparr>bytes_left_in_chunk := word_of_nat n,
    dec_state := CHUNKED_IN_CHUNK_HEADER_EXPECT_LF\<rparr>) out t"
proof -
  let ?d = "d\<lparr>bytes_left_in_chunk := word_of_nat n, hex_count := length ds\<rparr>"
  have b: "dec_state d = CHUNKED_IN_CHUNK_SIZE" "hex_count d = 0" "bytes_left_in_chunk d = 0"
    using assms(1) by (simp_all add: between_def)
  have "foldl (\<lambda>n c. n * 16 + word_of_int (decode_hex c)) 0 ds = (word_of_nat n :: 64 word)"
    using hex_fold [of 0 ds] assms(2) by (simp add: good_size_def hex_value_def)
  with size_run [of d ds out "e @ CR # t"] assms(2) b
  have "run_bytes d out (ds @ e @ CR # t) = run_bytes ?d out (e @ CR # t)" by (simp add: good_size_def)
  also have "\<dots> = run_bytes (?d\<lparr>hex_count := 0, dec_state := CHUNKED_IN_CHUNK_HEADER_EXPECT_LF\<rparr>) out t"
    by (rule size_ext_run) (use b assms(2,3) in \<open>simp_all add: good_size_def\<close>)
  also have "?d\<lparr>hex_count := 0, dec_state := CHUNKED_IN_CHUNK_HEADER_EXPECT_LF\<rparr>
      = d\<lparr>bytes_left_in_chunk := word_of_nat n, dec_state := CHUNKED_IN_CHUNK_HEADER_EXPECT_LF\<rparr>"
    using b(2) by (cases d) simp
  finally show ?thesis .
qed

lemma chunk_run:
  assumes b: "between d" and g: "good_chunk (ds, e, data)"
  shows "run_bytes d out (print_chunk (ds, e, data) @ t) = run_bytes d (out @ data) t"
proof -
  let ?w = "word_of_nat (length data) :: 64 word"
  let ?d = "d\<lparr>bytes_left_in_chunk := ?w, dec_state := CHUNKED_IN_CHUNK_DATA\<rparr>"
  have n: "good_size ds (length data)" "good_ext e" "data \<noteq> []" using g by simp_all
  then have u: "unat ?w = length data" by (simp add: good_size_def unat_of_nat)
  with n(3) have nz: "?w \<noteq> 0" by (metis length_0_conv unat_0)
  have same: "?d\<lparr>bytes_left_in_chunk := 0, dec_state := CHUNKED_IN_CHUNK_SIZE\<rparr> = d"
    using b by (cases d) (simp add: between_def)
  have "run_bytes d out (print_chunk (ds, e, data) @ t) = run_bytes ?d out (data @ CR # LF # t)"
    using header_run [OF b n(1,2), of out "LF # data @ CR # LF # t"] nz by (simp add: byte_step_def)
  also have "\<dots> = run_bytes (?d\<lparr>bytes_left_in_chunk := 0, dec_state := CHUNKED_IN_CHUNK_DATA_EXPECT_CR\<rparr>) (out @ data) (CR # LF # t)"
    using data_run [of ?d data out "CR # LF # t"] u nz by simp
  also have "\<dots> = run_bytes (?d\<lparr>bytes_left_in_chunk := 0, dec_state := CHUNKED_IN_CHUNK_SIZE\<rparr>) (out @ data) t"
    by (simp add: byte_step_def expect_def)
  finally show ?thesis unfolding same .
qed

lemma chunks_run:
  "between d \<Longrightarrow> \<forall>c\<in>set cs. good_chunk c \<Longrightarrow>
    run_bytes d out (concat (map print_chunk cs) @ t) = run_bytes d (out @ concat (map (\<lambda>(ds, e, data). data) cs)) t"
proof (induction cs arbitrary: out)
  case (Cons c cs)
  obtain ds e data where c: "c = (ds, e, data)" by (rule prod_cases3)
  from Cons.prems(2) have g: "good_chunk (ds, e, data)" "\<forall>c\<in>set cs. good_chunk c" by (simp_all add: c)
  from chunk_run [OF Cons.prems(1) g(1), of out "concat (map print_chunk cs) @ t"] Cons.IH [OF Cons.prems(1) g(2), of "out @ data"]
  show ?case by (simp add: c)
qed simp

lemma trailers_run:
  "dec_state d = CHUNKED_IN_TRAILERS_LINE_HEAD \<Longrightarrow> \<forall>l\<in>set ts. good_trailer l \<Longrightarrow>
    run_bytes d out (concat (map (\<lambda>l. l @ [CR, LF]) ts) @ CR # LF # t) = (Complete, d, out, t)"
proof (induction ts)
  case Nil
  then show ?case by (simp add: byte_step_def)
next
  case (Cons l ts)
  let ?m = "d\<lparr>dec_state := CHUNKED_IN_TRAILERS_LINE_MIDDLE\<rparr>" and ?t = "concat (map (\<lambda>l. l @ [CR, LF]) ts) @ CR # LF # t"
  obtain c l' where l: "l = c # l'" and c: "c \<noteq> CR" "c \<noteq> LF" "LF \<notin> set l'"
    using Cons.prems(2) by (cases l) (auto simp: good_trailer_def)
  have dw: "dropWhile (\<lambda>c. c \<noteq> LF) (l' @ CR # LF # ?t) = LF # ?t"
    using c(3) by (induction l') auto
  have same: "?m\<lparr>dec_state := CHUNKED_IN_TRAILERS_LINE_HEAD\<rparr> = d" using Cons.prems(1) by (cases d) simp
  have "run_bytes d out (concat (map (\<lambda>l. l @ [CR, LF]) (l # ts)) @ CR # LF # t) = run_bytes ?m out (l' @ CR # LF # ?t)"
    using Cons.prems(1) c by (simp add: l byte_step_def)
  also have "\<dots> = run_bytes ?m out (LF # ?t)"
    using middle_run [of ?m out "l' @ CR # LF # ?t"] unfolding dw by simp
  also have "\<dots> = run_bytes d out ?t" using same by (simp add: byte_step_def)
  finally show ?case using Cons.IH [OF Cons.prems(1)] Cons.prems(2) by simp
qed

lemma body_run:
  assumes b: "between d" and g: "good_body body" and tr: "trailer = consume_trailer d"
  shows "\<exists>d'. run_bytes d [] (print_chunked trailer body @ t) = (Complete, d', body_data body, t)"
proof -
  obtain cs ds e ts where body: "body = (cs, ds, e, ts)" by (rule prod_cases4)
  have gs: "\<forall>c\<in>set cs. good_chunk c" "good_size ds 0" "good_ext e" "\<forall>l\<in>set ts. good_trailer l"
    using g by (simp_all add: body)
  let ?h = "d\<lparr>bytes_left_in_chunk := word_of_nat 0, dec_state := CHUNKED_IN_CHUNK_HEADER_EXPECT_LF\<rparr>"
  let ?tl = "if trailer then concat (map (\<lambda>l. l @ [CR, LF]) ts) @ CR # LF # t else t"
  have "run_bytes d [] (print_chunked trailer body @ t) = run_bytes d (body_data body) (ds @ e @ CR # LF # ?tl)"
    using chunks_run [OF b gs(1), of "[]" "ds @ e @ CR # LF # ?tl"] by (auto simp: body)
  also have "\<dots> = run_bytes ?h (body_data body) (LF # ?tl)" by (rule header_run [OF b gs(2,3)])
  finally have run: "run_bytes d [] (print_chunked trailer body @ t) = run_bytes ?h (body_data body) (LF # ?tl)" .
  show ?thesis
  proof (cases trailer)
    case True
    then have "run_bytes ?h (body_data body) (LF # ?tl)
        = run_bytes (?h\<lparr>dec_state := CHUNKED_IN_TRAILERS_LINE_HEAD\<rparr>) (body_data body) ?tl"
      using tr by (simp add: byte_step_def)
    with trailers_run [of "?h\<lparr>dec_state := CHUNKED_IN_TRAILERS_LINE_HEAD\<rparr>" ts "body_data body" t] gs(4) True
    show ?thesis unfolding run by auto
  next
    case False
    with tr show ?thesis unfolding run by (simp add: byte_step_def)
  qed
qed

section \<open>Fragments\<close>

text \<open>The use the header asks for: to call the decoder on every fragment that arrives as long as it says -2.\<close>

fun feed :: "phr_chunked_decoder \<Rightarrow> bytes \<Rightarrow> bytes list \<Rightarrow> int \<times> bytes \<times> bytes \<times> bytes list" where
  "feed d out [] = (-2, out, [], [])"
| "feed d out (f # fs) =
     (case phr_decode_chunked d f of (r, d, decoded, left) \<Rightarrow>
        if r = -2 then feed d (out @ decoded) fs else (r, out @ decoded, left, fs))"

definition new_decoder :: "bool \<Rightarrow> phr_chunked_decoder" where
  "new_decoder trailer = \<lparr>bytes_left_in_chunk = 0, consume_trailer = trailer, hex_count = 0,
     dec_state = CHUNKED_IN_CHUNK_SIZE, total_read = 0, total_overhead = 0\<rparr>"

lemma loop_of_run:
  assumes inv: "dec_inv d" and run: "run_bytes d [] f = (e, d1, decoded, left)"
  shows "\<exists>d2. decode_loop (d\<lparr>total_read := n\<rparr>) [] f = (e, d2, decoded, left) \<and>
    (e = Exit Incomplete \<longrightarrow> d2 = set_counts n (total_overhead d) d1)"
proof -
  have sc: "d\<lparr>total_read := n\<rparr> = set_counts n (total_overhead d) d" by (cases d) (simp add: set_counts_def)
  have "dec_inv (d\<lparr>total_read := n\<rparr>)" using inv by (simp add: dec_inv_def)
  from decode_loop_run [OF this, of "[]" f]
  have "agree (decode_loop (d\<lparr>total_read := n\<rparr>) [] f) (e, set_counts n (total_overhead d) d1, decoded, left)"
    by (simp add: sc run_counts run)
  then show ?thesis by (cases "decode_loop (d\<lparr>total_read := n\<rparr>) [] f") auto
qed

lemma feed_of_run:
  "dec_inv d \<Longrightarrow> run_bytes d [] (concat fs) = (Complete, d', decoded, rest) \<Longrightarrow>
    unat (total_overhead d) + (length (concat fs) - length decoded - length rest) < 100 * 1024 \<Longrightarrow>
    \<exists>left fs'. feed d out fs = (int (length left), out @ decoded, left, fs') \<and> left @ concat fs' = rest"
proof (induction fs arbitrary: d d' out decoded)
  case (Cons f fs)
  obtain e d1 o1 r1 where run: "run_bytes d [] f = (e, d1, o1, r1)" by (rule prod_cases4)
  let ?n = "total_read d + word_of_nat (length f)"
  from loop_of_run [OF Cons.prems(1) run, of ?n] obtain d2
    where loop: "decode_loop (d\<lparr>total_read := ?n\<rparr>) [] f = (e, d2, o1, r1)"
      and d2: "e = Exit Incomplete \<Longrightarrow> d2 = set_counts ?n (total_overhead d) d1" by blast
  have whole: "run_bytes d [] (f @ concat fs) = (Complete, d', decoded, rest)" using Cons.prems(2) by simp
  consider "e = Complete" | "e = Exit Malformed" | "e = Exit Incomplete" by (cases e; cases "case e of Exit x \<Rightarrow> x") auto
  then show ?case
  proof cases
    case 1
    with whole run_append [of d "[]" f "concat fs"] run have "decoded = o1" "rest = r1 @ concat fs" by auto
    then show ?thesis using 1 loop by (simp add: phr_decode_chunked_def Let_def)
  next
    case 2
    with whole run_append [of d "[]" f "concat fs"] run show ?thesis by simp
  next
    case 3
    note inc = run_incomplete [OF run [unfolded 3]] and len = run_length [OF run]
    let ?k = "length f - length o1"
    from whole run_append [of d "[]" f "concat fs"] run 3
    have "run_bytes d1 o1 (concat fs) = (Complete, d', decoded, rest)" by simp
    with run_from [of d1 o1 "concat fs"] obtain o2
      where run2: "run_bytes d1 [] (concat fs) = (Complete, d', o2, rest)" and dec: "decoded = o1 @ o2"
      by (auto split: prod.splits)
    from run_length [OF run2] have len2: "length o2 + length rest \<le> length (concat fs)" by simp
    have small: "unat (total_overhead d) + ?k < 100 * 1024" using Cons.prems(3) len len2 inc by (simp add: dec)
    let ?oh = "total_overhead d + word_of_nat ?k"
    have u: "unat ?oh = unat (total_overhead d) + ?k"
      using small by (simp add: unat_add_lem [THEN iffD1] unat_of_nat)
    have no: "\<not> 100 * 1024 \<le> ?oh" using small u by (simp add: word_le_nat_alt)
    let ?d = "set_counts ?n ?oh d1"
    have "phr_decode_chunked d f = (-2, ?d, o1, r1)"
      using loop 3 d2 no by (simp add: phr_decode_chunked_def Let_def set_counts_def)
    then have step: "feed d out (f # fs) = feed ?d (out @ o1) fs" by simp
    have inv: "dec_inv ?d" using inc Cons.prems(1) by (simp add: dec_inv_def)
    have run3: "run_bytes ?d [] (concat fs) = (Complete, set_counts ?n ?oh d', o2, rest)" by (simp add: run_counts run2)
    have "unat ?oh + (length (concat fs) - length o2 - length rest) < 100 * 1024"
      using Cons.prems(3) len len2 inc u by (simp add: dec)
    with Cons.IH [OF inv run3, of "out @ o1"] show ?thesis unfolding step by (simp add: dec)
  qed
qed simp

text \<open>C39: however a well-formed chunked body is cut into fragments, calling the decoder on one fragment after another ends with
  exactly the data of the chunks; the result is the number of bytes left over, and what is left over, with the fragments
  not read, is what followed the body.  The overhead of the encoding must stay below the 100 KB at which the decoder may refuse.\<close>

theorem chunked_body_in_any_fragments:
  assumes "good_body body" and "concat fs = print_chunked trailer body @ extra"
    and "length (print_chunked trailer body) < length (body_data body) + 100 * 1024"
  shows "\<exists>left fs'. feed (new_decoder trailer) [] fs = (int (length left), body_data body, left, fs') \<and> left @ concat fs' = extra"
proof -
  have b: "between (new_decoder trailer)" and i: "dec_inv (new_decoder trailer)"
    by (simp_all add: between_def dec_inv_def new_decoder_def)
  have "trailer = consume_trailer (new_decoder trailer)" by (simp add: new_decoder_def)
  from body_run [OF b assms(1) this, of extra] assms(2)
  obtain d' where "run_bytes (new_decoder trailer) [] (concat fs) = (Complete, d', body_data body, extra)" by auto
  from feed_of_run [OF i this, of "[]"] assms(2,3) show ?thesis by (simp add: new_decoder_def)
qed

lemma chunked_body_in_any_fragments_witness:
  "\<exists>left fs'. feed (new_decoder True) []
      [''4'' @ [CR], LF # ''Wi'', ''ki'' @ [CR, LF] @ ''0;x'' @ [CR, LF] @ ''A: b'' @ [CR, LF, CR], LF # ''G'', ''E'']
     = (int (length left), ''Wiki'', left, fs') \<and> left @ concat fs' = ''GE''"
proof -
  let ?body = "([(''4'', [], ''Wiki'')], ''0'', '';x'', [''A: b''])" and ?fs = "[''4'' @ [CR], LF # ''Wi'',
    ''ki'' @ [CR, LF] @ ''0;x'' @ [CR, LF] @ ''A: b'' @ [CR, LF, CR], LF # ''G'', ''E'']"
  have "decode_hex CHR ''4'' = 4" and "decode_hex CHR ''0'' = 0" by code_simp+
  then have sz: "good_size ''4'' (length ''Wiki'')" "good_size ''0'' 0" unfolding good_size_def hex_value_def by simp_all
  have ext: "good_ext []" "good_ext '';x''" "good_trailer ''A: b''"
    unfolding good_ext_def good_trailer_def by code_simp+
  have good: "good_body ?body" using sz ext by simp
  have fs: "concat ?fs = print_chunked True ?body @ ''GE''" by simp
  have len: "length (print_chunked True ?body) < length (body_data ?body) + 100 * 1024" by simp
  have data: "body_data ?body = ''Wiki''" by simp
  show ?thesis using chunked_body_in_any_fragments [OF good fs len] unfolding data .
qed

end
