(* ===== verification/Template.thy ===== *)
theory Template
  imports Prelude
begin

text \<open>
  The page templates (\<open>template.c\<close>): a text is cut once, when it is loaded, into literal pieces and the keys
  of its \<open>{{KEY}}\<close> placeholders, and rendered from these into a buffer of fixed size.  A file is the bytes
  that mapping it gives, or None when opening or mapping fails; the allocations of a load are one boolean.
\<close>

section \<open>Fragments\<close>

datatype fragment = FRAG_LITERAL bytes | FRAG_VARIABLE bytes

text \<open>Offsets from the cursor: the first \<open>{{\<close>, if any, and the first \<open>}}\<close> or the end.\<close>

fun find_open :: "bytes \<Rightarrow> nat option" where
  "find_open (c # d # s) =
     (if c = CHR ''{'' \<and> d = CHR ''{'' then Some 0 else map_option Suc (find_open (d # s)))"
| "find_open s = None"

fun find_close :: "bytes \<Rightarrow> nat" where
  "find_close (c # d # s) = (if c = CHR ''}'' \<and> d = CHR ''}'' then 0 else Suc (find_close (d # s)))"
| "find_close s = length s"

lemma find_open_less: "find_open s = Some k \<Longrightarrow> k + 2 \<le> length s"
  by (induction s arbitrary: k rule: find_open.induct) (auto split: if_splits)

lemma find_close_le: "find_close s \<le> length s"
  by (induction s rule: find_close.induct) auto

text \<open>The cursor after the placeholder that starts at offset \<open>k\<close>.\<close>

definition after_key :: "bytes \<Rightarrow> nat \<Rightarrow> bytes" where
  "after_key s k = drop (find_close (drop (k + 2) s) + 2) (drop (k + 2) s)"

lemma after_key_less: "find_open s = Some k \<Longrightarrow> length (after_key s k) < length s"
  using find_open_less [of s k] by (auto simp: after_key_def)

text \<open>The first pass counts the fragments, the second one makes them.\<close>

function count_fragments :: "bytes \<Rightarrow> nat" where
  "count_fragments s =
     (if s = [] then 0
      else case find_open s of
             None \<Rightarrow> 1
           | Some k \<Rightarrow> (if k > 0 then 1 else 0) + 1 + count_fragments (after_key s k))"
  by pat_completeness auto
termination
  by (relation "measure length") (auto simp: after_key_less)

function fill_fragments :: "bytes \<Rightarrow> fragment list" where
  "fill_fragments s =
     (if s = [] then []
      else case find_open s of
             None \<Rightarrow> [FRAG_LITERAL s]
           | Some k \<Rightarrow>
               (if k > 0 then [FRAG_LITERAL (take k s)] else []) @
               [FRAG_VARIABLE (take (find_close (drop (k + 2) s)) (drop (k + 2) s))] @
               fill_fragments (after_key s k))"
  by pat_completeness auto
termination
  by (relation "measure length") (auto simp: after_key_less)

declare count_fragments.simps [simp del] fill_fragments.simps [simp del]

definition parse_fragments :: "bool \<Rightarrow> bytes \<Rightarrow> fragment list option" where
  "parse_fragments mem src = (if mem then Some (fill_fragments src) else None)"

section \<open>The pool\<close>

record template =
  tp_path :: bytes
  tp_src :: bytes
  tp_fragments :: "fragment list"

definition MAX_TEMPLATES :: nat where
  "MAX_TEMPLATES = 64"

text \<open>Mapping an empty file fails.\<close>

definition load_one :: "bytes \<times> bytes option \<times> bool \<Rightarrow> template list \<Rightarrow> bool \<times> template list" where
  "load_one x pool =
     (case x of (path, file_bytes, mem) \<Rightarrow>
        if length pool \<ge> MAX_TEMPLATES then (False, pool)
        else case file_bytes of
               None \<Rightarrow> (False, pool)
             | Some src \<Rightarrow>
                 if src = [] then (False, pool)
                 else (case parse_fragments mem src of
                         None \<Rightarrow> (False, pool)
                       | Some fs \<Rightarrow> (True, pool @ [\<lparr>tp_path = path, tp_src = src, tp_fragments = fs\<rparr>])))"

fun tpl_load_files :: "(bytes \<times> bytes option \<times> bool) list \<Rightarrow> template list \<Rightarrow> bool \<times> template list" where
  "tpl_load_files [] pool = (True, pool)"
| "tpl_load_files (x # xs) pool =
     (let (ok, pool) = load_one x pool; (rest, pool) = tpl_load_files xs pool in (ok \<and> rest, pool))"

definition tpl_unload_all :: "template list \<Rightarrow> template list" where
  "tpl_unload_all pool = []"

definition tpl_get :: "template list \<Rightarrow> bytes \<Rightarrow> template option" where
  "tpl_get pool path = find (\<lambda>t. cstr (tp_path t) = cstr path) pool"

section \<open>Rendering\<close>

type_synonym tpl_var = "bytes \<times> bytes"

fun tpl_lookup :: "bytes \<Rightarrow> tpl_var list \<Rightarrow> bytes" where
  "tpl_lookup key [] = []"
| "tpl_lookup key ((k, v) # vars) = (if cstr k = key then cstr v else tpl_lookup key vars)"

definition frag_data :: "tpl_var list \<Rightarrow> fragment \<Rightarrow> bytes" where
  "frag_data vars f = (case f of FRAG_LITERAL s \<Rightarrow> s | FRAG_VARIABLE k \<Rightarrow> tpl_lookup k vars)"

text \<open>The return value and the bytes in the buffer before the final NUL.\<close>

fun render_loop :: "nat \<Rightarrow> tpl_var list \<Rightarrow> bytes \<Rightarrow> fragment list \<Rightarrow> int \<times> bytes" where
  "render_loop destSize vars written [] = (int (length written), written)"
| "render_loop destSize vars written (f # fs) =
     (if length written + length (frag_data vars f) + 1 > destSize then (-1, written)
      else render_loop destSize vars (written @ frag_data vars f) fs)"

definition tpl_render :: "template \<Rightarrow> nat \<Rightarrow> tpl_var list \<Rightarrow> int \<times> bytes" where
  "tpl_render t destSize vars = (if destSize = 0 then (-1, []) else render_loop destSize vars [] (tp_fragments t))"

section \<open>What the fragments say\<close>

text \<open>The text a fragment was cut from.\<close>

definition frag_src :: "fragment \<Rightarrow> bytes" where
  "frag_src f = (case f of FRAG_LITERAL s \<Rightarrow> s | FRAG_VARIABLE k \<Rightarrow> ''{{'' @ k @ ''}}'')"

lemma find_open_text: "find_open s = Some k \<Longrightarrow> s = take k s @ ''{{'' @ drop (k + 2) s"
  by (induction s arbitrary: k rule: find_open.induct) (auto split: if_splits)

lemma find_close_text: "find_close s < length s \<Longrightarrow> s = take (find_close s) s @ ''}}'' @ drop (find_close s + 2) s"
  by (induction s rule: find_close.induct) (auto split: if_splits)

lemma find_open_None: "find_open s = None \<longleftrightarrow> \<not> sublist ''{{'' s"
  by (induction s rule: find_open.induct) (auto simp: sublist_Cons_right)

lemma find_open_first: "find_open s = Some k \<Longrightarrow> \<not> sublist ''{{'' (take k s)"
proof (induction s arbitrary: k rule: find_open.induct)
  case (1 c d s)
  show ?case
  proof (cases k)
    case (Suc i)
    with 1 have i: "find_open (d # s) = Some i" by (auto split: if_splits)
    with 1 Suc have "\<not> sublist ''{{'' (take i (d # s))" by (auto split: if_splits)
    with 1 Suc show ?thesis by (cases i) (auto simp: sublist_Cons_right split: if_splits)
  qed simp
qed simp_all

lemma find_close_first: "\<not> sublist ''}}'' (take (find_close s) s)"
proof (induction s rule: find_close.induct)
  case (1 c d s)
  then show ?case by (cases "find_close (d # s)") (auto simp: sublist_Cons_right)
qed (auto simp: sublist_Cons_right)

text \<open>The cursor of both passes moves alike, so that the array has exactly the room for what is put in.\<close>

lemma count_is_length: "count_fragments s = length (fill_fragments s)"
proof (induction s rule: count_fragments.induct)
  case (1 s)
  then show ?case
    by (subst count_fragments.simps, subst fill_fragments.simps) (auto split: option.splits)
qed

text \<open>How the fragments are laid out: no literal is empty or has an opening, none follows another, no key has a
  closing.\<close>

fun well_cut :: "fragment list \<Rightarrow> bool" where
  "well_cut [] = True"
| "well_cut (FRAG_LITERAL s # fs) \<longleftrightarrow> s \<noteq> [] \<and> \<not> sublist ''{{'' s \<and>
     (case fs of FRAG_LITERAL _ # _ \<Rightarrow> False | _ \<Rightarrow> True) \<and> well_cut fs"
| "well_cut (FRAG_VARIABLE k # fs) \<longleftrightarrow> \<not> sublist ''}}'' k \<and> well_cut fs"

lemma fill_well_cut: "well_cut (fill_fragments s)"
proof (induction s rule: fill_fragments.induct)
  case (1 s)
  show ?case
  proof (cases "s = []")
    case False
    show ?thesis
    proof (cases "find_open s")
      case None
      then have "\<not> sublist ''{{'' s" by (simp only: find_open_None [symmetric])
      with False show ?thesis by (subst fill_fragments.simps) (simp only: None option.case if_False well_cut.simps, simp)
    next
      case (Some k)
      with 1 False have "well_cut (fill_fragments (after_key s k))" by blast
      with False Some find_close_first [of "drop (k + 2) s"] find_open_first [OF Some] show ?thesis
        by (subst fill_fragments.simps) auto
    qed
  qed (simp add: fill_fragments.simps)
qed

lemma fill_src: "\<exists>r. r \<in> {[], ''}}''} \<and> concat (map frag_src (fill_fragments s)) = s @ r"
proof (induction s rule: fill_fragments.induct)
  case (1 s)
  show ?case
  proof (cases "s = []")
    case True
    then show ?thesis by (intro exI [of _ "[]"]) (simp add: fill_fragments.simps)
  next
    case False
    show ?thesis
    proof (cases "find_open s")
      case None
      with False show ?thesis by (intro exI [of _ "[]"]) (subst fill_fragments.simps, simp add: frag_src_def)
    next
      case (Some k)
      let ?t = "drop (k + 2) s"
      obtain r where r: "r \<in> {[], ''}}''}" "concat (map frag_src (fill_fragments (after_key s k))) = after_key s k @ r"
        using 1 False Some by blast
      have s: "s = take k s @ ''{{'' @ ?t" using find_open_text [OF Some] .
      have e: "concat (map frag_src (fill_fragments s)) =
          take k s @ ''{{'' @ take (find_close ?t) ?t @ ''}}'' @ after_key s k @ r"
        using False Some r(2) by (subst fill_fragments.simps) (simp add: frag_src_def)
      show ?thesis
      proof (cases "find_close ?t < length ?t")
        case True
        from find_close_text [OF this] have "take (find_close ?t) ?t @ ''}}'' @ after_key s k = ?t"
          by (simp add: after_key_def)
        then have "concat (map frag_src (fill_fragments s)) = s @ r" using e s by (metis append.assoc)
        with r(1) show ?thesis by blast
      next
        case False
        then have f: "find_close ?t = length ?t" using find_close_le [of ?t] by simp
        then have a: "after_key s k = []" by (simp add: after_key_def)
        have "r = []" using r(2) a by (simp add: fill_fragments.simps)
        then have "concat (map frag_src (fill_fragments s)) = (take k s @ ''{{'' @ ?t) @ ''}}''" using e f a by simp
        with s show ?thesis by (intro exI [of _ "''}}''"]) simp
      qed
    qed
  qed
qed

section \<open>Rendering\<close>

lemma render_loop_fits:
  "length written + length (concat (map (frag_data vars) fs)) + 1 \<le> destSize \<Longrightarrow>
   render_loop destSize vars written fs =
     (int (length written + length (concat (map (frag_data vars) fs))), written @ concat (map (frag_data vars) fs))"
  by (induction fs arbitrary: written) auto

lemma render_loop_full:
  "length written + 1 \<le> destSize \<Longrightarrow> length written + length (concat (map (frag_data vars) fs)) + 1 > destSize \<Longrightarrow>
   \<exists>n<length fs. render_loop destSize vars written fs = (-1, written @ concat (map (frag_data vars) (take n fs))) \<and>
     length (snd (render_loop destSize vars written fs)) < destSize"
proof (induction fs arbitrary: written)
  case (Cons f fs)
  show ?case
  proof (cases "length written + length (frag_data vars f) + 1 > destSize")
    case True
    with Cons.prems show ?thesis by (intro exI [of _ 0]) simp
  next
    case False
    with Cons.prems Cons.IH [of "written @ frag_data vars f"] obtain n where "n < length fs"
      "render_loop destSize vars (written @ frag_data vars f) fs =
         (-1, (written @ frag_data vars f) @ concat (map (frag_data vars) (take n fs)))"
      "length (snd (render_loop destSize vars (written @ frag_data vars f) fs)) < destSize" by auto
    with False show ?thesis by (intro exI [of _ "Suc n"]) auto
  qed
qed simp




end
