(* ===== verification/Geo.thy ===== *)
theory Geo
  imports HashTableSpec Database
begin

text \<open>
  City geometry (\<open>geo.c\<close>): the bounding box and the centre of every municipality, read from a GeoJSON file
  into a hash table.  cJSON is third-party: its tree is a datatype, and its accessors are what its documentation says
  (a missing item is NULL).  Arithmetic and printing of doubles are a record of operations.  Reading through NULL is
  the result \<open>Crash\<close>.
\<close>

section \<open>Parameters\<close>

record float_ops =
  f_lt :: "double \<Rightarrow> double \<Rightarrow> bool"
  f_le :: "double \<Rightarrow> double \<Rightarrow> bool"
  f_add :: "double \<Rightarrow> double \<Rightarrow> double"
  f_div_int :: "double \<Rightarrow> nat \<Rightarrow> double"
  f_max :: double
  f_neg_max :: double
  f_print6 :: "double \<Rightarrow> bytes"

datatype cjson = CNum double | CStr bytes | CArr "cjson list" | CObj "(bytes \<times> cjson) list" | COther

text \<open>\<open>cJSON_GetObjectItem\<close> ignores case; \<open>cJSON_GetArrayItem\<close> counts the children of an array or an object.\<close>

definition get_object_item :: "cjson option \<Rightarrow> bytes \<Rightarrow> cjson option" where
  "get_object_item j key =
     (case j of
        Some (CObj ms) \<Rightarrow> map_option snd (find (\<lambda>m. map to_lower (cstr (fst m)) = map to_lower (cstr key)) ms)
      | _ \<Rightarrow> None)"

definition json_children :: "cjson option \<Rightarrow> cjson list" where
  "json_children j = (case j of Some (CArr xs) \<Rightarrow> xs | Some (CObj ms) \<Rightarrow> map snd ms | _ \<Rightarrow> [])"

definition get_array_item :: "cjson option \<Rightarrow> nat \<Rightarrow> cjson option" where
  "get_array_item j i = (if i < length (json_children j) then Some (json_children j ! i) else None)"

definition get_string_value :: "cjson option \<Rightarrow> bytes option" where
  "get_string_value j = (case j of Some (CStr s) \<Rightarrow> Some (cstr s) | _ \<Rightarrow> None)"

definition valuedouble :: "cjson \<Rightarrow> double" where
  "valuedouble j = (case j of CNum d \<Rightarrow> d | _ \<Rightarrow> 0)"

section \<open>Geometry\<close>

record city_geo =
  latMin :: double
  latMax :: double
  lonMin :: double
  lonMax :: double
  centroidLat :: double
  centroidLon :: double

datatype 'a geo_result = Crash | NoGeo | Geo 'a

record ring_sum =
  rs_geo :: city_geo
  rs_lat :: double
  rs_lon :: double
  rs_count :: nat

definition ring_start :: "float_ops \<Rightarrow> ring_sum" where
  "ring_start fo =
     \<lparr>rs_geo = \<lparr>latMin = f_max fo, latMax = f_neg_max fo, lonMin = f_max fo, lonMax = f_neg_max fo,
               centroidLat = 0, centroidLon = 0\<rparr>, rs_lat = 0, rs_lon = 0, rs_count = 0\<rparr>"

definition ring_step :: "float_ops \<Rightarrow> double \<Rightarrow> double \<Rightarrow> ring_sum \<Rightarrow> ring_sum" where
  "ring_step fo lo la s =
     (let g = rs_geo s;
          g = (if f_lt fo la (latMin g) then g\<lparr>latMin := la\<rparr> else g);
          g = (if f_lt fo (latMax g) la then g\<lparr>latMax := la\<rparr> else g);
          g = (if f_lt fo lo (lonMin g) then g\<lparr>lonMin := lo\<rparr> else g);
          g = (if f_lt fo (lonMax g) lo then g\<lparr>lonMax := lo\<rparr> else g)
      in \<lparr>rs_geo = g, rs_lat = f_add fo (rs_lat s) la, rs_lon = f_add fo (rs_lon s) lo, rs_count = rs_count s + 1\<rparr>)"

text \<open>A pair is \<open>[lon, lat]\<close>; one with fewer items is read through NULL.\<close>

definition pair_of :: "cjson \<Rightarrow> (double \<times> double) option" where
  "pair_of p =
     (case (get_array_item (Some p) 0, get_array_item (Some p) 1) of
        (Some lo, Some la) \<Rightarrow> Some (valuedouble lo, valuedouble la)
      | _ \<Rightarrow> None)"

fun ring_loop :: "float_ops \<Rightarrow> cjson list \<Rightarrow> ring_sum \<Rightarrow> ring_sum option" where
  "ring_loop fo [] s = Some s"
| "ring_loop fo (p # ps) s =
     (case pair_of p of None \<Rightarrow> None | Some (lo, la) \<Rightarrow> ring_loop fo ps (ring_step fo lo la s))"

text \<open>The outer ring of a polygon, or of the first polygon of several.\<close>

definition outer_ring :: "cjson option \<Rightarrow> cjson option" where
  "outer_ring geometry =
     (case (get_string_value (get_object_item geometry ''type''), get_object_item geometry ''coordinates'') of
        (Some ty, Some coords) \<Rightarrow>
          (let r = get_array_item (Some coords) 0 in if ty = ''MultiPolygon'' then get_array_item r 0 else r)
      | _ \<Rightarrow> None)"

definition parse_geometry :: "float_ops \<Rightarrow> cjson option \<Rightarrow> city_geo geo_result" where
  "parse_geometry fo geometry =
     (case outer_ring geometry of
        None \<Rightarrow> NoGeo
      | Some ring \<Rightarrow>
          (case ring_loop fo (json_children (Some ring)) (ring_start fo) of
             None \<Rightarrow> Crash
           | Some s \<Rightarrow>
               if rs_count s = 0 then NoGeo
               else Geo ((rs_geo s)\<lparr>centroidLat := f_div_int fo (rs_lat s) (rs_count s),
                                    centroidLon := f_div_int fo (rs_lon s) (rs_count s)\<rparr>)))"

section \<open>The table\<close>

type_synonym city_table = "city_geo hash_table"

definition city_key :: "bytes \<Rightarrow> bytes" where
  "city_key name = cstr name @ [NUL]"

record geo_load =
  gl_table :: city_table
  gl_names :: "bytes list"
  gl_loaded :: int
  gl_skipped :: int

text \<open>One feature; \<open>mem\<close> are the allocations of its insertion.\<close>

definition feature_name :: "cjson \<Rightarrow> bytes option" where
  "feature_name f = get_string_value (get_object_item (get_object_item (Some f) ''properties'') ''comune'')"

definition load_feature :: "float_ops \<Rightarrow> ht_mem \<Rightarrow> cjson \<Rightarrow> geo_load \<Rightarrow> geo_load option" where
  "load_feature fo mem f l =
     (case (feature_name f, get_object_item (Some f) ''geometry'') of
        (Some name, Some geometry) \<Rightarrow>
          (case parse_geometry fo (Some geometry) of
             Crash \<Rightarrow> None
           | NoGeo \<Rightarrow> Some (l\<lparr>gl_skipped := gl_skipped l + 1\<rparr>)
           | Geo geo \<Rightarrow>
               Some (l\<lparr>gl_table := snd (ht_set mem (gl_table l) (city_key name) [geo]),
                       gl_names := gl_names l @ [name], gl_loaded := gl_loaded l + 1\<rparr>))
      | _ \<Rightarrow> Some (l\<lparr>gl_skipped := gl_skipped l + 1\<rparr>))"

fun load_features :: "float_ops \<Rightarrow> (nat \<Rightarrow> ht_mem) \<Rightarrow> nat \<Rightarrow> cjson list \<Rightarrow> geo_load \<Rightarrow> geo_load option" where
  "load_features fo mem k [] l = Some l"
| "load_features fo mem k (f # fs) l =
     (case load_feature fo (mem k) f l of None \<Rightarrow> None | Some l \<Rightarrow> load_features fo mem (k + 1) fs l)"

text \<open>The tree is None when the file cannot be read or parsed.  The names are what is written to the list of cities.\<close>

definition load_geojson :: "float_ops \<Rightarrow> (nat \<Rightarrow> ht_mem) \<Rightarrow> cjson option \<Rightarrow> city_table \<Rightarrow> geo_load geo_result" where
  "load_geojson fo mem root t =
     (case root of
        None \<Rightarrow> NoGeo
      | Some r \<Rightarrow>
          (case load_features fo mem 0 (json_children (get_object_item (Some r) ''features''))
                  \<lparr>gl_table = t, gl_names = [], gl_loaded = 0, gl_skipped = 0\<rparr> of
             None \<Rightarrow> Crash
           | Some l \<Rightarrow> Geo l))"

text \<open>The number of cities or -1, the table and the names.\<close>

definition geo_init ::
  "float_ops \<Rightarrow> bool \<Rightarrow> bool \<Rightarrow> 64 word \<Rightarrow> (nat \<Rightarrow> ht_mem) \<Rightarrow> cjson option \<Rightarrow> (int \<times> city_table option \<times> bytes list) geo_result" where
  "geo_init fo mt mb sd mem root =
     (case ht_create mt mb sd 8192 hash_key of
        None \<Rightarrow> Geo (-1, None, [])
      | Some t \<Rightarrow>
          (case load_geojson fo mem root t of
             Crash \<Rightarrow> Crash
           | NoGeo \<Rightarrow> Geo (-1, None, [])
           | Geo l \<Rightarrow> Geo (gl_loaded l, Some (gl_table l), gl_names l)))"

definition geo_cleanup :: "city_table option \<Rightarrow> city_table option" where
  "geo_cleanup t = None"

definition geo_lookup :: "city_table option \<Rightarrow> bytes \<Rightarrow> city_geo option" where
  "geo_lookup table name =
     (case table of
        None \<Rightarrow> None
      | Some t \<Rightarrow> (case ht_get t (city_key name) [undefined] 1 of (True, g # _) \<Rightarrow> Some g | _ \<Rightarrow> None))"

definition geo_contains :: "float_ops \<Rightarrow> city_geo \<Rightarrow> double \<Rightarrow> double \<Rightarrow> bool" where
  "geo_contains fo g la lo \<longleftrightarrow>
     f_le fo (latMin g) la \<and> f_le fo la (latMax g) \<and> f_le fo (lonMin g) lo \<and> f_le fo lo (lonMax g)"

definition COORDINATE_STR_LEN :: nat where
  "COORDINATE_STR_LEN = 32"

record map_vars =
  mv_lat :: bytes
  mv_lon :: bytes
  mv_bounds :: bytes

definition build_map_vars :: "float_ops \<Rightarrow> city_table option \<Rightarrow> bytes \<Rightarrow> map_vars" where
  "build_map_vars fo table name =
     (case geo_lookup table name of
        Some g \<Rightarrow>
          (let p = f_print6 fo
           in \<lparr>mv_lat = str_trunc (COORDINATE_STR_LEN - 1) (p (centroidLat g)),
               mv_lon = str_trunc (COORDINATE_STR_LEN - 1) (p (centroidLon g)),
               mv_bounds = str_trunc (COORDINATE_STR_LEN * 4 - 1)
                 (''[['' @ p (latMin g) @ '','' @ p (lonMin g) @ ''],['' @ p (latMax g) @ '','' @ p (lonMax g) @ '']]'')\<rparr>)
      | None \<Rightarrow> \<lparr>mv_lat = ''41.9'', mv_lon = ''12.5'', mv_bounds = ''null''\<rparr>)"

section \<open>The box\<close>

text \<open>On the numbers of a ring the comparisons are those of a linear order whose bounds are the extreme
  values.\<close>

definition float_order :: "float_ops \<Rightarrow> double set \<Rightarrow> bool" where
  "float_order fo D \<longleftrightarrow>
     (\<forall>a\<in>D. \<forall>b\<in>D. f_lt fo a b = (f_le fo a b \<and> a \<noteq> b)) \<and>
     (\<forall>a\<in>D. f_le fo a a) \<and> (\<forall>a\<in>D. \<forall>b\<in>D. f_le fo a b \<or> f_le fo b a) \<and>
     (\<forall>a\<in>D. \<forall>b\<in>D. \<forall>c\<in>D. f_le fo a b \<and> f_le fo b c \<longrightarrow> f_le fo a c) \<and>
     (\<forall>a\<in>D. f_le fo (f_neg_max fo) a \<and> f_le fo a (f_max fo)) \<and> f_max fo \<in> D \<and> f_neg_max fo \<in> D"

definition box_ok :: "double set \<Rightarrow> city_geo \<Rightarrow> bool" where
  "box_ok D g \<longleftrightarrow> {latMin g, latMax g, lonMin g, lonMax g} \<subseteq> D"

lemma float_orderD:
  assumes "float_order fo D"
  shows "a \<in> D \<Longrightarrow> b \<in> D \<Longrightarrow> f_lt fo a b \<longleftrightarrow> f_le fo a b \<and> a \<noteq> b" "a \<in> D \<Longrightarrow> f_le fo a a"
    "a \<in> D \<Longrightarrow> b \<in> D \<Longrightarrow> f_le fo a b \<or> f_le fo b a"
    "a \<in> D \<Longrightarrow> b \<in> D \<Longrightarrow> c \<in> D \<Longrightarrow> f_le fo a b \<Longrightarrow> f_le fo b c \<Longrightarrow> f_le fo a c"
    "f_max fo \<in> D" "f_neg_max fo \<in> D"
  using assms unfolding float_order_def by blast+

lemma min_step:
  assumes o: "float_order fo D" and a: "a \<in> D" "m \<in> D"
  shows "let m' = (if f_lt fo a m then a else m) in m' \<in> D \<and> f_le fo m' a \<and> (\<forall>x\<in>D. f_le fo m x \<longrightarrow> f_le fo m' x)"
proof (cases "f_lt fo a m")
  case True
  with float_orderD(1) [OF o a] have "f_le fo a m" by blast
  with True float_orderD(2) [OF o a(1)] float_orderD(4) [OF o a] a show ?thesis by (simp add: Let_def)
next
  case False
  with float_orderD(1,3) [OF o a] float_orderD(2) [OF o a(1)] have "f_le fo m a" by auto
  with False a show ?thesis by (simp add: Let_def)
qed

lemma max_step:
  assumes o: "float_order fo D" and a: "a \<in> D" "m \<in> D"
  shows "let m' = (if f_lt fo m a then a else m) in m' \<in> D \<and> f_le fo a m' \<and> (\<forall>x\<in>D. f_le fo x m \<longrightarrow> f_le fo x m')"
proof (cases "f_lt fo m a")
  case True
  with float_orderD(1) [OF o a(2,1)] have "f_le fo m a" by blast
  with True float_orderD(2) [OF o a(1)] float_orderD(4) [OF o _ a(2,1)] a show ?thesis by (simp add: Let_def)
next
  case False
  with float_orderD(1,3) [OF o a(2,1)] float_orderD(2) [OF o a(1)] have "f_le fo a m" by auto
  with False a show ?thesis by (simp add: Let_def)
qed

lemma ring_step_box:
  "rs_geo (ring_step fo lo la s) =
     (rs_geo s)\<lparr>latMin := (if f_lt fo la (latMin (rs_geo s)) then la else latMin (rs_geo s)),
                latMax := (if f_lt fo (latMax (rs_geo s)) la then la else latMax (rs_geo s)),
                lonMin := (if f_lt fo lo (lonMin (rs_geo s)) then lo else lonMin (rs_geo s)),
                lonMax := (if f_lt fo (lonMax (rs_geo s)) lo then lo else lonMax (rs_geo s))\<rparr>"
  by (simp add: ring_step_def Let_def)

lemma ring_step_count [simp]: "rs_count (ring_step fo lo la s) = rs_count s + 1"
  by (simp add: ring_step_def Let_def)

lemma ring_step_contains:
  assumes o: "float_order fo D" and d: "la \<in> D" "lo \<in> D" "box_ok D (rs_geo s)"
  shows "box_ok D (rs_geo (ring_step fo lo la s))" "geo_contains fo (rs_geo (ring_step fo lo la s)) la lo"
    "x \<in> D \<Longrightarrow> y \<in> D \<Longrightarrow> geo_contains fo (rs_geo s) x y \<Longrightarrow> geo_contains fo (rs_geo (ring_step fo lo la s)) x y"
proof -
  have m: "latMin (rs_geo s) \<in> D" "latMax (rs_geo s) \<in> D" "lonMin (rs_geo s) \<in> D" "lonMax (rs_geo s) \<in> D"
    using d(3) by (simp_all add: box_ok_def)
  note steps = min_step [OF o d(1) m(1), unfolded Let_def] max_step [OF o d(1) m(2), unfolded Let_def]
    min_step [OF o d(2) m(3), unfolded Let_def] max_step [OF o d(2) m(4), unfolded Let_def]
  show "box_ok D (rs_geo (ring_step fo lo la s))" using steps by (simp add: box_ok_def ring_step_box)
  show "geo_contains fo (rs_geo (ring_step fo lo la s)) la lo"
    using steps by (simp add: geo_contains_def ring_step_box)
  show "geo_contains fo (rs_geo (ring_step fo lo la s)) x y"
    if "x \<in> D" "y \<in> D" "geo_contains fo (rs_geo s) x y"
    using steps that by (simp add: geo_contains_def ring_step_box)
qed

lemma ring_loop_contains:
  assumes o: "float_order fo D"
  shows "\<lbrakk>ring_loop fo ps s = Some s'; box_ok D (rs_geo s); \<forall>p\<in>set ps. \<forall>lo la. pair_of p = Some (lo, la) \<longrightarrow> lo \<in> D \<and> la \<in> D\<rbrakk> \<Longrightarrow>
    rs_count s' = rs_count s + length ps \<and>
    (\<forall>x\<in>D. \<forall>y\<in>D. geo_contains fo (rs_geo s) x y \<longrightarrow> geo_contains fo (rs_geo s') x y) \<and>
    (\<forall>p\<in>set ps. \<exists>lo la. pair_of p = Some (lo, la) \<and> geo_contains fo (rs_geo s') la lo)"
proof (induction ps arbitrary: s)
  case (Cons p ps)
  then obtain lo la where p: "pair_of p = Some (lo, la)" "ring_loop fo ps (ring_step fo lo la s) = Some s'"
    by (auto split: option.splits)
  with Cons.prems(3) have d: "la \<in> D" "lo \<in> D" by auto
  note st = ring_step_contains [OF o d Cons.prems(2)]
  have IH: "rs_count s' = rs_count (ring_step fo lo la s) + length ps"
    "\<forall>x\<in>D. \<forall>y\<in>D. geo_contains fo (rs_geo (ring_step fo lo la s)) x y \<longrightarrow> geo_contains fo (rs_geo s') x y"
    "\<forall>p\<in>set ps. \<exists>lo la. pair_of p = Some (lo, la) \<and> geo_contains fo (rs_geo s') la lo"
    using Cons.IH [OF p(2) st(1)] Cons.prems(3) by auto
  have "geo_contains fo (rs_geo s') la lo" using IH(2) st(2) d by blast
  then show ?case using IH st(3) p(1) by auto
qed simp

lemma contains_centroid: "geo_contains fo (g\<lparr>centroidLat := a, centroidLon := b\<rparr>) x y = geo_contains fo g x y"
  by (simp add: geo_contains_def)


text \<open>A triangle, with the order of unsigned words on small numbers.\<close>

definition example_floats :: float_ops where
  "example_floats = \<lparr>f_lt = (<), f_le = (\<le>), f_add = (+), f_div_int = (\<lambda>a n. a div of_nat n), f_max = 1000,
     f_neg_max = 0, f_print6 = (\<lambda>d. show_nat (unat d))\<rparr>"

definition example_geometry :: cjson where
  "example_geometry = CObj [(''type'', CStr ''Polygon''), (''coordinates'', CArr [CArr
     [CArr [CNum 12, CNum 41], CArr [CNum 14, CNum 45], CArr [CNum 10, CNum 43]]])]"

lemma example_ring:
  "outer_ring (Some example_geometry) =
     Some (CArr [CArr [CNum 12, CNum 41], CArr [CNum 14, CNum 45], CArr [CNum 10, CNum 43]])"
  by (simp add: outer_ring_def example_geometry_def get_object_item_def get_string_value_def get_array_item_def
      json_children_def to_lower_def byte_val_def cstr_def NUL_def Let_def)

lemma example_parses: "\<exists>g. parse_geometry example_floats (Some example_geometry) = Geo g"
  by (simp add: example_ring parse_geometry_def json_children_def pair_of_def get_array_item_def)


section \<open>Looking up a city\<close>

definition cities_inv :: "city_table \<Rightarrow> bool" where
  "cities_inv t \<longleftrightarrow> ht_inv t \<and> (\<forall>k v. ht_abs t k = Some v \<longrightarrow> (\<exists>g. v = [g]))"

definition cities_abs :: "city_table \<Rightarrow> bytes \<Rightarrow> city_geo option" where
  "cities_abs t name = (case ht_abs t (city_key name) of Some [g] \<Rightarrow> Some g | _ \<Rightarrow> None)"

lemma lookup_abs:
  assumes "cities_inv t"
  shows "geo_lookup (Some t) name = cities_abs t name"
proof (cases "ht_abs t (city_key name)")
  case None
  with assms show ?thesis by (simp add: geo_lookup_def cities_abs_def cities_inv_def ht.get_abs)
next
  case (Some v)
  with assms obtain g where "v = [g]" by (auto simp: cities_inv_def)
  with Some assms show ?thesis by (simp add: geo_lookup_def cities_abs_def cities_inv_def ht.get_abs)
qed

lemma set_city:
  assumes "cities_inv t" and "fst (ht_set mem t (city_key name) [g])"
  shows "cities_inv (snd (ht_set mem t (city_key name) [g]))"
    and "cities_abs (snd (ht_set mem t (city_key name) [g])) x = (if cstr x = cstr name then Some g else cities_abs t x)"
  using assms by (auto simp: cities_inv_def cities_abs_def ht.set_inv ht.set_abs city_key_def)

text \<open>What a feature says of a city, and what a list of features does, the last one first.\<close>

definition feature_geo :: "float_ops \<Rightarrow> cjson \<Rightarrow> bytes \<Rightarrow> city_geo option" where
  "feature_geo fo f name =
     (case (feature_name f, get_object_item (Some f) ''geometry'') of
        (Some n, Some geometry) \<Rightarrow>
          if n = cstr name then (case parse_geometry fo (Some geometry) of Geo g \<Rightarrow> Some g | _ \<Rightarrow> None) else None
      | _ \<Rightarrow> None)"

fun features_geo :: "float_ops \<Rightarrow> cjson list \<Rightarrow> bytes \<Rightarrow> city_geo option" where
  "features_geo fo [] name = None"
| "features_geo fo (f # fs) name =
     (case features_geo fo fs name of Some g \<Rightarrow> Some g | None \<Rightarrow> feature_geo fo f name)"

lemma feature_name_cstr: "feature_name f = Some n \<Longrightarrow> cstr n = n"
  by (auto simp: feature_name_def get_string_value_def split: option.splits cjson.splits)

lemma load_feature_spec:
  assumes "load_feature fo mem_ok f l = Some l'" and "cities_inv (gl_table l)"
  shows "cities_inv (gl_table l') \<and>
    cities_abs (gl_table l') x = (case feature_geo fo f x of Some g \<Rightarrow> Some g | None \<Rightarrow> cities_abs (gl_table l) x)"
  using assms set_city [OF assms(2) ht_set_ok] feature_name_cstr [of f]
  by (auto simp: load_feature_def feature_geo_def split: option.splits geo_result.splits)

lemma load_features_spec:
  "load_features fo (\<lambda>_. mem_ok) k fs l = Some l' \<Longrightarrow> cities_inv (gl_table l) \<Longrightarrow> cities_inv (gl_table l') \<and>
    cities_abs (gl_table l') x = (case features_geo fo fs x of Some g \<Rightarrow> Some g | None \<Rightarrow> cities_abs (gl_table l) x)"
proof (induction fs arbitrary: k l)
  case (Cons f fs)
  then obtain l1 where l1: "load_feature fo mem_ok f l = Some l1" "load_features fo (\<lambda>_. mem_ok) (k + 1) fs l1 = Some l'"
    by (auto split: option.splits)
  with load_feature_spec [OF l1(1) Cons.prems(2)] Cons.IH [OF l1(2)] show ?case by (auto split: option.splits)
qed simp

text \<open>C35: after the file has been loaded, looking up a city gives the geometry of the last feature with that name
  whose geometry could be parsed, and nothing for any other name, as long as no allocation fails.\<close>

theorem lookup_after_init:
  assumes "geo_init fo True True sd (\<lambda>_. mem_ok) (Some root) = Geo (n, table, names)"
  shows "geo_lookup table name = features_geo fo (json_children (get_object_item (Some root) ''features'')) name"
proof -
  obtain t :: city_table where t: "ht_create True True sd 8192 hash_key = Some t" by (simp add: ht_create_def Let_def)
  have i: "cities_inv t" "cities_abs t x = None" for x
    using ht_create_spec [OF t] by (simp_all add: cities_inv_def cities_abs_def)
  obtain l where l: "load_features fo (\<lambda>_. mem_ok) 0 (json_children (get_object_item (Some root) ''features''))
      \<lparr>gl_table = t, gl_names = [], gl_loaded = 0, gl_skipped = 0\<rparr> = Some l" "table = Some (gl_table l)"
    using assms t by (auto simp: geo_init_def load_geojson_def split: option.splits)
  from load_features_spec [OF l(1), of name] i show ?thesis
    unfolding l(2) by (auto simp: lookup_abs split: option.splits)
qed

definition example_map :: cjson where
  "example_map = CObj [(''features'', CArr [CObj [(''properties'', CObj [(''comune'', CStr ''Pisa'')]), (''geometry'', example_geometry)]])]"

lemma lookup_after_init_witness:
  "\<exists>n table names. geo_init example_floats True True 7 (\<lambda>_. mem_ok) (Some example_map) = Geo (n, table, names) \<and>
     geo_lookup table ''Roma'' = None"
proof -
  have f: "json_children (get_object_item (Some example_map) ''features'') =
      [CObj [(''properties'', CObj [(''comune'', CStr ''Pisa'')]), (''geometry'', example_geometry)]]"
    by (simp add: example_map_def get_object_item_def json_children_def to_lower_def byte_val_def cstr_def NUL_def)
  have n: "feature_name (CObj [(''properties'', CObj [(''comune'', CStr ''Pisa'')]), (''geometry'', example_geometry)]) = Some ''Pisa''"
    by (simp add: feature_name_def get_object_item_def get_string_value_def to_lower_def byte_val_def cstr_def NUL_def)
  obtain g where g: "parse_geometry example_floats (Some example_geometry) = Geo g"
    using example_parses by blast
  have "get_object_item (Some (CObj [(''properties'', CObj [(''comune'', CStr ''Pisa'')]), (''geometry'', example_geometry)])) ''geometry'' = Some example_geometry"
    by (simp add: get_object_item_def to_lower_def byte_val_def cstr_def NUL_def)
  then have "\<exists>n table names. geo_init example_floats True True 7 (\<lambda>_. mem_ok) (Some example_map) = Geo (n, table, names)"
    by (simp add: geo_init_def load_geojson_def ht_create_def Let_def f load_feature_def n g)
  then obtain n table names where i: "geo_init example_floats True True 7 (\<lambda>_. mem_ok) (Some example_map) = Geo (n, table, names)"
    by blast
  from lookup_after_init [OF i, of "''Roma''"] i show ?thesis
    by (simp add: f feature_geo_def n cstr_def NUL_def split: option.splits)
qed

end
