(* ===== verification/Routes.thy ===== *)
theory Routes
  imports Reports Session HttpUtils Template Geo
begin

text \<open>
  The application: \<open>route_helpers.c\<close>, \<open>route_pages.c\<close>, \<open>route_api.c\<close> and \<open>route_handler.c\<close>.  A handler takes
  the request and maps the state of the modules and the response buffer to new ones.  What the outside world answers
  during a request is the record \<open>env\<close>: the clock, SQLite, cJSON, the random sources and the allocations; the \<open>k\<close>-th
  place of a handler that asks reads the \<open>k\<close>-th answer.
\<close>

section \<open>State and environment\<close>

record env =
  en_time :: "nat \<Rightarrow> int"
  en_db :: "nat \<Rightarrow> db_call"
  en_printer :: json_printer
  en_json :: json_mem
  en_floats :: float_ops
  en_atof :: "bytes \<Rightarrow> double"
  en_salt :: "bytes option"
  en_rand :: "nat \<Rightarrow> nat"
  en_tokens :: "nat \<Rightarrow> token_source"
  en_mem :: ht_mem

record app =
  a_db :: database
  a_cache :: cache
  a_sessions :: "sessions option"
  a_cities :: "city_table option"
  a_pool :: "template list"

type_synonym handler = "env \<Rightarrow> http_request \<Rightarrow> app \<Rightarrow> http_response \<Rightarrow> app \<times> http_response"

definition RESPONSE_BUFFER_SIZE :: nat where
  "RESPONSE_BUFFER_SIZE = 2 ^ 18"

definition URL_BUFFER_SIZE :: nat where
  "URL_BUFFER_SIZE = 2 ^ 10"

definition ERROR_BLOCK_MAX_LEN :: nat where
  "ERROR_BLOCK_MAX_LEN = 128"

definition ESCAPED_PARAM_LEN :: nat where
  "ESCAPED_PARAM_LEN = 64"

definition PWD_PLAIN_LEN :: nat where
  "PWD_PLAIN_LEN = 128"

definition REPORT_ID_PARAM_LEN :: nat where
  "REPORT_ID_PARAM_LEN = 24"

definition OPERATOR_ID_PARAM_LEN :: nat where
  "OPERATOR_ID_PARAM_LEN = 24"

definition STATUS_PARAM_LEN :: nat where
  "STATUS_PARAM_LEN = 4"

definition ACTION_PARAM_LEN :: nat where
  "ACTION_PARAM_LEN = 8"

definition TPL_LOGIN :: bytes where
  "TPL_LOGIN = ''templates/login.html''"

definition TPL_REGISTER :: bytes where
  "TPL_REGISTER = ''templates/register.html''"

definition TPL_SUBMIT :: bytes where
  "TPL_SUBMIT = ''templates/submit.html''"

definition TPL_CITIZEN_HOME :: bytes where
  "TPL_CITIZEN_HOME = ''templates/citizen_home.html''"

definition TPL_OPERATOR_MAP :: bytes where
  "TPL_OPERATOR_MAP = ''templates/operator_map.html''"

definition TPL_ADMIN_MAP :: bytes where
  "TPL_ADMIN_MAP = ''templates/admin_map.html''"

definition TPL_CSS :: bytes where
  "TPL_CSS = ''templates/common.css''"

definition TPL_DOCS :: bytes where
  "TPL_DOCS = ''templates/swagger_api_docs.html''"

definition CITIES_JSON_PATH :: bytes where
  "CITIES_JSON_PATH = ''data/cities.json''"

section \<open>Helpers\<close>

definition get_session_user :: "env \<Rightarrow> http_request \<Rightarrow> app \<Rightarrow> user option \<times> app" where
  "get_session_user env req a =
     (let token = http_request_cookie req SESSION_COOKIE_NAME (TOKEN_HEX_LEN + 1) in
      if token = [] then (None, a)
      else let (u, ss) = session_verify (en_time env 0) token (a_sessions a) in (u, a\<lparr>a_sessions := ss\<rparr>))"

definition redirect :: "http_response \<Rightarrow> bytes \<Rightarrow> bytes option \<Rightarrow> http_response" where
  "redirect resp url cookie =
     (let resp = resp\<lparr>statusCode := 302, location := str_trunc (LOCATION_MAX - 1) url\<rparr>
      in case cookie of None \<Rightarrow> resp | Some c \<Rightarrow> resp\<lparr>setCookie := str_trunc (COOKIE_MAX - 1) c\<rparr>)"

text \<open>A C string printed into the response buffer, with its length.\<close>

definition print_body :: "http_response \<Rightarrow> int \<Rightarrow> bytes \<Rightarrow> http_response" where
  "print_body resp st s =
     (let b = str_trunc (RESPONSE_BUFFER_SIZE - 1) s in resp\<lparr>statusCode := st, body := b, bodyLen := length b\<rparr>)"

definition dquote :: bytes where
  "dquote = [CHR 0x22]"

definition resp_json_error :: "http_response \<Rightarrow> int \<Rightarrow> bytes \<Rightarrow> http_response" where
  "resp_json_error resp st msg =
     print_body resp st (''{'' @ dquote @ ''error'' @ dquote @ '':'' @ dquote @ cstr msg @ dquote @ ''}'')"

definition resp_html_error :: "http_response \<Rightarrow> int \<Rightarrow> bytes \<Rightarrow> http_response" where
  "resp_html_error resp st msg = print_body resp st (''<h1>'' @ cstr msg @ ''</h1>'')"

definition json_ok :: "http_response \<Rightarrow> http_response" where
  "json_ok resp = print_body resp 200 (''{'' @ dquote @ ''ok'' @ dquote @ '':true}'')"

text \<open>Rendering into the response buffer: when the page does not fit, what was written stays in front of the old
  contents and the length is 0.\<close>

definition render_body :: "template \<Rightarrow> tpl_var list \<Rightarrow> http_response \<Rightarrow> http_response" where
  "render_body t vars resp =
     (case tpl_render t RESPONSE_BUFFER_SIZE vars of
        (n, s) \<Rightarrow> resp\<lparr>statusCode := 200,
                      body := (if n < 0 then s @ drop (length s) (body resp) else s),
                      bodyLen := (if n > 0 then nat n else 0)\<rparr>)"

definition resp_render_tpl :: "app \<Rightarrow> bytes \<Rightarrow> tpl_var list \<Rightarrow> http_response \<Rightarrow> http_response" where
  "resp_render_tpl a name vars resp =
     (case tpl_get (a_pool a) name of
        None \<Rightarrow> resp_html_error resp 500 ''Server Error''
      | Some t \<Rightarrow> render_body t vars resp)"

definition login_error :: "app \<Rightarrow> bytes \<Rightarrow> http_response \<Rightarrow> http_response" where
  "login_error a msg resp =
     resp_render_tpl a TPL_LOGIN [(''ERROR_BLOCK'', make_error_block msg ERROR_BLOCK_MAX_LEN)] resp"

definition register_error :: "app \<Rightarrow> bytes \<Rightarrow> http_response \<Rightarrow> http_response" where
  "register_error a msg resp =
     resp_render_tpl a TPL_REGISTER [(''ERROR_BLOCK'', make_error_block msg ERROR_BLOCK_MAX_LEN)] resp"

text \<open>The variables of the pages that show a map.\<close>

definition page_vars :: "env \<Rightarrow> app \<Rightarrow> user \<Rightarrow> bytes option \<Rightarrow> tpl_var list" where
  "page_vars env a u eb =
     (let mv = build_map_vars (en_floats env) (a_cities a) (city u)
      in [(''USERNAME'', html_escape (username u) ESCAPED_PARAM_LEN), (''CITY'', html_escape (city u) ESCAPED_PARAM_LEN)] @
         (case eb of None \<Rightarrow> [] | Some e \<Rightarrow> [(''ERROR_BLOCK'', e)]) @
         [(''MAP_LAT'', mv_lat mv), (''MAP_LON'', mv_lon mv), (''MAP_BOUNDS'', mv_bounds mv)])"

definition submit_error :: "env \<Rightarrow> app \<Rightarrow> user \<Rightarrow> bytes \<Rightarrow> http_response \<Rightarrow> http_response" where
  "submit_error env a u msg resp =
     resp_render_tpl a TPL_SUBMIT (page_vars env a u (Some (make_error_block msg ERROR_BLOCK_MAX_LEN))) resp"

section \<open>Pages\<close>

definition route_get_root :: handler where
  "route_get_root env req a resp =
     (case get_session_user env req a of
        (Some u, a) \<Rightarrow> (a, redirect resp ''/home'' None)
      | (None, a) \<Rightarrow> (a, resp_render_tpl a TPL_LOGIN [(''ERROR_BLOCK'', [])] resp))"

definition route_get_register :: handler where
  "route_get_register env req a resp = (a, resp_render_tpl a TPL_REGISTER [(''ERROR_BLOCK'', [])] resp)"

definition route_get_home :: handler where
  "route_get_home env req a resp =
     (case get_session_user env req a of
        (None, a) \<Rightarrow> (a, redirect resp ''/'' None)
      | (Some u, a) \<Rightarrow>
          let name = (if user_is_admin (Some u) then TPL_ADMIN_MAP
                      else if user_is_operator (Some u) then TPL_OPERATOR_MAP
                      else TPL_CITIZEN_HOME)
          in (a, resp_render_tpl a name (page_vars env a u None) resp))"

definition route_get_submit :: handler where
  "route_get_submit env req a resp =
     (case get_session_user env req a of
        (None, a) \<Rightarrow> (a, redirect resp ''/'' None)
      | (Some u, a) \<Rightarrow>
          if user_is_operator (Some u) \<or> user_is_admin (Some u) then (a, redirect resp ''/home'' None)
          else (a, resp_render_tpl a TPL_SUBMIT (page_vars env a u (Some [])) resp))"

definition route_get_logout :: handler where
  "route_get_logout env req a resp =
     (let token = http_request_cookie req SESSION_COOKIE_NAME (TOKEN_HEX_LEN + 2);
          a = (if token = [] then a else a\<lparr>a_sessions := session_destroy token (a_sessions a)\<rparr>);
          cookie = str_trunc (COOKIE_MAX - 1)
            (SESSION_COOKIE_NAME @ ''=; Path=/; HttpOnly; Max-Age=0; SameSite=Lax'')
      in (a, redirect resp ''/'' (Some cookie)))"

definition login_cookie :: "bytes \<Rightarrow> bytes" where
  "login_cookie token =
     str_trunc (COOKIE_MAX - 1)
       (SESSION_COOKIE_NAME @ ''='' @ token @ ''; Path=/; HttpOnly; Max-Age='' @ show_int SESSION_MAX_AGE @ ''; SameSite=Lax'')"

definition no_user :: user where
  "no_user = \<lparr>userId = 0, username = [], passwordHash = [], salt = [], city = [], role = 0\<rparr>"

definition route_post_login :: handler where
  "route_post_login env req a resp =
     (let name = get_field (hr_body req) ''username='' USERNAME_LEN;
          password = get_field (hr_body req) ''password='' PWD_PLAIN_LEN
      in case user_authenticate (en_db env 0) (Some name) (Some password) no_user (a_db a) of
           (False, _) \<Rightarrow> (a, login_error a ''Username o password errati.'' resp)
         | (True, u) \<Rightarrow>
             (case session_create (en_mem env) (en_tokens env) (en_time env 0) u (a_sessions a) of
                (None, ss) \<Rightarrow> (a\<lparr>a_sessions := ss\<rparr>, login_error a ''Errore interno. Riprova.'' resp)
              | (Some token, ss) \<Rightarrow>
                  (a\<lparr>a_sessions := ss\<rparr>, redirect resp ''/home'' (Some (login_cookie token)))))"

text \<open>The messages in UTF-8.\<close>

definition msg_admin_exists :: bytes where
  "msg_admin_exists = ''Esiste gi'' @ [CHR 0xC3, CHR 0xA0] @ '' un'' @ [CHR 0x27] @ ''amministrazione comunale per questa citt'' @
     [CHR 0xC3, CHR 0xA0, CHR ''.'']"

definition msg_name_taken :: bytes where
  "msg_name_taken = ''Username gi'' @ [CHR 0xC3, CHR 0xA0] @ '' in uso. Scegline un altro.''"

definition msg_no_description :: bytes where
  "msg_no_description = ''La descrizione '' @ [CHR 0xC3, CHR 0xA8] @ '' obbligatoria.''"

definition msg_outside :: bytes where
  "msg_outside = ''Le coordinate non appartengono alla tua citt'' @ [CHR 0xC3, CHR 0xA0, CHR ''.'']"

definition route_post_register :: handler where
  "route_post_register env req a resp =
     (let name = get_field (hr_body req) ''username='' USERNAME_LEN;
          password = get_field (hr_body req) ''password='' PWD_PLAIN_LEN;
          cty = get_field (hr_body req) ''city='' CITY_LEN;
          roleStr = get_field (hr_body req) ''role='' 4
      in if name = [] \<or> password = [] \<or> cty = [] then
           (a, register_error a ''Tutti i campi sono obbligatori.'' resp)
         else if length password < 6 then
           (a, register_error a ''La password deve avere almeno 6 caratteri.'' resp)
         else if geo_lookup (a_cities a) cty = None then
           (a, register_error a ''Comune non riconosciuto. Selezionalo dalla lista.'' resp)
         else
           let roleVal = (if roleStr = [] then 0 else atoi roleStr);
               rl = (if roleVal = 2 then ROLE_ADMIN else if roleVal = 1 then ROLE_OPERATOR else ROLE_CITIZEN)
           in if rl = ROLE_ADMIN then
                (case user_register_admin (en_db env 0) (en_db env 1) (en_salt env) (en_rand env) name password cty (a_db a) of
                   (rc, db) \<Rightarrow>
                     let a = a\<lparr>a_db := db\<rparr>
                     in if rc = -2 then (a, register_error a msg_admin_exists resp)
                        else if rc \<noteq> 0 then (a, register_error a msg_name_taken resp)
                        else (a, redirect resp ''/'' None))
              else
                (case user_register (en_db env 0) (en_salt env) (en_rand env) name password cty rl (a_db a) of
                   (ok, db) \<Rightarrow>
                     let a = a\<lparr>a_db := db\<rparr>
                     in if \<not> ok then (a, register_error a msg_name_taken resp)
                        else (a, redirect resp ''/'' None)))"

definition route_post_submit :: handler where
  "route_post_submit env req a resp =
     (case get_session_user env req a of
        (None, a) \<Rightarrow> (a, redirect resp ''/'' None)
      | (Some u, a) \<Rightarrow>
          if user_is_operator (Some u) \<or> user_is_admin (Some u) then (a, redirect resp ''/home'' None)
          else
            let cat = get_field (hr_body req) ''category='' CAT_LEN;
                desc = get_field (hr_body req) ''description='' DESC_LEN;
                latS = get_field (hr_body req) ''lat='' COORDINATE_STR_LEN;
                lonS = get_field (hr_body req) ''lon='' COORDINATE_STR_LEN;
                la = (if latS = [] then 0 else en_atof env latS);
                lo = (if lonS = [] then 0 else en_atof env lonS)
            in if desc = [] then (a, submit_error env a u msg_no_description resp)
               else if (case geo_lookup (a_cities a) (city u) of
                          None \<Rightarrow> False | Some g \<Rightarrow> \<not> geo_contains (en_floats env) g la lo) then
                 (a, submit_error env a u msg_outside resp)
               else
                 (case report_insert (en_db env 0) (en_time env 1) (userId u) la lo (city u)
                         (if cat = [] then ''Altro'' else cat) desc (a_db a, a_cache a) of
                    (rid, db, g) \<Rightarrow>
                      let a = a\<lparr>a_db := db, a_cache := g\<rparr>
                      in if rid = 0 then (a, submit_error env a u ''Errore interno. Riprova.'' resp)
                         else (a, redirect resp ''/home'' None)))"

text \<open>A text served as it was loaded, or 404.\<close>

definition route_static_css :: handler where
  "route_static_css env req a resp =
     (case tpl_get (a_pool a) TPL_CSS of
        None \<Rightarrow> (a, resp_html_error resp 404 ''CSS not found'')
      | Some t \<Rightarrow> (a, (render_body t [] resp)\<lparr>contentType := Some ''text/css; charset=utf-8''\<rparr>))"

definition route_static_docs :: handler where
  "route_static_docs env req a resp =
     (case tpl_get (a_pool a) TPL_DOCS of
        None \<Rightarrow> (a, resp_html_error resp 404 ''docs not found'')
      | Some t \<Rightarrow> (a, (render_body t [] resp)\<lparr>contentType := Some ''text/html; charset=utf-8''\<rparr>))"

section \<open>The JSON interface\<close>

definition route_api_cities :: handler where
  "route_api_cities env req a resp =
     (case tpl_get (a_pool a) CITIES_JSON_PATH of
        None \<Rightarrow> (a, resp_json_error resp 404 ''cities not found'')
      | Some t \<Rightarrow> (a, (render_body t [] resp)\<lparr>contentType := Some ''application/json''\<rparr>))"

definition route_api_reports_active :: handler where
  "route_api_reports_active env req a resp =
     (case get_session_user env req a of
        (None, a) \<Rightarrow> (a, resp_json_error resp 401 ''unauthorized'')
      | (Some u, a) \<Rightarrow>
          (case report_get_active_json (en_printer env) (en_json env) (en_db env 0) (en_time env 1) RESPONSE_BUFFER_SIZE
                  (userId u) (city u) (user_is_operator (Some u)) (a_db a) (a_cache a) of
             (n, s, g) \<Rightarrow> (a\<lparr>a_cache := g\<rparr>, resp\<lparr>body := s, bodyLen := n, statusCode := 200\<rparr>)))"

definition route_api_reports_archived :: handler where
  "route_api_reports_archived env req a resp =
     (case get_session_user env req a of
        (None, a) \<Rightarrow> (a, resp_json_error resp 401 ''unauthorized'')
      | (Some u, a) \<Rightarrow>
          (case report_get_archived_json (en_printer env) (en_json env) (en_db env 0) (en_time env 1) RESPONSE_BUFFER_SIZE
                  (userId u) (city u) (user_is_operator (Some u)) (a_db a) (a_cache a) of
             (n, s, g) \<Rightarrow> (a\<lparr>a_cache := g\<rparr>, resp\<lparr>body := s, bodyLen := n, statusCode := 200\<rparr>)))"

text \<open>The last lines of the four handlers that update a report.\<close>

definition finish_update :: "int \<Rightarrow> int \<Rightarrow> bytes \<Rightarrow> http_response \<Rightarrow> http_response" where
  "finish_update rc zero_status zero_msg resp =
     (if rc = 0 then resp_json_error resp zero_status zero_msg
      else if rc < 0 then resp_json_error resp 500 ''db error''
      else json_ok resp)"

definition route_api_report_status :: handler where
  "route_api_report_status env req a resp =
     (case get_session_user env req a of
        (who, a) \<Rightarrow>
          if who = None \<or> \<not> user_is_operator who then (a, resp_json_error resp 403 ''forbidden'')
          else
            let u = the who;
                ids = get_field (hr_body req) ''report_id='' REPORT_ID_PARAM_LEN;
                st = get_field (hr_body req) ''status='' STATUS_PARAM_LEN
            in if ids = [] \<or> st = [] then (a, resp_json_error resp 400 ''missing params'')
               else
                 (case report_get_by_id (en_db env 0) (strtoull ids) (a_db a) of
                    None \<Rightarrow> (a, resp_json_error resp 404 ''not found'')
                  | Some r \<Rightarrow>
                      if \<not> strn_eq CITY_LEN (report_city r) (city u) then (a, resp_json_error resp 403 ''forbidden'')
                      else if atoi st = sint STATUS_RESOLVED then
                        (case report_resolve (en_db env 1) (en_db env 2) (en_time env 1) (strtoull ids) (userId u)
                                (a_db a, a_cache a) of
                           (rc, db, g) \<Rightarrow>
                             (a\<lparr>a_db := db, a_cache := g\<rparr>, finish_update rc 403 ''not authorized or not in progress'' resp))
                      else (a, resp_json_error resp 400 ''invalid status'')))"

definition route_api_report_respond :: handler where
  "route_api_report_respond env req a resp =
     (case get_session_user env req a of
        (who, a) \<Rightarrow>
          if who = None \<or> \<not> user_is_operator who then (a, resp_json_error resp 403 ''forbidden'')
          else
            let u = the who;
                ids = get_field (hr_body req) ''report_id='' REPORT_ID_PARAM_LEN;
                action = get_field (hr_body req) ''action='' ACTION_PARAM_LEN;
                isAccept = strn_eq 6 action ''accept''
            in if ids = [] \<or> action = [] then (a, resp_json_error resp 400 ''missing params'')
               else if \<not> isAccept \<and> \<not> strn_eq 6 action ''reject'' then
                 (a, resp_json_error resp 400 ''action must be accept or reject'')
               else
                 (case report_get_by_id (en_db env 0) (strtoull ids) (a_db a) of
                    None \<Rightarrow> (a, resp_json_error resp 404 ''not found'')
                  | Some r \<Rightarrow>
                      if \<not> strn_eq CITY_LEN (report_city r) (city u) then (a, resp_json_error resp 403 ''forbidden'')
                      else
                        (case (if isAccept
                               then report_accept (en_db env 1) (en_db env 2) (strtoull ids) (userId u) (a_db a, a_cache a)
                               else report_reject (en_db env 1) (en_db env 2) (strtoull ids) (userId u) (a_db a, a_cache a)) of
                           (rc, db, g) \<Rightarrow>
                             (a\<lparr>a_db := db, a_cache := g\<rparr>, finish_update rc 409 ''not assigned to you or wrong status'' resp))))"

definition route_api_report_feedback :: handler where
  "route_api_report_feedback env req a resp =
     (case get_session_user env req a of
        (who, a) \<Rightarrow>
          if who = None \<or> user_is_operator who \<or> user_is_admin who then (a, resp_json_error resp 403 ''forbidden'')
          else
            let u = the who;
                ids = get_field (hr_body req) ''report_id='' REPORT_ID_PARAM_LEN;
                starsStr = get_field (hr_body req) ''stars='' 4;
                stars = atoi starsStr
            in if ids = [] \<or> starsStr = [] then (a, resp_json_error resp 400 ''missing params'')
               else if stars < 1 \<or> stars > 5 then (a, resp_json_error resp 400 ''stars must be 1-5'')
               else
                 (case report_set_feedback (en_db env 0) (en_db env 1) (strtoull ids) (userId u) stars (a_db a, a_cache a) of
                    (rc, db, g) \<Rightarrow>
                      (a\<lparr>a_db := db, a_cache := g\<rparr>,
                       finish_update rc 409 ''feedback already given or report not resolved'' resp)))"

definition route_api_reports_all :: handler where
  "route_api_reports_all env req a resp =
     (case get_session_user env req a of
        (who, a) \<Rightarrow>
          if who = None \<or> \<not> user_is_admin who then (a, resp_json_error resp 403 ''forbidden'')
          else (case report_get_all_city_json (en_printer env) (en_json env) (en_db env 0) RESPONSE_BUFFER_SIZE
                       (city (the who)) (a_db a) of
                  (n, s) \<Rightarrow> (a, resp\<lparr>body := s, bodyLen := n, statusCode := 200\<rparr>)))"

definition route_api_operators :: handler where
  "route_api_operators env req a resp =
     (case get_session_user env req a of
        (who, a) \<Rightarrow>
          if who = None \<or> \<not> user_is_admin who then (a, resp_json_error resp 403 ''forbidden'')
          else (case user_get_operators_json (en_printer env) (en_db env 0) RESPONSE_BUFFER_SIZE (city (the who)) (a_db a) of
                  (n, s) \<Rightarrow> (a, resp\<lparr>body := s, bodyLen := n, statusCode := 200\<rparr>)))"

text \<open>Assigning with the second attempt: the calls are those after the two lookups.\<close>

definition assign_or_reassign :: "env \<Rightarrow> 64 word \<Rightarrow> 64 word \<Rightarrow> database \<times> cache \<Rightarrow> int \<times> database \<times> cache" where
  "assign_or_reassign env i operatorId st =
     (case report_assign (en_db env 2) (en_db env 3) (en_time env 1) i operatorId st of
        (rc, db, g) \<Rightarrow>
          if rc \<noteq> 0 then (rc, db, g)
          else case report_get_by_id (en_db env 4) i db of
                 None \<Rightarrow> (rc, db, g)
               | Some rr \<Rightarrow>
                   if status rr = STATUS_ASSIGNED then
                     (let (_, db) = db_exec (en_db env 5) (ResetReport (sint i)) db
                      in report_assign (en_db env 6) (en_db env 7) (en_time env 2) i operatorId (db, g))
                   else (rc, db, g))"

definition route_api_admin_assign :: handler where
  "route_api_admin_assign env req a resp =
     (case get_session_user env req a of
        (who, a) \<Rightarrow>
          if who = None \<or> \<not> user_is_admin who then (a, resp_json_error resp 403 ''forbidden'')
          else
            let u = the who;
                ids = get_field (hr_body req) ''report_id='' REPORT_ID_PARAM_LEN;
                ops = get_field (hr_body req) ''operator_id='' OPERATOR_ID_PARAM_LEN
            in if ids = [] \<or> ops = [] then (a, resp_json_error resp 400 ''missing params'')
               else
                 (case report_get_by_id (en_db env 0) (strtoull ids) (a_db a) of
                    None \<Rightarrow> (a, resp_json_error resp 404 ''not found'')
                  | Some r \<Rightarrow>
                      if \<not> strn_eq CITY_LEN (report_city r) (city u) then (a, resp_json_error resp 403 ''forbidden'')
                      else
                        (case user_get_by_id (en_db env 1) (strtoull ops) no_user (a_db a) of
                           (found, opr) \<Rightarrow>
                             if \<not> found \<or> \<not> user_is_operator (Some opr) \<or> \<not> strn_eq CITY_LEN (city opr) (city u) then
                               (a, resp_json_error resp 400 ''invalid operator'')
                             else
                               (case assign_or_reassign env (strtoull ids) (strtoull ops) (a_db a, a_cache a) of
                                  (rc, db, g) \<Rightarrow>
                                    (a\<lparr>a_db := db, a_cache := g\<rparr>,
                                     finish_update rc 409 ''report already in progress or resolved'' resp)))))"

section \<open>Dispatch\<close>

definition routes :: "(bytes \<times> bytes \<times> handler) list" where
  "routes =
     [(''GET'', ''/'', route_get_root),
      (''GET'', ''/home'', route_get_home),
      (''GET'', ''/register'', route_get_register),
      (''GET'', ''/submit'', route_get_submit),
      (''GET'', ''/logout'', route_get_logout),
      (''POST'', ''/login'', route_post_login),
      (''POST'', ''/register'', route_post_register),
      (''POST'', ''/submit'', route_post_submit),
      (''GET'', ''/api/cities'', route_api_cities),
      (''GET'', ''/api/reports/active'', route_api_reports_active),
      (''GET'', ''/api/reports/archived'', route_api_reports_archived),
      (''GET'', ''/api/reports/all'', route_api_reports_all),
      (''GET'', ''/api/operators'', route_api_operators),
      (''POST'', ''/api/report/status'', route_api_report_status),
      (''POST'', ''/api/report/respond'', route_api_report_respond),
      (''POST'', ''/api/report/feedback'', route_api_report_feedback),
      (''POST'', ''/api/admin/assign'', route_api_admin_assign),
      (''GET'', ''/static/common.css'', route_static_css),
      (''GET'', ''/api/docs'', route_static_docs)]"

text \<open>The loop over the table: the handler that is called, or \<open>pathFound\<close>.\<close>

fun route_loop :: "(bytes \<times> bytes \<times> handler) list \<Rightarrow> http_request \<Rightarrow> bool \<Rightarrow> bool + handler" where
  "route_loop [] req pathFound = Inl pathFound"
| "route_loop ((m, p, h) # rs) req pathFound =
     (if \<not> http_is_request_path req p then route_loop rs req pathFound
      else if http_is_request_method req m then Inr h
      else route_loop rs req True)"

definition handle_request :: handler where
  "handle_request env req a resp =
     (case route_loop routes req False of
        Inr h \<Rightarrow> h env req a resp
      | Inl True \<Rightarrow> (a, resp_html_error resp 405 ''405 Method Not Allowed'')
      | Inl False \<Rightarrow>
          (a, print_body resp 404 (''<h1>404 Not Found</h1><p><code>'' @ cstr (take URL_BUFFER_SIZE (hr_path req)) @
                 ''</code> does not exist.</p>'')))"

end
