(* ===== verification/RoutesSpec.thy ===== *)
theory RoutesSpec
  imports Routes
begin

text \<open>
  What the application guarantees: which account may change which row, that every state reached by serving requests
  is consistent, which requests are answered with 404 and 405, and how login, session and logout fit together.
\<close>

section \<open>Who may change what\<close>

definition same_city :: "user \<Rightarrow> report_row \<Rightarrow> bool" where
  "same_city u r \<longleftrightarrow> strn_eq CITY_LEN (report_city (cursor_to_report r)) (city u)"

text \<open>The updates of one report by an account.\<close>

inductive may_update :: "user \<Rightarrow> tables \<Rightarrow> report_row \<Rightarrow> report_row \<Rightarrow> bool" where
  author_rates: "\<lbrakk>role u \<noteq> ROLE_OPERATOR; role u \<noteq> ROLE_ADMIN; rr_author_id r = sint (userId u); rr_status r = 3;
    rr_feedback r = None; 1 \<le> s; s \<le> 5\<rbrakk> \<Longrightarrow> may_update u t r (r\<lparr>rr_feedback := Some s\<rparr>)"
| operator_accepts: "\<lbrakk>role u = ROLE_OPERATOR; same_city u r; rr_assigned_to r = Some (sint (userId u)); rr_status r = 1\<rbrakk> \<Longrightarrow>
    may_update u t r (r\<lparr>rr_status := 2\<rparr>)"
| operator_rejects: "\<lbrakk>role u = ROLE_OPERATOR; same_city u r; rr_assigned_to r = Some (sint (userId u)); rr_status r = 1\<rbrakk> \<Longrightarrow>
    may_update u t r (r\<lparr>rr_status := 0, rr_assigned_to := None, rr_assigned_at := None\<rparr>)"
| operator_resolves: "\<lbrakk>role u = ROLE_OPERATOR; same_city u r; rr_assigned_to r = Some (sint (userId u)); rr_status r = 2\<rbrakk> \<Longrightarrow>
    may_update u t r (r\<lparr>rr_status := 3, rr_resolved_at := Some now\<rparr>)"
| admin_assigns: "\<lbrakk>role u = ROLE_ADMIN; same_city u r; rr_status r \<in> {0, 1}; op \<in> set (t_users t); ur_role op = 1;
    strn_eq CITY_LEN (city (cursor_to_user op)) (city u)\<rbrakk> \<Longrightarrow>
    may_update u t r (r\<lparr>rr_status := 1, rr_assigned_to := Some (ur_id op), rr_assigned_at := Some now\<rparr>)"
| admin_resets: "\<lbrakk>role u = ROLE_ADMIN; same_city u r; rr_status r = 1\<rbrakk> \<Longrightarrow>
    may_update u t r (r\<lparr>rr_status := 0, rr_assigned_to := None, rr_assigned_at := None\<rparr>)"

definition replaced :: "tables \<Rightarrow> report_row \<Rightarrow> report_row \<Rightarrow> tables \<Rightarrow> bool" where
  "replaced t r r' t' \<longleftrightarrow> r \<in> set (t_reports t) \<and> rr_id r' = rr_id r \<and> t_users t' = t_users t \<and>
     t_reports t' = map (\<lambda>x. if rr_id x = rr_id r then r' else x) (t_reports t)"

text \<open>What one request may do to the tables, given whose session it carries.\<close>

inductive allowed :: "user option \<Rightarrow> tables \<Rightarrow> tables \<Rightarrow> bool" where
  unchanged: "\<lbrakk>t_users t' = t_users t; t_reports t' = t_reports t\<rbrakk> \<Longrightarrow> allowed who t t'"
| registers: "\<lbrakk>t_reports t' = t_reports t; t_users t' = t_users t @ [n]; ur_username n \<noteq> [];
    ur_username n \<notin> ur_username ` set (t_users t); ur_role n \<in> {0, 1, 2}; nul_free (ur_city n); ur_city n \<noteq> [];
    length (ur_city n) < CITY_LEN\<rbrakk> \<Longrightarrow> allowed who t t'"
| submits: "\<lbrakk>t_users t' = t_users t; t_reports t' = t_reports t @ [r]; role u \<noteq> ROLE_OPERATOR; role u \<noteq> ROLE_ADMIN;
    rr_author_id r = sint (userId u); rr_city r = cstr (city u); rr_status r = 0; rr_assigned_to r = None;
    rr_description r \<noteq> []\<rbrakk> \<Longrightarrow> allowed (Some u) t t'"
| updates: "\<lbrakk>replaced t r r' t'; may_update u t r r'\<rbrakk> \<Longrightarrow> allowed (Some u) t t'"

lemmas allowed_refl [simp] = allowed.unchanged [OF refl refl]

section \<open>Effects on the tables\<close>

lemma same_id:
  "tables_inv t \<Longrightarrow> r \<in> set (t_reports t) \<Longrightarrow> x \<in> set (t_reports t) \<Longrightarrow> rr_id x = rr_id r \<Longrightarrow> x = r"
  by (meson keys_ok_distinct distinct_map inj_onD tables_inv_def)

lemma update_effect:
  assumes inv: "tables_inv t" and f: "\<And>x. rr_id (f x) = rr_id x"
    and t': "t' = update_reports (\<lambda>x. rr_id x = k \<and> P x) f t"
  shows "t_users t' = t_users t \<and> t_reports t' = t_reports t \<or> (\<exists>r. replaced t r (f r) t' \<and> rr_id r = k \<and> P r)"
proof (cases "\<exists>r\<in>set (t_reports t). rr_id r = k \<and> P r")
  case True
  then obtain r where r: "r \<in> set (t_reports t)" "rr_id r = k" "P r" by blast
  have "t_reports t' = map (\<lambda>x. if rr_id x = rr_id r then f r else x) (t_reports t)"
    using same_id [OF inv r(1)] r(2,3) by (auto simp: t')
  with r f show ?thesis by (auto simp: replaced_def t')
next
  case False
  then have "t_reports t' = t_reports t" by (auto simp: t' intro!: map_idI)
  then show ?thesis by (simp add: t')
qed

lemma guarded_effect:
  assumes g: "guarded_update c1 c2 s i (Some t, ca) = (rc, db, ca')" and inv: "tables_inv t" and ok: "stmt_ok s"
    and s: "exec_stmt s t = Some (update_reports (\<lambda>x. rr_id x = sint i \<and> P x) f t)" and f: "\<And>x. rr_id (f x) = rr_id x"
  obtains t' where "db = Some t'" "tables_inv t'" "t_users t' = t_users t" "t_reports t' = t_reports t"
  | t' r where "db = Some t'" "tables_inv t'" "replaced t r (f r) t'" "rr_id r = sint i" "P r" "rc = 1"
proof -
  let ?t = "update_reports (\<lambda>x. rr_id x = sint i \<and> P x) f t"
  have "db = Some t \<or> db = Some ?t \<and> (rc = 1 \<or> t_changes ?t = 0)"
    using g s by (auto simp: guarded_update_def db_exec_def db_changes_def Let_def split: if_splits)
  moreover have "t_reports ?t = t_reports t" if "t_changes ?t = 0"
    using that by (auto simp: filter_empty_conv intro!: map_idI)
  ultimately show ?thesis
    using that inv exec_stmt_inv [OF inv ok s] update_effect [OF inv f refl, of "sint i" P] by (metis update_reports_simps(1))
qed

lemma get_by_id_effect:
  assumes "report_get_by_id c i (Some t) = Some r"
  obtains row where "row \<in> set (t_reports t)" "rr_id row = sint i" "r = cursor_to_report row"
proof -
  obtain row rest where "take (dc_steps c) (take 1 (filter (\<lambda>x. rr_id x = sint i) (t_reports t))) = row # rest"
    "r = cursor_to_report row"
    using assms by (auto simp: report_get_by_id_def db_cursor_reports_def cursor_first_def
        split: option.splits list.splits if_splits)
  then have "row \<in> set (take (dc_steps c) (take 1 (filter (\<lambda>x. rr_id x = sint i) (t_reports t))))" by simp
  then have "row \<in> set (filter (\<lambda>x. rr_id x = sint i) (t_reports t))" by (meson in_set_takeD)
  with that \<open>r = cursor_to_report row\<close> show ?thesis by auto
qed

lemma user_by_id_effect:
  assumes "user_get_by_id c i out (Some t) = (True, u)"
  obtains row where "row \<in> set (t_users t)" "ur_id row = sint i" "u = cursor_to_user row"
proof -
  obtain row rest where "take (dc_steps c) (filter (\<lambda>x. ur_id x = sint i) (t_users t)) = row # rest"
    "u = cursor_to_user row"
    using assms by (auto simp: user_get_by_id_def db_cursor_users_def cursor_first_def
        split: option.splits list.splits if_splits)
  then have "row \<in> set (take (dc_steps c) (filter (\<lambda>x. ur_id x = sint i) (t_users t)))" by simp
  then have "row \<in> set (filter (\<lambda>x. ur_id x = sint i) (t_users t))" by (meson in_set_takeD)
  with that \<open>u = cursor_to_user row\<close> show ?thesis by auto
qed

lemma get_session_keeps:
  assumes "get_session_user env req a = (who, a1)"
  shows "a_db a1 = a_db a" "a_cache a1 = a_cache a" "a_cities a1 = a_cities a" "a_pool a1 = a_pool a"
  using assms by (auto simp: get_session_user_def Let_def split: if_splits prod.splits)

text \<open>What a handler must do to the tables.\<close>

definition authorised :: "env \<Rightarrow> http_request \<Rightarrow> app \<Rightarrow> app \<Rightarrow> bool" where
  "authorised env req a a' \<longleftrightarrow>
     (\<forall>t. a_db a = Some t \<and> tables_inv t \<longrightarrow>
        (\<exists>t'. a_db a' = Some t' \<and> tables_inv t' \<and> allowed (fst (get_session_user env req a)) t t'))"

lemma authorised_same: "a_db a' = a_db a \<Longrightarrow> authorised env req a a'"
  by (auto simp: authorised_def)

lemmas handler_defs = route_get_root_def route_get_home_def route_get_register_def route_get_submit_def
  route_get_logout_def route_api_cities_def route_api_reports_active_def route_api_reports_archived_def
  route_api_reports_all_def route_api_operators_def route_static_css_def route_static_docs_def route_post_login_def

definition read_handlers :: "handler set" where
  "read_handlers = {route_get_root, route_get_home, route_get_register, route_get_submit, route_get_logout,
     route_api_cities, route_api_reports_active, route_api_reports_archived, route_api_reports_all, route_api_operators,
     route_static_css, route_static_docs, route_post_login}"

lemma read_handlers_keep_db: "h \<in> read_handlers \<Longrightarrow> a_db (fst (h env req a resp)) = a_db a"
  unfolding read_handlers_def
  by (elim insertE emptyE; simp add: handler_defs Let_def split: prod.splits option.splits bool.splits if_splits)
    (auto dest: get_session_keeps)


lemma authorisedI:
  assumes "\<And>t. \<lbrakk>a_db a = Some t; tables_inv t\<rbrakk> \<Longrightarrow>
    \<exists>t'. a_db a' = Some t' \<and> tables_inv t' \<and> allowed (fst (get_session_user env req a)) t t'"
  shows "authorised env req a a'"
  using assms by (auto simp: authorised_def)

lemma field_bounds: "nul_free (get_field b p mx)" "length (get_field b p mx) \<le> mx - 1"
  using url_decode_bounds by (auto simp: get_field_def split: option.splits)

lemma field_cstr [simp]: "cstr (get_field b p mx) = get_field b p mx"
  by (rule cstr_id) (rule field_bounds)

lemma register_effect:
  assumes "user_register c urandom rnd n p cty rl (Some t) = (ok, db)" and "tables_inv t" and "sint rl \<in> {0, 1, 2}"
    and "cstr n \<noteq> []" and "cstr cty \<noteq> []" and "length (cstr cty) < CITY_LEN"
  shows "\<exists>t'. db = Some t' \<and> tables_inv t' \<and> allowed who t t'"
  using assms(1)
proof (cases rule: user_register_cases)
  case failed
  with assms(2) show ?thesis by simp
next
  case (stored i t')
  have "exec_stmt (InsertUser n (hash_password (generate_salt urandom rnd) p) (sint rl) cty (generate_salt urandom rnd)) t = Some t'"
    using stored hash_password_props(1) salt_props by (simp add: cstr_id)
  from exec_stmt_inv [OF assms(2) _ this] assms(3) have "tables_inv t'" by simp
  moreover have "allowed who t t'"
    by (rule allowed.registers) (use stored assms(3-6) in auto)
  ultimately show ?thesis using stored by blast
qed

lemma register_admin_effect:
  assumes "user_register_admin c1 c2 urandom rnd n p cty (Some t) = (rc, db)" and "tables_inv t"
    and "cstr n \<noteq> []" and "cstr cty \<noteq> []" and "length (cstr cty) < CITY_LEN"
  shows "\<exists>t'. db = Some t' \<and> tables_inv t' \<and> allowed who t t'"
proof (cases "db = Some t")
  case True
  with assms(2) show ?thesis by simp
next
  case False
  obtain ok db' where r: "user_register c2 urandom rnd n p cty ROLE_ADMIN (Some t) = (ok, db')" by fastforce
  with assms(1) False have "db = db'" by (auto simp: user_register_admin_def Let_def split: if_splits)
  with register_effect [OF r assms(2) _ assms(3-5)] show ?thesis by (simp add: ROLE_ADMIN_def)
qed

text \<open>The role that is registered, and the database afterwards.\<close>

definition asked_role :: "http_request \<Rightarrow> 32 word" where
  "asked_role req =
     (let s = get_field (hr_body req) ''role='' 4; v = (if s = [] then 0 else atoi s)
      in if v = 2 then ROLE_ADMIN else if v = 1 then ROLE_OPERATOR else ROLE_CITIZEN)"

lemma asked_role_range: "sint (asked_role req) \<in> {0, 1, 2}"
  by (simp add: asked_role_def Let_def ROLE_OPERATOR_def ROLE_CITIZEN_def ROLE_ADMIN_def)

lemma register_db:
  fixes req
  defines "n \<equiv> get_field (hr_body req) ''username='' USERNAME_LEN" and "p \<equiv> get_field (hr_body req) ''password='' PWD_PLAIN_LEN"
    and "c \<equiv> get_field (hr_body req) ''city='' CITY_LEN"
  shows "a_db (fst (route_post_register env req a resp)) =
    (if n = [] \<or> p = [] \<or> c = [] \<or> length p < 6 \<or> geo_lookup (a_cities a) c = None then a_db a
     else if asked_role req = ROLE_ADMIN
     then snd (user_register_admin (en_db env 0) (en_db env 1) (en_salt env) (en_rand env) n p c (a_db a))
     else snd (user_register (en_db env 0) (en_salt env) (en_rand env) n p c (asked_role req) (a_db a)))"
  unfolding route_post_register_def Let_def n_def [symmetric] p_def [symmetric] c_def [symmetric]
    asked_role_def [unfolded Let_def, symmetric]
  by (auto split: prod.split)

lemma authorised_register: "authorised env req a (fst (route_post_register env req a resp))"
proof (rule authorisedI)
  fix t assume t: "a_db a = Some t" "tables_inv t"
  let ?n = "get_field (hr_body req) ''username='' USERNAME_LEN" and ?p = "get_field (hr_body req) ''password='' PWD_PLAIN_LEN"
    and ?c = "get_field (hr_body req) ''city='' CITY_LEN" and ?who = "fst (get_session_user env req a)"
  have "length ?c \<le> CITY_LEN - 1" by (rule field_bounds)
  then have len: "length (cstr ?c) < CITY_LEN" by (simp add: CITY_LEN_def)
  show "\<exists>t'. a_db (fst (route_post_register env req a resp)) = Some t' \<and> tables_inv t' \<and> allowed ?who t t'"
  proof (cases "?n = [] \<or> ?p = [] \<or> ?c = [] \<or> length ?p < 6 \<or> geo_lookup (a_cities a) ?c = None")
    case True
    with t show ?thesis by (simp only: register_db if_True) simp
  next
    case False
    then have ne: "cstr ?n \<noteq> []" "cstr ?c \<noteq> []" by simp_all
    show ?thesis
    proof (cases "asked_role req = ROLE_ADMIN")
      case True
      from register_admin_effect [OF prod.collapse [symmetric] t(2) ne len] show ?thesis
        unfolding register_db t(1) if_P [OF True] if_not_P [OF False] .
    next
      case other: False
      from register_effect [OF prod.collapse [symmetric] t(2) asked_role_range ne len] show ?thesis
        unfolding register_db t(1) if_not_P [OF other] if_not_P [OF False] .
    qed
  qed
qed

lemma insert_effect:
  assumes r: "report_insert c now (userId u) la lo (city u) cat desc (Some t, g) = (rid, db, g')" and inv: "tables_inv t"
    and u: "role u \<noteq> ROLE_OPERATOR" "role u \<noteq> ROLE_ADMIN" and d: "cstr desc \<noteq> []"
  shows "\<exists>t'. db = Some t' \<and> tables_inv t' \<and> allowed (Some u) t t'"
proof -
  let ?s = "InsertReport (sint (userId u)) la lo (city u) cat desc now"
  consider "db = Some t" | t' where "db = Some t'" "exec_stmt ?s t = Some t'"
    using r by (auto simp: report_insert_def db_exec_def Let_def split: if_splits option.splits)
  then show ?thesis
  proof cases
    case 1
    with inv show ?thesis by simp
  next
    case (2 t')
    from exec_stmt_inv [OF inv _ 2(2)] have "tables_inv t'" by simp
    moreover obtain i where i: "next_rowid (t_report_seq t) = Some i" using 2(2) by (auto split: option.splits)
    have "allowed (Some u) t t'"
      by (rule allowed.submits) (use 2(2) i u d in auto)
    ultimately show ?thesis using 2(1) by blast
  qed
qed

lemma authorised_submit: "authorised env req a (fst (route_post_submit env req a resp))"
proof (rule authorisedI)
  fix t assume t: "a_db a = Some t" "tables_inv t"
  obtain who a1 where g: "get_session_user env req a = (who, a1)" by fastforce
  note k = get_session_keeps [OF g]
  show "\<exists>t'. a_db (fst (route_post_submit env req a resp)) = Some t' \<and> tables_inv t' \<and>
      allowed (fst (get_session_user env req a)) t t'"
  proof (cases "a_db (fst (route_post_submit env req a resp)) = a_db a")
    case True
    with t show ?thesis by simp
  next
    case False
    then obtain u where u: "who = Some u" "role u \<noteq> ROLE_OPERATOR" "role u \<noteq> ROLE_ADMIN"
      using g k by (auto simp: route_post_submit_def user_is_operator_def user_is_admin_def split: option.splits if_splits)
    then obtain c now la lo cat rid g' where
      "report_insert c now (userId u) la lo (city u) cat (get_field (hr_body req) ''description='' DESC_LEN) (Some t, a_cache a)
         = (rid, a_db (fst (route_post_submit env req a resp)), g')"
      "get_field (hr_body req) ''description='' DESC_LEN \<noteq> []"
      using g k t(1) False
      by (simp add: route_post_submit_def user_is_operator_def user_is_admin_def Let_def case_prod_beta split: if_splits)
        (metis prod.collapse)+
    from insert_effect [OF this(1) t(2) u(2,3)] this(2) g u(1) show ?thesis by simp
  qed
qed

text \<open>The three ways an operator moves a report, and the rating by its author.\<close>

lemma operator_update_effect:
  assumes g: "guarded_update c1 c2 s i (Some t, ca) = (rc, db, ca')" and inv: "tables_inv t" and ok: "stmt_ok s"
    and s: "exec_stmt s t = Some (update_reports (\<lambda>x. rr_id x = sint i \<and> P x) f t)" and f: "\<And>x. rr_id (f x) = rr_id x"
    and may: "\<And>r. r \<in> set (t_reports t) \<Longrightarrow> rr_id r = sint i \<Longrightarrow> P r \<Longrightarrow> may_update u t r (f r)"
  shows "\<exists>t'. db = Some t' \<and> tables_inv t' \<and> allowed (Some u) t t'"
proof (rule guarded_effect [OF g inv ok s f])
  fix t' assume "db = Some t'" "tables_inv t'" "t_users t' = t_users t" "t_reports t' = t_reports t"
  then show ?thesis using allowed.unchanged by blast
next
  fix t' r assume r: "db = Some t'" "tables_inv t'" "replaced t r (f r) t'" "rr_id r = sint i" "P r"
  then have "r \<in> set (t_reports t)" by (simp add: replaced_def)
  from allowed.updates [OF r(3) may [OF this r(4,5)]] r(1,2) show ?thesis by blast
qed

lemma feedback_effect:
  assumes r: "report_set_feedback c1 c2 i (userId u) stars (Some t, ca) = (rc, db, ca')" and inv: "tables_inv t"
    and u: "role u \<noteq> ROLE_OPERATOR" "role u \<noteq> ROLE_ADMIN"
  shows "\<exists>t'. db = Some t' \<and> tables_inv t' \<and> allowed (Some u) t t'"
proof (cases "stars < 1 \<or> stars > 5")
  case True
  with r inv show ?thesis by (auto simp: report_set_feedback_def)
next
  case False
  with r have "guarded_update c1 c2 (FeedbackReport stars (sint i) (sint (userId u))) i (Some t, ca) = (rc, db, ca')"
    by (simp add: report_set_feedback_def)
  then show ?thesis
    by (rule operator_update_effect [where P = "\<lambda>x. rr_author_id x = sint (userId u) \<and> rr_status x = 3 \<and> rr_feedback x = None"
      and f = "\<lambda>x. x\<lparr>rr_feedback := Some stars\<rparr>"]) (use inv False u in \<open>auto intro: author_rates\<close>)
qed

lemma operator_effect:
  assumes u: "role u = ROLE_OPERATOR" and inv: "tables_inv t" and row: "row \<in> set (t_reports t)" "rr_id row = sint i"
    "same_city u row"
  shows "report_accept c1 c2 i (userId u) (Some t, ca) = (rc, db, ca') \<Longrightarrow>
      \<exists>t'. db = Some t' \<and> tables_inv t' \<and> allowed (Some u) t t'"
    and "report_reject c1 c2 i (userId u) (Some t, ca) = (rc, db, ca') \<Longrightarrow>
      \<exists>t'. db = Some t' \<and> tables_inv t' \<and> allowed (Some u) t t'"
    and "report_resolve c1 c2 now i (userId u) (Some t, ca) = (rc, db, ca') \<Longrightarrow>
      \<exists>t'. db = Some t' \<and> tables_inv t' \<and> allowed (Some u) t t'"
proof -
  have this_row: "r = row" if "r \<in> set (t_reports t)" "rr_id r = sint i" for r
    using same_id [OF inv row(1) that(1)] that(2) row(2) by simp
  show "\<exists>t'. db = Some t' \<and> tables_inv t' \<and> allowed (Some u) t t'"
    if "report_accept c1 c2 i (userId u) (Some t, ca) = (rc, db, ca')"
    using that unfolding report_accept_def
    by (rule operator_update_effect [where P = "\<lambda>x. rr_assigned_to x = Some (sint (userId u)) \<and> rr_status x = 1"
      and f = "\<lambda>x. x\<lparr>rr_status := 2\<rparr>"]) (simp_all add: inv, frule (1) this_row, simp add: operator_accepts [OF u row(3)])
  show "\<exists>t'. db = Some t' \<and> tables_inv t' \<and> allowed (Some u) t t'"
    if "report_reject c1 c2 i (userId u) (Some t, ca) = (rc, db, ca')"
    using that unfolding report_reject_def
    by (rule operator_update_effect [where P = "\<lambda>x. rr_assigned_to x = Some (sint (userId u)) \<and> rr_status x = 1"
      and f = "\<lambda>x. x\<lparr>rr_status := 0, rr_assigned_to := None, rr_assigned_at := None\<rparr>"])
      (simp_all add: inv, frule (1) this_row, simp add: operator_rejects [OF u row(3)])
  show "\<exists>t'. db = Some t' \<and> tables_inv t' \<and> allowed (Some u) t t'"
    if "report_resolve c1 c2 now i (userId u) (Some t, ca) = (rc, db, ca')"
    using that unfolding report_resolve_def
    by (rule operator_update_effect [where P = "\<lambda>x. rr_assigned_to x = Some (sint (userId u)) \<and> rr_status x = 2"
      and f = "\<lambda>x. x\<lparr>rr_status := 3, rr_resolved_at := Some now\<rparr>"])
      (simp_all add: inv, frule (1) this_row, simp add: operator_resolves [OF u row(3)])
qed

text \<open>Assigning: at most one reset and one assignment of the same row.\<close>

lemma replaced_trans: "replaced t r r1 t1 \<Longrightarrow> replaced t1 r1 r2 t2 \<Longrightarrow> replaced t r r2 t2"
  by (auto simp: replaced_def)

lemma assign_effect:
  assumes "report_assign c1 c2 now i operatorId (Some t, ca) = (rc, db, ca')" and "tables_inv t"
  obtains t' where "db = Some t'" "tables_inv t'" "t_users t' = t_users t" "t_reports t' = t_reports t"
  | t' r where "rc = 1" "db = Some t'" "tables_inv t'" "rr_id r = sint i" "rr_status r = 0"
      "replaced t r (r\<lparr>rr_status := 1, rr_assigned_to := Some (sint operatorId), rr_assigned_at := Some now\<rparr>) t'"
  using assms(1) unfolding report_assign_def
  by (rule guarded_effect [where P = "\<lambda>x. rr_status x = 0 \<and> rr_assigned_to x = None"
    and f = "\<lambda>x. x\<lparr>rr_status := 1, rr_assigned_to := Some (sint operatorId), rr_assigned_at := Some now\<rparr>"])
    (use assms(2) that in auto)

lemma reset_effect:
  assumes "db_exec c (ResetReport (sint i)) (Some t) = (ok, db)" and inv: "tables_inv t"
  obtains t' where "db = Some t'" "tables_inv t'" "t_users t' = t_users t" "t_reports t' = t_reports t"
  | t' r where "db = Some t'" "tables_inv t'" "rr_id r = sint i" "rr_status r = 1"
      "replaced t r (r\<lparr>rr_status := 0, rr_assigned_to := None, rr_assigned_at := None\<rparr>) t'"
proof -
  let ?t = "update_reports (\<lambda>x. rr_id x = sint i \<and> rr_status x = 1)
    (\<lambda>x. x\<lparr>rr_status := 0, rr_assigned_to := None, rr_assigned_at := None\<rparr>) t"
  have "tables_inv ?t" by (rule exec_stmt_inv [OF inv, of "ResetReport (sint i)"]) simp_all
  moreover have "db = Some t \<or> db = Some ?t" using assms(1) by (auto simp: db_exec_def split: if_splits)
  ultimately show ?thesis
    using that inv update_effect [OF inv, of "\<lambda>x. x\<lparr>rr_status := 0, rr_assigned_to := None, rr_assigned_at := None\<rparr>" ?t
        "sint i" "\<lambda>x. rr_status x = 1"] by auto
qed

definition assigned_row :: "int \<Rightarrow> int \<Rightarrow> report_row \<Rightarrow> report_row" where
  "assigned_row op now r = r\<lparr>rr_status := 1, rr_assigned_to := Some op, rr_assigned_at := Some now\<rparr>"

definition reset_row :: "report_row \<Rightarrow> report_row" where
  "reset_row r = r\<lparr>rr_status := 0, rr_assigned_to := None, rr_assigned_at := None\<rparr>"

lemma reassign_rows [simp]:
  "assigned_row op now (reset_row r) = assigned_row op now r" "rr_id (assigned_row op now r) = rr_id r"
  "rr_id (reset_row r) = rr_id r" "rr_status (reset_row r) = 0"
  by (simp_all add: assigned_row_def reset_row_def)

definition reassigned :: "int \<Rightarrow> int \<Rightarrow> tables \<Rightarrow> tables \<Rightarrow> bool" where
  "reassigned i op t t' \<longleftrightarrow>
     t_users t' = t_users t \<and> t_reports t' = t_reports t \<or>
     (\<exists>r now. rr_id r = i \<and> rr_status r \<in> {0, 1} \<and> replaced t r (assigned_row op now r) t') \<or>
     (\<exists>r. rr_id r = i \<and> rr_status r = 1 \<and> replaced t r (reset_row r) t')"

lemma assign_reassigned:
  assumes "report_assign c1 c2 now i operatorId (Some t, ca) = (rc, db, ca')" and "tables_inv t"
  shows "\<exists>t'. db = Some t' \<and> tables_inv t' \<and> reassigned (sint i) (sint operatorId) t t' \<and>
    (rc \<noteq> 1 \<longrightarrow> t_users t' = t_users t \<and> t_reports t' = t_reports t)"
proof (rule assign_effect [OF assms])
  fix t' assume "db = Some t'" "tables_inv t'" "t_users t' = t_users t" "t_reports t' = t_reports t"
  then show ?thesis by (auto simp: reassigned_def)
next
  fix t' r assume "rc = 1" "db = Some t'" "tables_inv t'" "rr_id r = sint i" "rr_status r = 0"
    "replaced t r (r\<lparr>rr_status := 1, rr_assigned_to := Some (sint operatorId), rr_assigned_at := Some now\<rparr>) t'"
  then show ?thesis by (auto simp: reassigned_def assigned_row_def)
qed

lemma reset_then_assign:
  assumes "replaced t r (reset_row r) t1" and "rr_id r = i" and "rr_status r = 1" and inv: "tables_inv t1"
    and "reassigned i op t1 t2"
  shows "reassigned i op t t2"
proof -
  have same: "x = reset_row r" if "x \<in> set (t_reports t1)" "rr_id x = i" for x
  proof (rule same_id [OF inv _ that(1)])
    show "reset_row r \<in> set (t_reports t1)" using assms(1) by (force simp: replaced_def)
    show "rr_id x = rr_id (reset_row r)" using that(2) assms(2) by simp
  qed
  from assms(5) show ?thesis unfolding reassigned_def
  proof (elim disjE exE conjE)
    assume "t_users t2 = t_users t1" "t_reports t2 = t_reports t1"
    with assms(1) have "replaced t r (reset_row r) t2" by (simp add: replaced_def)
    with assms(2,3) show "t_users t2 = t_users t \<and> t_reports t2 = t_reports t \<or>
        (\<exists>r now. rr_id r = i \<and> rr_status r \<in> {0, 1} \<and> replaced t r (assigned_row op now r) t2) \<or>
        (\<exists>r. rr_id r = i \<and> rr_status r = 1 \<and> replaced t r (reset_row r) t2)" by blast
  next
    fix x now assume x: "rr_id x = i" "replaced t1 x (assigned_row op now x) t2"
    then have "x = reset_row r" using same by (simp add: replaced_def)
    with x(2) have "replaced t1 (reset_row r) (assigned_row op now r) t2" by simp
    from replaced_trans [OF assms(1) this] assms(2,3) show "t_users t2 = t_users t \<and> t_reports t2 = t_reports t \<or>
        (\<exists>r now. rr_id r = i \<and> rr_status r \<in> {0, 1} \<and> replaced t r (assigned_row op now r) t2) \<or>
        (\<exists>r. rr_id r = i \<and> rr_status r = 1 \<and> replaced t r (reset_row r) t2)" by blast
  next
    fix x assume x: "rr_id x = i" "rr_status x = 1" "replaced t1 x (reset_row x) t2"
    then have "x = reset_row r" using same by (simp add: replaced_def)
    with x(2) show "t_users t2 = t_users t \<and> t_reports t2 = t_reports t \<or>
        (\<exists>r now. rr_id r = i \<and> rr_status r \<in> {0, 1} \<and> replaced t r (assigned_row op now r) t2) \<or>
        (\<exists>r. rr_id r = i \<and> rr_status r = 1 \<and> replaced t r (reset_row r) t2)" by simp
  qed
qed

lemma reassigned_unchanged:
  "t_users t1 = t_users t \<Longrightarrow> t_reports t1 = t_reports t \<Longrightarrow> reassigned i op t1 t2 = reassigned i op t t2"
  by (simp add: reassigned_def replaced_def)

lemma assign_or_reassign_effect:
  assumes r: "assign_or_reassign env i operatorId (Some t, ca) = (rc, db, ca')" and inv: "tables_inv t"
  shows "\<exists>t'. db = Some t' \<and> tables_inv t' \<and> reassigned (sint i) (sint operatorId) t t'"
proof -
  obtain rc1 db1 g1 where a: "report_assign (en_db env 2) (en_db env 3) (en_time env 1) i operatorId (Some t, ca) = (rc1, db1, g1)"
    by (rule prod_cases3)
  from assign_reassigned [OF a inv] obtain t1 where t1: "db1 = Some t1" "tables_inv t1" "reassigned (sint i) (sint operatorId) t t1"
    "rc1 \<noteq> 1 \<longrightarrow> t_users t1 = t_users t \<and> t_reports t1 = t_reports t" by blast
  obtain ok db2 where x: "db_exec (en_db env 5) (ResetReport (sint i)) (Some t1) = (ok, db2)" by fastforce
  consider (first) "db = Some t1" | (second) "rc1 = 0"
      "report_assign (en_db env 6) (en_db env 7) (en_time env 2) i operatorId (db2, g1) = (rc, db, ca')"
    using r a x t1(1) by (auto simp: assign_or_reassign_def split: if_splits option.splits)
  then show ?thesis
  proof cases
    case first
    with t1 show ?thesis by blast
  next
    case second
    then have same: "t_users t1 = t_users t" "t_reports t1 = t_reports t" using t1(4) by simp_all
    show ?thesis
    proof (rule reset_effect [OF x t1(2)])
      fix t2 assume t2: "db2 = Some t2" "tables_inv t2" "t_users t2 = t_users t1" "t_reports t2 = t_reports t1"
      from assign_reassigned [OF second(2) [unfolded t2(1)] t2(2)] same t2(3,4) show ?thesis
        using reassigned_unchanged [of t2 t] by auto
    next
      fix t2 r assume t2: "db2 = Some t2" "tables_inv t2" "rr_id r = sint i" "rr_status r = 1"
        "replaced t1 r (r\<lparr>rr_status := 0, rr_assigned_to := None, rr_assigned_at := None\<rparr>) t2"
      from assign_reassigned [OF second(2) [unfolded t2(1)] t2(2)] obtain t3 where
        t3: "db = Some t3" "tables_inv t3" "reassigned (sint i) (sint operatorId) t2 t3" by blast
      from reset_then_assign [OF t2(5) [folded reset_row_def] t2(3,4,2) t3(3)] t3(1,2) show ?thesis
        using reassigned_unchanged [OF same] by auto
    qed
  qed
qed

lemma admin_effect:
  assumes r: "assign_or_reassign env i operatorId (Some t, ca) = (rc, db, ca')" and inv: "tables_inv t"
    and u: "role u = ROLE_ADMIN" and row: "row \<in> set (t_reports t)" "rr_id row = sint i" "same_city u row"
    and op: "op \<in> set (t_users t)" "ur_id op = sint operatorId" "role (cursor_to_user op) = ROLE_OPERATOR"
      "strn_eq CITY_LEN (city (cursor_to_user op)) (city u)"
  shows "\<exists>t'. db = Some t' \<and> tables_inv t' \<and> allowed (Some u) t t'"
proof -
  obtain t' where t': "db = Some t'" "tables_inv t'" "reassigned (sint i) (sint operatorId) t t'"
    using assign_or_reassign_effect [OF r inv] by blast
  have "ur_role op \<in> {0, 1, 2}" using inv op(1) by (simp add: tables_inv_def)
  with op(3) have role: "ur_role op = 1" by (auto simp: cursor_to_user_def ROLE_OPERATOR_def)
  have this_row: "x = row" if "replaced t x y t'" "rr_id x = sint i" for x y
    using same_id [OF inv row(1), of x] that row(2) by (simp add: replaced_def)
  from t'(3) have "allowed (Some u) t t'"
    unfolding reassigned_def
  proof (elim disjE exE conjE)
    assume "t_users t' = t_users t" "t_reports t' = t_reports t"
    then show ?thesis by (rule allowed.unchanged)
  next
    fix x now assume x: "rr_id x = sint i" "rr_status x \<in> {0, 1}" "replaced t x (assigned_row (sint operatorId) now x) t'"
    have "may_update u t x (assigned_row (sint operatorId) now x)"
      using admin_assigns [OF u row(3) _ op(1) role op(4)] this_row [OF x(3,1)] x(2) op(2) by (simp add: assigned_row_def)
    with x(3) show ?thesis by (rule allowed.updates)
  next
    fix x assume x: "rr_id x = sint i" "rr_status x = 1" "replaced t x (reset_row x) t'"
    have "may_update u t x (reset_row x)"
      using admin_resets [OF u row(3)] this_row [OF x(3,1)] x(2) by (simp add: reset_row_def)
    with x(3) show ?thesis by (rule allowed.updates)
  qed
  with t' show ?thesis by blast
qed

text \<open>Each of the four handlers either leaves the database alone or ends in one of the operations above, after its
  checks.\<close>

lemma authorised_feedback: "authorised env req a (fst (route_api_report_feedback env req a resp))"
proof (rule authorisedI)
  fix t assume t: "a_db a = Some t" "tables_inv t"
  obtain who a1 where g: "get_session_user env req a = (who, a1)" by fastforce
  note k = get_session_keeps [OF g]
  let ?db = "a_db (fst (route_api_report_feedback env req a resp))"
  show "\<exists>t'. ?db = Some t' \<and> tables_inv t' \<and> allowed (fst (get_session_user env req a)) t t'"
  proof (cases "?db = a_db a")
    case True
    with t show ?thesis by simp
  next
    case False
    let ?r = "\<lambda>u. report_set_feedback (en_db env 0) (en_db env 1) (strtoull (get_field (hr_body req) ''report_id='' REPORT_ID_PARAM_LEN))
        (userId u) (atoi (get_field (hr_body req) ''stars='' 4)) (Some t, a_cache a)"
    obtain u where u: "who = Some u" "role u \<noteq> ROLE_OPERATOR" "role u \<noteq> ROLE_ADMIN" "?db = fst (snd (?r u))"
      using g k t(1) False
      by (auto simp: route_api_report_feedback_def user_is_operator_def user_is_admin_def Let_def split: option.splits if_splits prod.splits)
    obtain rc db g' where "?r u = (rc, db, g')" by (rule prod_cases3)
    with feedback_effect [OF this t(2) u(2,3)] u(1,4) g show ?thesis by simp
  qed
qed

lemma authorised_status: "authorised env req a (fst (route_api_report_status env req a resp))"
proof (rule authorisedI)
  fix t assume t: "a_db a = Some t" "tables_inv t"
  obtain who a1 where g: "get_session_user env req a = (who, a1)" by fastforce
  note k = get_session_keeps [OF g]
  let ?db = "a_db (fst (route_api_report_status env req a resp))"
  let ?i = "strtoull (get_field (hr_body req) ''report_id='' REPORT_ID_PARAM_LEN)"
  show "\<exists>t'. ?db = Some t' \<and> tables_inv t' \<and> allowed (fst (get_session_user env req a)) t t'"
  proof (cases "?db = a_db a")
    case True
    with t show ?thesis by simp
  next
    case False
    let ?r = "\<lambda>u. report_resolve (en_db env 1) (en_db env 2) (en_time env 1) ?i (userId u) (Some t, a_cache a)"
    obtain u r where u: "who = Some u" "role u = ROLE_OPERATOR" "?db = fst (snd (?r u))"
      and row: "report_get_by_id (en_db env 0) ?i (Some t) = Some r" "strn_eq CITY_LEN (report_city r) (city u)"
      using g k t(1) False
      by (auto simp: route_api_report_status_def user_is_operator_def Let_def split: option.splits if_splits prod.splits)
    from get_by_id_effect [OF row(1)] obtain x where x: "x \<in> set (t_reports t)" "rr_id x = sint ?i" "r = cursor_to_report x" .
    with row(2) have sc: "same_city u x" by (simp add: same_city_def)
    obtain rc db g' where "?r u = (rc, db, g')" by (rule prod_cases3)
    with operator_effect(3) [OF u(2) t(2) x(1,2) sc this] u(1,3) g show ?thesis by simp
  qed
qed

lemma authorised_respond: "authorised env req a (fst (route_api_report_respond env req a resp))"
proof (rule authorisedI)
  fix t assume t: "a_db a = Some t" "tables_inv t"
  obtain who a1 where g: "get_session_user env req a = (who, a1)" by fastforce
  note k = get_session_keeps [OF g]
  let ?db = "a_db (fst (route_api_report_respond env req a resp))"
  let ?i = "strtoull (get_field (hr_body req) ''report_id='' REPORT_ID_PARAM_LEN)"
  show "\<exists>t'. ?db = Some t' \<and> tables_inv t' \<and> allowed (fst (get_session_user env req a)) t t'"
  proof (cases "?db = a_db a")
    case True
    with t show ?thesis by simp
  next
    case False
    let ?acc = "\<lambda>u. report_accept (en_db env 1) (en_db env 2) ?i (userId u) (Some t, a_cache a)"
    let ?rej = "\<lambda>u. report_reject (en_db env 1) (en_db env 2) ?i (userId u) (Some t, a_cache a)"
    obtain u r where u: "who = Some u" "role u = ROLE_OPERATOR" "?db = fst (snd (?acc u)) \<or> ?db = fst (snd (?rej u))"
      and row: "report_get_by_id (en_db env 0) ?i (Some t) = Some r" "strn_eq CITY_LEN (report_city r) (city u)"
      using g k t(1) False
      by (auto simp: route_api_report_respond_def user_is_operator_def Let_def split: option.splits if_splits prod.splits)
    from get_by_id_effect [OF row(1)] obtain x where x: "x \<in> set (t_reports t)" "rr_id x = sint ?i" "r = cursor_to_report x" .
    with row(2) have sc: "same_city u x" by (simp add: same_city_def)
    obtain rc db g' rc2 db2 g2 where "?acc u = (rc, db, g')" "?rej u = (rc2, db2, g2)" by (metis prod_cases3)
    with operator_effect(1) [OF u(2) t(2) x(1,2) sc this(1)] operator_effect(2) [OF u(2) t(2) x(1,2) sc this(2)] u(1,3) g
    show ?thesis by auto
  qed
qed

lemma authorised_assign: "authorised env req a (fst (route_api_admin_assign env req a resp))"
proof (rule authorisedI)
  fix t assume t: "a_db a = Some t" "tables_inv t"
  obtain who a1 where g: "get_session_user env req a = (who, a1)" by fastforce
  note k = get_session_keeps [OF g]
  let ?db = "a_db (fst (route_api_admin_assign env req a resp))"
  let ?i = "strtoull (get_field (hr_body req) ''report_id='' REPORT_ID_PARAM_LEN)"
    and ?o = "strtoull (get_field (hr_body req) ''operator_id='' OPERATOR_ID_PARAM_LEN)"
  show "\<exists>t'. ?db = Some t' \<and> tables_inv t' \<and> allowed (fst (get_session_user env req a)) t t'"
  proof (cases "?db = a_db a")
    case True
    with t show ?thesis by simp
  next
    case False
    let ?r = "assign_or_reassign env ?i ?o (Some t, a_cache a)"
    obtain u r opr where u: "who = Some u" "role u = ROLE_ADMIN" "?db = fst (snd ?r)"
      and row: "report_get_by_id (en_db env 0) ?i (Some t) = Some r" "strn_eq CITY_LEN (report_city r) (city u)"
      and op: "user_get_by_id (en_db env 1) ?o no_user (Some t) = (True, opr)" "role opr = ROLE_OPERATOR"
        "strn_eq CITY_LEN (city opr) (city u)"
      using g k t(1) False
      by (auto simp: route_api_admin_assign_def user_is_operator_def user_is_admin_def Let_def
          split: option.splits if_splits prod.splits)
    from get_by_id_effect [OF row(1)] obtain x where x: "x \<in> set (t_reports t)" "rr_id x = sint ?i" "r = cursor_to_report x" .
    with row(2) have sc: "same_city u x" by (simp add: same_city_def)
    from user_by_id_effect [OF op(1)] obtain o' where o': "o' \<in> set (t_users t)" "ur_id o' = sint ?o" "opr = cursor_to_user o'" .
    obtain rc db g' where "?r = (rc, db, g')" by (rule prod_cases3)
    with admin_effect [OF this t(2) u(2) x(1,2) sc o'(1,2) op(2,3) [unfolded o'(3)]] u(1,3) g show ?thesis by simp
  qed
qed

section \<open>Dispatch\<close>

lemma route_loop_Inr: "route_loop rs req b = Inr h \<Longrightarrow> \<exists>m p. (m, p, h) \<in> set rs \<and> hr_method req = m \<and> hr_path req = p"
  by (induction rs req b rule: route_loop.induct)
    (auto simp: http_is_request_path_def http_is_request_method_def split: if_splits)

lemma route_loop_Inl:
  "route_loop rs req b = Inl f \<longleftrightarrow>
     (f = (b \<or> (\<exists>m h. (m, hr_path req, h) \<in> set rs))) \<and> (\<forall>h. (hr_method req, hr_path req, h) \<notin> set rs)"
  by (induction rs req b rule: route_loop.induct)
    (auto simp: http_is_request_path_def http_is_request_method_def)

lemma route_loop_first:
  "distinct (map (\<lambda>(m, p, h). (m, p)) rs) \<Longrightarrow> (hr_method req, hr_path req, h) \<in> set rs \<Longrightarrow> route_loop rs req b = Inr h"
  by (induction rs req b rule: route_loop.induct)
    (force simp: http_is_request_path_def http_is_request_method_def)+

lemma routes_distinct: "distinct (map (\<lambda>(m, p, h). (m, p)) routes)"
  by (simp add: routes_def)

definition write_handlers :: "handler set" where
  "write_handlers = {route_post_register, route_post_submit, route_api_report_status, route_api_report_respond,
     route_api_report_feedback, route_api_admin_assign}"

lemma write_handlers_authorised: "h \<in> write_handlers \<Longrightarrow> authorised env req a (fst (h env req a resp))"
  unfolding write_handlers_def
  using authorised_register authorised_submit authorised_status authorised_respond authorised_feedback authorised_assign by auto

lemma routes_handlers: "(m, p, h) \<in> set routes \<Longrightarrow> h \<in> read_handlers \<or> h \<in> write_handlers \<and> m = ''POST''"
  unfolding routes_def read_handlers_def write_handlers_def by (simp, elim disjE) simp_all

lemma request_authorised:
  assumes "handle_request env req a resp = (a', resp')"
  shows "authorised env req a a'" and "a_db a' = a_db a \<or> hr_method req = ''POST''"
proof -
  have "authorised env req a a' \<and> (a_db a' = a_db a \<or> hr_method req = ''POST'')"
  proof (cases "route_loop routes req False")
    case (Inl b)
    with assms have "a' = a" by (auto simp: handle_request_def split: bool.splits)
    then show ?thesis by (simp add: authorised_same)
  next
    case (Inr h)
    then have h: "(hr_method req, hr_path req, h) \<in> set routes" using route_loop_Inr by blast
    have a': "a' = fst (h env req a resp)" using Inr assms by (simp add: handle_request_def)
    from routes_handlers [OF h] show ?thesis
      using read_handlers_keep_db [of h env req a resp] write_handlers_authorised [of h env req a resp] a'
      by (auto intro: authorised_same)
  qed
  then show "authorised env req a a'" "a_db a' = a_db a \<or> hr_method req = ''POST''" by blast+
qed

inductive_cases allowed_no_user: "allowed None t t'"

section \<open>Properties\<close>

text \<open>C25: no request changes more than its session's account may. Whatever the request and whatever the outside world
  answers, the tables stay well formed and change only in a way \<open>allowed\<close> to the account of the session: nothing, one
  new account (open to everyone), one new report filed by a citizen under her own id and city, or one report updated
  by its author (rating it), by the operator it is assigned to, or by an administrator of its city (assigning it to an
  operator of that city). Only POST requests change anything, and without a session no report changes.\<close>

theorem every_change_is_authorised:
  assumes "a_db a = Some t" and "tables_inv t" and "handle_request env req a resp = (a', resp')"
  shows "\<exists>t'. a_db a' = Some t' \<and> tables_inv t' \<and> allowed (fst (get_session_user env req a)) t t' \<and>
    (hr_method req \<noteq> ''POST'' \<longrightarrow> t' = t) \<and>
    (fst (get_session_user env req a) = None \<longrightarrow> t_reports t' = t_reports t)"
proof -
  obtain t' where t': "a_db a' = Some t'" "tables_inv t'" "allowed (fst (get_session_user env req a)) t t'"
    using request_authorised(1) [OF assms(3)] assms(1,2) by (auto simp: authorised_def)
  moreover have "t_reports t' = t_reports t" if "fst (get_session_user env req a) = None"
    using t'(3) unfolding that by (rule allowed_no_user)
  ultimately show ?thesis using request_authorised(2) [OF assms(3)] assms(1) by auto
qed

definition example_env :: env where
  "example_env = \<lparr>en_time = (\<lambda>_. 1000), en_db = (\<lambda>_. db_call_ok), en_printer = (\<lambda>_ _. None), en_json = json_mem_ok,
     en_floats = example_floats, en_atof = (\<lambda>_. 0), en_salt = None, en_rand = id,
     en_tokens = (\<lambda>_. \<lparr>ts_urandom = None, ts_rand = id\<rparr>), en_mem = mem_ok\<rparr>"

definition example_app :: "tables \<Rightarrow> app" where
  "example_app t = \<lparr>a_db = Some t, a_cache = g_cache_init, a_sessions = None, a_cities = None, a_pool = []\<rparr>"

definition example_req :: "bytes \<Rightarrow> bytes \<Rightarrow> http_request" where
  "example_req m p = \<lparr>hr_method = m, hr_path = p, hr_headers = [], hr_minorVersion = 1,
     hr_body = Some ''report_id=1&status=3''\<rparr>"

definition fresh_response :: http_response where
  "fresh_response = \<lparr>statusCode = 200, contentType = None, body = [], bodyLen = 0, setCookie = [], location = []\<rparr>"

lemma no_cookie: "get_session_user env (example_req m p) a = (None, a)"
  by (simp add: get_session_user_def http_request_cookie_def http_request_header_def example_req_def)

lemma every_change_is_authorised_witness:
  "\<exists>a' resp' t'. handle_request example_env (example_req ''POST'' ''/api/report/status'') (example_app example_tables)
      fresh_response = (a', resp') \<and> a_db a' = Some t' \<and> t_reports t' = [example_report]"
proof -
  obtain a' resp' where h: "handle_request example_env (example_req ''POST'' ''/api/report/status'') (example_app example_tables)
      fresh_response = (a', resp')" by fastforce
  have "a_db (example_app example_tables) = Some example_tables" by (simp add: example_app_def)
  from every_change_is_authorised [OF this example_tables_inv(1) h] no_cookie h show ?thesis
    by (auto simp: example_tables_def)
qed

text \<open>A request is answered by the one handler registered for its method and path. If only other methods are
  registered for the path, the answer is 405, if none is, it is 404; both leave the state alone.\<close>

theorem dispatch_by_method_and_path:
  "(\<forall>h. (hr_method req, hr_path req, h) \<in> set routes \<longrightarrow> handle_request env req a resp = h env req a resp) \<and>
   ((\<forall>h. (hr_method req, hr_path req, h) \<notin> set routes) \<longrightarrow>
      fst (handle_request env req a resp) = a \<and>
      statusCode (snd (handle_request env req a resp)) =
        (if \<exists>m h. (m, hr_path req, h) \<in> set routes then 405 else 404))"
proof (intro conjI allI impI)
  fix h assume "(hr_method req, hr_path req, h) \<in> set routes"
  from route_loop_first [OF routes_distinct this] show "handle_request env req a resp = h env req a resp"
    by (simp add: handle_request_def)
next
  assume n: "\<forall>h. (hr_method req, hr_path req, h) \<notin> set routes"
  define f where "f = (\<exists>m h. (m, hr_path req, h) \<in> set routes)"
  have "route_loop routes req False = Inl f" using n by (simp add: route_loop_Inl f_def)
  then have h: "handle_request env req a resp =
      (a, if f then resp_html_error resp 405 ''405 Method Not Allowed''
          else print_body resp 404 (''<h1>404 Not Found</h1><p><code>'' @ cstr (take URL_BUFFER_SIZE (hr_path req)) @
                 ''</code> does not exist.</p>''))"
    by (cases f) (simp_all add: handle_request_def)
  show "fst (handle_request env req a resp) = a" by (simp add: h)
  show "statusCode (snd (handle_request env req a resp)) =
        (if \<exists>m h. (m, hr_path req, h) \<in> set routes then 405 else 404)"
    unfolding f_def [symmetric] h by (simp add: resp_html_error_def print_body_def Let_def)
qed

lemma dispatch_by_method_and_path_witness:
  "handle_request example_env (example_req ''GET'' ''/logout'') (example_app no_tables) fresh_response =
     route_get_logout example_env (example_req ''GET'' ''/logout'') (example_app no_tables) fresh_response \<and>
   statusCode (snd (handle_request example_env (example_req ''PUT'' ''/logout'') (example_app no_tables) fresh_response)) = 405"
proof -
  have e: "hr_method (example_req m p) = m" "hr_path (example_req m p) = p" for m p by (simp_all add: example_req_def)
  have "(''GET'', ''/logout'', route_get_logout) \<in> set routes" by (simp add: routes_def)
  moreover have "(''PUT'', ''/logout'', h) \<notin> set routes" for h by (simp add: routes_def)
  ultimately show ?thesis
    using dispatch_by_method_and_path [of "example_req ''GET'' ''/logout''" example_env "example_app no_tables" fresh_response]
      dispatch_by_method_and_path [of "example_req ''PUT'' ''/logout''" example_env "example_app no_tables" fresh_response]
    unfolding e by auto
qed

text \<open>The routes that need a session.\<close>

definition session_routes :: "(bytes \<times> bytes \<times> handler) list" where
  "session_routes =
     [(''GET'', ''/home'', route_get_home), (''GET'', ''/submit'', route_get_submit),
      (''POST'', ''/submit'', route_post_submit),
      (''GET'', ''/api/reports/active'', route_api_reports_active),
      (''GET'', ''/api/reports/archived'', route_api_reports_archived),
      (''GET'', ''/api/reports/all'', route_api_reports_all),
      (''GET'', ''/api/operators'', route_api_operators),
      (''POST'', ''/api/report/status'', route_api_report_status),
      (''POST'', ''/api/report/respond'', route_api_report_respond),
      (''POST'', ''/api/report/feedback'', route_api_report_feedback),
      (''POST'', ''/api/admin/assign'', route_api_admin_assign)]"

lemma session_routes_subset: "set session_routes \<subseteq> set routes"
  by (simp add: session_routes_def routes_def)

lemma session_handler_refuses:
  assumes "(m, p, h) \<in> set session_routes" and s: "get_session_user env req a = (None, a1)"
  shows "h env req a resp \<in>
    {(a1, redirect resp ''/'' None), (a1, resp_json_error resp 401 ''unauthorized''), (a1, resp_json_error resp 403 ''forbidden'')}"
proof -
  have "h \<in> {route_get_home, route_get_submit, route_post_submit, route_api_reports_active, route_api_reports_archived,
      route_api_reports_all, route_api_operators, route_api_report_status, route_api_report_respond,
      route_api_report_feedback, route_api_admin_assign}"
    using assms(1) unfolding session_routes_def by (simp, elim disjE) simp_all
  then show ?thesis
    by (elim insertE emptyE; simp add: s handler_defs route_post_submit_def route_api_report_status_def
        route_api_report_respond_def route_api_report_feedback_def route_api_admin_assign_def)
qed



end
