(* ===== verification/AppSpec.thy ===== *)
theory AppSpec
  imports RoutesSpec
begin

text \<open>
  The application over many requests: in every state reached from the empty database each session belongs to a stored
  account and each report to a citizen and an operator of its city; and how log-in, the session cookie and log-out
  work together.
\<close>

section \<open>Sessions under the handlers\<close>

text \<open>Every session of the second table was in the first one, or is of the account given.\<close>

definition sessions_from :: "user option \<Rightarrow> sessions option \<Rightarrow> sessions option \<Rightarrow> bool" where
  "sessions_from who ss ss' \<longleftrightarrow> sessions_inv ss' \<and>
     (\<forall>x s. sessions_abs ss' x = Some s \<longrightarrow> sessions_abs ss x = Some s \<or> who = Some (s_user s))"

lemma sessions_from_refl: "sessions_inv ss \<Longrightarrow> sessions_from who ss ss"
  by (simp add: sessions_from_def)

lemma sessions_from_trans:
  "sessions_from w1 ss ss1 \<Longrightarrow> sessions_from w2 ss1 ss2 \<Longrightarrow> w1 = None \<or> w1 = w2 \<Longrightarrow> sessions_from w2 ss ss2"
  unfolding sessions_from_def by (metis option.distinct(1))

lemma destroy_from: "sessions_inv ss \<Longrightarrow> sessions_from None ss (session_destroy token ss)"
  using delete_token by (cases ss) (auto simp: session_destroy_def sessions_from_def)

lemma verify_from:
  assumes "sessions_inv ss" and "session_verify now token ss = (u, ss')"
  shows "sessions_from None ss ss'"
  using verify_cases [OF assms(1), of now token] assms(2) destroy_from [OF assms(1)] sessions_from_refl [OF assms(1)]
  by (simp split: if_splits)

lemma create_loop_from:
  "sessions_inv ss \<Longrightarrow> create_loop n src now ss = (r, ss') \<Longrightarrow> sessions_from None ss ss'"
proof (induction n arbitrary: ss)
  case 0
  then show ?case by (simp add: sessions_from_refl)
next
  case (Suc n)
  obtain f s1 where v: "session_verify now (generate_token (src (SESSION_CREATE_MAX_TRIES - Suc n)) TOKEN_HEX_LEN) ss = (f, s1)"
    by fastforce
  note fr = verify_from [OF Suc.prems(1) v]
  show ?case
  proof (cases f)
    case None
    with Suc.prems(2) v fr show ?thesis by (simp add: Let_def)
  next
    case (Some u)
    with Suc.prems(2) v have "create_loop n src now s1 = (r, ss')" by (simp add: Let_def)
    with Suc.IH fr sessions_from_trans [OF fr] show ?thesis by (auto simp: sessions_from_def)
  qed
qed

lemma create_from:
  assumes "sessions_inv ss" and "session_create mem src now u ss = (r, ss')"
  shows "sessions_from (Some u) ss ss'"
proof (cases "ss = None")
  case True
  with assms show ?thesis by (simp add: session_create_def sessions_from_refl)
next
  case False
  obtain f s1 where l: "create_loop SESSION_CREATE_MAX_TRIES src now ss = (f, s1)" by fastforce
  note fr = create_loop_from [OF assms(1) l]
  have inv: "sessions_inv s1" using fr by (simp add: sessions_from_def)
  consider "ss' = s1" | token t where "s1 = Some t"
    "ss' = Some (snd (ht_set mem t (token_key token) [\<lparr>s_user = u, s_createdAt = now\<rparr>]))"
    using assms(2) l False by (auto simp: session_create_def case_prod_beta split: option.splits)
  then show ?thesis
  proof cases
    case 1
    with sessions_from_trans [OF fr, of "Some u"] sessions_from_refl [OF inv] show ?thesis by simp
  next
    case 2
    have "sessions_from (Some u) s1 ss'"
      using set_token [OF inv [unfolded 2(1)], of mem token "\<lparr>s_user = u, s_createdAt = now\<rparr>"]
      by (simp add: sessions_from_def 2)
    with sessions_from_trans [OF fr] show ?thesis by simp
  qed
qed

lemma get_session_from:
  assumes "sessions_inv (a_sessions a)" and "get_session_user env req a = (who, a1)"
  shows "sessions_from None (a_sessions a) (a_sessions a1)"
    and "who = Some u \<Longrightarrow> \<exists>x s. sessions_abs (a_sessions a) x = Some s \<and> s_user s = u"
proof -
  let ?tok = "http_request_cookie req SESSION_COOKIE_NAME (TOKEN_HEX_LEN + 1)"
  obtain v ss where v: "session_verify (en_time env 0) ?tok (a_sessions a) = (v, ss)" by fastforce
  show "sessions_from None (a_sessions a) (a_sessions a1)"
    using assms(2) v verify_from [OF assms(1) v] sessions_from_refl [OF assms(1)]
    by (auto simp: get_session_user_def Let_def split: if_splits)
  show "\<exists>x s. sessions_abs (a_sessions a) x = Some s \<and> s_user s = u" if "who = Some u"
    using assms(2) v that verify_cases [OF assms(1), of "en_time env 0" ?tok]
    by (auto simp: get_session_user_def Let_def verify_abs_def split: if_splits option.splits)
qed

text \<open>The account that a request logs in, if any.\<close>

definition logs_in :: "env \<Rightarrow> http_request \<Rightarrow> app \<Rightarrow> user option" where
  "logs_in env req a =
     (case user_authenticate (en_db env 0) (Some (get_field (hr_body req) ''username='' USERNAME_LEN))
             (Some (get_field (hr_body req) ''password='' PWD_PLAIN_LEN)) no_user (a_db a) of
        (True, u) \<Rightarrow> Some u | (False, _) \<Rightarrow> None)"

definition session_step :: "env \<Rightarrow> http_request \<Rightarrow> app \<Rightarrow> app \<Rightarrow> bool" where
  "session_step env req a a' \<longleftrightarrow>
     (sessions_inv (a_sessions a) \<longrightarrow> sessions_from (logs_in env req a) (a_sessions a) (a_sessions a'))"

lemma session_step_same: "a_sessions a' = a_sessions a \<Longrightarrow> session_step env req a a'"
  by (simp add: session_step_def sessions_from_refl)

lemma session_step_get:
  "a_sessions a' = a_sessions (snd (get_session_user env req a)) \<Longrightarrow> session_step env req a a'"
  using get_session_from(1) [of a env req "fst (get_session_user env req a)" "snd (get_session_user env req a)"]
  by (auto simp: session_step_def sessions_from_def)

lemma session_step_login: "session_step env req a (fst (route_post_login env req a resp))"
proof -
  let ?auth = "user_authenticate (en_db env 0) (Some (get_field (hr_body req) ''username='' USERNAME_LEN))
             (Some (get_field (hr_body req) ''password='' PWD_PLAIN_LEN)) no_user (a_db a)"
  obtain ok u where au: "?auth = (ok, u)" by fastforce
  obtain r ss where c: "session_create (en_mem env) (en_tokens env) (en_time env 0) u (a_sessions a) = (r, ss)" by fastforce
  show ?thesis
  proof (cases ok)
    case True
    then have "logs_in env req a = Some u" "a_sessions (fst (route_post_login env req a resp)) = ss"
      using au c by (auto simp: logs_in_def route_post_login_def Let_def split: option.splits)
    with create_from [OF _ c] show ?thesis by (simp add: session_step_def)
  next
    case False
    then have "a_sessions (fst (route_post_login env req a resp)) = a_sessions a"
      using au by (simp add: route_post_login_def Let_def)
    then show ?thesis by (rule session_step_same)
  qed
qed

lemma session_step_logout: "session_step env req a (fst (route_get_logout env req a resp))"
  using destroy_from [of "a_sessions a"]
  by (auto simp: session_step_def route_get_logout_def Let_def sessions_from_def)

definition other_handlers :: "handler set" where
  "other_handlers = {route_get_register, route_post_register, route_api_cities, route_static_css, route_static_docs}"

definition session_handlers :: "handler set" where
  "session_handlers = {route_get_root, route_get_home, route_get_submit, route_post_submit, route_api_reports_active,
     route_api_reports_archived, route_api_reports_all, route_api_operators, route_api_report_status,
     route_api_report_respond, route_api_report_feedback, route_api_admin_assign}"

lemma other_handlers_sessions: "h \<in> other_handlers \<Longrightarrow> a_sessions (fst (h env req a resp)) = a_sessions a"
  unfolding other_handlers_def
  by (elim insertE emptyE; simp add: handler_defs route_post_register_def Let_def split: prod.split option.split)

lemma session_handlers_sessions:
  "h \<in> session_handlers \<Longrightarrow> a_sessions (fst (h env req a resp)) = a_sessions (snd (get_session_user env req a))"
  unfolding session_handlers_def
  by (elim insertE emptyE; simp add: handler_defs route_post_submit_def route_api_report_status_def
      route_api_report_respond_def route_api_report_feedback_def route_api_admin_assign_def Let_def
      split: prod.split option.split)

lemma routes_sessions:
  "(m, p, h) \<in> set routes \<Longrightarrow> h \<in> other_handlers \<or> h \<in> session_handlers \<or> h = route_post_login \<or> h = route_get_logout"
  unfolding routes_def other_handlers_def session_handlers_def by (simp, elim disjE) simp_all

lemma request_session_step:
  assumes "handle_request env req a resp = (a', resp')"
  shows "session_step env req a a'"
proof (cases "route_loop routes req False")
  case (Inl b)
  with assms have "a' = a" by (auto simp: handle_request_def split: bool.splits)
  then show ?thesis by (simp add: session_step_same)
next
  case (Inr h)
  then have h: "(hr_method req, hr_path req, h) \<in> set routes" using route_loop_Inr by blast
  have a': "a' = fst (h env req a resp)" using Inr assms by (simp add: handle_request_def)
  from routes_sessions [OF h] show ?thesis unfolding a'
    using other_handlers_sessions [of h env req a resp] session_handlers_sessions [of h env req a resp]
      session_step_login session_step_logout by (auto intro: session_step_same session_step_get)
qed

section \<open>Consistency\<close>

definition author_ok :: "tables \<Rightarrow> report_row \<Rightarrow> bool" where
  "author_ok t r \<longleftrightarrow> (\<exists>n\<in>set (t_users t). ur_id n = rr_author_id r \<and> ur_role n = 0 \<and> ur_city n = rr_city r)"

definition assignee_ok :: "tables \<Rightarrow> report_row \<Rightarrow> bool" where
  "assignee_ok t r \<longleftrightarrow>
     (\<forall>op. rr_assigned_to r = Some op \<longrightarrow> (\<exists>n\<in>set (t_users t). ur_id n = op \<and> ur_role n = 1 \<and> ur_city n = rr_city r))"

definition tables_consistent :: "tables \<Rightarrow> bool" where
  "tables_consistent t \<longleftrightarrow> tables_inv t \<and>
     (\<forall>n\<in>set (t_users t). nul_free (ur_city n) \<and> length (ur_city n) < CITY_LEN) \<and>
     (\<forall>r\<in>set (t_reports t). author_ok t r \<and> assignee_ok t r)"

definition account :: "tables \<Rightarrow> user \<Rightarrow> bool" where
  "account t u \<longleftrightarrow> (\<exists>n\<in>set (t_users t). u = cursor_to_user n)"

lemma user_id_bounds:
  assumes "tables_inv t" and "n \<in> set (t_users t)"
  shows "0 < ur_id n" and "ur_id n < 2 ^ 63"
proof -
  have "keys_ok (t_user_seq t) (map ur_id (t_users t))" using assms(1) by (simp add: tables_inv_def)
  then have "0 < ur_id n \<and> ur_id n \<le> t_user_seq t \<and> t_user_seq t < 2 ^ 63"
    using assms(2) unfolding keys_ok_def by auto
  then show "0 < ur_id n" and "ur_id n < 2 ^ 63" by linarith+
qed

lemma cursor_user:
  assumes "tables_consistent t" and "n \<in> set (t_users t)"
  shows "sint (userId (cursor_to_user n)) = ur_id n" and "city (cursor_to_user n) = ur_city n"
    and "role (cursor_to_user n) \<noteq> ROLE_OPERATOR \<Longrightarrow> role (cursor_to_user n) \<noteq> ROLE_ADMIN \<Longrightarrow> ur_role n = 0"
proof -
  have inv: "tables_inv t" and c: "nul_free (ur_city n)" "length (ur_city n) < CITY_LEN"
    using assms by (auto simp: tables_consistent_def)
  show "sint (userId (cursor_to_user n)) = ur_id n"
    using sint_id [of "ur_id n"] user_id_bounds [OF inv assms(2)] by (simp add: cursor_to_user_def)
  show "city (cursor_to_user n) = ur_city n"
    using str_trunc_id [OF c(1), of "CITY_LEN - 1"] c(2) by (simp add: cursor_to_user_def)
  have "ur_role n \<in> {0, 1, 2}" using inv assms(2) by (simp add: tables_inv_def)
  then show "role (cursor_to_user n) \<noteq> ROLE_OPERATOR \<Longrightarrow> role (cursor_to_user n) \<noteq> ROLE_ADMIN \<Longrightarrow> ur_role n = 0"
    by (auto simp: cursor_to_user_def ROLE_OPERATOR_def ROLE_ADMIN_def)
qed

lemma report_city_bounds:
  assumes "tables_consistent t" and "r \<in> set (t_reports t)"
  shows "nul_free (rr_city r)" and "length (rr_city r) < CITY_LEN" and "report_city (cursor_to_report r) = rr_city r"
proof -
  obtain n where "n \<in> set (t_users t)" "ur_city n = rr_city r"
    using assms by (auto simp: tables_consistent_def author_ok_def)
  moreover have "\<forall>n\<in>set (t_users t). nul_free (ur_city n) \<and> length (ur_city n) < CITY_LEN"
    using assms(1) by (simp add: tables_consistent_def)
  ultimately show c: "nul_free (rr_city r)" "length (rr_city r) < CITY_LEN" by force+
  show "report_city (cursor_to_report r) = rr_city r"
    using str_trunc_id [OF c(1), of "CITY_LEN - 1"] c(2) by (simp add: cursor_to_report_def)
qed

text \<open>One updated row.\<close>

lemma may_update_ok:
  assumes c: "tables_consistent t" and r: "r \<in> set (t_reports t)" and u: "account t u" and m: "may_update u t r r'"
  shows "author_ok t r' \<and> assignee_ok t r'"
proof -
  have ok: "author_ok t r" "assignee_ok t r" using c r by (auto simp: tables_consistent_def)
  from m show ?thesis
  proof cases
    case (admin_assigns op now)
    obtain n where n: "n \<in> set (t_users t)" "u = cursor_to_user n" using u by (auto simp: account_def)
    have nc: "nul_free (ur_city n)" "length (ur_city n) < CITY_LEN" "nul_free (ur_city op)" "length (ur_city op) < CITY_LEN"
      using c n(1) admin_assigns(5) by (auto simp: tables_consistent_def)
    have "rr_city r = ur_city n"
      using admin_assigns(3) report_city_bounds [OF c r] nc(1,2) cursor_user(2) [OF c n(1)] n(2)
      by (simp add: same_city_def strn_eq_iff)
    moreover have "ur_city op = ur_city n"
      using admin_assigns(7) nc cursor_user(2) [OF c n(1)] cursor_user(2) [OF c admin_assigns(5)] n(2)
      by (simp add: strn_eq_iff)
    ultimately show ?thesis using ok admin_assigns(1,5,6) by (auto simp: author_ok_def assignee_ok_def)
  qed (use ok in \<open>auto simp: author_ok_def assignee_ok_def\<close>)
qed

lemma allowed_consistent:
  assumes c: "tables_consistent t" and inv: "tables_inv t'" and a: "allowed who t t'"
    and u: "\<And>u. who = Some u \<Longrightarrow> account t u"
  shows "tables_consistent t'" and "account t x \<Longrightarrow> account t' x"
proof -
  have "tables_consistent t' \<and> (account t x \<longrightarrow> account t' x)"
    using a
  proof cases
    case unchanged
    with c inv show ?thesis by (simp add: tables_consistent_def author_ok_def assignee_ok_def account_def)
  next
    case (registers n)
    have "author_ok t r \<longrightarrow> author_ok t' r" "assignee_ok t r \<longrightarrow> assignee_ok t' r" for r
      unfolding author_ok_def assignee_ok_def registers(2) by auto
    with c inv registers show ?thesis by (auto simp: tables_consistent_def account_def)
  next
    case (submits r u)
    obtain n where n: "n \<in> set (t_users t)" "u = cursor_to_user n" using u [OF submits(1)] by (auto simp: account_def)
    have "nul_free (ur_city n)" using c n(1) by (auto simp: tables_consistent_def)
    then have "author_ok t r" "assignee_ok t r"
      using n cursor_user [OF c n(1)] submits by (auto simp: author_ok_def assignee_ok_def cstr_id)
    with c inv submits(2,3) show ?thesis by (auto simp: tables_consistent_def account_def author_ok_def assignee_ok_def)
  next
    case (updates r r' u)
    have t': "t_users t' = t_users t" "r \<in> set (t_reports t)"
      "t_reports t' = map (\<lambda>x. if rr_id x = rr_id r then r' else x) (t_reports t)"
      using updates(2) by (simp_all add: replaced_def)
    have "author_ok t r' \<and> assignee_ok t r'" using may_update_ok [OF c t'(2) u [OF updates(1)] updates(3)] .
    with c inv t' show ?thesis by (auto simp: tables_consistent_def account_def author_ok_def assignee_ok_def)
  qed
  then show "tables_consistent t'" and "account t x \<Longrightarrow> account t' x" by blast+
qed

definition app_inv :: "app \<Rightarrow> bool" where
  "app_inv a \<longleftrightarrow> sessions_inv (a_sessions a) \<and>
     (\<exists>t. a_db a = Some t \<and> tables_consistent t \<and>
        (\<forall>x s. sessions_abs (a_sessions a) x = Some s \<longrightarrow> account t (s_user s)))"

lemma logs_in_account:
  assumes "logs_in env req a = Some u" and "a_db a = Some t"
  shows "account t u"
proof -
  let ?n = "get_field (hr_body req) ''username='' USERNAME_LEN"
  obtain row where "cursor_first (db_cursor_users (en_db env 0) (SelectUserByName ?n) (Some t)) = Some row" "u = cursor_to_user row"
    using assms by (auto simp: logs_in_def user_authenticate_def Let_def split: bool.splits option.splits prod.splits)
  moreover from this have "row \<in> set (take (dc_steps (en_db env 0)) (filter (\<lambda>x. ur_username x = ?n) (t_users t)))"
    by (auto simp: db_cursor_users_def cursor_first_def split: option.splits list.splits if_splits)
  then have "row \<in> set (t_users t)" by (auto dest: in_set_takeD)
  ultimately show ?thesis by (auto simp: account_def)
qed

lemma request_app_inv:
  assumes inv: "app_inv a" and r: "handle_request env req a resp = (a', resp')"
  shows "app_inv a'"
proof -
  obtain t where t: "a_db a = Some t" "tables_consistent t" and s: "sessions_inv (a_sessions a)"
    "\<And>x s. sessions_abs (a_sessions a) x = Some s \<Longrightarrow> account t (s_user s)"
    using inv by (auto simp: app_inv_def)
  obtain who a1 where g: "get_session_user env req a = (who, a1)" by fastforce
  have who: "account t u" if "who = Some u" for u
    using get_session_from(2) [OF s(1) g that] s(2) by auto
  have "tables_inv t" using t(2) by (simp add: tables_consistent_def)
  then obtain t' where t': "a_db a' = Some t'" "tables_inv t'" "allowed who t t'"
    using request_authorised(1) [OF r] t(1) g by (auto simp: authorised_def)
  have c: "tables_consistent t'" "\<And>x. account t x \<Longrightarrow> account t' x"
    using allowed_consistent [OF t(2) t'(2,3)] who by blast+
  have f: "sessions_from (logs_in env req a) (a_sessions a) (a_sessions a')"
    using request_session_step [OF r] s(1) by (simp add: session_step_def)
  have "account t' (s_user x)" if "sessions_abs (a_sessions a') k = Some x" for k x
  proof -
    have "account t (s_user x)"
      using f that s(2) logs_in_account [of env req a "s_user x", OF _ t(1)] by (auto simp: sessions_from_def)
    then show ?thesis by (rule c(2))
  qed
  with c(1) t'(1) f show ?thesis by (auto simp: app_inv_def sessions_from_def)
qed

text \<open>The application from its first start on: requests, and restarts that keep the database.\<close>

inductive served :: "app \<Rightarrow> bool" where
  first_start: "\<lbrakk>a_db a = Some no_tables; session_init m1 m2 sd = (ok, a_sessions a)\<rbrakk> \<Longrightarrow> served a"
| request: "\<lbrakk>served a; handle_request env req a resp = (a', resp')\<rbrakk> \<Longrightarrow> served a'"
| restart: "\<lbrakk>served a; a_db a' = a_db a; session_init m1 m2 sd = (ok, a_sessions a')\<rbrakk> \<Longrightarrow> served a'"

lemma session_init_empty:
  assumes "session_init m1 m2 sd = (ok, ss)"
  shows "sessions_inv ss" and "sessions_abs ss x = None"
proof -
  have "sessions_inv ss \<and> (\<forall>x. sessions_abs ss x = None)"
  proof (cases "ht_create m1 m2 sd 0 hash_key :: sessions option")
    case None
    with assms show ?thesis by (simp add: session_init_def sessions_inv_def sessions_abs_def)
  next
    case (Some t)
    with assms have "ss = Some t" by (simp add: session_init_def)
    with ht_create_spec [OF Some] show ?thesis by (simp add: sessions_inv_def sessions_abs_def)
  qed
  then show "sessions_inv ss" and "sessions_abs ss x = None" by blast+
qed

text \<open>C26: in every reachable state of the application (whatever requests were served, whatever failed, and across
  restarts) the tables are well formed, every report was filed by a citizen of its city, is assigned, if at all, to an
  operator of its city, and every session is that of a stored account.\<close>

theorem reachable_application_is_consistent:
  assumes "served a"
  shows "\<exists>t. a_db a = Some t \<and> tables_consistent t \<and>
    (\<forall>token s. sessions_abs (a_sessions a) token = Some s \<longrightarrow> account t (s_user s))"
proof -
  from assms have "app_inv a"
  proof induction
    case (first_start a m1 m2 sd ok)
    have "tables_consistent no_tables" by (simp add: tables_consistent_def) (simp add: no_tables_def)
    with first_start session_init_empty [OF first_start(2)] show ?case by (simp add: app_inv_def)
  next
    case (request a env req resp a' resp')
    then show ?case by (blast intro: request_app_inv)
  next
    case (restart a a' m1 m2 sd ok)
    with session_init_empty [OF restart(3)] show ?case by (auto simp: app_inv_def)
  qed
  then show ?thesis by (auto simp: app_inv_def)
qed

lemma reachable_application_is_consistent_witness:
  "\<exists>a t. served a \<and> a_sessions a \<noteq> None \<and> a_db a = Some t \<and> tables_consistent t"
proof -
  obtain ss where ss: "session_init True True 7 = (True, ss)" "ss \<noteq> None" using session_example by blast
  let ?a = "(example_app no_tables)\<lparr>a_sessions := ss\<rparr>"
  have "served ?a" by (rule first_start) (use ss in \<open>simp_all add: example_app_def\<close>)
  from served.request [OF this prod.collapse [symmetric], of example_env "example_req ''GET'' ''/api/docs''" fresh_response]
  have s: "served (fst (handle_request example_env (example_req ''GET'' ''/api/docs'') ?a fresh_response))" .
  have "a_sessions (fst (handle_request example_env (example_req ''GET'' ''/api/docs'') ?a fresh_response)) = ss"
    by (simp add: handle_request_def routes_def http_is_request_path_def http_is_request_method_def example_req_def
        route_static_docs_def example_app_def tpl_get_def)
  with reachable_application_is_consistent [OF s] s ss(2) show ?thesis by blast
qed

section \<open>Log-in, cookie, log-out\<close>

definition token_like :: "bytes \<Rightarrow> bool" where
  "token_like token \<longleftrightarrow> length token = TOKEN_HEX_LEN \<and> (\<forall>c\<in>set token. unreserved c)"

lemma unreserved_not_NUL: "unreserved c \<Longrightarrow> c \<noteq> NUL"
  using unreserved_props by (auto simp: url_stop_def)

lemma token_like_nul_free: "token_like token \<Longrightarrow> nul_free token"
  using unreserved_not_NUL by (auto simp: token_like_def nul_free_def)

lemma hex_digit_unreserved: "d < 16 \<Longrightarrow> unreserved (hex_digit d)"
proof -
  assume "d < 16"
  then have "hex_digit d \<in> set ''0123456789abcdef''" by (rule hex_digit_in)
  moreover have "\<forall>c\<in>set ''0123456789abcdef''. unreserved c" by (simp add: unreserved_def is_digit_def byte_val_def)
  ultimately show ?thesis by blast
qed

lemma hex_encode_token: "(\<forall>c\<in>set (hex_encode b). unreserved c) \<and> length (hex_encode b) = 2 * length b"
proof (induction b)
  case (Cons c b)
  have "byte_val c div 16 < 16" using byte_val_bound [of c] by simp
  with Cons show ?case using hex_digit_unreserved by (auto simp: hex_encode_def)
qed (simp add: hex_encode_def)

lemma generated_token_like: "token_like (generate_token src TOKEN_HEX_LEN)"
  using hex_encode_token
  by (auto simp: token_like_def generate_token_def TOKEN_HEX_LEN_def Let_def hex_digit_unreserved split: option.splits)

lemma url_decode_plain:
  "\<forall>c\<in>set s. unreserved c \<Longrightarrow> url_decode_loop (s @ r) (length s + k) = s @ url_decode_loop r k"
proof (induction s)
  case (Cons c s)
  with unreserved_props [of c] show ?case by (subst url_decode_loop.simps) simp
qed simp

lemma url_decode_no_room: "url_decode_loop s 0 = []"
  by (subst url_decode_loop.simps) simp

text \<open>What the two handlers read from a cookie header whose value starts with the session cookie.\<close>

lemma cookie_loop_first: "cookie_loop ''sid'' None (''sid='' @ s) = Some s"
  by (simp add: numeral_3_eq_3)

lemma read_session_cookie:
  assumes h: "http_request_header req ''cookie'' = Some h" "h_value h = ''sid='' @ token @ rest" and t: "token_like token"
  shows "http_request_cookie req SESSION_COOKIE_NAME (TOKEN_HEX_LEN + 1) = token"
    and "http_request_cookie req SESSION_COOKIE_NAME (TOKEN_HEX_LEN + 2) = token @ url_decode_loop (rest @ h_trail h @ [LF]) 1"
proof -
  have c: "http_request_cookie req SESSION_COOKIE_NAME mx = url_decode_loop (token @ rest @ h_trail h @ [LF]) (mx - 1)" for mx
    using h cookie_loop_first [of "token @ rest"]
    by (simp add: http_request_cookie_def SESSION_COOKIE_NAME_def url_decode_def del: cookie_loop.simps)
  show "http_request_cookie req SESSION_COOKIE_NAME (TOKEN_HEX_LEN + 1) = token"
    using t url_decode_plain [of token _ 0] by (simp add: c token_like_def url_decode_no_room)
  show "http_request_cookie req SESSION_COOKIE_NAME (TOKEN_HEX_LEN + 2) = token @ url_decode_loop (rest @ h_trail h @ [LF]) 1"
    using t url_decode_plain [of token _ 1] by (simp add: c token_like_def)
qed

lemma session_of_cookie:
  assumes "sessions_inv (a_sessions a)"
    and "http_request_header req ''cookie'' = Some h" "h_value h = ''sid='' @ token @ rest" "token_like token"
  shows "fst (get_session_user env req a) = verify_abs (en_time env 0) (a_sessions a) token"
proof -
  have "token \<noteq> []" using assms(4) by (auto simp: token_like_def TOKEN_HEX_LEN_def)
  then show ?thesis
    using read_session_cookie(1) [OF assms(2-4)] verify_cases [OF assms(1), of "en_time env 0" token]
    by (simp add: get_session_user_def Let_def case_prod_beta)
qed

lemma login_cookie_text:
  assumes "token_like token"
  shows "\<exists>r. login_cookie token = ''sid='' @ token @ '';'' @ r"
proof -
  have "nul_free (show_nat n)" for n
    using show_nat_digits [of n] by (auto simp: nul_free_def is_digit_def NUL_def byte_val_def)
  then have m: "nul_free (show_int SESSION_MAX_AGE)" by (simp add: show_int_def SESSION_MAX_AGE_def)
  let ?r = "'' Path=/; HttpOnly; Max-Age='' @ show_int SESSION_MAX_AGE @ ''; SameSite=Lax''"
  have "cstr (''sid='' @ token @ '';'' @ ?r) = ''sid='' @ token @ '';'' @ ?r"
    by (rule cstr_id) (use m token_like_nul_free [OF assms] in \<open>simp add: NUL_def\<close>)
  then have "login_cookie token = take (COOKIE_MAX - 1) ((''sid='' @ token @ '';'') @ ?r)"
    by (simp add: login_cookie_def SESSION_COOKIE_NAME_def str_trunc_def)
  also have "\<dots> = (''sid='' @ token @ '';'') @ take (COOKIE_MAX - 1 - length (''sid='' @ token @ '';'')) ?r"
    using assms by (subst take_append) (simp add: COOKIE_MAX_def token_like_def TOKEN_HEX_LEN_def)
  finally show ?thesis by auto
qed


text \<open>An account, a log-in form and a cookie header.\<close>

definition example_account :: user_row where
  "example_account = \<lparr>ur_id = 4, ur_username = ''ada'', ur_password_hash = hash_password ''1'' ''secret'', ur_role = 0,
     ur_city = ''Pisa'', ur_salt = ''1''\<rparr>"

definition login_request :: http_request where
  "login_request = \<lparr>hr_method = ''POST'', hr_path = ''/login'', hr_headers = [], hr_minorVersion = 1,
     hr_body = Some ''username=ada&password=secret''\<rparr>"

definition cookie_request :: "bytes \<Rightarrow> http_request" where
  "cookie_request v = \<lparr>hr_method = ''GET'', hr_path = ''/home'',
     hr_headers = [\<lparr>h_name = Some ''Cookie'', h_value = v, h_trail = []\<rparr>], hr_minorVersion = 1, hr_body = None\<rparr>"

lemma cookie_name: "strncase_eq 6 ''Cookie'' ''cookie''"
  by code_simp

lemma cookie_request_header:
  "http_request_header (cookie_request v) ''cookie'' = Some \<lparr>h_name = Some ''Cookie'', h_value = v, h_trail = []\<rparr>"
  using cookie_name by (simp add: http_request_header_def cookie_request_def eval_nat_numeral)

lemma login_fields:
  "get_field (hr_body login_request) ''username='' USERNAME_LEN = ''ada''"
  "get_field (hr_body login_request) ''password='' PWD_PLAIN_LEN = ''secret''"
proof -
  have n: "\<forall>c\<in>set ''ada''. unreserved c" "\<forall>c\<in>set ''secret''. unreserved c"
    by (simp_all add: unreserved_def is_digit_def byte_val_def)
  have stop: "url_decode_loop (CHR ''&'' # s) k = []" "url_decode_loop [] k = []" for s k
    by (subst url_decode_loop.simps; simp add: url_stop_def)+
  show "get_field (hr_body login_request) ''username='' USERNAME_LEN = ''ada''"
    using url_decode_plain [OF n(1), of "''&password=secret''" 28]
    by (simp add: get_field_def login_request_def cstr_def NUL_def url_decode_def USERNAME_LEN_def stop)
  show "get_field (hr_body login_request) ''password='' PWD_PLAIN_LEN = ''secret''"
    using url_decode_plain [OF n(2), of "[]" 121]
    by (simp add: get_field_def login_request_def cstr_def NUL_def url_decode_def PWD_PLAIN_LEN_def stop)
qed

definition login_tables :: tables where
  "login_tables = no_tables\<lparr>t_users := [example_account], t_user_seq := 4\<rparr>"

lemma example_login:
  "user_authenticate db_call_ok (Some ''ada'') (Some ''secret'') out (Some login_tables) = (True, cursor_to_user example_account)"
proof -
  have inv: "tables_inv login_tables" "example_account \<in> set (t_users login_tables)"
    by (simp_all add: login_tables_def example_account_def no_tables_def tables_inv_def keys_ok_def)
  have h: "passwordHash (cursor_to_user example_account) = hash_password ''1'' ''secret''"
    "salt (cursor_to_user example_account) = ''1''"
    using hash_password_props [of "''1''" "''secret''"]
    by (simp_all add: cursor_to_user_def example_account_def str_trunc_id PWD_HASH_LEN_def SALT_HEX_LEN_def NUL_def)
  have n: "ur_username example_account = cstr ''ada''" by (simp add: example_account_def cstr_def NUL_def)
  show ?thesis
    using user_authenticate_row [OF inv n, of db_call_ok "''secret''" out] constant_time_compare_eq [OF _ _ _ _, of "hash_password ''1'' ''secret''" "hash_password ''1'' ''secret''"]
      hash_password_props [of "''1''" "''secret''"]
    by (simp add: h db_call_ok_def)
qed

lemma example_logs_in:
  "a_db a = Some login_tables \<Longrightarrow> logs_in example_env login_request a = Some (cursor_to_user example_account)"
  by (simp add: logs_in_def login_fields example_env_def example_login)


text \<open>C29: logging out ends the session if its cookie is all there is in the header. If another cookie follows it, the
  separator is read as part of the token and the session stays as it was, although the browser is told to forget it.\<close>

theorem logout_needs_a_lone_cookie:
  assumes inv: "sessions_inv (a_sessions a)" and h: "http_request_header req ''cookie'' = Some h" "h_value h = ''sid='' @ token @ rest"
    and t: "token_like token" "h_trail h = []" and l: "route_get_logout env req a resp = (a', resp')"
  shows "(rest = [] \<longrightarrow> fst (get_session_user env2 req a') = None) \<and>
    (prefix '';'' rest \<longrightarrow> fst (get_session_user env2 req a') = fst (get_session_user env2 req a))"
proof -
  let ?tok = "token @ url_decode_loop (rest @ h_trail h @ [LF]) 1"
  have "?tok \<noteq> []" using t(1) by (auto simp: token_like_def TOKEN_HEX_LEN_def)
  then have a': "a_sessions a' = session_destroy ?tok (a_sessions a)"
    using l read_session_cookie(2) [OF h t(1)] by (auto simp: route_get_logout_def Let_def)
  have inv': "sessions_inv (a_sessions a')" using destroy_from [OF inv] by (simp add: a' sessions_from_def)
  have abs: "sessions_abs (a_sessions a') token = (if cstr token = cstr ?tok then None else sessions_abs (a_sessions a) token)"
    using delete_token(2) [of _ ?tok token] inv by (cases "a_sessions a") (simp_all add: a' session_destroy_def sessions_abs_def)
  have c: "cstr token = token" using token_like_nul_free [OF t(1)] by (rule cstr_id)
  note s = session_of_cookie [OF inv h t(1), of env2] session_of_cookie [OF inv' h t(1), of env2]
  show ?thesis
  proof (intro conjI impI)
    assume "rest = []"
    moreover have "url_decode_loop [LF] 1 = []" by (subst url_decode_loop.simps) (simp add: url_stop_def)
    ultimately show "fst (get_session_user env2 req a') = None" using s(2) abs t(2) by (simp add: verify_abs_def)
  next
    assume "prefix '';'' rest"
    then obtain r where r: "rest = CHR '';'' # r" by (auto simp: prefix_def)
    have "url_decode_loop (rest @ h_trail h @ [LF]) 1 = '';''"
      by (subst url_decode_loop.simps) (simp add: r url_stop_def NUL_def CR_def LF_def url_decode_no_room)
    moreover have "cstr (token @ '';'') = token @ '';''"
      by (rule cstr_id) (use token_like_nul_free [OF t(1)] in \<open>simp add: NUL_def\<close>)
    ultimately have "cstr token \<noteq> cstr ?tok" using c by simp
    with abs s show "fst (get_session_user env2 req a') = fst (get_session_user env2 req a)" by (simp add: verify_abs_def)
  qed
qed

lemma logout_needs_a_lone_cookie_witness:
  "\<exists>a token u. fst (get_session_user example_env (cookie_request (''sid='' @ token)) a) = Some u \<and>
     fst (get_session_user example_env (cookie_request (''sid='' @ token))
       (fst (route_get_logout example_env (cookie_request (''sid='' @ token)) a fresh_response))) = None \<and>
     fst (get_session_user example_env (cookie_request (''sid='' @ token @ ''; lang=it''))
       (fst (route_get_logout example_env (cookie_request (''sid='' @ token @ ''; lang=it'')) a fresh_response))) = Some u"
proof -
  obtain ss where ss: "sessions_inv (Some ss)" "\<forall>x. sessions_abs (Some ss) x = None" using session_example by blast
  define token where "token = generate_token \<lparr>ts_urandom = None, ts_rand = id\<rparr> TOKEN_HEX_LEN"
  have t: "token_like token" unfolding token_def by (rule generated_token_like)
  let ?s = "\<lparr>s_user = example_user, s_createdAt = 1000\<rparr>"
  let ?a = "(example_app no_tables)\<lparr>a_sessions := Some (snd (ht_set mem_ok ss (token_key token) [?s]))\<rparr>"
  have inv: "sessions_inv (a_sessions ?a)" using set_token(1) [OF ss(1)] by simp
  have abs: "sessions_abs (a_sessions ?a) token = Some ?s"
    using set_token(2) [OF ss(1), of mem_ok token ?s token] ht_set_ok [of ss "token_key token" "[?s]"] by simp
  have now: "verify_abs (en_time example_env 0) (a_sessions ?a) token = Some example_user"
    using abs by (simp add: verify_abs_def valid_at_def example_env_def SESSION_MAX_AGE_def)
  have v: "h_value \<lparr>h_name = Some ''Cookie'', h_value = ''sid='' @ token @ r, h_trail = []\<rparr> = ''sid='' @ token @ r" for r by simp
  note h = cookie_request_header [of "''sid='' @ token @ r" for r]
  have g: "fst (get_session_user example_env (cookie_request (''sid='' @ token @ r)) ?a) = Some example_user" for r
    using session_of_cookie [OF inv h v t, of example_env] now by simp
  note l = logout_needs_a_lone_cookie [OF inv h v t _ prod.collapse [symmetric], of _ example_env example_env fresh_response]
  from l [of "[]"] l [of "''; lang=it''"] g [of "[]"] g [of "''; lang=it''"] show ?thesis
    by (intro exI [of _ ?a] exI [of _ token] exI [of _ example_user]) simp
qed

end
