(* ===== verification/Freshness.thy ===== *)
theory Freshness
  imports AppSpec
begin

text \<open>
  The listing cache over many requests: as long as SQLite and cJSON answer, every listing that the server sends is the
  one a query of its tables gives at that moment, whoever changed what before.
\<close>

section \<open>The cache of a consistent application\<close>

text \<open>The city of an account.\<close>

definition home_of :: "tables \<Rightarrow> 64 word \<Rightarrow> bytes" where
  "home_of t u = (case find (\<lambda>n. ur_id n = sint u) (t_users t) of None \<Rightarrow> [] | Some n \<Rightarrow> ur_city n)"

definition known :: "tables \<Rightarrow> 64 word \<Rightarrow> bool" where
  "known t u \<longleftrightarrow> (\<exists>n\<in>set (t_users t). ur_id n = sint u)"

definition cache_fresh :: "json_printer \<Rightarrow> tables \<Rightarrow> cache \<Rightarrow> bool" where
  "cache_fresh pr t g \<longleftrightarrow> cache_coherent pr RESPONSE_BUFFER_SIZE (home_of t) t g \<and>
     (\<forall>e\<in>set g. cachedAt e \<noteq> 0 \<longrightarrow> known t (ce_userId e))"

text \<open>SQLite and cJSON answer: every statement compiles and steps through all rows, and no allocation fails.\<close>

definition answering :: "json_printer \<Rightarrow> tables \<Rightarrow> env \<Rightarrow> bool" where
  "answering pr t env \<longleftrightarrow> en_printer env = pr \<and> en_json env = json_mem_ok \<and>
     (\<forall>k. call_ok (en_db env k) \<and> length (t_reports t) \<le> dc_steps (en_db env k))"

lemma user_ids_distinct:
  "tables_inv t \<Longrightarrow> n \<in> set (t_users t) \<Longrightarrow> m \<in> set (t_users t) \<Longrightarrow> ur_id n = ur_id m \<Longrightarrow> n = m"
  by (meson keys_ok_distinct distinct_map inj_onD tables_inv_def)

lemma home_of_user:
  assumes "tables_inv t" and "n \<in> set (t_users t)" and "ur_id n = sint u"
  shows "home_of t u = ur_city n"
proof -
  obtain m where m: "find (\<lambda>n. ur_id n = sint u) (t_users t) = Some m"
    using assms(2,3) by (cases "find (\<lambda>n. ur_id n = sint u) (t_users t)") (auto simp: find_None_iff)
  then have "m \<in> set (t_users t)" "ur_id m = sint u" by (auto simp: find_Some_iff)
  with user_ids_distinct [OF assms(1,2)] assms(3) have "m = n" by simp
  with m show ?thesis by (simp add: home_of_def)
qed

lemma home_of_bounds:
  assumes "tables_consistent t"
  shows "nul_free (home_of t u) \<and> length (home_of t u) < CITY_LEN"
proof (cases "find (\<lambda>n. ur_id n = sint u) (t_users t)")
  case None
  then show ?thesis by (simp add: home_of_def CITY_LEN_def)
next
  case (Some m)
  then have "m \<in> set (t_users t)" by (auto simp: find_Some_iff)
  with assms Some show ?thesis by (auto simp: home_of_def tables_consistent_def)
qed

lemma home_of_row_user:
  assumes "tables_consistent t" and "n \<in> set (t_users t)"
  shows "home_of t (word_of_int (ur_id n)) = ur_city n"
proof (rule home_of_user)
  show inv: "tables_inv t" using assms(1) by (simp add: tables_consistent_def)
  show "ur_id n = sint (word_of_int (ur_id n) :: 64 word)"
    using user_id_bounds [OF inv assms(2)] by (simp add: sint_id)
qed (rule assms(2))

lemma consistent_home: "tables_consistent t \<Longrightarrow> reports_home (home_of t) t"
  unfolding reports_home_def
proof (intro conjI allI ballI impI)
  assume c: "tables_consistent t"
  show "nul_free (home_of t u)" "length (home_of t u) < CITY_LEN" for u using home_of_bounds [OF c] by blast+
  fix r assume r: "r \<in> set (t_reports t)"
  then have ok: "author_ok t r" "assignee_ok t r" using c by (auto simp: tables_consistent_def)
  then obtain n where n: "n \<in> set (t_users t)" "ur_id n = rr_author_id r" "ur_city n = rr_city r" by (auto simp: author_ok_def)
  with home_of_row_user [OF c n(1)] show "rr_city r = home_of t (word_of_int (rr_author_id r))" by simp
  fix op assume "rr_assigned_to r = Some op"
  with ok(2) obtain m where m: "m \<in> set (t_users t)" "ur_id m = op" "ur_city m = rr_city r" by (auto simp: assignee_ok_def)
  with home_of_row_user [OF c m(1)] show "rr_city r = home_of t (word_of_int op)" by simp
qed

lemma account_home:
  assumes "tables_consistent t" and "account t u"
  shows "city u = home_of t (userId u)" and "known t (userId u)"
proof -
  obtain n where n: "n \<in> set (t_users t)" "u = cursor_to_user n" using assms(2) by (auto simp: account_def)
  have inv: "tables_inv t" using assms(1) by (simp add: tables_consistent_def)
  show "city u = home_of t (userId u)"
    using home_of_user [OF inv n(1)] cursor_user(1,2) [OF assms(1) n(1)] n(2) by simp
  show "known t (userId u)" using n cursor_user(1) [OF assms(1) n(1)] by (auto simp: known_def)
qed

section \<open>What keeps the cache fresh\<close>

text \<open>The slots in use afterwards were there before, and the users are the same.\<close>

definition drops_slots :: "cache \<Rightarrow> cache \<Rightarrow> bool" where
  "drops_slots g g' \<longleftrightarrow> (\<forall>e\<in>set g'. cachedAt e \<noteq> 0 \<longrightarrow> e \<in> set g)"

lemma drops_refl [simp]: "drops_slots g g"
  by (simp add: drops_slots_def)

lemma drops_trans: "drops_slots g g1 \<Longrightarrow> drops_slots g1 g2 \<Longrightarrow> drops_slots g g2"
  by (auto simp: drops_slots_def)

lemma drops_invalidate [simp]: "drops_slots g (report_cache_invalidate_city cty author g)"
  by (auto simp: drops_slots_def report_cache_invalidate_city_def split: if_splits)

lemma drops_invalidate_report [simp]: "drops_slots g (invalidate_report c i db g)"
  by (simp add: invalidate_report_def split: option.split)

lemma cache_fresh_drop:
  assumes "cache_fresh pr t g" and "drops_slots g g'" and "t_users t' = t_users t"
    and "cache_coherent pr RESPONSE_BUFFER_SIZE (home_of t) t' g'"
  shows "cache_fresh pr t' g'"
proof -
  have "home_of t' = home_of t" by (rule ext) (simp add: home_of_def assms(3))
  moreover have "known t' u = known t u" for u by (simp add: known_def assms(3))
  ultimately show ?thesis using assms by (auto simp: cache_fresh_def drops_slots_def)
qed

text \<open>One write of a handler: \<open>res\<close> is the new database and cache.\<close>

definition write_fresh :: "json_printer \<Rightarrow> tables \<Rightarrow> database \<times> cache \<Rightarrow> bool" where
  "write_fresh pr t res \<longleftrightarrow> (\<exists>t'. fst res = Some t' \<and> t_users t' = t_users t \<and> cache_fresh pr t' (snd res))"

lemma guarded_update_drops:
  assumes "guarded_update c1 c2 s i (Some t, g) = (rc, db, g')"
    and "\<And>t'. exec_stmt s t = Some t' \<Longrightarrow> t_users t' = t_users t"
  shows "drops_slots g g' \<and> (\<exists>t'. db = Some t' \<and> t_users t' = t_users t)"
proof (cases "exec_stmt s t")
  case None
  with assms(1) show ?thesis by (auto simp: guarded_update_def db_exec_def Let_def split: if_splits)
next
  case (Some t')
  from assms(1) assms(2) [OF Some] show ?thesis
    by (auto simp: guarded_update_def db_exec_def Some Let_def split: if_splits)
qed

lemma write_freshI:
  assumes "tables_consistent t" and "cache_fresh pr t g" and "drops_slots g (snd res)"
    and "\<exists>t'. fst res = Some t' \<and> t_users t' = t_users t"
    and "\<And>t'. res = (Some t', snd res) \<Longrightarrow> tables_inv t' \<and> reports_home (home_of t) t' \<and>
      cache_coherent pr RESPONSE_BUFFER_SIZE (home_of t) t' (snd res)"
  shows "write_fresh pr t res"
proof -
  obtain t' where t': "fst res = Some t'" "t_users t' = t_users t" using assms(4) by blast
  then have "res = (Some t', snd res)" by (metis prod.collapse)
  from cache_fresh_drop [OF assms(2,3) t'(2)] assms(5) [OF this] t' show ?thesis by (auto simp: write_fresh_def)
qed

lemma operator_writes_fresh:
  assumes c: "tables_consistent t" and f: "cache_fresh pr t g" and c2: "call_ok c2"
  shows "write_fresh pr t (snd (report_accept c1 c2 i op (Some t, g)))"
    and "write_fresh pr t (snd (report_reject c1 c2 i op (Some t, g)))"
    and "write_fresh pr t (snd (report_resolve c1 c2 now i op (Some t, g)))"
    and "write_fresh pr t (snd (report_set_feedback c1 c2 i author stars (Some t, g)))"
proof -
  have inv: "tables_inv t" using c by (simp add: tables_consistent_def)
  have coh: "cache_coherent pr RESPONSE_BUFFER_SIZE (home_of t) t g" using f by (simp add: cache_fresh_def)
  note all = inv consistent_home [OF c] coh c2
  obtain rc db g' where r: "report_accept c1 c2 i op (Some t, g) = (rc, db, g')" by (rule prod_cases3)
  from guarded_update_drops [OF r [unfolded report_accept_def]] operator_update_coherent(1) [OF all] r
  show "write_fresh pr t (snd (report_accept c1 c2 i op (Some t, g)))"
    by (intro write_freshI [OF c f]) auto
  obtain rc db g' where r: "report_reject c1 c2 i op (Some t, g) = (rc, db, g')" by (rule prod_cases3)
  from guarded_update_drops [OF r [unfolded report_reject_def]] operator_update_coherent(2) [OF all] r
  show "write_fresh pr t (snd (report_reject c1 c2 i op (Some t, g)))"
    by (intro write_freshI [OF c f]) auto
  obtain rc db g' where r: "report_resolve c1 c2 now i op (Some t, g) = (rc, db, g')" by (rule prod_cases3)
  from guarded_update_drops [OF r [unfolded report_resolve_def]] operator_update_coherent(3) [OF all] r
  show "write_fresh pr t (snd (report_resolve c1 c2 now i op (Some t, g)))"
    by (intro write_freshI [OF c f]) auto
  obtain rc db g' where r: "report_set_feedback c1 c2 i author stars (Some t, g) = (rc, db, g')" by (rule prod_cases3)
  show "write_fresh pr t (snd (report_set_feedback c1 c2 i author stars (Some t, g)))"
  proof (cases "stars < 1 \<or> stars > 5")
    case True
    with f show ?thesis by (simp add: report_set_feedback_def write_fresh_def)
  next
    case False
    then have "guarded_update c1 c2 (FeedbackReport stars (sint i) (sint author)) i (Some t, g) = (rc, db, g')"
      using r by (simp add: report_set_feedback_def)
    from guarded_update_drops [OF this] feedback_coherent [OF all] r
    show ?thesis by (intro write_freshI [OF c f]) auto
  qed
qed

lemma insert_write_fresh:
  assumes c: "tables_consistent t" and f: "cache_fresh pr t g" and cty: "cty = home_of t author"
  shows "write_fresh pr t (snd (report_insert c1 now author la lo cty cat desc (Some t, g)))"
proof -
  have inv: "tables_inv t" using c by (simp add: tables_consistent_def)
  have coh: "cache_coherent pr RESPONSE_BUFFER_SIZE (home_of t) t g" using f by (simp add: cache_fresh_def)
  obtain i db g' where r: "report_insert c1 now author la lo cty cat desc (Some t, g) = (i, db, g')" by (rule prod_cases3)
  have "drops_slots g g' \<and> (\<exists>t'. db = Some t' \<and> t_users t' = t_users t)"
    using r by (cases "next_rowid (t_report_seq t)") (auto simp: report_insert_def db_exec_def Let_def split: if_splits)
  with insert_coherent [OF inv consistent_home [OF c] coh cty] r show ?thesis by (intro write_freshI [OF c f]) auto
qed

lemma assign_write_fresh:
  assumes c: "tables_consistent t" and f: "cache_fresh pr t g" and c2: "call_ok c2"
    and h: "\<And>r. r \<in> set (t_reports t) \<Longrightarrow> rr_id r = sint i \<Longrightarrow> rr_city r = home_of t op"
  shows "write_fresh pr t (snd (report_assign c1 c2 now i op (Some t, g)))"
proof -
  have inv: "tables_inv t" using c by (simp add: tables_consistent_def)
  have coh: "cache_coherent pr RESPONSE_BUFFER_SIZE (home_of t) t g" using f by (simp add: cache_fresh_def)
  obtain rc db g' where r: "report_assign c1 c2 now i op (Some t, g) = (rc, db, g')" by (rule prod_cases3)
  from guarded_update_drops [OF r [unfolded report_assign_def]] assign_coherent [OF inv consistent_home [OF c] coh c2 _ h] r
  show ?thesis by (intro write_freshI [OF c f]) auto
qed

text \<open>The second attempt of an assignment: the report is reset, without a word to the cache, and assigned again.\<close>

lemma invalidate_report_rows:
  "t_reports t = t_reports t' \<Longrightarrow> invalidate_report c i (Some t) g = invalidate_report c i (Some t') g"
  by (simp add: invalidate_report_def report_get_by_id_def db_cursor_reports_def prepare_stmt_iff)

lemma coherent_rows:
  "t_reports t = t_reports t' \<Longrightarrow> cache_coherent pr mx home t g = cache_coherent pr mx home t' g"
  using listing_text_cong [of _ _ _ t t' pr mx] by (simp add: cache_coherent_def slot_coherent_def)

lemma tables_inv_cong:
  "t_users t = t_users t' \<Longrightarrow> t_user_seq t = t_user_seq t' \<Longrightarrow> t_report_seq t = t_report_seq t' \<Longrightarrow>
    t_reports t = t_reports t' \<Longrightarrow> tables_inv t = tables_inv t'"
  by (simp add: tables_inv_def)

lemma reassign_write_fresh:
  assumes c: "tables_consistent t" and f: "cache_fresh pr t g" and c7: "call_ok c5" "call_ok c6" "call_ok c7"
    and r: "r \<in> set (t_reports t)" "rr_id r = sint i" "rr_status r = 1" "rr_city r = home_of t op"
    and t2: "db_exec c5 (ResetReport (sint i)) (Some t) = (ok, db2)"
  shows "write_fresh pr t (snd (report_assign c6 c7 now i op (db2, g)))"
proof -
  have inv: "tables_inv t" using c by (simp add: tables_consistent_def)
  have coh: "cache_coherent pr RESPONSE_BUFFER_SIZE (home_of t) t g" using f by (simp add: cache_fresh_def)
  let ?t2 = "update_reports (\<lambda>x. rr_id x = sint i \<and> rr_status x = 1)
    (\<lambda>x. x\<lparr>rr_status := 0, rr_assigned_to := None, rr_assigned_at := None\<rparr>) t"
  let ?f = "\<lambda>x. x\<lparr>rr_status := 1, rr_assigned_to := Some (sint op), rr_assigned_at := Some now\<rparr>"
  let ?t3 = "update_reports (\<lambda>x. rr_id x = sint i \<and> rr_status x = 0 \<and> rr_assigned_to x = None) ?f ?t2"
  let ?u = "update_reports (\<lambda>x. rr_id x = rr_id r \<and> True) ?f t"
  have db2: "db2 = Some ?t2" using t2 c7(1) by (simp add: db_exec_def prepare_stmt_iff call_ok_def)
  have st: "rr_status x = 1" if "x \<in> set (t_reports t)" "rr_id x = sint i" for x
    using same_id [OF inv r(1) that(1)] that(2) r(2,3) by simp
  have rows: "t_reports ?t3 = t_reports ?u" using st r(2) by auto
  have "tables_inv ?t2" by (rule exec_stmt_inv [OF inv, of "ResetReport (sint i)"]) simp_all
  then have inv3: "tables_inv ?t3" by (rule exec_stmt_inv [where s = "AssignReport (sint op) now (sint i)"]) simp_all
  have e: "t_users ?u = t_users ?t3" "t_user_seq ?u = t_user_seq ?t3" "t_report_seq ?u = t_report_seq ?t3" by simp_all
  have invu: "tables_inv ?u" by (rule tables_inv_cong [OF e rows [symmetric], THEN iffD2, OF inv3])
  have o: "rr_city r = home_of t (word_of_int opa)" if "rr_assigned_to (?f r) = Some opa" for opa
    using that r(4) word_of_sint [of op] by auto
  have u: "cache_coherent pr RESPONSE_BUFFER_SIZE (home_of t) ?u (invalidate_report c7 i (Some ?u) g)"
    by (rule update_coherent(1) [OF inv consistent_home [OF c] r(1) coh c7(3) refl invu]) (use r(2) o in auto)
  have "filter (\<lambda>x. rr_id x = sint i \<and> rr_status x = 0 \<and> rr_assigned_to x = None) (t_reports ?t2) \<noteq> []"
  proof -
    have "r\<lparr>rr_status := 0, rr_assigned_to := None, rr_assigned_at := None\<rparr> \<in> set (t_reports ?t2)"
      unfolding update_reports_simps set_map by (rule image_eqI [OF _ r(1)]) (simp add: r(2,3))
    with r(2) show ?thesis by (force simp: filter_empty_conv simp del: update_reports_simps)
  qed
  then have ch: "t_changes ?t3 \<noteq> 0" by (simp only: update_reports_simps of_nat_eq_0_iff length_0_conv not_False_eq_True)
  have ex: "exec_stmt (AssignReport (sint op) now (sint i)) ?t2 = Some ?t3" by simp
  have "snd (report_assign c6 c7 now i op (db2, g)) = (Some ?t3, invalidate_report c7 i (Some ?t3) g)"
    using c7(2) ch ex unfolding db2
    by (simp add: report_assign_def guarded_update_def db_exec_def prepare_stmt_iff call_ok_def db_changes_def Let_def
        del: exec_stmt.simps update_reports_simps)
  moreover have "cache_fresh pr ?t3 (invalidate_report c7 i (Some ?t3) g)"
    using u by (intro cache_fresh_drop [OF f]) (simp_all only: coherent_rows [OF rows] invalidate_report_rows [OF rows]
      drops_invalidate_report update_reports_simps)
  ultimately show ?thesis by (simp add: write_fresh_def)
qed

text \<open>A listing stores at most a slot of the user that asked.\<close>

lemma cache_find_drops: "cache_find now cty uid isOp isArch g = (res, g') \<Longrightarrow> drops_slots g g'"
proof (induction g arbitrary: res g')
  case (Cons e g)
  obtain res2 g2 where r: "cache_find now cty uid isOp isArch g = (res2, g2)" by fastforce
  with Cons.prems Cons.IH [OF r] show ?case by (auto simp: drops_slots_def split: if_splits)
qed simp

lemma cached_listing_slots:
  assumes "cached_listing pr jm c now q mx uid cty isOp isArch db g = (n, s, g')" and "e \<in> set g'" and "cachedAt e \<noteq> 0"
  shows "e \<in> set g \<or> ce_userId e = uid"
proof -
  obtain res g1 where f: "cache_find now cty uid isOp isArch g = (res, g1)" by fastforce
  have d: "e \<in> set g" if "e \<in> set g1" using cache_find_drops [OF f] that assms(3) by (simp add: drops_slots_def)
  show ?thesis
  proof (cases res)
    case (Some x)
    with assms(1,2) f d show ?thesis by (simp add: cached_listing_def)
  next
    case None
    then have "g' = g1 \<or> g' = cache_store now cty uid isOp isArch s g1"
      using assms(1) f by (auto simp: cached_listing_def Let_def split: prod.splits if_splits)
    with assms(2) d show ?thesis
      by (auto simp: cache_store_def split: if_splits dest!: set_update_subset_insert [THEN subsetD])
  qed
qed

lemma listing_fresh:
  assumes c: "tables_consistent t" and u: "account t u" and f: "cache_fresh pr t g" and an: "answering pr t env"
    and r: "(if isArch then report_get_archived_json else report_get_active_json) (en_printer env) (en_json env) (en_db env k)
      now RESPONSE_BUFFER_SIZE (userId u) (city u) isOp (Some t) g = (n, s, g')"
  shows "cache_fresh pr t g'" and "n = length s"
    and "s = (case listing_text pr RESPONSE_BUFFER_SIZE t (userId u) isOp isArch of None \<Rightarrow> [] | Some s \<Rightarrow> s)"
proof -
  have e: "en_printer env = pr" "en_json env = json_mem_ok" "dc_prepared (en_db env k)" "length (t_reports t) \<le> dc_steps (en_db env k)"
    using an by (simp_all add: answering_def call_ok_def)
  note h = account_home [OF c u]
  have cl: "cached_listing pr json_mem_ok (en_db env k) now (listing_query (userId u) isOp isArch) RESPONSE_BUFFER_SIZE
      (userId u) (home_of t (userId u)) isOp isArch (Some t) g = (n, s, g')"
    using r unfolding listing_is_cached e(1,2) h(1) .
  have coh: "cache_coherent pr RESPONSE_BUFFER_SIZE (home_of t) t g" using f by (simp add: cache_fresh_def)
  note l = cached_listing_coherent [OF coh _ _ e(3,4) cl]
  have b: "nul_free (home_of t (userId u))" "length (home_of t (userId u)) < CITY_LEN" using home_of_bounds [OF c] by blast+
  show "n = length s" and "s = (case listing_text pr RESPONSE_BUFFER_SIZE t (userId u) isOp isArch of None \<Rightarrow> [] | Some s \<Rightarrow> s)"
    using l(2,3) [OF b] by blast+
  have "known t (ce_userId e)" if "e \<in> set g'" "cachedAt e \<noteq> 0" for e
    using cached_listing_slots [OF cl that] that f h(2) by (auto simp: cache_fresh_def)
  with l(1) [OF b] show "cache_fresh pr t g'" by (auto simp: cache_fresh_def)
qed

text \<open>A new account: nothing is cached for it yet.\<close>

lemma home_of_append:
  assumes "known t u" and "t_users t' = t_users t @ ns"
  shows "home_of t' u = home_of t u" and "known t' u"
proof -
  have f: "find P (xs @ ys) = (case find P xs of None \<Rightarrow> find P ys | Some x \<Rightarrow> Some x)" for P :: "user_row \<Rightarrow> bool" and xs ys
    by (induction xs) auto
  obtain m where "find (\<lambda>n. ur_id n = sint u) (t_users t) = Some m"
    using assms(1) by (cases "find (\<lambda>n. ur_id n = sint u) (t_users t)") (auto simp: find_None_iff known_def)
  then show "home_of t' u = home_of t u" by (simp add: home_of_def assms(2) f)
  show "known t' u" using assms by (auto simp: known_def)
qed

lemma new_account_fresh:
  assumes f: "cache_fresh pr t g" and u: "t_users t' = t_users t @ ns" and r: "t_reports t' = t_reports t"
  shows "cache_fresh pr t' g"
proof -
  have "slot_coherent pr RESPONSE_BUFFER_SIZE (home_of t') t' e \<and> (cachedAt e \<noteq> 0 \<longrightarrow> known t' (ce_userId e))"
    if e: "e \<in> set g" for e
  proof (cases "cachedAt e = 0")
    case False
    then have "known t (ce_userId e)" "slot_coherent pr RESPONSE_BUFFER_SIZE (home_of t) t e"
      using f e by (auto simp: cache_fresh_def cache_coherent_def)
    with home_of_append [OF _ u] listing_text_cong [of _ _ _ t' t] r show ?thesis by (simp add: slot_coherent_def)
  qed (simp add: slot_coherent_def)
  then show ?thesis by (auto simp: cache_fresh_def cache_coherent_def)
qed

section \<open>The handlers\<close>

definition fresh_app :: "json_printer \<Rightarrow> app \<Rightarrow> bool" where
  "fresh_app pr a \<longleftrightarrow> app_inv a \<and> (\<exists>t. a_db a = Some t \<and> cache_fresh pr t (a_cache a))"

text \<open>What a handler does to the database and the cache.\<close>

definition fresh_step :: "json_printer \<Rightarrow> env \<Rightarrow> http_request \<Rightarrow> app \<Rightarrow> app \<Rightarrow> bool" where
  "fresh_step pr env req a a' \<longleftrightarrow>
     (\<forall>t. app_inv a \<and> a_db a = Some t \<and> tables_consistent t \<and> cache_fresh pr t (a_cache a) \<and> answering pr t env \<longrightarrow>
        (\<exists>t'. a_db a' = Some t' \<and> cache_fresh pr t' (a_cache a')))"

lemma fresh_step_same: "a_db a' = a_db a \<Longrightarrow> a_cache a' = a_cache a \<Longrightarrow> fresh_step pr env req a a'"
  by (simp add: fresh_step_def)

lemma session_account:
  assumes "app_inv a" and "a_db a = Some t" and "get_session_user env req a = (Some u, a1)"
  shows "account t u"
proof -
  have s: "sessions_inv (a_sessions a)" "\<forall>x s. sessions_abs (a_sessions a) x = Some s \<longrightarrow> account t (s_user s)"
    using assms(1,2) by (auto simp: app_inv_def)
  from get_session_from(2) [OF s(1) assms(3) refl] s(2) show ?thesis by auto
qed

text \<open>The handlers that neither list nor write.\<close>

definition idle_handlers :: "handler set" where
  "idle_handlers = {route_get_root, route_get_home, route_get_register, route_get_submit, route_get_logout,
     route_api_cities, route_api_reports_all, route_api_operators, route_static_css, route_static_docs, route_post_login}"

lemma idle_handlers_cache: "h \<in> idle_handlers \<Longrightarrow> a_cache (fst (h env req a resp)) = a_cache a"
  unfolding idle_handlers_def
  by (elim insertE emptyE; auto simp: handler_defs Let_def split: prod.split option.split bool.split dest: get_session_keeps(2))

lemma idle_handlers_db: "h \<in> idle_handlers \<Longrightarrow> a_db (fst (h env req a resp)) = a_db a"
  by (rule read_handlers_keep_db) (auto simp: idle_handlers_def read_handlers_def)

lemma fresh_idle: "h \<in> idle_handlers \<Longrightarrow> fresh_step pr env req a (fst (h env req a resp))"
  using idle_handlers_cache [of h env req a resp] idle_handlers_db [of h env req a resp]
  by (intro fresh_step_same) simp_all

lemma fresh_listing:
  shows "fresh_step pr env req a (fst (route_api_reports_active env req a resp))"
    and "fresh_step pr env req a (fst (route_api_reports_archived env req a resp))"
proof -
  obtain who a1 where g: "get_session_user env req a = (who, a1)" by fastforce
  note k = get_session_keeps [OF g]
  have both: "(\<exists>t'. a_db (fst (h env req a resp)) = Some t' \<and> cache_fresh pr t' (a_cache (fst (h env req a resp))))"
    if pre: "app_inv a" "a_db a = Some t" "tables_consistent t" "cache_fresh pr t (a_cache a)" "answering pr t env"
      and h: "h = (if isArch then route_api_reports_archived else route_api_reports_active)" for t h isArch
  proof (cases who)
    case None
    with pre g k h show ?thesis by (cases isArch) (simp_all add: route_api_reports_active_def route_api_reports_archived_def)
  next
    case (Some u)
    have ac: "account t u" by (rule session_account [OF pre(1,2)]) (use g Some in simp)
    obtain n s g' where l: "(if isArch then report_get_archived_json else report_get_active_json) (en_printer env) (en_json env)
        (en_db env 0) (en_time env 1) RESPONSE_BUFFER_SIZE (userId u) (city u) (user_is_operator (Some u)) (Some t) (a_cache a) = (n, s, g')"
      by (rule prod_cases3)
    from listing_fresh(1) [OF pre(3) ac pre(4,5) l] l g k h Some pre(2) show ?thesis
      by (cases isArch) (simp_all add: route_api_reports_active_def route_api_reports_archived_def)
  qed
  show "fresh_step pr env req a (fst (route_api_reports_active env req a resp))"
    using both [where isArch = False] by (simp add: fresh_step_def)
  show "fresh_step pr env req a (fst (route_api_reports_archived env req a resp))"
    using both [where isArch = True] by (simp add: fresh_step_def)
qed

text \<open>A handler that writes: it leaves both alone, or ends in one of the operations.\<close>

lemma fresh_stepI:
  assumes "\<And>t. \<lbrakk>app_inv a; a_db a = Some t; tables_consistent t; cache_fresh pr t (a_cache a); answering pr t env;
      (a_db a', a_cache a') \<noteq> (a_db a, a_cache a)\<rbrakk> \<Longrightarrow> write_fresh pr t (a_db a', a_cache a')"
  shows "fresh_step pr env req a a'"
proof -
  have "\<exists>t'. a_db a' = Some t' \<and> cache_fresh pr t' (a_cache a')"
    if "app_inv a" "a_db a = Some t" "tables_consistent t" "cache_fresh pr t (a_cache a)" "answering pr t env" for t
    using assms [OF that] that by (cases "(a_db a', a_cache a') = (a_db a, a_cache a)") (auto simp: write_fresh_def)
  then show ?thesis by (simp add: fresh_step_def)
qed

lemma answering_ok: "answering pr t env \<Longrightarrow> call_ok (en_db env k)"
  by (simp add: answering_def)

lemma fresh_submit: "fresh_step pr env req a (fst (route_post_submit env req a resp))"
proof (rule fresh_stepI)
  let ?a = "fst (route_post_submit env req a resp)"
  fix t assume t: "app_inv a" "a_db a = Some t" "tables_consistent t" "cache_fresh pr t (a_cache a)"
    and n: "(a_db ?a, a_cache ?a) \<noteq> (a_db a, a_cache a)"
  obtain who a1 where g: "get_session_user env req a = (who, a1)" by fastforce
  note k = get_session_keeps [OF g]
  from n obtain u where u: "who = Some u" using g k by (cases who) (auto simp: route_post_submit_def)
  then obtain la lo cat desc where e: "(a_db ?a, a_cache ?a) =
      snd (report_insert (en_db env 0) (en_time env 1) (userId u) la lo (city u) cat desc (Some t, a_cache a))"
    using g k t(2) n by (simp add: route_post_submit_def Let_def case_prod_beta split: if_splits)
  have "account t u" by (rule session_account [OF t(1,2)]) (use g u in simp)
  from insert_write_fresh [OF t(3,4) account_home(1) [OF t(3) this]] show "write_fresh pr t (a_db ?a, a_cache ?a)"
    unfolding e .
qed

lemma fresh_feedback: "fresh_step pr env req a (fst (route_api_report_feedback env req a resp))"
proof (rule fresh_stepI)
  let ?a = "fst (route_api_report_feedback env req a resp)"
  fix t assume t: "app_inv a" "a_db a = Some t" "tables_consistent t" "cache_fresh pr t (a_cache a)"
    and an: "answering pr t env" and n: "(a_db ?a, a_cache ?a) \<noteq> (a_db a, a_cache a)"
  obtain who a1 where g: "get_session_user env req a = (who, a1)" by fastforce
  note k = get_session_keeps [OF g]
  obtain i u stars where e: "(a_db ?a, a_cache ?a) =
      snd (report_set_feedback (en_db env 0) (en_db env 1) i u stars (Some t, a_cache a))"
    using g k t(2) n by (simp add: route_api_report_feedback_def Let_def case_prod_beta split: if_splits)
  show "write_fresh pr t (a_db ?a, a_cache ?a)"
    unfolding e by (rule operator_writes_fresh(4) [OF t(3,4) answering_ok [OF an]])
qed

lemma fresh_status: "fresh_step pr env req a (fst (route_api_report_status env req a resp))"
proof (rule fresh_stepI)
  let ?a = "fst (route_api_report_status env req a resp)"
  fix t assume t: "app_inv a" "a_db a = Some t" "tables_consistent t" "cache_fresh pr t (a_cache a)"
    and an: "answering pr t env" and n: "(a_db ?a, a_cache ?a) \<noteq> (a_db a, a_cache a)"
  obtain who a1 where g: "get_session_user env req a = (who, a1)" by fastforce
  note k = get_session_keeps [OF g]
  obtain i u where e: "(a_db ?a, a_cache ?a) =
      snd (report_resolve (en_db env 1) (en_db env 2) (en_time env 1) i u (Some t, a_cache a))"
    using g k t(2) n by (simp add: route_api_report_status_def Let_def case_prod_beta split: if_splits option.splits)
  show "write_fresh pr t (a_db ?a, a_cache ?a)"
    unfolding e by (rule operator_writes_fresh(3) [OF t(3,4) answering_ok [OF an]])
qed

lemma fresh_respond: "fresh_step pr env req a (fst (route_api_report_respond env req a resp))"
proof (rule fresh_stepI)
  let ?a = "fst (route_api_report_respond env req a resp)"
  fix t assume t: "app_inv a" "a_db a = Some t" "tables_consistent t" "cache_fresh pr t (a_cache a)"
    and an: "answering pr t env" and n: "(a_db ?a, a_cache ?a) \<noteq> (a_db a, a_cache a)"
  obtain who a1 where g: "get_session_user env req a = (who, a1)" by fastforce
  note k = get_session_keeps [OF g]
  obtain i u where e: "(a_db ?a, a_cache ?a) = snd (report_accept (en_db env 1) (en_db env 2) i u (Some t, a_cache a)) \<or>
      (a_db ?a, a_cache ?a) = snd (report_reject (en_db env 1) (en_db env 2) i u (Some t, a_cache a))"
    using g k t(2) n by (simp add: route_api_report_respond_def Let_def case_prod_beta split: if_splits option.splits) metis+
  from operator_writes_fresh(1,2) [OF t(3,4) answering_ok [OF an]] e show "write_fresh pr t (a_db ?a, a_cache ?a)" by metis
qed

lemma assign_refused:
  assumes "report_assign c1 c2 now i op (Some t, g) = (0, db, g1)"
  shows "g1 = g \<and> (\<exists>t1. db = Some t1 \<and> t_users t1 = t_users t \<and> t_reports t1 = t_reports t \<and>
    t_user_seq t1 = t_user_seq t \<and> t_report_seq t1 = t_report_seq t)"
proof -
  let ?P = "\<lambda>x. rr_id x = sint i \<and> rr_status x = 0 \<and> rr_assigned_to x = None"
  let ?t = "update_reports ?P (\<lambda>x. x\<lparr>rr_status := 1, rr_assigned_to := Some (sint op), rr_assigned_at := Some now\<rparr>) t"
  have "g1 = g \<and> db = Some ?t \<and> t_changes ?t = 0"
    using assms by (auto simp: report_assign_def guarded_update_def db_exec_def db_changes_def Let_def
        simp del: update_reports_simps split: if_splits)
  moreover have "t_reports ?t = t_reports t" if "t_changes ?t = 0"
  proof -
    from that have "filter ?P (t_reports t) = []" by simp
    then have "\<not> ?P x" if "x \<in> set (t_reports t)" for x using that by (simp only: filter_empty_conv) blast
    then show ?thesis by (simp only: update_reports_simps) (rule map_idI, simp only: if_False)
  qed
  ultimately show ?thesis by auto
qed

lemma consistent_cong:
  assumes "t_users t' = t_users t" "t_reports t' = t_reports t" "t_user_seq t' = t_user_seq t" "t_report_seq t' = t_report_seq t"
  shows "tables_consistent t' = tables_consistent t"
  using assms tables_inv_cong [of t' t] by (simp add: tables_consistent_def author_ok_def assignee_ok_def)

lemma assigned_status:
  assumes "tables_inv t" and "r \<in> set (t_reports t)" and "status (cursor_to_report r) = STATUS_ASSIGNED"
  shows "rr_status r = 1"
proof -
  have "report_row_ok r" using assms(1,2) unfolding tables_inv_def by blast
  then have "rr_status r \<in> {0, 1, 2, 3}" unfolding report_row_ok_def by blast
  with assms(3) show ?thesis by (auto simp: cursor_to_report_def STATUS_ASSIGNED_def)
qed

lemma assign_or_reassign_fresh:
  assumes c: "tables_consistent t" and f: "cache_fresh pr t g" and an: "answering pr t env"
    and row: "row \<in> set (t_reports t)" "rr_id row = sint i" "rr_city row = home_of t op"
  shows "write_fresh pr t (snd (assign_or_reassign env i op (Some t, g)))"
proof -
  note ok = answering_ok [OF an]
  have inv: "tables_inv t" using c by (simp add: tables_consistent_def)
  have home: "rr_city r = home_of t op" if "r \<in> set (t_reports t)" "rr_id r = sint i" for r
    using same_id [OF inv row(1) that(1)] that(2) row(2,3) by simp
  obtain rc db g1 where a: "report_assign (en_db env 2) (en_db env 3) (en_time env 1) i op (Some t, g) = (rc, db, g1)"
    by (rule prod_cases3)
  have "write_fresh pr t (snd (report_assign (en_db env 2) (en_db env 3) (en_time env 1) i op (Some t, g)))"
    by (rule assign_write_fresh [OF c f ok home])
  with a have w: "write_fresh pr t (db, g1)" by simp
  show ?thesis
  proof (cases "snd (assign_or_reassign env i op (Some t, g)) = (db, g1)")
    case True
    with w show ?thesis by simp
  next
    case False
    obtain ok5 db2 where x: "db_exec (en_db env 5) (ResetReport (sint i)) db = (ok5, db2)" by fastforce
    from False a x obtain rr where rc: "rc = 0" and rr: "report_get_by_id (en_db env 4) i db = Some rr" "status rr = STATUS_ASSIGNED"
      and e: "assign_or_reassign env i op (Some t, g) = report_assign (en_db env 6) (en_db env 7) (en_time env 2) i op (db2, g1)"
      by (auto simp: assign_or_reassign_def split: if_splits option.splits)
    from assign_refused [OF a [unfolded rc]] obtain t1 where t1: "g1 = g" "db = Some t1" "t_users t1 = t_users t"
        "t_reports t1 = t_reports t" "t_user_seq t1 = t_user_seq t" "t_report_seq t1 = t_report_seq t" by blast
    from get_by_id_effect [OF rr(1) [unfolded t1(2)]] obtain r where
      r: "r \<in> set (t_reports t1)" "rr_id r = sint i" "rr = cursor_to_report r" .
    have c1: "tables_consistent t1" using c by (simp only: consistent_cong [OF t1(3-6)])
    have "tables_inv t1" using c1 by (simp add: tables_consistent_def)
    from assigned_status [OF this r(1)] rr(2) r(3) have st: "rr_status r = 1" by simp
    have h: "home_of t1 = home_of t" by (rule ext) (simp add: home_of_def t1(3))
    have "cache_fresh pr t1 g"
      using f coherent_rows [OF t1(4)] by (simp add: cache_fresh_def h known_def t1(3))
    from reassign_write_fresh [OF c1 this ok ok ok r(1,2) st _ x [unfolded t1(2)]] home [of r] r(1,2) t1(4)
    have "write_fresh pr t1 (snd (report_assign (en_db env 6) (en_db env 7) (en_time env 2) i op (db2, g)))" by (simp add: h)
    then show ?thesis unfolding e t1(1) by (simp add: write_fresh_def t1(3))
  qed
qed

lemma fresh_assign: "fresh_step pr env req a (fst (route_api_admin_assign env req a resp))"
proof (rule fresh_stepI)
  let ?a = "fst (route_api_admin_assign env req a resp)"
  let ?i = "strtoull (get_field (hr_body req) ''report_id='' REPORT_ID_PARAM_LEN)"
    and ?o = "strtoull (get_field (hr_body req) ''operator_id='' OPERATOR_ID_PARAM_LEN)"
  fix t assume t: "app_inv a" "a_db a = Some t" "tables_consistent t" "cache_fresh pr t (a_cache a)"
    and an: "answering pr t env" and n: "(a_db ?a, a_cache ?a) \<noteq> (a_db a, a_cache a)"
  obtain who a1 where g: "get_session_user env req a = (who, a1)" by fastforce
  note k = get_session_keeps [OF g]
  obtain u r opr where u: "who = Some u" and e: "(a_db ?a, a_cache ?a) = snd (assign_or_reassign env ?i ?o (Some t, a_cache a))"
    and row: "report_get_by_id (en_db env 0) ?i (Some t) = Some r" "strn_eq CITY_LEN (report_city r) (city u)"
    and op: "user_get_by_id (en_db env 1) ?o no_user (Some t) = (True, opr)" "strn_eq CITY_LEN (city opr) (city u)"
    using g k t(2) n
    by (auto simp: route_api_admin_assign_def Let_def split: option.splits if_splits prod.splits)
  from get_by_id_effect [OF row(1)] obtain x where x: "x \<in> set (t_reports t)" "rr_id x = sint ?i" "r = cursor_to_report x" .
  from user_by_id_effect [OF op(1)] obtain o' where o': "o' \<in> set (t_users t)" "ur_id o' = sint ?o" "opr = cursor_to_user o'" .
  have "account t u" by (rule session_account [OF t(1,2)]) (use g u in simp)
  then obtain m where m: "m \<in> set (t_users t)" "u = cursor_to_user m" by (auto simp: account_def)
  have inv: "tables_inv t" using t(3) by (simp add: tables_consistent_def)
  note cu = cursor_user(2) [OF t(3) m(1)] cursor_user(2) [OF t(3) o'(1)] and cr = report_city_bounds [OF t(3) x(1)]
  have b: "nul_free (ur_city y) \<and> length (ur_city y) < CITY_LEN" if "y \<in> set (t_users t)" for y
    using that t(3) by (simp add: tables_consistent_def)
  have "rr_city x = ur_city m" "ur_city o' = ur_city m"
    using row(2) op(2) cu cr b [OF m(1)] b [OF o'(1)] x(3) o'(3) m(2) by (simp_all add: strn_eq_iff)
  then have "rr_city x = home_of t ?o" using home_of_user [OF inv o'(1,2)] by simp
  from assign_or_reassign_fresh [OF t(3,4) an x(1,2) this] show "write_fresh pr t (a_db ?a, a_cache ?a)" unfolding e .
qed

lemma register_appends:
  assumes "user_register c urandom rnd n p cty rl (Some t) = (ok, db)"
  shows "\<exists>t' ns. db = Some t' \<and> t_users t' = t_users t @ ns \<and> t_reports t' = t_reports t"
  using assms
proof (cases rule: user_register_cases)
  case failed
  then show ?thesis by (intro exI [of _ t] exI [of _ "[]"]) simp
qed auto

lemma register_admin_appends:
  assumes "user_register_admin c1 c2 urandom rnd n p cty (Some t) = (rc, db)"
  shows "\<exists>t' ns. db = Some t' \<and> t_users t' = t_users t @ ns \<and> t_reports t' = t_reports t"
proof (cases "db = Some t")
  case True
  then show ?thesis by (intro exI [of _ t] exI [of _ "[]"]) simp
next
  case False
  obtain ok db' where r: "user_register c2 urandom rnd n p cty ROLE_ADMIN (Some t) = (ok, db')" by fastforce
  with assms False have "db = db'" by (auto simp: user_register_admin_def Let_def split: if_splits)
  with register_appends [OF r] show ?thesis by simp
qed

lemma fresh_register: "fresh_step pr env req a (fst (route_post_register env req a resp))"
proof -
  have c: "a_cache (fst (route_post_register env req a resp)) = a_cache a"
    by (auto simp: route_post_register_def Let_def split: prod.split)
  have "\<exists>t' ns. a_db (fst (route_post_register env req a resp)) = Some t' \<and> t_users t' = t_users t @ ns \<and> t_reports t' = t_reports t"
    if t: "a_db a = Some t" for t
  proof -
    have same: "\<exists>t' ns. Some t = Some t' \<and> t_users t' = t_users t @ ns \<and> t_reports t' = t_reports t"
      by (intro exI [of _ t] exI [of _ "[]"]) simp
    show ?thesis
      unfolding register_db t
      using same register_appends [OF prod.collapse [symmetric]] register_admin_appends [OF prod.collapse [symmetric]]
      by (simp split: if_split)
  qed
  with c new_account_fresh show ?thesis unfolding fresh_step_def by metis
qed

lemma routes_fresh: "(m, p, h) \<in> set routes \<Longrightarrow> fresh_step pr env req a (fst (h env req a resp))"
proof -
  assume "(m, p, h) \<in> set routes"
  then have "h \<in> idle_handlers \<or> h \<in> write_handlers \<or> h = route_api_reports_active \<or> h = route_api_reports_archived"
    unfolding routes_def idle_handlers_def write_handlers_def by (simp, elim disjE) simp_all
  then show ?thesis
    unfolding write_handlers_def
    by (elim disjE insertE emptyE; simp add: fresh_idle fresh_listing fresh_register fresh_submit fresh_status
        fresh_respond fresh_feedback fresh_assign)
qed

lemma request_fresh:
  assumes f: "fresh_app pr a" and t: "a_db a = Some t" and an: "answering pr t env"
    and r: "handle_request env req a resp = (a', resp')"
  shows "fresh_app pr a'"
proof -
  have inv: "app_inv a" and g: "cache_fresh pr t (a_cache a)" using f t by (auto simp: fresh_app_def)
  then have c: "tables_consistent t" using t by (auto simp: app_inv_def)
  have "fresh_step pr env req a a'"
  proof (cases "route_loop routes req False")
    case (Inl b)
    with r have "a' = a" by (auto simp: handle_request_def split: bool.splits)
    then show ?thesis by (simp add: fresh_step_same)
  next
    case (Inr h)
    then have h: "(hr_method req, hr_path req, h) \<in> set routes" using route_loop_Inr by blast
    have "a' = fst (h env req a resp)" using Inr r by (simp add: handle_request_def)
    with routes_fresh [OF h] show ?thesis by simp
  qed
  with inv t c g an request_app_inv [OF inv r] show ?thesis by (auto simp: fresh_step_def fresh_app_def)
qed

section \<open>Properties\<close>

text \<open>The application from a start on any consistent database on, while SQLite and cJSON answer.\<close>

inductive served_well :: "json_printer \<Rightarrow> app \<Rightarrow> bool" for pr where
  started: "\<lbrakk>a_db a = Some t; tables_consistent t; a_cache a = g_cache_init; session_init m1 m2 sd = (ok, a_sessions a)\<rbrakk> \<Longrightarrow>
    served_well pr a"
| request: "\<lbrakk>served_well pr a; a_db a = Some t; answering pr t env; handle_request env req a resp = (a', resp')\<rbrakk> \<Longrightarrow>
    served_well pr a'"

lemma empty_cache_fresh: "cache_fresh pr t g_cache_init"
  using coherent_empty by (auto simp: cache_fresh_def g_cache_init_def empty_slot_def)

lemma served_well_fresh: "served_well pr a \<Longrightarrow> fresh_app pr a"
proof (induction rule: served_well.induct)
  case (started a t m1 m2 sd ok)
  with session_init_empty [OF started(4)] empty_cache_fresh show ?case by (simp add: fresh_app_def app_inv_def)
next
  case (request a t env req resp a' resp')
  then show ?case by (blast intro: request_fresh)
qed

text \<open>C38: users always see their reports as they are. From a start on any consistent database on, after any requests of
  anybody and whatever the cache holds, asking for the active or the archived reports answers 200 with exactly the text that printing the
  rows of the caller's query of the current tables gives (nothing when that text does not fit the buffer). No
  change is hidden for the five seconds a listing is cached, not even that of an account registered or a
  report assigned twice in between. This needs SQLite and cJSON to answer every call.\<close>

theorem listings_are_fresh:
  assumes "served_well pr a" and "a_db a = Some t" and "answering pr t env"
    and "hr_method req = ''GET''" and "hr_path req = (if archived then ''/api/reports/archived'' else ''/api/reports/active'')"
    and "fst (get_session_user env req a) = Some u"
  shows "let resp' = snd (handle_request env req a resp) in
    statusCode resp' = 200 \<and> bodyLen resp' = length (body resp') \<and>
    body resp' = (case listing_text pr RESPONSE_BUFFER_SIZE t (userId u) (user_is_operator (Some u)) archived of
      None \<Rightarrow> [] | Some s \<Rightarrow> s)"
proof -
  have f: "fresh_app pr a" by (rule served_well_fresh [OF assms(1)])
  then have inv: "app_inv a" and g: "cache_fresh pr t (a_cache a)" and c: "tables_consistent t"
    using assms(2) by (auto simp: fresh_app_def app_inv_def)
  obtain a1 where s: "get_session_user env req a = (Some u, a1)" using assms(6) by (metis prod.collapse)
  note k = get_session_keeps [OF s]
  let ?h = "if archived then route_api_reports_archived else route_api_reports_active"
  have "route_loop routes req False = Inr ?h"
    using assms(4,5) by (intro route_loop_first [OF routes_distinct]) (cases archived; simp add: routes_def)
  then have hr: "handle_request env req a resp = ?h env req a resp" by (simp add: handle_request_def)
  obtain n b g' where l: "(if archived then report_get_archived_json else report_get_active_json) (en_printer env) (en_json env)
      (en_db env 0) (en_time env 1) RESPONSE_BUFFER_SIZE (userId u) (city u) (user_is_operator (Some u)) (Some t) (a_cache a) = (n, b, g')"
    by (rule prod_cases3)
  from listing_fresh(2,3) [OF c session_account [OF inv assms(2) s] g assms(3) l] l s k assms(2) show ?thesis
    unfolding hr by (cases archived) (simp_all add: route_api_reports_active_def route_api_reports_archived_def)
qed

text \<open>One account logs in and lists its reports.\<close>

definition printing_env :: env where
  "printing_env = example_env\<lparr>en_printer := (\<lambda>_ _. Some ''[]'')\<rparr>"

lemma printing_answers: "answering (\<lambda>_ _. Some ''[]'') login_tables printing_env"
  by (simp add: answering_def printing_env_def example_env_def login_tables_def no_tables_def db_call_ok_def call_ok_def)

lemma example_served:
  "\<exists>a token. served_well (\<lambda>_ _. Some ''[]'') a \<and> a_db a = Some login_tables \<and> token_like token \<and> sessions_inv (a_sessions a) \<and>
     verify_abs 1000 (a_sessions a) token = Some (cursor_to_user example_account)"
proof -
  obtain ss where ss: "session_init True True 7 = (True, Some ss)" "sessions_inv (Some ss)" "\<forall>x. sessions_abs (Some ss) x = None"
    using session_example by blast
  let ?a = "(example_app login_tables)\<lparr>a_sessions := Some ss\<rparr>" and ?src = "\<lambda>i::nat. \<lparr>ts_urandom = None, ts_rand = id\<rparr>"
  have inv: "sessions_inv (a_sessions ?a)" using ss(2) by (simp add: example_app_def)
  have "tables_consistent login_tables"
    by (simp add: tables_consistent_def login_tables_def example_account_def no_tables_def tables_inv_def keys_ok_def
        CITY_LEN_def NUL_def)
  then have s0: "served_well (\<lambda>_ _. Some ''[]'') ?a"
    by (rule started [of ?a login_tables True True 7 True, rotated]) (use ss(1) in \<open>simp_all add: example_app_def\<close>)
  have "session_verify 1000 x (Some ss) = (None, Some ss)" for x
    using verify_cases [OF ss(2), of 1000 x] ss(3) by (simp add: verify_abs_def)
  then obtain token where l: "create_loop SESSION_CREATE_MAX_TRIES ?src 1000 (Some ss) = (Some token, Some ss)"
    by (simp add: SESSION_CREATE_MAX_TRIES_def numeral_eq_Suc Let_def)
  then obtain table' where c: "session_create mem_ok ?src 1000 (cursor_to_user example_account) (Some ss) = (Some token, table')"
    using ht_set_ok [of ss "token_key token" "[\<lparr>s_user = cursor_to_user example_account, s_createdAt = 1000\<rparr>]"]
    by (auto simp: session_create_def case_prod_beta)
  let ?b = "?a\<lparr>a_sessions := table'\<rparr>"
  have "route_loop routes login_request False = Inr route_post_login"
    by (rule route_loop_first [OF routes_distinct]) (simp add: routes_def login_request_def)
  then have h: "handle_request printing_env login_request ?a fresh_response =
      (?b, redirect fresh_response ''/home'' (Some (login_cookie token)))"
    by (simp add: handle_request_def route_post_login_def login_fields printing_env_def example_env_def example_app_def
        example_login c Let_def)
  have s1: "served_well (\<lambda>_ _. Some ''[]'') ?b"
    by (rule request [OF s0 _ printing_answers h]) (simp add: example_app_def)
  have tl: "token_like token" using create_loop_spec [OF ss(2) l] generated_token_like by auto
  obtain t1 where look: "\<And>x. sessions_abs table' x =
      (if cstr x = token then Some \<lparr>s_user = cursor_to_user example_account, s_createdAt = 1000\<rparr> else sessions_abs t1 x)"
    and inv': "sessions_inv table'" and tok: "cstr token = token"
    using session_create_stored [OF ss(2) c] by blast
  have "verify_abs 1000 table' token = Some (cursor_to_user example_account)"
    using look [of token] tok by (simp add: verify_abs_def valid_at_def SESSION_MAX_AGE_def)
  with s1 tl inv' show ?thesis by (intro exI [of _ ?b] exI [of _ token]) (simp add: example_app_def)
qed

lemma listings_are_fresh_witness:
  "\<exists>a req u. served_well (\<lambda>_ _. Some ''[]'') a \<and> fst (get_session_user printing_env req a) = Some u \<and>
     body (snd (handle_request printing_env req a fresh_response)) = ''[]''"
proof -
  obtain a token where a: "served_well (\<lambda>_ _. Some ''[]'') a" "a_db a = Some login_tables" "token_like token"
      "sessions_inv (a_sessions a)" "verify_abs 1000 (a_sessions a) token = Some (cursor_to_user example_account)"
    using example_served by blast
  let ?req = "(cookie_request (''sid='' @ token))\<lparr>hr_path := ''/api/reports/active''\<rparr>"
  have h: "http_request_header ?req ''cookie'' = Some \<lparr>h_name = Some ''Cookie'', h_value = ''sid='' @ token, h_trail = []\<rparr>"
    using cookie_request_header [of "''sid='' @ token"] by (simp add: http_request_header_def)
  have u: "fst (get_session_user printing_env ?req a) = Some (cursor_to_user example_account)"
    using session_of_cookie [OF a(4) h _ a(3), of "[]" printing_env] a(5) by (simp add: printing_env_def example_env_def)
  have "hr_method ?req = ''GET''" "hr_path ?req = (if False then ''/api/reports/archived'' else ''/api/reports/active'')"
    by (simp_all add: cookie_request_def)
  from listings_are_fresh [OF a(1,2) printing_answers this u, of fresh_response] a(1) u show ?thesis
    by (intro exI [of _ a] exI [of _ ?req] exI) (simp add: listing_text_def Let_def)
qed

end
