(* ===== verification/Connection.thy ===== *)
theory Connection
  imports Clients RateLimiter Routes
begin

text \<open>
  The connections: \<open>connection_handler.c\<close>.  A connection is a context of the registry and what libuv knows of its two
  handles; libuv itself appears as the callbacks it may make in a state.  The one response buffer of the process keeps
  its contents from request to request.
\<close>

section \<open>State\<close>

text \<open>What libuv holds for a context: whether it reads, whether the timer runs, the write requests on the way with their
  data and \<open>keepAlive\<close>, and for each of the two handles whether it is being closed, which owes a callback, or closed.\<close>

datatype uv_phase = Active | Closing | Closed

record uv_conn =
  uv_reading :: bool
  uv_timing :: bool
  uv_writes :: "(bytes \<times> bool) list"
  uv_tcp :: uv_phase
  uv_timer :: uv_phase

record srv =
  sv_clients :: client_manager
  sv_conns :: "block \<Rightarrow> uv_conn"
  sv_app :: app
  sv_rates :: "rate_table option"
  sv_response :: bytes

definition MAX_CLIENTS :: int where
  "MAX_CLIENTS = 16384"

definition CLIENT_BUFFER_SIZE :: nat where
  "CLIENT_BUFFER_SIZE = 2 ^ 13"

definition MAX_HEADER_STR_LEN :: nat where
  "MAX_HEADER_STR_LEN = 512"

definition ENABLE_RATE_LIMIT :: bool where
  "ENABLE_RATE_LIMIT = True"

text \<open>What the outside world answers in one callback: the application's part, the rate limiter's part, the address of
  the peer (empty when it is not known), and the allocation of the write request.\<close>

record net_env =
  ne_app :: env
  ne_rate :: rate_env
  ne_peer :: bytes
  ne_write :: bool

definition ctx :: "srv \<Rightarrow> block \<Rightarrow> client_ctx" where
  "ctx s x = ctx_store (sv_clients s) x"

definition set_ctx :: "block \<Rightarrow> (client_ctx \<Rightarrow> client_ctx) \<Rightarrow> srv \<Rightarrow> srv" where
  "set_ctx x f s = s\<lparr>sv_clients := ctx_update x f (sv_clients s)\<rparr>"

definition set_conn :: "block \<Rightarrow> (uv_conn \<Rightarrow> uv_conn) \<Rightarrow> srv \<Rightarrow> srv" where
  "set_conn x f s = s\<lparr>sv_conns := (sv_conns s)(x := f (sv_conns s x))\<rparr>"

section \<open>libuv\<close>

text \<open>Starting a handle that is being closed, or is closed, is refused; closing stops it.\<close>

definition uv_read_start :: "block \<Rightarrow> srv \<Rightarrow> srv" where
  "uv_read_start x = set_conn x (\<lambda>u. if uv_tcp u = Active then u\<lparr>uv_reading := True\<rparr> else u)"

definition uv_read_stop :: "block \<Rightarrow> srv \<Rightarrow> srv" where
  "uv_read_stop x = set_conn x (\<lambda>u. u\<lparr>uv_reading := False\<rparr>)"

definition uv_timer_start :: "block \<Rightarrow> srv \<Rightarrow> srv" where
  "uv_timer_start x = set_conn x (\<lambda>u. if uv_timer u = Active then u\<lparr>uv_timing := True\<rparr> else u)"

definition uv_timer_stop :: "block \<Rightarrow> srv \<Rightarrow> srv" where
  "uv_timer_stop x = set_conn x (\<lambda>u. u\<lparr>uv_timing := False\<rparr>)"

definition uv_write :: "block \<Rightarrow> bytes \<Rightarrow> bool \<Rightarrow> srv \<Rightarrow> srv" where
  "uv_write x d keepAlive = set_conn x (\<lambda>u. u\<lparr>uv_writes := uv_writes u @ [(d, keepAlive)]\<rparr>)"

definition uv_close_both :: "block \<Rightarrow> srv \<Rightarrow> srv" where
  "uv_close_both x =
     set_conn x (\<lambda>u. u\<lparr>uv_reading := False, uv_timing := False, uv_tcp := Closing, uv_timer := Closing\<rparr>)"

definition new_conn :: uv_conn where
  "new_conn = \<lparr>uv_reading = False, uv_timing = False, uv_writes = [], uv_tcp = Active, uv_timer = Active\<rparr>"

section \<open>The handlers\<close>

definition close_client :: "block \<Rightarrow> srv \<Rightarrow> srv" where
  "close_client x s =
     (if closing (ctx s x) then s
      else uv_close_both x (set_ctx x (\<lambda>c. c\<lparr>closing := True, pendingCloses := 2\<rparr>) s))"

definition on_close :: "block \<Rightarrow> srv \<Rightarrow> srv" where
  "on_close x s =
     (let s = set_ctx x (\<lambda>c. c\<lparr>pendingCloses := pendingCloses c - 1\<rparr>) s in
      if pendingCloses (ctx s x) > 0 then s
      else s\<lparr>sv_clients := client_manager_release x (client_manager_unlink x (sv_clients s))\<rparr>)"

definition send_response :: "bool \<Rightarrow> block \<Rightarrow> http_response \<Rightarrow> bool \<Rightarrow> srv \<Rightarrow> srv" where
  "send_response mem x resp keepAlive s =
     (if \<not> mem then close_client x s
      else case http_response_render resp keepAlive (MAX_HEADER_STR_LEN + bodyLen resp) of
             None \<Rightarrow> close_client x s
           | Some d \<Rightarrow> uv_write x d keepAlive s)"

text \<open>\<open>mem\<close> is the memory of a new chunk of contexts, \<open>accepted\<close> the result of \<open>uv_accept\<close>.\<close>

definition setup_client :: "nat option \<Rightarrow> bool \<Rightarrow> srv \<Rightarrow> bool \<times> srv" where
  "setup_client mem accepted s =
     (if client_manager_active_count (sv_clients s) \<ge> MAX_CLIENTS then (False, s)
      else case client_manager_alloc mem (sv_clients s) of
             (None, m) \<Rightarrow> (False, s\<lparr>sv_clients := m\<rparr>)
           | (Some x, m) \<Rightarrow>
               let s = set_conn x (\<lambda>_. new_conn) (s\<lparr>sv_clients := m\<rparr>) in
               if \<not> accepted then (False, close_client x s)
               else let s = uv_timer_start x s;
                        s = s\<lparr>sv_clients := client_manager_link x (sv_clients s)\<rparr>
                    in (True, uv_read_start x s))"

definition on_connection :: "int \<Rightarrow> nat option \<Rightarrow> bool \<Rightarrow> srv \<Rightarrow> srv" where
  "on_connection st mem accepted s = (if st < 0 then s else snd (setup_client mem accepted s))"

text \<open>The room that libuv is given, 0 for none.\<close>

definition on_buffer_alloc :: "bool \<Rightarrow> block \<Rightarrow> srv \<Rightarrow> nat \<times> srv" where
  "on_buffer_alloc mem x s =
     (if buffer (ctx s x) = None \<and> \<not> mem then (0, s)
      else let s = (if buffer (ctx s x) = None then set_ctx x (\<lambda>c. c\<lparr>buffer := Some []\<rparr>) s else s)
           in (CLIENT_BUFFER_SIZE - 1 - totalRead (ctx s x), s))"

definition response_429 :: http_response where
  "response_429 = \<lparr>statusCode = 429, contentType = None, body = ''Too Many Requests'' @ [LF], bodyLen = 18,
     setCookie = [], location = []\<rparr>"

definition response_400 :: http_response where
  "response_400 = \<lparr>statusCode = 400, contentType = None, body = ''<h1>400 Bad Request</h1>'', bodyLen = 24,
     setCookie = [], location = []\<rparr>"

text \<open>The part of \<open>on_read\<close> after a whole request has arrived: \<open>raw\<close> are the bytes received.\<close>

definition answer :: "net_env \<Rightarrow> block \<Rightarrow> bytes \<Rightarrow> srv \<Rightarrow> srv" where
  "answer ne x raw s =
     (let (allowed, rates) = (if ENABLE_RATE_LIMIT then rate_limit_check (ne_rate ne) (Some (ne_peer ne)) (sv_rates s)
                              else (True, sv_rates s));
          s = s\<lparr>sv_rates := rates\<rparr>
      in if \<not> allowed then send_response (ne_write ne) x response_429 False s
         else case http_request_parse raw of
                None \<Rightarrow> send_response (ne_write ne) x response_400 False s
              | Some req \<Rightarrow>
                  let resp = \<lparr>statusCode = 200, contentType = None, body = sv_response s, bodyLen = 0,
                              setCookie = [], location = []\<rparr>;
                      (a, resp) = handle_request (ne_app ne) req (sv_app s) resp;
                      s = s\<lparr>sv_app := a, sv_response := body resp\<rparr>
                  in send_response (ne_write ne) x resp (http_request_contains_keepalive req) s)"

text \<open>\<open>nread < 0\<close> is None; the bytes read are appended to what the buffer held.\<close>

definition on_read :: "net_env \<Rightarrow> block \<Rightarrow> bytes option \<Rightarrow> srv \<Rightarrow> srv" where
  "on_read ne x nread s =
     (case nread of
        None \<Rightarrow> close_client x s
      | Some d \<Rightarrow>
          if d = [] then s
          else
            let raw = take (totalRead (ctx s x)) (the (buffer (ctx s x))) @ d;
                s = set_ctx x (\<lambda>c. c\<lparr>totalRead := totalRead c + length d, buffer := Some raw\<rparr>) s
            in if \<not> http_is_request_complete raw then s
               else answer ne x raw (uv_timer_stop x (uv_read_stop x s)))"

definition on_write_complete :: "block \<Rightarrow> int \<Rightarrow> srv \<Rightarrow> srv" where
  "on_write_complete x st s =
     (case uv_writes (sv_conns s x) of
        [] \<Rightarrow> s
      | (d, keepAlive) # ws \<Rightarrow>
          let s = set_conn x (\<lambda>u. u\<lparr>uv_writes := ws\<rparr>) s in
          if st < 0 \<or> \<not> keepAlive then close_client x s
          else uv_read_start x (uv_timer_start x (set_ctx x (\<lambda>c. c\<lparr>totalRead := 0\<rparr>) s)))"

definition on_timeout :: "block \<Rightarrow> srv \<Rightarrow> srv" where
  "on_timeout x s = close_client x s"

section \<open>Callbacks\<close>

text \<open>The callbacks that libuv may make next for the connections there are.  The timer fires once; the TCP handle is
  reported closed only after its write requests.\<close>

inductive conn_step :: "srv \<Rightarrow> srv \<Rightarrow> bool" where
  arrived: "\<lbrakk>uv_reading (sv_conns s x); on_buffer_alloc mem x s = (n, s1);
    case nread of None \<Rightarrow> True | Some d \<Rightarrow> 0 < n \<and> length d \<le> n\<rbrakk> \<Longrightarrow> conn_step s (on_read ne x nread s1)"
| written: "uv_writes (sv_conns s x) \<noteq> [] \<Longrightarrow> conn_step s (on_write_complete x st s)"
| timed_out: "uv_timing (sv_conns s x) \<Longrightarrow> conn_step s (on_timeout x (uv_timer_stop x s))"
| tcp_closed: "\<lbrakk>uv_tcp (sv_conns s x) = Closing; uv_writes (sv_conns s x) = []\<rbrakk> \<Longrightarrow>
    conn_step s (on_close x (set_conn x (\<lambda>u. u\<lparr>uv_tcp := Closed\<rparr>) s))"
| timer_closed: "uv_timer (sv_conns s x) = Closing \<Longrightarrow>
    conn_step s (on_close x (set_conn x (\<lambda>u. u\<lparr>uv_timer := Closed\<rparr>) s))"

text \<open>A connection is accepted into a context in \<open>connected\<close>; the case that \<open>uv_accept\<close> fails is left out here and
  looked at on its own.\<close>

inductive net_step :: "srv \<Rightarrow> srv \<Rightarrow> bool" where
  connected: "fresh_mem mem (clientPool (sv_clients s)) \<Longrightarrow> net_step s (on_connection st mem True s)"
| callback: "conn_step s s' \<Longrightarrow> net_step s s'"

inductive net_reachable :: "srv \<Rightarrow> bool" where
  started: "\<lbrakk>client_manager_init mem ctx_size m = (True, sv_clients s); ptrActiveClientsHead m = None;
    activeClientsCount m = 0; \<forall>x. sv_conns s x = new_conn\<rbrakk> \<Longrightarrow> net_reachable s"
| stepped: "\<lbrakk>net_reachable s; net_step s s'\<rbrakk> \<Longrightarrow> net_reachable s'"

end
