(* ===== verification/ConnectionSpec.thy ===== *)
theory ConnectionSpec
  imports Connection
begin

text \<open>
  The closing protocol and the accounting of connections: in every state that the callbacks of libuv can lead to, each
  allocated context is in the list of clients, and is being read, or has its one response on the way, or waits for close
  callbacks; and what one failing \<open>uv_accept\<close> does to all of this.
\<close>

section \<open>The state of one connection\<close>

definition owed :: "uv_conn \<Rightarrow> nat" where
  "owed u = of_bool (uv_tcp u = Closing) + of_bool (uv_timer u = Closing)"

definition conn_open :: "uv_conn \<Rightarrow> bool" where
  "conn_open u \<longleftrightarrow> uv_tcp u = Active \<and> uv_timer u = Active \<and>
     (uv_reading u \<and> uv_timing u \<and> uv_writes u = [] \<or>
      \<not> uv_reading u \<and> \<not> uv_timing u \<and> length (uv_writes u) = 1)"

definition conn_closing :: "uv_conn \<Rightarrow> bool" where
  "conn_closing u \<longleftrightarrow> owed u > 0 \<and> \<not> uv_reading u \<and> \<not> uv_timing u \<and> length (uv_writes u) \<le> 1 \<and>
     uv_tcp u \<noteq> Active \<and> uv_timer u \<noteq> Active \<and> (uv_tcp u = Closing \<or> uv_writes u = [])"

definition buffer_ok :: "client_ctx \<Rightarrow> bool" where
  "buffer_ok c \<longleftrightarrow> totalRead c < CLIENT_BUFFER_SIZE \<and>
     (case buffer c of None \<Rightarrow> totalRead c = 0 | Some b \<Rightarrow> totalRead c \<le> length b)"

definition conn_ok :: "client_ctx \<Rightarrow> uv_conn \<Rightarrow> bool" where
  "conn_ok c u \<longleftrightarrow> buffer_ok c \<and> unat (pendingCloses c) = owed u \<and>
     (if closing c then conn_closing u else conn_open u)"

text \<open>No callback is due; \<open>idle\<close> are handles that could be started.\<close>

definition quiet :: "uv_conn \<Rightarrow> bool" where
  "quiet u \<longleftrightarrow> \<not> uv_reading u \<and> \<not> uv_timing u \<and> uv_writes u = [] \<and> owed u = 0"

definition idle :: "uv_conn \<Rightarrow> bool" where
  "idle u \<longleftrightarrow> quiet u \<and> uv_tcp u = Active \<and> uv_timer u = Active"

definition net_inv :: "srv \<Rightarrow> block list \<Rightarrow> bool" where
  "net_inv s xs \<longleftrightarrow> client_inv (sv_clients s) xs \<and> live_blocks (clientPool (sv_clients s)) = set xs \<and>
     (\<forall>x\<in>set xs. conn_ok (ctx s x) (sv_conns s x)) \<and> (\<forall>x. x \<notin> set xs \<longrightarrow> quiet (sv_conns s x))"

section \<open>Steps of one connection\<close>

lemma ctx_simps [simp]:
  "ctx (set_ctx x f s) y = (if y = x then f (ctx s x) else ctx s y)" "ctx (set_conn x g s) y = ctx s y"
  "sv_conns (set_ctx x f s) = sv_conns s" "sv_conns (set_conn x g s) = (sv_conns s)(x := g (sv_conns s x))"
  "sv_clients (set_conn x g s) = sv_clients s" "clientPool (sv_clients (set_ctx x f s)) = clientPool (sv_clients s)"
  by (simp_all add: ctx_def set_ctx_def set_conn_def)

lemmas uv_defs = uv_read_start_def uv_read_stop_def uv_timer_start_def uv_timer_stop_def uv_write_def uv_close_both_def

text \<open>\<open>s'\<close> differs from \<open>s\<close> in the context and the handles of \<open>x\<close>, but not in its links.\<close>

definition only_conn :: "block \<Rightarrow> srv \<Rightarrow> srv \<Rightarrow> bool" where
  "only_conn x s s' \<longleftrightarrow>
     (\<exists>c. sv_clients s' = ctx_update x (\<lambda>_. c) (sv_clients s) \<and> same_links c (ctx s x)) \<and>
     (\<forall>y. y \<noteq> x \<longrightarrow> sv_conns s' y = sv_conns s y)"

lemma only_conn_refl: "only_conn x s s"
  by (auto simp: only_conn_def ctx_update_def ctx_def same_links_def intro!: exI [of _ "ctx_store (sv_clients s) x"])

lemma only_conn_trans: "only_conn x s s1 \<Longrightarrow> only_conn x s1 s2 \<Longrightarrow> only_conn x s s2"
  by (auto simp: only_conn_def ctx_update_def ctx_def same_links_def)

lemma only_conn_set [simp]:
  "only_conn x s (set_conn x g s')  \<longleftrightarrow> only_conn x s s'"
  by (simp add: only_conn_def)

lemma only_conn_set_ctx:
  "(\<And>c. same_links (f c) c) \<Longrightarrow> only_conn x s s' \<Longrightarrow> only_conn x s (set_ctx x f s')"
  by (auto simp: only_conn_def set_ctx_def ctx_update_def ctx_def same_links_def)

lemma only_conn_frame [simp]:
  "only_conn x s (s'\<lparr>sv_rates := r\<rparr>) = only_conn x s s'" "only_conn x s (s'\<lparr>sv_app := a\<rparr>) = only_conn x s s'"
  "only_conn x s (s'\<lparr>sv_response := b\<rparr>) = only_conn x s s'"
  by (simp_all add: only_conn_def)

lemma ctx_frame [simp]:
  "ctx (s\<lparr>sv_rates := r\<rparr>) = ctx s" "ctx (s\<lparr>sv_app := a\<rparr>) = ctx s" "ctx (s\<lparr>sv_response := b\<rparr>) = ctx s"
  by (simp_all add: ctx_def fun_eq_iff)

lemma only_conn_inv:
  assumes inv: "net_inv s xs" and x: "x \<in> set xs" and o: "only_conn x s s'" and ok: "conn_ok (ctx s' x) (sv_conns s' x)"
  shows "net_inv s' xs"
proof -
  obtain c where c: "sv_clients s' = ctx_update x (\<lambda>_. c) (sv_clients s)" "same_links c (ctx s x)"
    and u: "\<And>y. y \<noteq> x \<Longrightarrow> sv_conns s' y = sv_conns s y"
    using o by (auto simp: only_conn_def)
  have "linked (sv_clients s') xs = linked (sv_clients s) xs"
    by (rule linked_same_links) (use c in \<open>auto simp: same_links_def ctx_def\<close>)
  then have "client_inv (sv_clients s') xs" using inv c(1) by (simp add: net_inv_def client_inv_def)
  moreover have "ctx s' y = ctx s y" if "y \<noteq> x" for y using c(1) that by (simp add: ctx_def)
  moreover have "conn_ok (ctx s' y) (sv_conns s' y)" if "y \<in> set xs" for y
    using ok u calculation(2) inv that by (cases "y = x") (auto simp: net_inv_def)
  moreover have "quiet (sv_conns s' y)" if "y \<notin> set xs" for y
  proof -
    from that x have "y \<noteq> x" by blast
    moreover have "quiet (sv_conns s y)" using that inv unfolding net_inv_def by blast
    ultimately show ?thesis using u by simp
  qed
  ultimately show ?thesis using inv c(1) by (simp add: net_inv_def)
qed

text \<open>Closing leaves any known connection in the closing state.\<close>

lemma close_client_only: "only_conn x s (close_client x s)"
  by (auto simp: close_client_def uv_defs same_links_def intro!: only_conn_set_ctx only_conn_refl)

definition closable :: "client_ctx \<Rightarrow> uv_conn \<Rightarrow> bool" where
  "closable c u \<longleftrightarrow> buffer_ok c \<and>
     (if closing c then conn_closing u \<and> unat (pendingCloses c) = owed u else length (uv_writes u) \<le> 1)"

lemma conn_ok_closable: "conn_ok c u \<Longrightarrow> closable c u"
  by (auto simp: conn_ok_def closable_def conn_open_def)

lemma close_client_ok:
  "closable (ctx s x) (sv_conns s x) \<Longrightarrow> conn_ok (ctx (close_client x s) x) (sv_conns (close_client x s) x)"
  by (auto simp: close_client_def uv_defs closable_def conn_ok_def conn_closing_def owed_def buffer_ok_def
      split: option.split)

text \<open>Sending from a connection that is neither read nor timed: one response is then on the way, or it is closing.\<close>

lemma send_response_only: "only_conn x s (send_response mem x resp k s)"
  by (auto simp: send_response_def uv_write_def close_client_only only_conn_refl split: option.splits)

lemma send_response_ok:
  assumes "buffer_ok (ctx s x)" and "\<not> closing (ctx s x)" and "pendingCloses (ctx s x) = 0" and "idle (sv_conns s x)"
  shows "conn_ok (ctx (send_response mem x resp k s) x) (sv_conns (send_response mem x resp k s) x)"
proof -
  have c: "conn_ok (ctx (close_client x s) x) (sv_conns (close_client x s) x)"
    by (rule close_client_ok) (use assms in \<open>simp add: closable_def quiet_def idle_def\<close>)
  have w: "conn_ok (ctx (uv_write x d k s) x) (sv_conns (uv_write x d k s) x)" for d
    using assms by (simp add: uv_write_def conn_ok_def conn_open_def quiet_def idle_def owed_def)
  from c w show ?thesis by (simp add: send_response_def split: option.split)
qed

lemma answer_ok:
  assumes "buffer_ok (ctx s x)" and "\<not> closing (ctx s x)" and "pendingCloses (ctx s x) = 0" and "idle (sv_conns s x)"
  shows "only_conn x s (answer ne x raw s) \<and> conn_ok (ctx (answer ne x raw s) x) (sv_conns (answer ne x raw s) x)"
proof -
  define s1 where "s1 = s\<lparr>sv_rates := snd (rate_limit_check (ne_rate ne) (Some (ne_peer ne)) (sv_rates s))\<rparr>"
  have s1: "only_conn x s s1" "ctx s1 = ctx s" "sv_conns s1 = sv_conns s"
    using only_conn_refl by (simp_all add: s1_def)
  have send: "only_conn x s (send_response m x resp k s2) \<and>
      conn_ok (ctx (send_response m x resp k s2) x) (sv_conns (send_response m x resp k s2) x)"
    if "only_conn x s s2" "ctx s2 = ctx s" "sv_conns s2 = sv_conns s" for m resp k s2
    using send_response_ok [of s2 x] send_response_only [of x s2] only_conn_trans [OF that(1)] that assms by simp
  show ?thesis
    using send s1 by (simp add: answer_def Let_def case_prod_beta ENABLE_RATE_LIMIT_def s1_def [symmetric] split: option.split)
qed

section \<open>Every callback keeps the invariant\<close>

lemma inv_known:
  assumes "net_inv s xs" and "\<not> quiet (sv_conns s x)"
  shows "x \<in> set xs" and "conn_ok (ctx s x) (sv_conns s x)"
  using assms unfolding net_inv_def by blast+

lemma close_client_inv: "net_inv s xs \<Longrightarrow> x \<in> set xs \<Longrightarrow> net_inv (close_client x s) xs"
  by (rule only_conn_inv [OF _ _ close_client_only close_client_ok])
    (auto simp: net_inv_def intro: conn_ok_closable)

lemma on_buffer_alloc_spec:
  assumes "on_buffer_alloc mem x s = (n, s1)" and "buffer_ok (ctx s x)"
  shows "only_conn x s s1" and "sv_conns s1 = sv_conns s" and "buffer_ok (ctx s1 x)"
    and "closing (ctx s1 x) = closing (ctx s x)" and "pendingCloses (ctx s1 x) = pendingCloses (ctx s x)"
    and "0 < n \<Longrightarrow> buffer (ctx s1 x) \<noteq> None \<and> totalRead (ctx s1 x) + n < CLIENT_BUFFER_SIZE"
proof -
  show "only_conn x s s1"
    using assms(1) by (auto simp: on_buffer_alloc_def Let_def same_links_def split: if_splits intro!: only_conn_refl only_conn_set_ctx)
  show "sv_conns s1 = sv_conns s" "buffer_ok (ctx s1 x)" "closing (ctx s1 x) = closing (ctx s x)"
    "pendingCloses (ctx s1 x) = pendingCloses (ctx s x)"
    using assms by (auto simp: on_buffer_alloc_def buffer_ok_def Let_def split: if_splits option.splits)
  show "buffer (ctx s1 x) \<noteq> None \<and> totalRead (ctx s1 x) + n < CLIENT_BUFFER_SIZE" if "0 < n"
    using assms that by (auto simp: on_buffer_alloc_def buffer_ok_def Let_def split: if_splits option.splits)
qed

lemma on_read_ok:
  assumes ok: "conn_ok (ctx s x) (sv_conns s x)" and r: "uv_reading (sv_conns s x)" and c: "\<not> closing (ctx s x)"
    and n: "case nread of None \<Rightarrow> True
      | Some d \<Rightarrow> buffer (ctx s x) \<noteq> None \<and> totalRead (ctx s x) + length d < CLIENT_BUFFER_SIZE"
  shows "only_conn x s (on_read ne x nread s) \<and> conn_ok (ctx (on_read ne x nread s) x) (sv_conns (on_read ne x nread s) x)"
proof (cases nread)
  case None
  with close_client_only [of x s] close_client_ok [OF conn_ok_closable [OF ok]] show ?thesis by (simp add: on_read_def)
next
  case (Some d)
  with n obtain b where b: "buffer (ctx s x) = Some b" "totalRead (ctx s x) + length d < CLIENT_BUFFER_SIZE" by auto
  let ?raw = "take (totalRead (ctx s x)) b @ d"
  let ?s1 = "set_ctx x (\<lambda>c. c\<lparr>totalRead := totalRead c + length d, buffer := Some ?raw\<rparr>) s"
  let ?s2 = "uv_timer_stop x (uv_read_stop x ?s1)"
  have o1: "only_conn x s ?s1" by (rule only_conn_set_ctx [OF _ only_conn_refl]) (simp add: same_links_def)
  then have o2: "only_conn x s ?s2" by (simp add: uv_defs)
  have ok1: "conn_ok (ctx ?s1 x) (sv_conns ?s1 x)"
    using ok b by (auto simp: conn_ok_def buffer_ok_def)
  have "buffer_ok (ctx ?s2 x)" "\<not> closing (ctx ?s2 x)" "pendingCloses (ctx ?s2 x) = 0" "idle (sv_conns ?s2 x)"
    using ok1 c ok r by (auto simp: uv_defs conn_ok_def conn_open_def owed_def idle_def quiet_def unat_eq_0)
  from answer_ok [OF this, of ne ?raw] only_conn_trans [OF o2] o1 ok1 ok only_conn_refl [of x s] show ?thesis
    using Some b(1) by (simp add: on_read_def Let_def)
qed

lemma arrived_inv:
  assumes inv: "net_inv s xs" and r: "uv_reading (sv_conns s x)" and a: "on_buffer_alloc mem x s = (n, s1)"
    and n: "case nread of None \<Rightarrow> True | Some d \<Rightarrow> 0 < n \<and> length d \<le> n"
  shows "net_inv (on_read ne x nread s1) xs"
proof -
  have "\<not> quiet (sv_conns s x)" using r by (simp add: quiet_def)
  note k = inv_known [OF inv this]
  have b: "buffer_ok (ctx s x)" and c: "\<not> closing (ctx s x)" using k(2) r by (auto simp: conn_ok_def conn_closing_def split: if_splits)
  note s1 = on_buffer_alloc_spec [OF a b]
  have "conn_ok (ctx s1 x) (sv_conns s1 x)" using k(2) s1 by (simp add: conn_ok_def)
  moreover have "case nread of None \<Rightarrow> True
      | Some d \<Rightarrow> buffer (ctx s1 x) \<noteq> None \<and> totalRead (ctx s1 x) + length d < CLIENT_BUFFER_SIZE"
    using n s1(6) by (auto split: option.splits)
  ultimately have "only_conn x s1 (on_read ne x nread s1) \<and> conn_ok (ctx (on_read ne x nread s1) x) (sv_conns (on_read ne x nread s1) x)"
    using r s1(2,4) c by (intro on_read_ok) simp_all
  with only_conn_inv [OF inv k(1)] only_conn_trans [OF s1(1)] show ?thesis by blast
qed

lemma written_inv:
  assumes inv: "net_inv s xs" and w: "uv_writes (sv_conns s x) \<noteq> []"
  shows "net_inv (on_write_complete x st s) xs"
proof -
  have "\<not> quiet (sv_conns s x)" using w by (simp add: quiet_def)
  note k = inv_known [OF inv this]
  obtain d keep ws where d: "uv_writes (sv_conns s x) = (d, keep) # ws" using w by (metis list.exhaust prod.exhaust)
  have ws: "ws = []" using k(2) d by (auto simp: conn_ok_def conn_open_def conn_closing_def split: if_splits)
  let ?s1 = "set_conn x (\<lambda>u. u\<lparr>uv_writes := ws\<rparr>) s"
  let ?s2 = "uv_read_start x (uv_timer_start x (set_ctx x (\<lambda>c. c\<lparr>totalRead := 0\<rparr>) ?s1))"
  have o1: "only_conn x s ?s1" by (simp add: only_conn_refl)
  have o2: "only_conn x s ?s2" by (simp add: uv_defs only_conn_set_ctx [OF _ o1] same_links_def)
  have "closable (ctx ?s1 x) (sv_conns ?s1 x)"
    using k(2) ws d by (auto simp: closable_def conn_ok_def conn_closing_def owed_def)
  from only_conn_inv [OF inv k(1) only_conn_trans [OF o1 close_client_only] close_client_ok [OF this]]
  have cl: "net_inv (close_client x ?s1) xs" .
  have "conn_ok (ctx ?s2 x) (sv_conns ?s2 x)"
    using k(2) d ws by (auto simp: uv_defs conn_ok_def buffer_ok_def conn_open_def conn_closing_def owed_def
        split: option.splits if_splits)
  from cl only_conn_inv [OF inv k(1) o2 this] show ?thesis by (simp add: on_write_complete_def d ws Let_def)
qed

lemma timed_out_inv:
  assumes inv: "net_inv s xs" and t: "uv_timing (sv_conns s x)"
  shows "net_inv (on_timeout x (uv_timer_stop x s)) xs"
proof -
  have "\<not> quiet (sv_conns s x)" using t by (simp add: quiet_def)
  note k = inv_known [OF inv this]
  let ?s1 = "uv_timer_stop x s"
  have o: "only_conn x s ?s1" by (simp add: uv_defs only_conn_refl)
  have "closable (ctx ?s1 x) (sv_conns ?s1 x)"
    using k(2) by (auto simp: uv_defs closable_def conn_ok_def conn_open_def conn_closing_def owed_def split: if_splits)
  from only_conn_inv [OF inv k(1) only_conn_trans [OF o close_client_only] close_client_ok [OF this]] show ?thesis
    by (simp add: on_timeout_def)
qed

text \<open>The registry touches only the links of other contexts.\<close>

definition same_core :: "client_ctx \<Rightarrow> client_ctx \<Rightarrow> bool" where
  "same_core a b \<longleftrightarrow> closing a = closing b \<and> pendingCloses a = pendingCloses b \<and> totalRead a = totalRead b \<and>
     buffer a = buffer b"

lemma conn_ok_core: "same_core a b \<Longrightarrow> conn_ok a u = conn_ok b u"
  by (auto simp: same_core_def conn_ok_def buffer_ok_def split: option.splits)

lemma link_core: "same_core (ctx_store (client_manager_link x m) y) (ctx_store m y)"
  by (auto simp: client_manager_link_def Let_def same_core_def split: option.split)

lemma unlink_core: "same_core (ctx_store (client_manager_unlink x m) y) (ctx_store m y)"
  by (auto simp: client_manager_unlink_def Let_def same_core_def split: option.split)

lemma release_other: "y \<noteq> x \<Longrightarrow> ctx_store (client_manager_release x m) y = ctx_store m y"
  by (simp add: client_manager_release_def Let_def)

lemma pending_decrement: "0 < unat (w :: 2 word) \<Longrightarrow> unat (w - 1) = unat w - 1"
  by (rule unat_minus_one) auto

text \<open>One of the two close callbacks: \<open>s1\<close> is the state with one callback fewer owed.\<close>

lemma on_close_inv:
  assumes inv: "net_inv s xs" and x: "x \<in> set xs" and o: "only_conn x s s1" and c: "ctx s1 x = ctx s x" "closing (ctx s x)"
    and u: "owed (sv_conns s x) = Suc (owed (sv_conns s1 x))"
    and q: "conn_closing (sv_conns s1 x) \<or> quiet (sv_conns s1 x)"
  shows "\<exists>ys. net_inv (on_close x s1) ys"
proof -
  have ok: "conn_ok (ctx s x) (sv_conns s x)" using inv x by (simp add: net_inv_def)
  let ?s2 = "set_ctx x (\<lambda>c. c\<lparr>pendingCloses := pendingCloses c - 1\<rparr>) s1"
  have p: "unat (pendingCloses (ctx ?s2 x)) = owed (sv_conns s1 x)"
    using ok c(1) u pending_decrement [of "pendingCloses (ctx s x)"] by (simp add: conn_ok_def)
  have o2: "only_conn x s ?s2" by (rule only_conn_set_ctx [OF _ o]) (simp add: same_links_def)
  show ?thesis
  proof (cases "owed (sv_conns s1 x)")
    case (Suc n)
    then have pos: "pendingCloses (ctx ?s2 x) > 0" using p by (simp add: word_greater_zero_iff unat_eq_0 [symmetric])
    have "conn_ok (ctx ?s2 x) (sv_conns ?s2 x)"
      using p ok c q Suc by (auto simp: conn_ok_def buffer_ok_def quiet_def split: option.splits)
    from only_conn_inv [OF inv x o2 this] pos show ?thesis by (auto simp: on_close_def Let_def)
  next
    case 0
    then have zero: "pendingCloses (ctx ?s2 x) = 0" using p by (simp add: unat_eq_0)
    have quiet: "quiet (sv_conns s1 x)" using q 0 by (auto simp: conn_closing_def)
    obtain cc where cl: "sv_clients ?s2 = ctx_update x (\<lambda>_. cc) (sv_clients s)" "same_links cc (ctx s x)"
      and other: "\<And>y. y \<noteq> x \<Longrightarrow> sv_conns s1 y = sv_conns s y"
      using o2 by (auto simp: only_conn_def)
    let ?m = "sv_clients ?s2"
    let ?m' = "client_manager_release x (client_manager_unlink x ?m)"
    have "linked ?m xs = linked (sv_clients s) xs"
      by (rule linked_same_links) (use cl in \<open>auto simp: same_links_def ctx_def\<close>)
    then have ci: "client_inv ?m xs" and live: "live_blocks (clientPool ?m) = set xs"
      using inv cl(1) by (simp_all add: net_inv_def client_inv_def)
    have d: "distinct xs" using ci by (simp add: client_inv_def linked_def)
    have x': "x \<in> live_blocks (clientPool (client_manager_unlink x ?m))" "x \<notin> set (remove1 x xs)"
      using x live d by (simp_all add: set_remove1_eq)
    note rel = client_release_inv [OF client_unlink_inv [OF ci x] x']
    have "net_inv (?s2\<lparr>sv_clients := ?m'\<rparr>) (remove1 x xs)"
      unfolding net_inv_def
    proof (intro conjI ballI allI impI)
      show "client_inv (sv_clients (?s2\<lparr>sv_clients := ?m'\<rparr>)) (remove1 x xs)" using rel(1) by simp
      show "live_blocks (clientPool (sv_clients (?s2\<lparr>sv_clients := ?m'\<rparr>))) = set (remove1 x xs)"
        using rel(2) live d by (simp add: set_remove1_eq)
    next
      fix y assume "y \<in> set (remove1 x xs)"
      then have y: "y \<noteq> x" "y \<in> set xs" using d by (auto simp: set_remove1_eq)
      have "same_core (ctx_store ?m' y) (ctx s y)"
        using unlink_core [of x ?m y] release_other [OF y(1)] cl(1) y(1) by (simp add: ctx_def)
      moreover have "conn_ok (ctx s y) (sv_conns s y)" using inv y(2) by (simp add: net_inv_def)
      ultimately show "conn_ok (ctx (?s2\<lparr>sv_clients := ?m'\<rparr>) y) (sv_conns (?s2\<lparr>sv_clients := ?m'\<rparr>) y)"
        using conn_ok_core other y(1) by (simp add: ctx_def)
    next
      fix y assume "y \<notin> set (remove1 x xs)"
      then have "y = x \<or> y \<notin> set xs" using d by (auto simp: set_remove1_eq)
      then have "quiet (sv_conns s1 y)"
      proof
        assume "y \<notin> set xs"
        then have "quiet (sv_conns s y)" "y \<noteq> x" using inv x unfolding net_inv_def by blast+
        then show ?thesis using other by simp
      qed (use quiet in simp)
      then show "quiet (sv_conns (?s2\<lparr>sv_clients := ?m'\<rparr>) y)" by simp
    qed
    with zero show ?thesis by (auto simp: on_close_def Let_def)
  qed
qed

lemma closed_inv:
  assumes inv: "net_inv s xs"
  shows "uv_tcp (sv_conns s x) = Closing \<Longrightarrow> uv_writes (sv_conns s x) = [] \<Longrightarrow>
      \<exists>ys. net_inv (on_close x (set_conn x (\<lambda>u. u\<lparr>uv_tcp := Closed\<rparr>) s)) ys"
    and "uv_timer (sv_conns s x) = Closing \<Longrightarrow>
      \<exists>ys. net_inv (on_close x (set_conn x (\<lambda>u. u\<lparr>uv_timer := Closed\<rparr>) s)) ys"
proof -
  have k: "x \<in> set xs" "closing (ctx s x)" "conn_closing (sv_conns s x)" if "owed (sv_conns s x) > 0"
  proof -
    have "\<not> quiet (sv_conns s x)" using that by (simp add: quiet_def)
    note k = inv_known [OF inv this]
    show "x \<in> set xs" "closing (ctx s x)" "conn_closing (sv_conns s x)"
      using k that by (auto simp: conn_ok_def conn_open_def owed_def split: if_splits)
  qed
  show "\<exists>ys. net_inv (on_close x (set_conn x (\<lambda>u. u\<lparr>uv_tcp := Closed\<rparr>) s)) ys"
    if "uv_tcp (sv_conns s x) = Closing" "uv_writes (sv_conns s x) = []"
  proof (rule on_close_inv [OF inv])
    have "owed (sv_conns s x) > 0" using that by (simp add: owed_def)
    note k = k [OF this]
    show "conn_closing (sv_conns (set_conn x (\<lambda>u. u\<lparr>uv_tcp := Closed\<rparr>) s) x) \<or>
        quiet (sv_conns (set_conn x (\<lambda>u. u\<lparr>uv_tcp := Closed\<rparr>) s) x)"
      using k(3) that by (auto simp: conn_closing_def quiet_def owed_def)
  qed (use k that in \<open>simp_all add: only_conn_refl owed_def\<close>)
  show "\<exists>ys. net_inv (on_close x (set_conn x (\<lambda>u. u\<lparr>uv_timer := Closed\<rparr>) s)) ys"
    if "uv_timer (sv_conns s x) = Closing"
  proof (rule on_close_inv [OF inv])
    have "owed (sv_conns s x) > 0" using that by (simp add: owed_def)
    note k = k [OF this]
    show "conn_closing (sv_conns (set_conn x (\<lambda>u. u\<lparr>uv_timer := Closed\<rparr>) s) x) \<or>
        quiet (sv_conns (set_conn x (\<lambda>u. u\<lparr>uv_timer := Closed\<rparr>) s) x)"
      using k(3) that by (auto simp: conn_closing_def quiet_def owed_def)
  qed (use k that in \<open>simp_all add: only_conn_refl owed_def\<close>)
qed

text \<open>A new connection.\<close>

lemma alloc_cases:
  assumes "client_inv m xs" and "fresh_mem mem (clientPool m)" and a: "client_manager_alloc mem m = (r, m')"
  shows "r = None \<Longrightarrow> live_blocks (clientPool m') = live_blocks (clientPool m)"
    and "r = None \<Longrightarrow> ctx_store m' = ctx_store m"
    and "r = Some x \<Longrightarrow> y \<noteq> x \<Longrightarrow> ctx_store m' y = ctx_store m y"
    and "r = Some x \<Longrightarrow> \<not> closing (ctx_store m' x) \<and> pendingCloses (ctx_store m' x) = 0 \<and>
      totalRead (ctx_store m' x) = 0 \<and> buffer (ctx_store m' x) = None"
proof -
  obtain r0 p where p: "slab_pool_alloc mem (clientPool m) = (r0, p)" by fastforce
  have si: "slab_inv (clientPool m)" using assms(1) by (simp add: client_inv_def)
  show "live_blocks (clientPool m') = live_blocks (clientPool m)" if "r = None"
  proof -
    have "r0 = None" "clientPool m' = p" using a p that by (auto simp: client_manager_alloc_def Let_def split: option.splits)
    with slab.alloc_fail [OF si] p show ?thesis by simp
  qed
  show "ctx_store m' = ctx_store m" if "r = None"
    using a p that by (auto simp: client_manager_alloc_def Let_def split: option.splits)
  show "ctx_store m' y = ctx_store m y" if "r = Some x" "y \<noteq> x"
    using a p that by (auto simp: client_manager_alloc_def Let_def split: option.splits)
  show "\<not> closing (ctx_store m' x) \<and> pendingCloses (ctx_store m' x) = 0 \<and>
      totalRead (ctx_store m' x) = 0 \<and> buffer (ctx_store m' x) = None" if "r = Some x"
    using a p that by (auto simp: client_manager_alloc_def Let_def split: option.splits)
qed

lemma connected_inv:
  assumes inv: "net_inv s xs" and f: "fresh_mem mem (clientPool (sv_clients s))"
  shows "\<exists>ys. net_inv (on_connection st mem True s) ys"
proof (cases "st < 0 \<or> client_manager_active_count (sv_clients s) \<ge> MAX_CLIENTS")
  case True
  with inv show ?thesis by (auto simp: on_connection_def setup_client_def)
next
  case False
  have ci: "client_inv (sv_clients s) xs" and live: "live_blocks (clientPool (sv_clients s)) = set xs"
    using inv by (simp_all add: net_inv_def)
  obtain r m where a: "client_manager_alloc mem (sv_clients s) = (r, m)" by fastforce
  note al = alloc_cases [OF ci f a] client_alloc_inv [OF ci f a]
  show ?thesis
  proof (cases r)
    case None
    have "net_inv (s\<lparr>sv_clients := m\<rparr>) xs"
      using inv al(1,2,5) None by (simp add: net_inv_def ctx_def)
    with False None a show ?thesis by (auto simp: on_connection_def setup_client_def)
  next
    case (Some x)
    let ?m = "client_manager_link x m"
    let ?u = "\<lparr>uv_reading = True, uv_timing = True, uv_writes = [], uv_tcp = Active, uv_timer = Active\<rparr>"
    let ?s = "s\<lparr>sv_clients := ?m, sv_conns := (sv_conns s)(x := ?u)\<rparr>"
    have new: "x \<notin> set xs" using al(6) [OF Some] live by simp
    have s': "on_connection st mem True s = ?s"
      using False a Some by (simp add: on_connection_def setup_client_def uv_defs set_conn_def new_conn_def Let_def)
    have core: "same_core (ctx ?s y) (ctx_store m y)" for y using link_core by (simp add: ctx_def)
    have "net_inv ?s (x # xs)"
      unfolding net_inv_def
    proof (intro conjI ballI allI impI)
      show "client_inv (sv_clients ?s) (x # xs)"
        using client_link_inv [OF al(5) _ new] al(7) [OF Some] by simp
      show "live_blocks (clientPool (sv_clients ?s)) = set (x # xs)" using al(7) [OF Some] live by simp
    next
      fix y assume y: "y \<in> set (x # xs)"
      show "conn_ok (ctx ?s y) (sv_conns ?s y)"
      proof (cases "y = x")
        case True
        have "conn_ok (ctx_store m x) ?u"
          using al(4) [OF Some] by (simp add: conn_ok_def buffer_ok_def conn_open_def owed_def CLIENT_BUFFER_SIZE_def)
        with True conn_ok_core [OF core] show ?thesis by simp
      next
        case ne: False
        have "conn_ok (ctx_store m y) (sv_conns s y)"
          using al(3) [OF Some ne] inv y ne by (simp add: net_inv_def ctx_def)
        with ne conn_ok_core [OF core] show ?thesis by simp
      qed
    next
      fix y assume "y \<notin> set (x # xs)"
      then have n: "y \<noteq> x" "y \<notin> set xs" by simp_all
      have "quiet (sv_conns s y)" using inv n(2) unfolding net_inv_def by blast
      with n(1) show "quiet (sv_conns ?s y)" by simp
    qed
    with s' show ?thesis by auto
  qed
qed

lemma conn_step_inv: "conn_step s s' \<Longrightarrow> net_inv s xs \<Longrightarrow> \<exists>ys. net_inv s' ys"
  by (induction rule: conn_step.induct) (blast intro: arrived_inv written_inv timed_out_inv closed_inv)+

lemma net_step_inv: "net_step s s' \<Longrightarrow> net_inv s xs \<Longrightarrow> \<exists>ys. net_inv s' ys"
  by (induction rule: net_step.induct) (blast intro: connected_inv conn_step_inv)+

lemma net_reachable_inv: "net_reachable s \<Longrightarrow> \<exists>xs. net_inv s xs"
proof (induction rule: net_reachable.induct)
  case (started mem ctx_size m s)
  from client_init_inv [OF started(1-3)] started(4) have "net_inv s []"
    by (simp add: net_inv_def quiet_def new_conn_def owed_def)
  then show ?case by blast
next
  case (stepped s s')
  then show ?case using net_step_inv by blast
qed

section \<open>Properties\<close>

text \<open>The callbacks that libuv may still make for a context.\<close>

definition callback_due :: "uv_conn \<Rightarrow> bool" where
  "callback_due u \<longleftrightarrow> uv_reading u \<or> uv_timing u \<or> uv_writes u \<noteq> [] \<or> uv_tcp u = Closing \<or> uv_timer u = Closing"


text \<open>The registry of an empty server, and one client.\<close>

definition example_manager :: client_manager where
  "example_manager = snd (client_manager_init (Some 4096) 384
     \<lparr>clientPool = \<lparr>block_size = 0, internal_bsize = 0, slots_per_chunk = 0, chunks = []\<rparr>,
      ctx_store = (\<lambda>_. \<lparr>closing = False, pendingCloses = 0, totalRead = 0, buffer = None, ctx_next = None, ctx_prev = None\<rparr>),
      ptrActiveClientsHead = None, activeClientsCount = 0\<rparr>)"

definition example_server :: srv where
  "example_server = \<lparr>sv_clients = example_manager, sv_conns = (\<lambda>_. new_conn),
     sv_app = \<lparr>a_db = None, a_cache = [], a_sessions = None, a_cities = None, a_pool = []\<rparr>, sv_rates = None, sv_response = []\<rparr>"

lemma example_server_reachable: "net_reachable example_server"
  by (rule started [of "Some 4096" 384 "\<lparr>clientPool = \<lparr>block_size = 0, internal_bsize = 0, slots_per_chunk = 0, chunks = []\<rparr>,
      ctx_store = (\<lambda>_. \<lparr>closing = False, pendingCloses = 0, totalRead = 0, buffer = None, ctx_next = None, ctx_prev = None\<rparr>),
      ptrActiveClientsHead = None, activeClientsCount = 0\<rparr>"])
    (simp_all add: example_server_def example_manager_def client_manager_init_def slab_pool_init_def create_chunk_def Let_def)

lemma example_alloc: "\<exists>m. client_manager_alloc None example_manager = (Some (4096, 63), m)"
proof -
  have "[0..<64] = [0..<63] @ [63::nat]" using upt_Suc_append [of 0 63] by simp
  then show ?thesis
    by (simp add: example_manager_def client_manager_init_def slab_pool_init_def create_chunk_def foldl_push
        client_manager_alloc_def slab_pool_alloc_def CLIENT_CHUNK_CAPACITY_def Let_def del: upt_rec_numeral)
qed

lemma example_fresh: "fresh_mem None p"
  by (simp add: fresh_mem_def)

lemma example_count: "client_manager_active_count example_manager = 0"
  by (simp add: example_manager_def client_manager_init_def slab_pool_init_def create_chunk_def
      client_manager_active_count_def Let_def)


text \<open>C31: one connection that cannot be accepted loses all others. When \<open>uv_accept\<close> fails, the context is closed without
  ever having been linked, and its second close callback unlinks it all the same: the list of clients is then empty,
  whoever was connected, and the count that the limit of connections is checked with is one too low.\<close>

theorem failed_accept_loses_the_list:
  assumes r: "net_reachable s" and a: "client_manager_alloc mem (sv_clients s) = (Some x, m)"
    and lim: "client_manager_active_count (sv_clients s) < MAX_CLIENTS"
  shows "let s1 = on_connection 0 mem False s;
             s2 = on_close x (set_conn x (\<lambda>u. u\<lparr>uv_tcp := Closed\<rparr>) s1);
             s3 = on_close x (set_conn x (\<lambda>u. u\<lparr>uv_timer := Closed\<rparr>) s2)
         in uv_tcp (sv_conns s1 x) = Closing \<and> uv_timer (sv_conns s1 x) = Closing \<and>
            ptrActiveClientsHead (sv_clients s3) = None \<and>
            activeClientsCount (sv_clients s3) = activeClientsCount (sv_clients s) - 1"
proof -
  have n: "\<not> closing (ctx_store m x)" "ctx_next (ctx_store m x) = None" "ctx_prev (ctx_store m x) = None"
    "activeClientsCount m = activeClientsCount (sv_clients s)"
    using a by (auto simp: client_manager_alloc_def Let_def split: prod.splits option.splits)
  let ?s0 = "set_conn x (\<lambda>_. new_conn) (s\<lparr>sv_clients := m\<rparr>)"
  let ?s1 = "uv_close_both x (set_ctx x (\<lambda>c. c\<lparr>closing := True, pendingCloses := 2\<rparr>) ?s0)"
  have s1: "on_connection 0 mem False s = ?s1"
    using a lim n(1) by (simp add: on_connection_def setup_client_def close_client_def ctx_def Let_def)
  let ?s2 = "set_ctx x (\<lambda>c. c\<lparr>pendingCloses := pendingCloses c - 1\<rparr>) (set_conn x (\<lambda>u. u\<lparr>uv_tcp := Closed\<rparr>) ?s1)"
  have one: "(2 :: 2 word) - 1 = 1" "(1 :: 2 word) > 0" by simp_all
  have s2: "on_close x (set_conn x (\<lambda>u. u\<lparr>uv_tcp := Closed\<rparr>) ?s1) = ?s2"
    using one by (simp add: on_close_def uv_close_both_def Let_def)
  let ?m = "ctx_update x (\<lambda>c. c\<lparr>pendingCloses := pendingCloses c - 1\<rparr>) (sv_clients ?s2)"
  have s3: "sv_clients (on_close x (set_conn x (\<lambda>u. u\<lparr>uv_timer := Closed\<rparr>) ?s2)) =
      client_manager_release x (client_manager_unlink x ?m)"
    by (simp add: on_close_def uv_close_both_def set_ctx_def set_conn_def ctx_def Let_def)
  have l: "ctx_next (ctx_store ?m x) = None" "ctx_prev (ctx_store ?m x) = None"
    "activeClientsCount ?m = activeClientsCount (sv_clients s)"
    using n by (simp_all add: uv_close_both_def set_ctx_def set_conn_def)
  have "ptrActiveClientsHead (client_manager_unlink x ?m) = None" using l(1,2) by (simp add: client_manager_unlink_def Let_def)
  then show ?thesis
    unfolding Let_def s1 s2 s3 using l(3)
    by (simp add: client_manager_release_def Let_def) (simp add: uv_close_both_def)
qed

lemma alloc_with_memory:
  assumes "0 < slots_per_chunk (clientPool m)"
  shows "\<exists>x m'. client_manager_alloc (Some a) m = (Some x, m')"
proof -
  have "rev [0..<slots_per_chunk (clientPool m)] \<noteq> []" using assms by simp
  then obtain y ys where "rev [0..<slots_per_chunk (clientPool m)] = y # ys" by (meson neq_Nil_conv)
  then have "\<exists>b p. slab_pool_alloc (Some a) (clientPool m) = (Some b, p)"
    by (cases "pop_slot (chunks (clientPool m))") (auto simp: slab_pool_alloc_def create_chunk_def foldl_push)
  then obtain b p where "slab_pool_alloc (Some a) (clientPool m) = (Some b, p)" by blast
  then show ?thesis by (simp add: client_manager_alloc_def Let_def)
qed

lemma failed_accept_loses_the_list_witness:
  "\<exists>s x s3. net_reachable s \<and> live_blocks (clientPool (sv_clients s)) \<noteq> {} \<and>
     s3 = on_close x (set_conn x (\<lambda>u. u\<lparr>uv_timer := Closed\<rparr>)
        (on_close x (set_conn x (\<lambda>u. u\<lparr>uv_tcp := Closed\<rparr>) (on_connection 0 (Some 8192) False s)))) \<and>
     ptrActiveClientsHead (sv_clients s3) = None"
proof -
  let ?s = "on_connection 0 None True example_server"
  obtain m where m: "client_manager_alloc None example_manager = (Some (4096, 63), m)" using example_alloc by blast
  have r: "net_reachable ?s" by (rule stepped [OF example_server_reachable connected [OF example_fresh]])
  from net_reachable_inv [OF r] obtain xs where i: "net_inv ?s xs" by blast
  have rd: "\<not> quiet (sv_conns ?s (4096, 63))"
    using m by (simp add: on_connection_def setup_client_def example_server_def example_count MAX_CLIENTS_def
        uv_defs set_conn_def new_conn_def quiet_def Let_def)
  have live: "live_blocks (clientPool (sv_clients ?s)) \<noteq> {}"
    using inv_known(1) [OF i rd] i by (auto simp: net_inv_def)
  have c: "sv_clients ?s = client_manager_link (4096, 63) m"
    using m by (simp add: on_connection_def setup_client_def example_server_def example_count MAX_CLIENTS_def
        uv_defs set_conn_def new_conn_def Let_def)
  have "activeClientsCount m = client_manager_active_count example_manager"
    using m by (auto simp: client_manager_alloc_def client_manager_active_count_def Let_def split: prod.splits option.splits)
  then have lim: "client_manager_active_count (sv_clients ?s) < MAX_CLIENTS"
    by (simp add: c example_count MAX_CLIENTS_def) (simp add: client_manager_active_count_def example_count)
  have "0 < slots_per_chunk (clientPool (sv_clients ?s))" using i by (simp add: net_inv_def client_inv_def slab_inv_def)
  then obtain x m' where a: "client_manager_alloc (Some 8192) (sv_clients ?s) = (Some x, m')" using alloc_with_memory by blast
  from failed_accept_loses_the_list [OF r a lim] r live show ?thesis unfolding Let_def by blast
qed

end
