(* ===== verification/Server.thy ===== *)
theory Server
  imports ConnectionSpec AppSpec
begin

text \<open>
  The process: \<open>server.c\<close>.  \<open>main\<close> starts the subsystems one after the other and stops at the first that fails, binds
  the socket, and lets libuv make callbacks until SIGINT arrives; \<open>server_shutdown\<close> then closes every handle, lets
  libuv drain the close callbacks and destroys the subsystems.
\<close>

section \<open>Starting\<close>

text \<open>\<open>Fatal\<close> is a failed assertion, \<open>Crashed\<close> an access through a null pointer.\<close>

datatype 's start = Fatal | Crashed | Ready 's

fun then_start :: "'s start \<Rightarrow> ('s \<Rightarrow> 's start) \<Rightarrow> 's start" where
  "then_start Fatal f = Fatal"
| "then_start Crashed f = Crashed"
| "then_start (Ready s) f = f s"

definition check :: "bool \<times> 's \<Rightarrow> 's start" where
  "check r = (case r of (ok, s) \<Rightarrow> if ok then Ready s else Fatal)"

text \<open>The outside world at the start: the size of a context and the memory of the first chunk, the tables that SQLite
  finds in the file and whether it runs the two \<open>CREATE TABLE IF NOT EXISTS\<close>, the files, the parsed geometry file
  and what the list of cities contains once written, the allocations and seeds of the hash tables, and the result
  of \<open>uv_listen\<close>.\<close>

record start_env =
  se_ctx_size :: nat
  se_chunk :: "nat option"
  se_tables :: "tables option"
  se_create_users :: bool
  se_create_reports :: bool
  se_files :: "bytes \<Rightarrow> bytes option"
  se_fragments :: "bytes \<Rightarrow> bool"
  se_floats :: float_ops
  se_geojson :: "cjson option"
  se_cities_file :: "bytes list \<Rightarrow> bytes option"
  se_geo_table :: "bool \<times> bool \<times> 64 word"
  se_geo_mem :: "nat \<Rightarrow> ht_mem"
  se_session_table :: "bool \<times> bool \<times> 64 word"
  se_rate :: rate_env
  se_listen :: int

text \<open>The handles of the listening socket and of the signal watcher, whether the watcher is armed, and whether the
  loop was told to stop.\<close>

record server =
  sr_net :: srv
  sr_listener :: uv_phase
  sr_signal :: uv_phase
  sr_watching :: bool
  sr_stop :: bool

definition set_app :: "(app \<Rightarrow> app) \<Rightarrow> srv \<Rightarrow> srv" where
  "set_app f s = s\<lparr>sv_app := f (sv_app s)\<rparr>"

definition user_setup_table :: "bool \<Rightarrow> database \<Rightarrow> int" where
  "user_setup_table ok db = (if db \<noteq> None \<and> ok then 0 else -1)"

definition report_setup_table :: "bool \<Rightarrow> database \<Rightarrow> int" where
  "report_setup_table ok db = (if db \<noteq> None \<and> ok then 0 else -1)"

definition init_clients :: "start_env \<Rightarrow> srv \<Rightarrow> srv start" where
  "init_clients e s =
     (let (ok, m) = client_manager_init (se_chunk e) (se_ctx_size e) (sv_clients s) in check (ok, s\<lparr>sv_clients := m\<rparr>))"

definition init_db :: "start_env \<Rightarrow> srv \<Rightarrow> srv start" where
  "init_db e s =
     (let (ok, db) = db_init (se_tables e) (a_db (sv_app s)); s = set_app (\<lambda>a. a\<lparr>a_db := db\<rparr>) s in
      if \<not> ok then Fatal
      else if user_setup_table (se_create_users e) db \<noteq> 0 then Fatal
      else if report_setup_table (se_create_reports e) db \<noteq> 0 then Fatal
      else Ready s)"

definition from_disk :: "start_env \<Rightarrow> bytes \<Rightarrow> bytes \<times> bytes option \<times> bool" where
  "from_disk e path = (path, se_files e path, se_fragments e path)"

definition page_files :: "bytes list" where
  "page_files = [TPL_LOGIN, TPL_DOCS, TPL_REGISTER, TPL_CITIZEN_HOME, TPL_OPERATOR_MAP, TPL_SUBMIT, TPL_CSS, TPL_ADMIN_MAP]"

definition init_templates :: "start_env \<Rightarrow> srv \<Rightarrow> srv start" where
  "init_templates e s =
     (let (ok, pool) = tpl_load_files (map (from_disk e) page_files) (a_pool (sv_app s))
      in check (ok, set_app (\<lambda>a. a\<lparr>a_pool := pool\<rparr>) s))"

definition init_geo_table :: "start_env \<Rightarrow> srv \<Rightarrow> srv start" where
  "init_geo_table e s =
     (case se_geo_table e of (mt, mb, sd) \<Rightarrow>
      case geo_init (se_floats e) mt mb sd (se_geo_mem e) (se_geojson e) of
        Crash \<Rightarrow> Crashed
      | NoGeo \<Rightarrow> Fatal
      | Geo (n, table, names) \<Rightarrow>
          let s = set_app (\<lambda>a. a\<lparr>a_cities := table\<rparr>) s in
          if n < 0 then Fatal
          else let (ok, pool) = tpl_load_files [(CITIES_JSON_PATH, se_cities_file e names, se_fragments e CITIES_JSON_PATH)]
                                  (a_pool (sv_app s))
               in check (ok, set_app (\<lambda>a. a\<lparr>a_pool := pool\<rparr>) s))"

definition init_sessions :: "start_env \<Rightarrow> srv \<Rightarrow> srv start" where
  "init_sessions e s =
     (case se_session_table e of (mt, mb, sd) \<Rightarrow>
      let (ok, ss) = session_init mt mb sd in check (ok, set_app (\<lambda>a. a\<lparr>a_sessions := ss\<rparr>) s))"

definition init_rates :: "start_env \<Rightarrow> srv \<Rightarrow> srv start" where
  "init_rates e s = (let (ok, r) = rate_limiter_init (se_rate e) in check (ok, s\<lparr>sv_rates := r\<rparr>))"

text \<open>The subsystems in the order of the first assertion of \<open>main\<close>.\<close>

definition init_all :: "start_env \<Rightarrow> srv \<Rightarrow> srv start" where
  "init_all e s =
     then_start (then_start (then_start (then_start (then_start (init_clients e s) (init_db e)) (init_templates e))
       (init_geo_table e)) (init_sessions e)) (init_rates e)"

definition server_bind :: "start_env \<Rightarrow> srv \<Rightarrow> server start" where
  "server_bind e n =
     (if se_listen e \<noteq> 0 then Fatal
      else Ready \<lparr>sr_net = n, sr_listener = Active, sr_signal = Active, sr_watching = True, sr_stop = False\<rparr>)"

text \<open>The static variables of the process before \<open>main\<close>.\<close>

definition process_image :: srv where
  "process_image =
     \<lparr>sv_clients = \<lparr>clientPool = \<lparr>block_size = 0, internal_bsize = 0, slots_per_chunk = 0, chunks = []\<rparr>,
        ctx_store = (\<lambda>_. \<lparr>closing = False, pendingCloses = 0, totalRead = 0, buffer = None, ctx_next = None, ctx_prev = None\<rparr>),
        ptrActiveClientsHead = None, activeClientsCount = 0\<rparr>,
      sv_conns = (\<lambda>_. new_conn),
      sv_app = \<lparr>a_db = None, a_cache = g_cache_init, a_sessions = None, a_cities = None, a_pool = []\<rparr>,
      sv_rates = None, sv_response = []\<rparr>"

definition start_up :: "start_env \<Rightarrow> server start" where
  "start_up e =
     (case init_all e process_image of Fatal \<Rightarrow> Fatal | Crashed \<Rightarrow> Crashed | Ready n \<Rightarrow> server_bind e n)"

section \<open>Running\<close>

definition on_signal :: "server \<Rightarrow> server" where
  "on_signal s = s\<lparr>sr_watching := False, sr_stop := True\<rparr>"

text \<open>What libuv may do next.  The socket and the watcher are closed without a callback.\<close>

inductive loop_step :: "server \<Rightarrow> server \<Rightarrow> bool" where
  accepted: "\<lbrakk>sr_listener s = Active; fresh_mem mem (clientPool (sv_clients (sr_net s)))\<rbrakk> \<Longrightarrow>
    loop_step s (s\<lparr>sr_net := on_connection st mem True (sr_net s)\<rparr>)"
| called_back: "conn_step (sr_net s) n \<Longrightarrow> loop_step s (s\<lparr>sr_net := n\<rparr>)"
| signalled: "sr_watching s \<Longrightarrow> loop_step s (on_signal s)"
| listener_closed: "sr_listener s = Closing \<Longrightarrow> loop_step s (s\<lparr>sr_listener := Closed\<rparr>)"
| signal_closed: "sr_signal s = Closing \<Longrightarrow> loop_step s (s\<lparr>sr_signal := Closed\<rparr>)"

inductive running :: "start_env \<Rightarrow> server \<Rightarrow> bool" for e where
  up: "start_up e = Ready s \<Longrightarrow> running e s"
| on: "running e s \<Longrightarrow> loop_step s s' \<Longrightarrow> running e s'"

section \<open>Stopping\<close>

definition close_handles :: "server \<Rightarrow> server option" where
  "close_handles s =
     (case client_manager_close_all sv_clients (\<lambda>n x. close_client x n) (sr_net s) of
        None \<Rightarrow> None
      | Some n \<Rightarrow> Some (s\<lparr>sr_net := n, sr_signal := Closing, sr_watching := False, sr_listener := Closing\<rparr>))"

definition destroy_subsystems :: "srv \<Rightarrow> srv" where
  "destroy_subsystems n =
     (let n = set_app (\<lambda>a. a\<lparr>a_pool := tpl_unload_all (a_pool a)\<rparr>) n;
          n = set_app (\<lambda>a. a\<lparr>a_sessions := session_destroy_all (a_sessions a)\<rparr>) n;
          n = set_app (\<lambda>a. a\<lparr>a_cities := geo_cleanup (a_cities a)\<rparr>) n;
          n = n\<lparr>sv_rates := rate_limiter_destroy (sv_rates n)\<rparr>;
          n = n\<lparr>sv_clients := client_manager_destroy (sv_clients n)\<rparr>
      in set_app (\<lambda>a. a\<lparr>a_db := db_close (a_db a)\<rparr>) n)"

text \<open>The second \<open>uv_run\<close> returns when libuv has nothing left to do.\<close>

inductive server_shutdown :: "server \<Rightarrow> server \<Rightarrow> bool" where
  "\<lbrakk>close_handles s = Some s1; loop_step\<^sup>*\<^sup>* s1 s2; \<not> (\<exists>s3. loop_step s2 s3)\<rbrakk> \<Longrightarrow>
    server_shutdown s (s2\<lparr>sr_net := destroy_subsystems (sr_net s2)\<rparr>)"

end
