(* ===== verification/ServerSpec.thy ===== *)
theory ServerSpec
  imports Server
begin

text \<open>
  The whole process: a server that has started is complete and stays consistent, and shutting it down ends, with every
  connection released and every subsystem destroyed.
\<close>

section \<open>Draining the close callbacks\<close>

definition work :: "uv_conn \<Rightarrow> nat" where
  "work u = length (uv_writes u) + owed u"

definition shut :: "uv_conn \<Rightarrow> bool" where
  "shut u \<longleftrightarrow> quiet u \<or> \<not> uv_reading u \<and> \<not> uv_timing u \<and> uv_tcp u \<noteq> Active \<and> uv_timer u \<noteq> Active"

definition all_shut :: "srv \<Rightarrow> bool" where
  "all_shut n \<longleftrightarrow> (\<forall>x. shut (sv_conns n x))"

definition total_work :: "block list \<Rightarrow> srv \<Rightarrow> nat" where
  "total_work xs n = (\<Sum>x\<leftarrow>xs. work (sv_conns n x))"

lemma shut_closing:
  assumes "net_inv n xs" and "all_shut n" and "\<not> quiet (sv_conns n x)"
  shows "x \<in> set xs" and "closing (ctx n x)" and "conn_closing (sv_conns n x)"
proof -
  note k = inv_known [OF assms(1,3)]
  have "\<not> conn_open (sv_conns n x)" using assms(2,3) unfolding all_shut_def shut_def conn_open_def by blast
  then show "x \<in> set xs" and "closing (ctx n x)" and "conn_closing (sv_conns n x)"
    using k by (auto simp: conn_ok_def split: if_splits)
qed

lemma on_close_frame [simp]:
  "sv_conns (on_close x n) = sv_conns n" "sv_app (on_close x n) = sv_app n"
  by (simp_all add: on_close_def Let_def set_ctx_def)

lemma close_client_frame [simp]:
  "sv_app (close_client x n) = sv_app n" "y \<noteq> x \<Longrightarrow> sv_conns (close_client x n) y = sv_conns n y"
  by (simp_all add: close_client_def uv_close_both_def set_conn_def set_ctx_def)

lemma written_while_shut:
  assumes "net_inv n xs" and "all_shut n" and w: "uv_writes (sv_conns n x) \<noteq> []"
  shows "sv_app (on_write_complete x st n) = sv_app n"
    and "sv_conns (on_write_complete x st n) = (sv_conns n)(x := (sv_conns n x)\<lparr>uv_writes := []\<rparr>)"
proof -
  have "\<not> quiet (sv_conns n x)" using w by (simp add: quiet_def)
  note k = shut_closing [OF assms(1,2) this]
  obtain d keep where d: "uv_writes (sv_conns n x) = [(d, keep)]"
    using k(3) w by (cases "uv_writes (sv_conns n x)") (auto simp: conn_closing_def)
  show "sv_app (on_write_complete x st n) = sv_app n"
    using d by (simp add: on_write_complete_def Let_def uv_defs set_conn_def set_ctx_def)
  have "uv_tcp (sv_conns n x) \<noteq> Active" "uv_timer (sv_conns n x) \<noteq> Active" using k(3) by (simp_all add: conn_closing_def)
  then show "sv_conns (on_write_complete x st n) = (sv_conns n)(x := (sv_conns n x)\<lparr>uv_writes := []\<rparr>)"
    using d k(2) by (simp add: on_write_complete_def Let_def close_client_def uv_defs)
qed

lemma drain_step:
  assumes inv: "net_inv n xs" and sh: "all_shut n" and st: "conn_step n n'"
  shows "sv_app n' = sv_app n \<and> (\<exists>x\<in>set xs. (\<forall>y. y \<noteq> x \<longrightarrow> sv_conns n' y = sv_conns n y) \<and>
    shut (sv_conns n' x) \<and> work (sv_conns n' x) < work (sv_conns n x))"
proof -
  have due: "x \<in> set xs \<and> conn_closing (sv_conns n x)" if "callback_due (sv_conns n x)" for x
    using shut_closing(1,3) [OF inv sh] that by (auto simp: callback_due_def quiet_def owed_def)
  note s = conn_closing_def shut_def work_def owed_def
  from st show ?thesis
  proof cases
    case (arrived x mem k s1 nread ne)
    with due [of x] show ?thesis by (simp add: callback_due_def conn_closing_def)
  next
    case (written x st)
    note w = written_while_shut [OF inv sh written(2), of st]
    from w written due [of x] show ?thesis by (intro conjI bexI [of _ x]) (auto simp: callback_due_def s)
  next
    case (timed_out x)
    with due [of x] show ?thesis by (simp add: callback_due_def conn_closing_def)
  next
    case (tcp_closed x)
    with due [of x] show ?thesis
      by (intro conjI bexI [of _ x]) (auto simp: callback_due_def s set_conn_def quiet_def)
  next
    case (timer_closed x)
    with due [of x] show ?thesis
      by (intro conjI bexI [of _ x]) (auto simp: callback_due_def s set_conn_def quiet_def)
  qed
qed

lemma total_work_decreases:
  assumes "x \<in> set xs" and "\<And>y. y \<noteq> x \<Longrightarrow> sv_conns n' y = sv_conns n y" and "work (sv_conns n' x) < work (sv_conns n x)"
  shows "total_work xs n' < total_work xs n"
proof -
  have le: "work (sv_conns n' y) \<le> work (sv_conns n y)" for y using assms(2,3) by (cases "y = x") auto
  obtain as bs where xs: "xs = as @ x # bs" using assms(1) by (meson split_list)
  have "total_work as n' \<le> total_work as n" "total_work bs n' \<le> total_work bs n"
    unfolding total_work_def using le by (auto intro!: sum_list_mono)
  then show ?thesis using assms(3) by (simp add: total_work_def xs)
qed

text \<open>While something is left in the list, libuv can go on.\<close>

lemma drain_progress:
  assumes inv: "net_inv n xs" and sh: "all_shut n" and x: "x \<in> set xs"
  shows "\<exists>n'. conn_step n n'"
proof -
  have ok: "conn_ok (ctx n x) (sv_conns n x)" using inv x by (simp add: net_inv_def)
  then have "\<not> quiet (sv_conns n x)"
    by (auto simp: conn_ok_def conn_open_def conn_closing_def quiet_def split: if_splits)
  from shut_closing(3) [OF inv sh this] have o: "owed (sv_conns n x) > 0" by (simp add: conn_closing_def)
  then consider "uv_timer (sv_conns n x) = Closing" | "uv_tcp (sv_conns n x) = Closing" "uv_writes (sv_conns n x) = []"
    | "uv_writes (sv_conns n x) \<noteq> []" by (auto simp: owed_def split: if_splits)
  then show ?thesis using conn_step.intros by (cases; blast)
qed

section \<open>Closing all clients\<close>

interpretation closer: list_visitor sv_clients "\<lambda>n x. close_client x n"
proof
  fix n :: srv and xs x
  assume l: "linked (sv_clients n) xs"
  obtain c where c: "sv_clients (close_client x n) = ctx_update x (\<lambda>_. c) (sv_clients n)" "same_links c (ctx n x)"
    using close_client_only [of x n] by (auto simp: only_conn_def)
  have "linked (sv_clients (close_client x n)) xs = linked (sv_clients n) xs"
    by (rule linked_same_links) (use c in \<open>auto simp: same_links_def ctx_def\<close>)
  with l show "linked (sv_clients (close_client x n)) xs \<or> linked (sv_clients (close_client x n)) (remove1 x xs)" by simp
qed

definition close_all :: "block list \<Rightarrow> srv \<Rightarrow> srv" where
  "close_all xs n = foldl (\<lambda>n x. close_client x n) n xs"

lemma close_all_inv:
  "net_inv n xs \<Longrightarrow> set ys \<subseteq> set xs \<Longrightarrow> net_inv (close_all ys n) xs \<and> sv_app (close_all ys n) = sv_app n"
proof (induction ys arbitrary: n)
  case (Cons x ys)
  have "net_inv (close_client x n) xs" using Cons.prems by (intro close_client_inv) simp_all
  from Cons.IH [OF this] Cons.prems(2) show ?case by (simp add: close_all_def)
qed (simp add: close_all_def)

lemma close_client_shut:
  assumes "net_inv n xs" and "x \<in> set xs"
  shows "shut (sv_conns (close_client x n) x)"
proof -
  have i: "conn_ok (ctx n x) (sv_conns n x)" using assms by (simp add: net_inv_def)
  then show ?thesis
    by (cases "closing (ctx n x)")
      (auto simp: close_client_def uv_close_both_def conn_ok_def conn_closing_def shut_def)
qed

lemma close_client_keeps_shut:
  assumes "shut (sv_conns n y)" and "net_inv n xs" and "x \<in> set xs"
  shows "shut (sv_conns (close_client x n) y)"
  using assms close_client_shut [OF assms(2,3)] by (cases "y = x") simp_all

lemma close_all_shut:
  "net_inv n xs \<Longrightarrow> set ys \<subseteq> set xs \<Longrightarrow> y \<in> set ys \<or> shut (sv_conns n y) \<Longrightarrow> shut (sv_conns (close_all ys n) y)"
proof (induction ys arbitrary: n)
  case (Cons x ys)
  then have x: "x \<in> set xs" by simp
  have "y \<in> set ys \<or> shut (sv_conns (close_client x n) y)"
    using Cons.prems(3) close_client_shut [OF Cons.prems(1) x] close_client_keeps_shut [OF _ Cons.prems(1) x, of y]
    by (cases "y = x") auto
  with Cons.IH [OF close_client_inv [OF Cons.prems(1) x]] Cons.prems(2) show ?case by (simp add: close_all_def)
qed (simp add: close_all_def)

lemma close_all_all_shut: "net_inv n xs \<Longrightarrow> all_shut (close_all xs n)"
proof -
  assume i: "net_inv n xs"
  have "y \<in> set xs \<or> shut (sv_conns n y)" for y
    using i unfolding net_inv_def shut_def by blast
  with close_all_shut [OF i subset_refl] show ?thesis by (simp add: all_shut_def)
qed

lemma work_bound: "net_inv n xs \<Longrightarrow> x \<in> set xs \<Longrightarrow> work (sv_conns n x) \<le> 3"
  by (auto simp: net_inv_def conn_ok_def conn_open_def conn_closing_def work_def owed_def split: if_splits)

lemma total_work_bound: "net_inv n xs \<Longrightarrow> total_work xs n \<le> 3 * length xs"
proof -
  assume i: "net_inv n xs"
  have "(\<Sum>x\<leftarrow>ys. work (sv_conns n x)) \<le> 3 * length ys" if "set ys \<subseteq> set xs" for ys
    using that work_bound [OF i] by (induction ys) fastforce+
  then show ?thesis by (simp add: total_work_def)
qed

section \<open>Draining the loop\<close>

definition draining :: "block list \<Rightarrow> app \<Rightarrow> server \<Rightarrow> bool" where
  "draining xs a s \<longleftrightarrow> (\<exists>ys. net_inv (sr_net s) ys) \<and> all_shut (sr_net s) \<and>
     (\<forall>x. x \<notin> set xs \<longrightarrow> quiet (sv_conns (sr_net s) x)) \<and>
     sr_listener s \<noteq> Active \<and> sr_signal s \<noteq> Active \<and> \<not> sr_watching s \<and> sv_app (sr_net s) = a"

definition left_to_do :: "block list \<Rightarrow> server \<Rightarrow> nat" where
  "left_to_do xs s = total_work xs (sr_net s) + of_bool (sr_listener s = Closing) + of_bool (sr_signal s = Closing)"

lemma draining_conn:
  assumes d: "draining xs a s" and st: "conn_step (sr_net s) n"
  shows "draining xs a (s\<lparr>sr_net := n\<rparr>)" and "total_work xs n < total_work xs (sr_net s)"
proof -
  obtain ys where inv: "net_inv (sr_net s) ys" and sh: "all_shut (sr_net s)"
    and q: "\<And>x. x \<notin> set xs \<Longrightarrow> quiet (sv_conns (sr_net s) x)" using d unfolding draining_def by blast
  obtain x where x: "\<And>y. y \<noteq> x \<Longrightarrow> sv_conns n y = sv_conns (sr_net s) y" "shut (sv_conns n x)"
      "work (sv_conns n x) < work (sv_conns (sr_net s) x)" and a: "sv_app n = sv_app (sr_net s)"
    using drain_step [OF inv sh st] by blast
  have xs: "x \<in> set xs"
  proof (rule ccontr)
    assume "x \<notin> set xs"
    from q [OF this] x(3) show False by (simp add: quiet_def work_def)
  qed
  show "total_work xs n < total_work xs (sr_net s)" by (rule total_work_decreases [OF xs x(1,3)])
  have "shut (sv_conns n y)" for y using x sh unfolding all_shut_def by (metis (full_types))
  moreover have "quiet (sv_conns n y)" if "y \<notin> set xs" for y using q [OF that] x(1) [of y] that xs by metis
  moreover have "\<exists>zs. net_inv n zs" by (rule conn_step_inv [OF st inv])
  ultimately show "draining xs a (s\<lparr>sr_net := n\<rparr>)" using d a unfolding draining_def all_shut_def by simp
qed

lemma draining_step:
  assumes "draining xs a s" and "loop_step s s'"
  shows "draining xs a s' \<and> left_to_do xs s' < left_to_do xs s"
  using assms(2)
proof cases
  case (called_back n)
  from draining_conn [OF assms(1) called_back(2)] called_back(1) show ?thesis by (simp add: left_to_do_def)
qed (use assms(1) in \<open>simp_all add: draining_def left_to_do_def\<close>)

lemma draining_steps:
  "(loop_step ^^ k) s s' \<Longrightarrow> draining xs a s \<Longrightarrow> draining xs a s' \<and> k + left_to_do xs s' \<le> left_to_do xs s"
proof (induction k arbitrary: s')
  case (Suc k)
  then obtain s1 where "(loop_step ^^ k) s s1" "loop_step s1 s'" by auto
  with Suc.IH [of s1] Suc.prems(2) draining_step [of xs a s1 s'] show ?case by auto
qed simp

lemma draining_ends: "draining xs a s \<Longrightarrow> \<exists>s'. loop_step\<^sup>*\<^sup>* s s' \<and> \<not> (\<exists>s''. loop_step s' s'')"
proof (induction "left_to_do xs s" arbitrary: s rule: less_induct)
  case less
  show ?case
  proof (cases "\<exists>s1. loop_step s s1")
    case True
    then obtain s1 where s1: "loop_step s s1" by blast
    from draining_step [OF less.prems this] less.hyps [of s1] obtain s' where
      "loop_step\<^sup>*\<^sup>* s1 s'" "\<not> (\<exists>s''. loop_step s' s'')" by blast
    with s1 show ?thesis by (meson converse_rtranclp_into_rtranclp)
  qed blast
qed

lemma drained:
  assumes d: "draining xs a s" and n: "\<not> (\<exists>s'. loop_step s s')"
  shows "live_blocks (clientPool (sv_clients (sr_net s))) = {} \<and> ptrActiveClientsHead (sv_clients (sr_net s)) = None \<and>
    activeClientsCount (sv_clients (sr_net s)) = 0 \<and> (\<forall>x. \<not> callback_due (sv_conns (sr_net s) x)) \<and>
    sr_listener s = Closed \<and> sr_signal s = Closed"
proof -
  obtain ys where inv: "net_inv (sr_net s) ys" and sh: "all_shut (sr_net s)" using d unfolding draining_def by blast
  have "ys = []"
  proof (rule ccontr)
    assume "ys \<noteq> []"
    then have "hd ys \<in> set ys" by simp
    from drain_progress [OF inv sh this] called_back n show False by blast
  qed
  then have e: "net_inv (sr_net s) []" using inv by simp
  have "\<not> callback_due (sv_conns (sr_net s) x)" for x
  proof -
    have "quiet (sv_conns (sr_net s) x)" using e unfolding net_inv_def by (cases x) simp
    then show ?thesis by (auto simp: callback_due_def quiet_def owed_def)
  qed
  moreover have "sr_listener s \<noteq> Closing" "sr_signal s \<noteq> Closing" using n listener_closed signal_closed by blast+
  ultimately show ?thesis using d e
    by (cases "sr_listener s"; cases "sr_signal s") (auto simp: draining_def net_inv_def client_inv_def linked_def)
qed

lemma close_handles_drains:
  assumes inv: "net_inv (sr_net s) xs"
  shows "\<exists>s1. close_handles s = Some s1 \<and> draining xs (sv_app (sr_net s)) s1 \<and> left_to_do xs s1 \<le> 3 * length xs + 2"
proof -
  let ?n = "close_all xs (sr_net s)"
  have "linked (sv_clients (sr_net s)) xs" using inv by (simp add: net_inv_def client_inv_def)
  from closer.close_all_visits_each_once [OF this]
  have c: "close_handles s = Some (s\<lparr>sr_net := ?n, sr_signal := Closing, sr_watching := False, sr_listener := Closing\<rparr>)"
    by (simp add: close_handles_def close_all_def)
  have i: "net_inv ?n xs" "sv_app ?n = sv_app (sr_net s)" using close_all_inv [OF inv subset_refl] by simp_all
  moreover have "quiet (sv_conns ?n x)" if "x \<notin> set xs" for x using i(1) that unfolding net_inv_def by blast
  ultimately have "draining xs (sv_app (sr_net s)) (s\<lparr>sr_net := ?n, sr_signal := Closing, sr_watching := False, sr_listener := Closing\<rparr>)"
    using close_all_all_shut [OF inv] unfolding draining_def by auto
  with c total_work_bound [OF i(1)] show ?thesis by (simp add: left_to_do_def)
qed

section \<open>The running server\<close>

text \<open>Handlers touch neither the templates nor the table of the cities.\<close>

definition same_files :: "app \<Rightarrow> app \<Rightarrow> bool" where
  "same_files a a' \<longleftrightarrow> a_pool a' = a_pool a \<and> a_cities a' = a_cities a"

lemma get_session_files: "same_files a (snd (get_session_user env req a))"
  by (auto simp: get_session_user_def Let_def same_files_def split: prod.split)

lemma session_handlers_pool: "h \<in> session_handlers \<Longrightarrow> a_pool (fst (h env req a resp)) = a_pool (snd (get_session_user env req a))"
  unfolding session_handlers_def
  by (elim insertE emptyE; simp add: handler_defs route_post_submit_def route_api_report_status_def
      route_api_report_respond_def route_api_report_feedback_def route_api_admin_assign_def Let_def
      split: prod.split option.split)

lemma other_handlers_pool:
  "h \<in> other_handlers \<or> h = route_post_login \<or> h = route_get_logout \<Longrightarrow> a_pool (fst (h env req a resp)) = a_pool a"
  unfolding other_handlers_def
  by (elim insertE emptyE disjE; simp add: handler_defs route_post_register_def Let_def split: prod.split option.split bool.split)

lemma session_handlers_cities: "h \<in> session_handlers \<Longrightarrow> a_cities (fst (h env req a resp)) = a_cities (snd (get_session_user env req a))"
  unfolding session_handlers_def
  by (elim insertE emptyE; simp add: handler_defs route_post_submit_def route_api_report_status_def
      route_api_report_respond_def route_api_report_feedback_def route_api_admin_assign_def Let_def
      split: prod.split option.split)

lemma other_handlers_cities:
  "h \<in> other_handlers \<or> h = route_post_login \<or> h = route_get_logout \<Longrightarrow> a_cities (fst (h env req a resp)) = a_cities a"
  unfolding other_handlers_def
  by (elim insertE emptyE disjE; simp add: handler_defs route_post_register_def Let_def split: prod.split option.split bool.split)

lemma request_files:
  assumes "handle_request env req a resp = (a', resp')"
  shows "same_files a a'"
proof (cases "route_loop routes req False")
  case (Inl b)
  with assms show ?thesis by (auto simp: handle_request_def same_files_def split: bool.splits)
next
  case (Inr h)
  then have h: "(hr_method req, hr_path req, h) \<in> set routes" using route_loop_Inr by blast
  have a': "a' = fst (h env req a resp)" using Inr assms by (simp add: handle_request_def)
  from routes_sessions [OF h] show ?thesis unfolding a' same_files_def
    using get_session_files [of a env req, unfolded same_files_def] session_handlers_pool [of h env req a resp] session_handlers_cities [of h env req a resp]
      other_handlers_pool [of h env req a resp] other_handlers_cities [of h env req a resp] by metis
qed

text \<open>The table of the sessions is never lost.\<close>

lemma verify_stays: "snd (session_verify now token ss) = None \<longleftrightarrow> ss = None"
  by (cases ss) (auto simp: session_verify_def Let_def split: prod.split bool.split)

lemma create_loop_keeps: "snd (create_loop n src now ss) = None \<longleftrightarrow> ss = None"
proof (induction n arbitrary: ss)
  case (Suc n)
  obtain f s1 where v: "session_verify now (generate_token (src (SESSION_CREATE_MAX_TRIES - Suc n)) TOKEN_HEX_LEN) ss = (f, s1)"
    by fastforce
  from verify_stays [of now _ ss] v have "s1 = None \<longleftrightarrow> ss = None" by (metis snd_conv)
  with Suc.IH [of s1] v show ?case by (simp add: Let_def split: option.split)
qed simp

lemma create_keeps: "session_create mem src now u ss = (r, ss') \<Longrightarrow> ss' = None \<longleftrightarrow> ss = None"
  using create_loop_keeps [of SESSION_CREATE_MAX_TRIES src now ss]
  by (auto simp: session_create_def Let_def split: prod.splits option.splits if_splits)

lemma destroy_keeps: "session_destroy token ss = None \<longleftrightarrow> ss = None"
  by (simp add: session_destroy_def split: option.split)

lemma session_table_stays: "a_sessions (snd (get_session_user env req a)) = None \<longleftrightarrow> a_sessions a = None"
  using verify_stays by (auto simp: get_session_user_def Let_def case_prod_beta)

lemma request_keeps_sessions:
  assumes "handle_request env req a resp = (a', resp')"
  shows "a_sessions a' = None \<longleftrightarrow> a_sessions a = None"
proof (cases "route_loop routes req False")
  case (Inl b)
  with assms show ?thesis by (auto simp: handle_request_def split: bool.splits)
next
  case (Inr h)
  then have h: "(hr_method req, hr_path req, h) \<in> set routes" using route_loop_Inr by blast
  have a': "a' = fst (h env req a resp)" using Inr assms by (simp add: handle_request_def)
  have login: "a_sessions (fst (route_post_login env req a resp)) = None \<longleftrightarrow> a_sessions a = None"
    by (auto simp: route_post_login_def Let_def split: prod.split option.split bool.split dest: create_keeps)
  have logout: "a_sessions (fst (route_get_logout env req a resp)) = None \<longleftrightarrow> a_sessions a = None"
    using destroy_keeps by (simp add: route_get_logout_def Let_def)
  from routes_sessions [OF h] show ?thesis unfolding a'
    using other_handlers_sessions [of h env req a resp] session_handlers_sessions [of h env req a resp]
      session_table_stays [of env req a] login logout by auto
qed

text \<open>A callback changes the application by at most one request.\<close>

definition app_step :: "app \<Rightarrow> app \<Rightarrow> bool" where
  "app_step a a' \<longleftrightarrow> a' = a \<or> (\<exists>env req resp resp'. handle_request env req a resp = (a', resp'))"

lemma uv_app [simp]:
  "sv_app (set_conn x g n) = sv_app n" "sv_app (set_ctx x f n) = sv_app n"
  by (simp_all add: set_conn_def set_ctx_def)

lemma send_response_app [simp]: "sv_app (send_response mem x resp k n) = sv_app n"
  by (simp add: send_response_def uv_write_def split: option.split)

lemma answer_app: "app_step (sv_app n) (sv_app (answer ne x raw n))"
  by (auto simp: answer_def app_step_def Let_def split: prod.split option.split)

lemma on_buffer_alloc_app: "on_buffer_alloc mem x n = (k, n1) \<Longrightarrow> sv_app n1 = sv_app n"
  by (auto simp: on_buffer_alloc_def Let_def split: if_splits)

lemma on_read_app: "app_step (sv_app n) (sv_app (on_read ne x nread n))"
proof (cases nread)
  case None
  then show ?thesis by (simp add: on_read_def app_step_def)
next
  case (Some d)
  define n1 where "n1 = set_ctx x (\<lambda>c. c\<lparr>totalRead := totalRead c + length d,
      buffer := Some (take (totalRead (ctx n x)) (the (buffer (ctx n x))) @ d)\<rparr>) n"
  have "sv_app (uv_timer_stop x (uv_read_stop x n1)) = sv_app n" by (simp add: n1_def uv_defs)
  with answer_app [of "uv_timer_stop x (uv_read_stop x n1)"] have
    "app_step (sv_app n) (sv_app (answer ne x raw (uv_timer_stop x (uv_read_stop x n1))))" for raw by simp
  moreover have "sv_app n1 = sv_app n" by (simp add: n1_def)
  ultimately show ?thesis unfolding on_read_def Some option.case Let_def n1_def [symmetric] by (simp add: app_step_def)
qed

lemma conn_step_app: "conn_step n n' \<Longrightarrow> app_step (sv_app n) (sv_app n')"
proof (induction rule: conn_step.induct)
  case (arrived n x mem k n1 nread ne)
  from on_read_app [of n1] on_buffer_alloc_app [OF arrived(2)] show ?case by simp
next
  case (written n x st)
  then show ?case
    by (cases "uv_writes (sv_conns n x)") (auto simp: on_write_complete_def app_step_def uv_defs Let_def)
qed (simp_all add: app_step_def on_timeout_def uv_defs)

lemma on_connection_app: "sv_app (on_connection st mem ok n) = sv_app n"
  by (auto simp: on_connection_def setup_client_def uv_defs Let_def split: prod.split option.split)

lemma loop_step_app: "loop_step s s' \<Longrightarrow> app_step (sv_app (sr_net s)) (sv_app (sr_net s'))"
  by (cases rule: loop_step.cases) (auto simp: on_connection_app on_signal_def app_step_def dest: conn_step_app)

lemma loop_step_net:
  assumes "loop_step s s'" and "net_reachable (sr_net s)"
  shows "net_reachable (sr_net s')"
  using assms(1)
proof cases
  case (accepted mem st)
  then show ?thesis using stepped [OF assms(2) connected] by simp
next
  case (called_back n)
  then show ?thesis using stepped [OF assms(2) callback] by simp
qed (use assms(2) in \<open>simp_all add: on_signal_def\<close>)

section \<open>Starting\<close>

text \<open>A successful load gives the templates in the order of the files, after those that were there.\<close>

lemma load_one_loads:
  assumes "load_one (path, b, mem) ts0 = (True, ts1)"
  shows "\<exists>tp. ts1 = ts0 @ [tp] \<and> tp_path tp = path \<and> b = Some (tp_src tp)"
  using assms by (auto simp: load_one_def split: if_splits option.splits)

lemma load_files_loads:
  "tpl_load_files xs ts0 = (True, ts1) \<Longrightarrow>
    \<exists>tps. ts1 = ts0 @ tps \<and> map (\<lambda>tp. (tp_path tp, Some (tp_src tp))) tps = map (\<lambda>x. (fst x, fst (snd x))) xs"
proof (induction xs arbitrary: ts0)
  case (Cons x xs)
  obtain path b mem where x: "x = (path, b, mem)" by (cases x)
  obtain ok p1 where l: "load_one x ts0 = (ok, p1)" by fastforce
  with Cons.prems have ok: "ok" and r: "tpl_load_files xs p1 = (True, ts1)"
    by (auto simp: Let_def case_prod_beta prod_eq_iff)
  obtain tp where tp: "p1 = ts0 @ [tp]" "tp_path tp = path" "b = Some (tp_src tp)"
    using load_one_loads [of path b mem ts0 p1] l ok x by auto
  obtain tps where "ts1 = p1 @ tps" "map (\<lambda>tp. (tp_path tp, Some (tp_src tp))) tps = map (\<lambda>x. (fst x, fst (snd x))) xs"
    using Cons.IH [OF r] by blast
  with tp x show ?case by (intro exI [of _ "tp # tps"]) simp
qed simp

lemma tpl_get_loaded:
  assumes "map (\<lambda>tp. (tp_path tp, Some (tp_src tp))) tps = map (\<lambda>p. (p, f p)) ps" and "p \<in> set ps"
    and "\<And>q. q \<in> set ps \<Longrightarrow> cstr q = q"
  shows "\<exists>tp. tpl_get tps p = Some tp \<and> tp_path tp = p \<and> f p = Some (tp_src tp)"
  using assms
proof (induction ps arbitrary: tps)
  case (Cons q ps)
  then obtain tp tps' where t: "tps = tp # tps'" "tp_path tp = q" "f q = Some (tp_src tp)"
    "map (\<lambda>tp. (tp_path tp, Some (tp_src tp))) tps' = map (\<lambda>p. (p, f p)) ps" by auto
  show ?case
  proof (cases "p = q")
    case True
    with t show ?thesis by (simp add: tpl_get_def)
  next
    case False
    then have p: "p \<in> set ps" using Cons.prems(2) by simp
    from Cons.IH [OF t(4) p] Cons.prems(3) obtain tp' where
      "tpl_get tps' p = Some tp'" "tp_path tp' = p" "f p = Some (tp_src tp')" by auto
    moreover have "cstr q \<noteq> cstr p" using False p Cons.prems(3) by simp
    ultimately show ?thesis using t(1,2) by (simp add: tpl_get_def)
  qed
qed simp

lemma page_paths: "q \<in> set (page_files @ [CITIES_JSON_PATH]) \<Longrightarrow> cstr q = q"
  unfolding page_files_def TPL_LOGIN_def TPL_DOCS_def TPL_REGISTER_def TPL_CITIZEN_HOME_def TPL_OPERATOR_MAP_def
    TPL_SUBMIT_def TPL_CSS_def TPL_ADMIN_MAP_def CITIES_JSON_PATH_def
  by (rule cstr_id) (auto simp: NUL_def)

lemma check_Ready: "check r = Ready s \<longleftrightarrow> r = (True, s)"
  by (cases r) (simp add: check_def)

lemma then_Ready: "then_start r f = Ready s \<longleftrightarrow> (\<exists>t. r = Ready t \<and> f t = Ready s)"
  by (cases r) auto

text \<open>What \<open>geo_init\<close> made of the geometry file.\<close>

definition geo_result_of :: "start_env \<Rightarrow> (int \<times> city_table option \<times> bytes list) geo_result" where
  "geo_result_of e =
     (case se_geo_table e of (mt, mb, sd) \<Rightarrow> geo_init (se_floats e) mt mb sd (se_geo_mem e) (se_geojson e))"

lemma init_all_Ready:
  assumes "init_all e process_image = Ready n"
  shows "\<exists>m. client_manager_init (se_chunk e) (se_ctx_size e) (sv_clients process_image) = (True, m) \<and> sv_clients n = m"
    and "sv_conns n = (\<lambda>_. new_conn)" and "a_db (sv_app n) = se_tables e \<and> se_tables e \<noteq> None"
    and "\<exists>mt mb sd. session_init mt mb sd = (True, a_sessions (sv_app n))"
    and "a_cache (sv_app n) = g_cache_init"
    and "\<exists>k names. geo_result_of e = Geo (k, a_cities (sv_app n), names) \<and> 0 \<le> k \<and>
      map (\<lambda>tp. (tp_path tp, Some (tp_src tp))) (a_pool (sv_app n)) =
        map (\<lambda>p. (p, if p = CITIES_JSON_PATH then se_cities_file e names else se_files e p)) (page_files @ [CITIES_JSON_PATH])"
proof -
  obtain n1 n2 n3 n4 n5 where s: "init_clients e process_image = Ready n1" "init_db e n1 = Ready n2"
      "init_templates e n2 = Ready n3" "init_geo_table e n3 = Ready n4" "init_sessions e n4 = Ready n5" "init_rates e n5 = Ready n"
    using assms by (auto simp: init_all_def then_Ready)
  obtain m where m: "client_manager_init (se_chunk e) (se_ctx_size e) (sv_clients process_image) = (True, m)"
    "n1 = process_image\<lparr>sv_clients := m\<rparr>"
    using s(1) by (auto simp: init_clients_def Let_def check_Ready split: prod.splits)
  obtain t where t: "se_tables e = Some t" "n2 = set_app (\<lambda>a. a\<lparr>a_db := Some t\<rparr>) n1"
    using s(2) by (auto simp: init_db_def db_init_def Let_def split: option.splits if_splits prod.splits)
  obtain p1 where p1: "tpl_load_files (map (from_disk e) page_files) (a_pool (sv_app n2)) = (True, p1)"
      "n3 = set_app (\<lambda>a. a\<lparr>a_pool := p1\<rparr>) n2"
    using s(3) by (auto simp: init_templates_def Let_def check_Ready split: prod.splits)
  obtain k table names p2 where g: "geo_result_of e = Geo (k, table, names)" "0 \<le> k"
      "tpl_load_files [(CITIES_JSON_PATH, se_cities_file e names, se_fragments e CITIES_JSON_PATH)]
         (a_pool (sv_app (set_app (\<lambda>a. a\<lparr>a_cities := table\<rparr>) n3))) = (True, p2)"
      "n4 = set_app (\<lambda>a. a\<lparr>a_pool := p2\<rparr>) (set_app (\<lambda>a. a\<lparr>a_cities := table\<rparr>) n3)"
    using s(4) by (auto simp: init_geo_table_def geo_result_of_def Let_def check_Ready
        split: prod.splits geo_result.splits if_splits)
  obtain mt mb sd ss where ss: "session_init mt mb sd = (True, ss)" "n5 = set_app (\<lambda>a. a\<lparr>a_sessions := ss\<rparr>) n4"
    using s(5) by (auto simp: init_sessions_def Let_def check_Ready split: prod.splits)
  obtain r where r: "n = n5\<lparr>sv_rates := r\<rparr>"
    using s(6) by (auto simp: init_rates_def Let_def check_Ready split: prod.splits)
  note all = m(2) t(2) p1(2) g(4) ss(2) r set_app_def process_image_def
  show "\<exists>m. client_manager_init (se_chunk e) (se_ctx_size e) (sv_clients process_image) = (True, m) \<and> sv_clients n = m"
    using m(1) by (simp add: all)
  show "sv_conns n = (\<lambda>_. new_conn)" "a_db (sv_app n) = se_tables e \<and> se_tables e \<noteq> None"
      "a_cache (sv_app n) = g_cache_init"
    using t(1) by (simp_all add: all)
  show "\<exists>mt mb sd. session_init mt mb sd = (True, a_sessions (sv_app n))" using ss(1) by (auto simp: all)
  have pool: "a_pool (sv_app n) = p2" "a_cities (sv_app n) = table" by (simp_all add: all)
  from load_files_loads [OF p1(1)] have l1: "map (\<lambda>tp. (tp_path tp, Some (tp_src tp))) p1 = map (\<lambda>p. (p, se_files e p)) page_files"
    by (auto simp: m(2) t(2) set_app_def process_image_def from_disk_def comp_def)
  obtain tps where l2: "p2 = p1 @ tps" "map (\<lambda>tp. (tp_path tp, Some (tp_src tp))) tps = [(CITIES_JSON_PATH, se_cities_file e names)]"
    using load_files_loads [OF g(3)] by (auto simp: p1(2) set_app_def)
  have "CITIES_JSON_PATH \<notin> set page_files"
    by (simp add: page_files_def TPL_LOGIN_def TPL_DOCS_def TPL_REGISTER_def TPL_CITIZEN_HOME_def TPL_OPERATOR_MAP_def
        TPL_SUBMIT_def TPL_CSS_def TPL_ADMIN_MAP_def CITIES_JSON_PATH_def)
  then have "map (\<lambda>tp. (tp_path tp, Some (tp_src tp))) p2 =
      map (\<lambda>p. (p, if p = CITIES_JSON_PATH then se_cities_file e names else se_files e p)) (page_files @ [CITIES_JSON_PATH])"
    using l1 l2 by auto
  with g(1,2) pool show "\<exists>k names. geo_result_of e = Geo (k, a_cities (sv_app n), names) \<and> 0 \<le> k \<and>
      map (\<lambda>tp. (tp_path tp, Some (tp_src tp))) (a_pool (sv_app n)) =
        map (\<lambda>p. (p, if p = CITIES_JSON_PATH then se_cities_file e names else se_files e p)) (page_files @ [CITIES_JSON_PATH])"
    by auto
qed

text \<open>What holds of every running server.\<close>

definition server_inv :: "start_env \<Rightarrow> server \<Rightarrow> bool" where
  "server_inv e s \<longleftrightarrow> net_reachable (sr_net s) \<and>
     (\<exists>n. init_all e process_image = Ready n \<and> same_files (sv_app n) (sv_app (sr_net s))) \<and>
     a_sessions (sv_app (sr_net s)) \<noteq> None \<and>
     ((\<forall>t. se_tables e = Some t \<longrightarrow> tables_consistent t) \<longrightarrow> app_inv (sv_app (sr_net s)))"

lemma session_init_some: "session_init mt mb sd = (True, ss) \<Longrightarrow> ss \<noteq> None"
  by (cases "ht_create mt mb sd 0 hash_key :: sessions option") (auto simp: session_init_def)

lemma started_inv:
  assumes "start_up e = Ready s"
  shows "server_inv e s"
proof -
  obtain n where n: "init_all e process_image = Ready n" and s: "server_bind e n = Ready s"
    using assms by (auto simp: start_up_def split: start.splits)
  have sn: "sr_net s = n" using s by (auto simp: server_bind_def split: if_splits)
  note i = init_all_Ready [OF n]
  obtain m where "client_manager_init (se_chunk e) (se_ctx_size e) (sv_clients process_image) = (True, m)" "sv_clients n = m"
    using i(1) by blast
  then have "net_reachable n" using i(2) by (intro net_reachable.started) (auto simp: process_image_def)
  moreover obtain mt mb sd where ss: "session_init mt mb sd = (True, a_sessions (sv_app n))" using i(4) by blast
  moreover have "app_inv (sv_app n)" if "\<forall>t. se_tables e = Some t \<longrightarrow> tables_consistent t"
    using i(3) that session_init_empty [OF ss] by (auto simp: app_inv_def)
  ultimately show ?thesis using n sn session_init_some [OF ss] by (auto simp: server_inv_def same_files_def)
qed

lemma app_step_inv:
  assumes "app_step a a'"
  shows "same_files a a'" and "a_sessions a' = None \<longleftrightarrow> a_sessions a = None" and "app_inv a \<Longrightarrow> app_inv a'"
  using assms request_files request_keeps_sessions request_app_inv unfolding app_step_def same_files_def by metis+

lemma running_inv: "running e s \<Longrightarrow> server_inv e s"
proof (induction rule: running.induct)
  case (on s s')
  note a = app_step_inv [OF loop_step_app [OF on(2)]]
  from on(3) loop_step_net [OF on(2)] a show ?case by (auto simp: server_inv_def same_files_def)
qed (rule started_inv)

section \<open>Properties\<close>

text \<open>C37: a server that has come up stays complete. Whatever its callbacks do, the eight page files are in the template
  cache as they were read, and so is the list of cities that was written from the names of the loaded features; the
  table of the cities is the one that was loaded, and that of the sessions is there. If the tables found in the
  file were consistent (as those an earlier run left, or none), they still are, and every session is that of
  a stored account.\<close>

theorem running_server_is_complete:
  assumes "running e s"
  shows "(\<forall>path\<in>set page_files. \<exists>tp. tpl_get (a_pool (sv_app (sr_net s))) path = Some tp \<and> se_files e path = Some (tp_src tp)) \<and>
    (\<exists>k names tp. geo_result_of e = Geo (k, a_cities (sv_app (sr_net s)), names) \<and> 0 \<le> k \<and>
       tpl_get (a_pool (sv_app (sr_net s))) CITIES_JSON_PATH = Some tp \<and> se_cities_file e names = Some (tp_src tp)) \<and>
    a_sessions (sv_app (sr_net s)) \<noteq> None \<and>
    ((\<forall>t. se_tables e = Some t \<longrightarrow> tables_consistent t) \<longrightarrow>
      (\<exists>t. a_db (sv_app (sr_net s)) = Some t \<and> tables_consistent t \<and>
        (\<forall>token x. sessions_abs (a_sessions (sv_app (sr_net s))) token = Some x \<longrightarrow> account t (s_user x))))"
proof -
  obtain n where n: "init_all e process_image = Ready n" "same_files (sv_app n) (sv_app (sr_net s))"
    and r: "a_sessions (sv_app (sr_net s)) \<noteq> None"
      "(\<forall>t. se_tables e = Some t \<longrightarrow> tables_consistent t) \<longrightarrow> app_inv (sv_app (sr_net s))"
    using running_inv [OF assms] unfolding server_inv_def by blast
  obtain k names where g: "geo_result_of e = Geo (k, a_cities (sv_app n), names)" "0 \<le> k"
    and p: "map (\<lambda>tp. (tp_path tp, Some (tp_src tp))) (a_pool (sv_app n)) =
        map (\<lambda>p. (p, if p = CITIES_JSON_PATH then se_cities_file e names else se_files e p)) (page_files @ [CITIES_JSON_PATH])"
    using init_all_Ready(6) [OF n(1)] by blast
  have get: "\<exists>tp. tpl_get (a_pool (sv_app n)) q = Some tp \<and>
      (if q = CITIES_JSON_PATH then se_cities_file e names else se_files e q) = Some (tp_src tp)"
    if "q \<in> set (page_files @ [CITIES_JSON_PATH])" for q
    using tpl_get_loaded [OF p that page_paths] by blast
  have ne: "q \<noteq> CITIES_JSON_PATH" if "q \<in> set page_files" for q
    using that by (auto simp: page_files_def TPL_LOGIN_def TPL_DOCS_def TPL_REGISTER_def TPL_CITIZEN_HOME_def
        TPL_OPERATOR_MAP_def TPL_SUBMIT_def TPL_CSS_def TPL_ADMIN_MAP_def CITIES_JSON_PATH_def)
  have f: "a_pool (sv_app (sr_net s)) = a_pool (sv_app n)" "a_cities (sv_app (sr_net s)) = a_cities (sv_app n)"
    using n(2) by (simp_all add: same_files_def)
  have "\<exists>tp. tpl_get (a_pool (sv_app (sr_net s))) q = Some tp \<and> se_files e q = Some (tp_src tp)" if "q \<in> set page_files" for q
    using get [of q] ne [OF that] that f(1) by simp
  moreover have "\<exists>tp. tpl_get (a_pool (sv_app (sr_net s))) CITIES_JSON_PATH = Some tp \<and> se_cities_file e names = Some (tp_src tp)"
    using get [of CITIES_JSON_PATH] f(1) by simp
  moreover have "geo_result_of e = Geo (k, a_cities (sv_app (sr_net s)), names)" using g(1) f(2) by simp
  ultimately show ?thesis using r g(2) unfolding app_inv_def by blast
qed

text \<open>A start with an empty database, pages of one letter and no city.\<close>

definition example_start :: start_env where
  "example_start = \<lparr>se_ctx_size = 384, se_chunk = Some 4096, se_tables = Some no_tables, se_create_users = True,
     se_create_reports = True, se_files = (\<lambda>_. Some ''x''), se_fragments = (\<lambda>_. True), se_floats = example_floats,
     se_geojson = Some (CObj []), se_cities_file = (\<lambda>_. Some ''[]''), se_geo_table = (True, True, 7),
     se_geo_mem = (\<lambda>_. mem_ok), se_session_table = (True, True, 7),
     se_rate = \<lparr>re_now = 0, re_set = mem_ok, re_table = True, re_buckets = True, re_seed = 7\<rparr>, se_listen = 0\<rparr>"

lemma load_files_ok:
  "length ts + length xs \<le> MAX_TEMPLATES \<Longrightarrow> (\<And>x. x \<in> set xs \<Longrightarrow> \<exists>p c b. x = (p, Some (c # b), True)) \<Longrightarrow>
    \<exists>ts'. tpl_load_files xs ts = (True, ts') \<and> length ts' = length ts + length xs"
proof (induction xs arbitrary: ts)
  case (Cons x xs)
  obtain p c b where x: "x = (p, Some (c # b), True)" using Cons.prems(2) [of x] by auto
  obtain ts1 where l: "load_one x ts = (True, ts1)" "length ts1 = Suc (length ts)"
    using Cons.prems(1) by (auto simp: x load_one_def parse_fragments_def)
  have "\<exists>p c b. y = (p, Some (c # b), True)" if "y \<in> set xs" for y using Cons.prems(2) that by simp
  from Cons.IH [of ts1, OF _ this] Cons.prems(1) l show ?case by auto
qed simp

lemma example_starts: "\<exists>s. start_up example_start = Ready s"
proof -
  obtain n1 where n1: "init_clients example_start process_image = Ready n1" "sv_app n1 = sv_app process_image"
    by (auto simp: init_clients_def example_start_def client_manager_init_def slab_pool_init_def create_chunk_def
        check_def Let_def)
  obtain n2 where n2: "init_db example_start n1 = Ready n2" "a_pool (sv_app n2) = []"
    using n1(2) by (auto simp: init_db_def example_start_def db_init_def user_setup_table_def report_setup_table_def
        set_app_def process_image_def Let_def)
  have "\<exists>ts. tpl_load_files (map (from_disk example_start) page_files) [] = (True, ts) \<and>
      length ts = length ([] :: template list) + length (map (from_disk example_start) page_files)"
    by (rule load_files_ok) (auto simp: page_files_def from_disk_def example_start_def MAX_TEMPLATES_def)
  then obtain ts where ts: "tpl_load_files (map (from_disk example_start) page_files) [] = (True, ts)" "length ts = 8"
    by (auto simp: page_files_def)
  then obtain n3 where n3: "init_templates example_start n2 = Ready n3" "a_pool (sv_app n3) = ts"
    using n2(2) by (auto simp: init_templates_def check_def set_app_def)
  obtain ct where g: "geo_init example_floats True True 7 (\<lambda>_. mem_ok) (Some (CObj [])) = Geo (0, ct, [])"
    by (auto simp: geo_init_def load_geojson_def ht_create_def get_object_item_def json_children_def Let_def)
  obtain ts2 where ts2: "tpl_load_files [(CITIES_JSON_PATH, Some ''[]'', True)] ts = (True, ts2)"
    using load_files_ok [of ts "[(CITIES_JSON_PATH, Some ''[]'', True)]"] ts(2) by (auto simp: MAX_TEMPLATES_def)
  then obtain n4 where n4: "init_geo_table example_start n3 = Ready n4"
    using n3(2) g by (auto simp: init_geo_table_def example_start_def check_def set_app_def Let_def)
  obtain ss where "session_init True True 7 = (True, ss)" using session_example by blast
  then obtain n5 where n5: "init_sessions example_start n4 = Ready n5"
    by (auto simp: init_sessions_def example_start_def check_def)
  obtain n where n: "init_rates example_start n5 = Ready n"
    using rate_table_example by (auto simp: init_rates_def example_start_def check_def)
  have "init_all example_start process_image = Ready n" by (simp add: init_all_def n1 n2 n3 n4 n5 n)
  then show ?thesis by (simp add: start_up_def server_bind_def) (simp add: example_start_def)
qed

lemma running_server_is_complete_witness:
  "\<exists>s tp t. running example_start s \<and> tpl_get (a_pool (sv_app (sr_net s))) TPL_LOGIN = Some tp \<and> tp_src tp = ''x'' \<and>
     a_db (sv_app (sr_net s)) = Some t \<and> tables_consistent t"
proof -
  obtain s where s: "start_up example_start = Ready s" using example_starts by blast
  have e: "se_files example_start = (\<lambda>_. Some ''x'')" "se_tables example_start = Some no_tables" by (simp_all add: example_start_def)
  have "tables_consistent no_tables" by (simp add: tables_consistent_def) (simp add: no_tables_def)
  moreover have "TPL_LOGIN \<in> set page_files" by (simp add: page_files_def)
  ultimately show ?thesis using running_server_is_complete [OF up [OF s]] up [OF s] unfolding e by fastforce
qed



end
