(* ===== verification/DoxDom.thy ===== *)
theory DoxDom
  imports Prelude "HOL-Library.Sublist"
begin

text \<open>
  The part of the browser that the scripts of the manual under \<open>docs/doxygen_manual/html\<close> use:
  strings, numbers in strings, and the element tree.  Strings are lists of code units below 256
  (Latin-1), for which \<open>toLowerCase\<close> works unit by unit.
\<close>

section \<open>Strings\<close>

definition lower_unit :: "char \<Rightarrow> char" where
  "lower_unit c =
     (if 65 \<le> byte_val c \<and> byte_val c \<le> 90 \<or> 192 \<le> byte_val c \<and> byte_val c \<le> 222 \<and> byte_val c \<noteq> 215
      then char_of (byte_val c + 32) else c)"

definition toLowerCase :: "string \<Rightarrow> string" where
  "toLowerCase s = map lower_unit s"

definition hex_unit :: "nat \<Rightarrow> char" where
  "hex_unit d = (if d < 10 then char_of (48 + d) else char_of (87 + d))"

text \<open>\<open>n.toString(16)\<close>.\<close>

fun hex_string :: "nat \<Rightarrow> string" where
  "hex_string n = (if n < 16 then [hex_unit n] else hex_string (n div 16) @ [hex_unit (n mod 16)])"

declare hex_string.simps [simp del]

text \<open>\<open>replace(/^ +/, "")\<close>, \<open>replace(/ +$/, "")\<close> and \<open>replace(/ +/g, "")\<close>.\<close>

definition strip_leading :: "string \<Rightarrow> string" where
  "strip_leading s = dropWhile (\<lambda>c. c = CHR '' '') s"

definition strip_ending :: "string \<Rightarrow> string" where
  "strip_ending s = rev (dropWhile (\<lambda>c. c = CHR '' '') (rev s))"

definition strip_spaces :: "string \<Rightarrow> string" where
  "strip_spaces s = filter (\<lambda>c. c \<noteq> CHR '' '') s"

text \<open>\<open>s.indexOf(c)\<close> for a string \<open>c\<close> of at most one unit, and \<open>s.lastIndexOf(c)\<close> as the split of
  \<open>s\<close> behind the last \<open>c\<close>.\<close>

fun index_of :: "string \<Rightarrow> string \<Rightarrow> nat option" where
  "index_of pat [] = (if pat = [] then Some 0 else None)"
| "index_of pat (c # s) = (if prefix pat (c # s) then Some 0 else map_option Suc (index_of pat s))"

definition after_last :: "char \<Rightarrow> string \<Rightarrow> string" where
  "after_last c s = rev (takeWhile (\<lambda>x. x \<noteq> c) (rev s))"

definition upto_last :: "char \<Rightarrow> string \<Rightarrow> string" where
  "upto_last c s = rev (dropWhile (\<lambda>x. x \<noteq> c) (rev s))"

lemma upto_after_last: "upto_last c s @ after_last c s = s"
proof -
  have "rev (upto_last c s @ after_last c s) = rev s" by (simp add: upto_last_def after_last_def)
  then show ?thesis by (metis rev_rev_ident)
qed

section \<open>Elements\<close>

text \<open>An element has its tag, its attributes, \<open>style.display\<close> and its children; \<open>Html\<close> is markup
  assigned through \<open>innerHTML\<close> (or a text node), which no script here looks into.\<close>

datatype dom = Elem (tag: string) (attrs: "(string \<times> string) list") (display: string) (kids: "dom list")
  | Html string

definition createElement :: "string \<Rightarrow> dom" where
  "createElement t = Elem t [] [] []"

definition getAttribute :: "string \<Rightarrow> dom \<Rightarrow> string option" where
  "getAttribute k e = (case e of Elem _ as _ _ \<Rightarrow> map_of as k | Html _ \<Rightarrow> None)"

fun put_attr :: "string \<Rightarrow> string \<Rightarrow> (string \<times> string) list \<Rightarrow> (string \<times> string) list" where
  "put_attr k v [] = [(k, v)]"
| "put_attr k v ((j, w) # as) = (if j = k then (k, v) # as else (j, w) # put_attr k v as)"

definition setAttribute :: "string \<Rightarrow> string \<Rightarrow> dom \<Rightarrow> dom" where
  "setAttribute k v e = (case e of Elem t as d ks \<Rightarrow> Elem t (put_attr k v as) d ks | Html h \<Rightarrow> Html h)"

definition set_display :: "string \<Rightarrow> dom \<Rightarrow> dom" where
  "set_display d e = (case e of Elem t as _ ks \<Rightarrow> Elem t as d ks | Html h \<Rightarrow> Html h)"

definition set_innerHTML :: "string \<Rightarrow> dom \<Rightarrow> dom" where
  "set_innerHTML h e =
     (case e of Elem t as d _ \<Rightarrow> Elem t as d (if h = [] then [] else [Html h]) | Html x \<Rightarrow> Html x)"

definition appendChild :: "dom \<Rightarrow> dom \<Rightarrow> dom" where
  "appendChild e c = (case e of Elem t as d ks \<Rightarrow> Elem t as d (ks @ [c]) | Html x \<Rightarrow> Html x)"

definition className :: "dom \<Rightarrow> string" where
  "className e = (case getAttribute ''class'' e of None \<Rightarrow> [] | Some c \<Rightarrow> c)"

definition elem_id :: "dom \<Rightarrow> string" where
  "elem_id e = (case getAttribute ''id'' e of None \<Rightarrow> [] | Some i \<Rightarrow> i)"

definition is_div :: "dom \<Rightarrow> bool" where
  "is_div e \<longleftrightarrow> (case e of Elem t _ _ _ \<Rightarrow> toLowerCase t = ''div'' | Html _ \<Rightarrow> False)"

lemma map_of_put_attr: "map_of (put_attr k v as) = (map_of as)(k \<mapsto> v)"
  by (induction k v as rule: put_attr.induct) (auto simp: fun_eq_iff)

lemma getAttribute_simps [simp]:
  "getAttribute k (createElement t) = None"
  "getAttribute k (setAttribute j v e) =
     (case e of Elem _ _ _ _ \<Rightarrow> if j = k then Some v else getAttribute k e | Html _ \<Rightarrow> None)"
  "getAttribute k (set_innerHTML h e) = getAttribute k e"
  "getAttribute k (appendChild e c) = getAttribute k e"
  "getAttribute k (set_display d e) = getAttribute k e"
  by (simp_all add: getAttribute_def createElement_def setAttribute_def set_innerHTML_def
      appendChild_def set_display_def map_of_put_attr split: dom.splits)

section \<open>Positions\<close>

text \<open>An element is named by the path of child indices that leads to it.\<close>

fun node_at :: "nat list \<Rightarrow> dom \<Rightarrow> dom option" where
  "node_at [] e = Some e"
| "node_at (i # p) (Elem t as d ks) = (if i < length ks then node_at p (ks ! i) else None)"
| "node_at (i # p) (Html _) = None"

fun update_at :: "nat list \<Rightarrow> (dom \<Rightarrow> dom) \<Rightarrow> dom \<Rightarrow> dom" where
  "update_at [] f e = f e"
| "update_at (i # p) f (Elem t as d ks) =
     (if i < length ks then Elem t as d (ks[i := update_at p f (ks ! i)]) else Elem t as d ks)"
| "update_at (i # p) f (Html h) = Html h"

lemma node_update_at: "node_at p e = Some x \<Longrightarrow> node_at p (update_at p f e) = Some (f x)"
  by (induction p e rule: node_at.induct) (auto split: if_splits)

text \<open>\<open>getElementById\<close>: the first element with that id in document order, as its path.\<close>

definition child_path :: "nat \<times> nat list option \<Rightarrow> nat list option" where
  "child_path x = map_option (\<lambda>p. fst x # p) (snd x)"

fun first_some :: "'a option list \<Rightarrow> 'a option" where
  "first_some [] = None"
| "first_some (x # xs) = (case x of None \<Rightarrow> first_some xs | Some y \<Rightarrow> Some y)"

primrec find_id :: "string \<Rightarrow> dom \<Rightarrow> nat list option" where
  "find_id i (Elem t as d ks) =
     (if map_of as ''id'' = Some i then Some []
      else first_some (map child_path (enumerate 0 (map (find_id i) ks))))"
| "find_id i (Html h) = None"

primrec all_ids :: "dom \<Rightarrow> string list" where
  "all_ids (Elem t as d ks) =
     (case map_of as ''id'' of None \<Rightarrow> [] | Some i \<Rightarrow> [i]) @ concat (map all_ids ks)"
| "all_ids (Html h) = []"

lemma first_some_None: "first_some xs = None \<longleftrightarrow> (\<forall>x\<in>set xs. x = None)"
  by (induction xs) (auto split: option.splits)

lemma find_id_None: "find_id i e = None \<longleftrightarrow> i \<notin> set (all_ids e)"
proof (induction e)
  case (Elem t as d ks)
  have "(\<forall>x\<in>set (enumerate 0 xs). child_path x = None) \<longleftrightarrow> (\<forall>x\<in>set xs. x = None)" for xs :: "nat list option list"
  proof -
    have "set xs = snd ` set (enumerate 0 xs)" by (metis list.set_map map_snd_enumerate)
    then show ?thesis by (simp add: child_path_def)
  qed
  with Elem show ?case by (auto simp: first_some_None split: option.splits)
qed simp

end
