(* ===== verification/DoxSearch.thy ===== *)
theory DoxSearch
  imports DoxDom
begin

text \<open>
  The search results of the manual, \<open>search/search.js\<close>: the keys of the index, the rows of the
  results, the search itself and the keyboard navigation through the rows.  The results live below
  the element \<open>SRResults\<close>.
\<close>

section \<open>Keys of the index\<close>

definition id_char :: "char \<Rightarrow> bool" where
  "id_char c \<longleftrightarrow> 97 \<le> byte_val c \<and> byte_val c \<le> 122 \<or> 48 \<le> byte_val c \<and> byte_val c \<le> 57 \<or> 128 \<le> byte_val c"

fun convertToId :: "string \<Rightarrow> string" where
  "convertToId [] = []"
| "convertToId (c # search) =
     (if id_char c then [c]
      else if byte_val c < 16 then ''_0'' @ hex_string (byte_val c)
      else ''_'' @ hex_string (byte_val c)) @ convertToId search"

section \<open>Rows\<close>

text \<open>An entry \<open>[id, [name, [url, flag, scope], ...]]\<close> of the variable \<open>searchData\<close>.\<close>

type_synonym search_entry = "string \<times> string \<times> (string \<times> bool \<times> string) list"

definition setKeyActions :: "string \<Rightarrow> dom \<Rightarrow> dom" where
  "setKeyActions action e =
     setAttribute ''onkeyup'' action (setAttribute ''onkeypress'' action (setAttribute ''onkeydown'' action e))"

definition setClassAttr :: "string \<Rightarrow> dom \<Rightarrow> dom" where
  "setClassAttr attr e = setAttribute ''className'' attr (setAttribute ''class'' attr e)"

definition link_target :: "bool \<Rightarrow> string" where
  "link_target flag = (if flag then ''_parent'' else ''_blank'')"

definition close_action :: string where
  "close_action = ''searchBox.CloseResultsWindow()''"

definition child_link :: "string \<Rightarrow> nat \<Rightarrow> nat \<Rightarrow> string \<times> bool \<times> string \<Rightarrow> dom" where
  "child_link resultsPath e c r =
     (case r of (url, flag, scope) \<Rightarrow>
        set_innerHTML scope (setAttribute ''target'' (link_target flag)
          (setAttribute ''onclick'' close_action (setAttribute ''href'' (resultsPath @ url)
            (setClassAttr ''SRScope'' (setKeyActions
              (''return searchResults.NavChild(event,'' @ show_nat e @ '','' @ show_nat c @ '')'')
              (setAttribute ''id'' (''Item'' @ show_nat e @ ''_c'' @ show_nat c) (createElement ''a''))))))))"

definition result_row :: "string \<Rightarrow> nat \<times> search_entry \<Rightarrow> dom" where
  "result_row resultsPath x =
     (case x of (e, i, name, rs) \<Rightarrow>
        let srResult = setClassAttr ''SRResult'' (setAttribute ''id'' (''SR_'' @ i) (createElement ''div''));
            srEntry = setClassAttr ''SREntry'' (createElement ''div'');
            srLink = set_innerHTML name (setClassAttr ''SRSymbol''
              (setKeyActions (''return searchResults.Nav(event,'' @ show_nat e @ '')'')
                (setAttribute ''id'' (''Item'' @ show_nat e) (createElement ''a''))))
        in case rs of
             [(url, flag, scope)] \<Rightarrow>
               let srLink = setAttribute ''target'' (link_target flag) (setAttribute ''onclick'' close_action
                              (setAttribute ''href'' (resultsPath @ url) srLink));
                   srScope = set_innerHTML scope (setClassAttr ''SRScope'' (createElement ''span''))
               in appendChild srResult (appendChild (appendChild srEntry srLink) srScope)
           | _ \<Rightarrow>
               let srLink = setAttribute ''href''
                     (''javascript:searchResults.Toggle('' @ [CHR 0x22] @ ''SR_'' @ i @ [CHR 0x22] @ '')'') srLink;
                   srChildren = foldl appendChild (setClassAttr ''SRChildren'' (createElement ''div''))
                     (map (\<lambda>(c, r). child_link resultsPath e c r) (enumerate 0 rs))
               in appendChild srResult (appendChild (appendChild srEntry srLink) srChildren))"

text \<open>\<open>createResults\<close> on the element \<open>SRResults\<close>.\<close>

definition createResults :: "string \<Rightarrow> search_entry list \<Rightarrow> dom \<Rightarrow> dom" where
  "createResults resultsPath searchData results =
     foldl appendChild (set_innerHTML [] results) (map (result_row resultsPath) (enumerate 0 searchData))"

section \<open>Searching\<close>

text \<open>\<open>replace(/^sr\d*_/, '')\<close>.\<close>

definition strip_sr :: "string \<Rightarrow> string" where
  "strip_sr s =
     (if prefix ''sr'' s then
        (case dropWhile is_digit (drop 2 s) of
           [] \<Rightarrow> s
         | c # r \<Rightarrow> if c = CHR ''_'' then r else s)
      else s)"

definition is_row :: "dom \<Rightarrow> bool" where
  "is_row e \<longleftrightarrow> is_div e \<and> className e = ''SRResult''"

definition row_matches :: "string \<Rightarrow> dom \<Rightarrow> bool" where
  "row_matches search e \<longleftrightarrow>
     (let rowMatchName = strip_sr (toLowerCase (elem_id e))
      in length search \<le> length rowMatchName \<and> take (length search) rowMatchName = search)"

text \<open>The loop over \<open>getElementsByTagName("div")\<close>: the display it leaves on every row, and the
  number of matches it counts.\<close>

primrec show_rows :: "string \<Rightarrow> dom \<Rightarrow> dom" where
  "show_rows search (Elem t as d ks) =
     (if is_row (Elem t as d ks)
      then Elem t as (if row_matches search (Elem t as d ks) then ''block'' else ''none'') (map (show_rows search) ks)
      else Elem t as d (map (show_rows search) ks))"
| "show_rows search (Html h) = Html h"

primrec count_rows :: "string \<Rightarrow> dom \<Rightarrow> nat" where
  "count_rows search (Elem t as d ks) =
     (if is_row (Elem t as d ks) \<and> row_matches search (Elem t as d ks) then 1 else 0) +
     sum_list (map (count_rows search) ks)"
| "count_rows search (Html h) = 0"

text \<open>The text that is searched for; an empty argument is replaced by the query of the page's URL,
  which the caller passes decoded.\<close>

definition search_key :: "string \<Rightarrow> string \<Rightarrow> string" where
  "search_key location_query search =
     convertToId (toLowerCase (strip_ending (strip_leading (if search = [] then location_query else search))))"

record search_results =
  sr_results :: dom
  searching_display :: string
  noMatches_display :: string
  lastMatchCount :: nat
  lastKey :: nat
  repeatOn :: bool

definition SearchResults_Search :: "string \<Rightarrow> string \<Rightarrow> search_results \<Rightarrow> search_results" where
  "SearchResults_Search location_query search r =
     (let key = search_key location_query search;
          matches = count_rows key (sr_results r)
      in r\<lparr>sr_results := show_rows key (sr_results r), searching_display := ''none'',
           noMatches_display := (if matches = 0 then ''block'' else ''none''), lastMatchCount := matches\<rparr>)"

section \<open>Child elements\<close>

text \<open>\<open>FindChildElement\<close> walks through pointers to the first child, the next sibling and the
  parent.  A position is the list of the element with its following siblings, then those of its
  ancestors below the start, each sibling with its path; the empty list is the start itself.\<close>

type_synonym cursor = "(nat list \<times> dom) list list"

definition siblings :: "nat list \<Rightarrow> dom list \<Rightarrow> (nat list \<times> dom) list" where
  "siblings p ks = map (\<lambda>(i, k). (p @ [i], k)) (enumerate 0 ks)"

text \<open>The \<open>do\<close> loop: to the closest ancestor with a next sibling, and that sibling.\<close>

fun climb :: "cursor \<Rightarrow> cursor" where
  "climb [] = []"
| "climb ((_ # s # ss) # st) = (s # ss) # st"
| "climb (_ # st) = climb st"

primrec dom_size :: "dom \<Rightarrow> nat" where
  "dom_size (Elem t as d ks) = Suc (sum_list (map dom_size ks))"
| "dom_size (Html h) = 1"

definition sizes :: "(nat list \<times> dom) list \<Rightarrow> nat" where
  "sizes ss = sum_list (map (\<lambda>x. dom_size (snd x)) ss)"

text \<open>What a position has not visited yet: the element and everything behind it.\<close>

fun weight :: "cursor \<Rightarrow> nat" where
  "weight [] = 0"
| "weight (ss # st) = sizes ss + sum_list (map (\<lambda>l. sizes (tl l)) st)"

lemma sizes_simps [simp]: "sizes [] = 0" "sizes (x # ss) = dom_size (snd x) + sizes ss"
  by (simp_all add: sizes_def)

lemma dom_size_pos [simp]: "0 < dom_size e"
  by (cases e) auto

lemma weight_climb: "weight (climb st) \<le> sum_list (map (\<lambda>l. sizes (tl l)) st)"
  by (induction st rule: climb.induct) auto

lemma sizes_siblings: "sizes (siblings p ks) = sum_list (map dom_size ks)"
proof -
  have "map (\<lambda>x. dom_size (snd x)) (map (\<lambda>(i, k). (p @ [i], k)) xs) = map dom_size (map snd xs)" for xs
    by auto
  then have "map (\<lambda>x. dom_size (snd x)) (siblings p ks) = map dom_size (map snd (enumerate 0 ks))"
    unfolding siblings_def by blast
  then show ?thesis by (simp only: sizes_def map_snd_enumerate)
qed

function find_loop :: "cursor \<Rightarrow> nat list option" where
  "find_loop [] = None"
| "find_loop ([] # st) = None"
| "find_loop (((p, e) # rest) # st) =
     (if is_div e \<and> className e = ''SRChildren'' then Some p
      else if is_div e \<and> kids e \<noteq> [] then find_loop (siblings p (kids e) # ((p, e) # rest) # st)
      else if rest \<noteq> [] then find_loop (rest # st)
      else find_loop (climb st))"
  by pat_completeness auto
termination
proof (relation "measure weight")
  fix p e rest st assume "is_div e \<and> kids e \<noteq> []"
  then obtain t as d ks where "e = Elem t as d ks" by (cases e) (auto simp: is_div_def)
  then show "(siblings p (kids e) # ((p, e) # rest) # st, ((p, e) # rest) # st) \<in> measure weight"
    by (simp add: sizes_siblings)
next
  fix p e rest st
  show "(climb st, ((p, e :: dom) # rest) # st) \<in> measure weight"
    using dom_size_pos [of e] weight_climb [of st] by (simp del: dom_size_pos)
qed simp_all

definition FindChildElement :: "dom \<Rightarrow> nat list option" where
  "FindChildElement parentElement = find_loop [siblings [] (kids parentElement)]"

text \<open>\<open>Toggle\<close> on the element with that id.\<close>

definition toggle_display :: "dom \<Rightarrow> dom" where
  "toggle_display e =
     (case e of Elem _ _ d _ \<Rightarrow> if d = ''block'' then set_display ''none'' e else set_display ''block'' e | Html h \<Rightarrow> e)"

definition SearchResults_Toggle :: "string \<Rightarrow> dom \<Rightarrow> dom" where
  "SearchResults_Toggle i doc =
     (case find_id i doc of
        None \<Rightarrow> doc
      | Some p \<Rightarrow>
          (case node_at p doc of
             None \<Rightarrow> doc
           | Some e \<Rightarrow>
               (case FindChildElement e of None \<Rightarrow> doc | Some q \<Rightarrow> update_at (p @ q) toggle_display doc)))"

section \<open>Navigation\<close>

definition item_name :: "int \<Rightarrow> string" where
  "item_name index = ''Item'' @ show_int index"

text \<open>\<open>focusItem.parentNode.parentNode.style.display=='block'\<close>.\<close>

definition visible_item :: "dom \<Rightarrow> nat list \<Rightarrow> bool" where
  "visible_item doc p \<longleftrightarrow>
     (case node_at (butlast (butlast p)) doc of Some (Elem _ _ d _) \<Rightarrow> d = ''block'' | _ \<Rightarrow> False)"

lemma show_nat_inj: "show_nat m = show_nat n \<Longrightarrow> m = n"
  by (metis digits_val_show_nat)

lemma show_int_inj: "show_int i = show_int j \<Longrightarrow> i = j"
proof -
  have d: "CHR ''-'' \<notin> set (show_nat n)" for n
    using show_nat_digits [of n] by (auto simp: is_digit_def byte_val_def)
  then have "CHR ''-'' # u \<noteq> show_nat n" for u n by (metis list.set_intros(1))
  then show "show_int i = show_int j \<Longrightarrow> i = j"
    by (auto simp: show_int_def dest: show_nat_inj split: if_splits) metis+
qed

lemma finite_items: "finite {k. item_name k \<in> set (all_ids doc) \<and> P k}"
proof (rule finite_subset)
  show "{k. item_name k \<in> set (all_ids doc) \<and> P k} \<subseteq> item_name -` set (all_ids doc)" by auto
  have "inj item_name" by (rule injI) (auto simp: item_name_def dest: show_int_inj)
  then show "finite (item_name -` set (all_ids doc))" by (simp add: finite_vimageI)
qed

lemma items_decrease:
  assumes "find_id (item_name i) doc = Some p" and "P i" and "\<And>k. Q k \<Longrightarrow> P k" and "\<not> Q i"
  shows "card {k. item_name k \<in> set (all_ids doc) \<and> Q k} < card {k. item_name k \<in> set (all_ids doc) \<and> P k}"
proof (rule psubset_card_mono [OF finite_items])
  have "item_name i \<in> set (all_ids doc)" using assms(1) find_id_None [of "item_name i" doc] by simp
  with assms(2-4) show "{k. item_name k \<in> set (all_ids doc) \<and> Q k} \<subset> {k. item_name k \<in> set (all_ids doc) \<and> P k}"
    by blast
qed

function NavNext :: "dom \<Rightarrow> int \<Rightarrow> nat list option" where
  "NavNext doc index =
     (case find_id (item_name index) doc of
        None \<Rightarrow> None
      | Some p \<Rightarrow> if visible_item doc p then Some p else NavNext doc (index + 1))"
  by pat_completeness auto
termination
  by (relation "measure (\<lambda>(doc, i). card {k. item_name k \<in> set (all_ids doc) \<and> i \<le> k})")
    (auto intro!: items_decrease)

function NavPrev :: "dom \<Rightarrow> int \<Rightarrow> nat list option" where
  "NavPrev doc index =
     (case find_id (item_name index) doc of
        None \<Rightarrow> None
      | Some p \<Rightarrow> if visible_item doc p then Some p else NavPrev doc (index - 1))"
  by pat_completeness auto
termination
  by (relation "measure (\<lambda>(doc, i). card {k. item_name k \<in> set (all_ids doc) \<and> k \<le> i})")
    (auto intro!: items_decrease)

declare NavNext.simps [simp del] NavPrev.simps [simp del]

datatype key_event = KeyDown nat | KeyPress nat | KeyUp nat

text \<open>\<open>ProcessKeys\<close>: whether the key is handled, and the new key state.\<close>

fun ProcessKeys :: "key_event \<Rightarrow> search_results \<Rightarrow> bool \<times> search_results" where
  "ProcessKeys (KeyDown code) r = (let r' = r\<lparr>repeatOn := False, lastKey := code\<rparr> in (lastKey r' \<noteq> 0, r'))"
| "ProcessKeys (KeyPress code) r =
     (if \<not> repeatOn r then (False, if lastKey r \<noteq> 0 then r\<lparr>repeatOn := True\<rparr> else r)
      else (lastKey r \<noteq> 0, r))"
| "ProcessKeys (KeyUp code) r = (let r' = r\<lparr>lastKey := 0, repeatOn := False\<rparr> in (lastKey r' \<noteq> 0, r'))"

end
