(* ===== verification/DoxSearchSpec.thy ===== *)
theory DoxSearchSpec
  imports DoxSearch
begin

text \<open>
  What the search of the manual promises: keys that keep prefixes apart, a search that shows exactly
  the entries that start with the text, and navigation that visits exactly the rows on show.
\<close>

section \<open>Keys\<close>

definition key_word :: "char \<Rightarrow> string" where
  "key_word c = (if id_char c then [c]
     else [CHR ''_'', hex_unit (byte_val c div 16), hex_unit (byte_val c mod 16)])"

lemma char_of_48: "char_of (48 :: nat) = CHR ''0''"
  by (rule byte_val_inj) (simp, simp add: byte_val_def)

lemma convertToId_Cons: "convertToId (c # s) = key_word c @ convertToId s"
proof -
  have "byte_val c div 16 < 16" using byte_val_bound [of c] by simp
  then show ?thesis
    by (auto simp: key_word_def hex_string.simps [of "byte_val c"] hex_string.simps [of "byte_val c div 16"]
        hex_unit_def char_of_48)
qed

lemma hex_unit_inj: "a < 16 \<Longrightarrow> b < 16 \<Longrightarrow> hex_unit a = hex_unit b \<longleftrightarrow> a = b"
proof (intro iffI)
  assume ab: "a < 16" "b < 16" and "hex_unit a = hex_unit b"
  then have "byte_val (hex_unit a) = byte_val (hex_unit b)" by simp
  with ab show "a = b" by (auto simp: hex_unit_def split: if_splits)
qed simp

lemma not_id_underscore: "\<not> id_char (CHR ''_'')"
  by (simp add: id_char_def byte_val_def)

lemma key_word_prefix:
  "prefix (key_word c @ x) (key_word d @ y) \<longleftrightarrow> c = d \<and> prefix x y"
proof (cases "id_char c \<or> id_char d")
  case True
  then show ?thesis using not_id_underscore by (auto simp: key_word_def)
next
  case False
  have b: "byte_val c div 16 < 16" "byte_val d div 16 < 16" "byte_val c mod 16 < 16" "byte_val d mod 16 < 16"
    using byte_val_bound [of c] byte_val_bound [of d] by auto
  have "byte_val c div 16 = byte_val d div 16 \<and> byte_val c mod 16 = byte_val d mod 16 \<longleftrightarrow> c = d"
    by (metis byte_val_inj mult_div_mod_eq)
  with False b show ?thesis by (auto simp: key_word_def hex_unit_inj)
qed

lemma convertToId_prefix_iff: "prefix (convertToId a) (convertToId b) \<longleftrightarrow> prefix a b"
proof (induction a arbitrary: b)
  case (Cons c a)
  have "key_word c \<noteq> []" by (simp add: key_word_def)
  with Cons show ?case
    by (cases b) (auto simp: convertToId_Cons key_word_prefix simp del: convertToId.simps(2))
qed simp

text \<open>Behind the key a row has \<open>_\<close> and a number.  A searched unit that is encoded by two decimal
  digits could match that number; all others cannot.\<close>

definition plain_unit :: "char \<Rightarrow> bool" where
  "plain_unit c \<longleftrightarrow> id_char c \<or> 10 \<le> byte_val c mod 16"

lemma convertToId_numbered:
  "list_all plain_unit q \<Longrightarrow> prefix (convertToId q) (convertToId s @ ''_'' @ show_nat k) \<longleftrightarrow> prefix q s"
proof (induction q arbitrary: s)
  case (Cons c q)
  show ?case
  proof (cases s)
    case Nil
    have "\<not> prefix (key_word c @ x) (''_'' @ show_nat k)" for x
    proof (cases "id_char c")
      case True
      then show ?thesis using not_id_underscore by (auto simp: key_word_def)
    next
      case False
      then have m: "10 \<le> byte_val c mod 16" using Cons.prems by (simp add: plain_unit_def)
      have "byte_val (hex_unit (byte_val c mod 16)) = 87 + byte_val c mod 16" using m by (simp add: hex_unit_def)
      then have nd: "\<not> is_digit (hex_unit (byte_val c mod 16))" by (simp add: is_digit_def)
      show ?thesis
      proof
        assume "prefix (key_word c @ x) (''_'' @ show_nat k)"
        then have "hex_unit (byte_val c mod 16) \<in> set (show_nat k)"
          using False by (auto simp: key_word_def prefix_def)
        with nd show_nat_digits [of k] show False by blast
      qed
    qed
    with Nil show ?thesis by (simp add: convertToId_Cons del: convertToId.simps(2))
  next
    case (Cons d t)
    with Cons.IH Cons.prems show ?thesis
      by (auto simp: convertToId_Cons key_word_prefix simp del: convertToId.simps(2))
  qed
qed simp

section \<open>Rows\<close>

lemma foldl_appendChild: "foldl appendChild (Elem t as d ks) cs = Elem t as d (ks @ cs)"
  by (induction cs arbitrary: ks) (simp_all add: appendChild_def)

lemmas dom_defs = setClassAttr_def setKeyActions_def setAttribute_def createElement_def set_innerHTML_def
  appendChild_def set_display_def


definition leaf :: "string \<Rightarrow> dom \<Rightarrow> bool" where
  "leaf i e \<longleftrightarrow> (\<exists>t as ks. e = Elem t as [] ks \<and> \<not> is_row e \<and> \<not> is_div e \<and> (\<forall>k\<in>set ks. \<exists>h. k = Html h) \<and>
     (map_of as ''id'' = None \<and> i = [] \<or> map_of as ''id'' = Some i))"

lemma leaf_intro: "t \<noteq> ''div'' \<Longrightarrow> toLowerCase t = t \<Longrightarrow> (\<forall>k\<in>set ks. \<exists>h. k = Html h) \<Longrightarrow>
    map_of as ''id'' = Some i \<or> map_of as ''id'' = None \<and> i = [] \<Longrightarrow> leaf i (Elem t as [] ks)"
  by (auto simp: leaf_def is_row_def is_div_def)

lemma lower_a: "toLowerCase ''a'' = ''a''" "toLowerCase ''span'' = ''span''" "toLowerCase ''div'' = ''div''"
  by (simp_all add: toLowerCase_def lower_unit_def byte_val_def)

lemma child_link_leaf: "leaf (''Item'' @ show_nat e @ ''_c'' @ show_nat c) (child_link path e c r)"
  by (auto simp: child_link_def dom_defs split: prod.split intro!: leaf_intro lower_a)

text \<open>A row is its \<open>div\<close> around one entry, which holds the link of the item and either the scope or
  the children.\<close>

definition row_attrs :: "string \<Rightarrow> (string \<times> string) list" where
  "row_attrs i = [(''id'', ''SR_'' @ i), (''class'', ''SRResult''), (''className'', ''SRResult'')]"

definition entry_attrs :: "(string \<times> string) list" where
  "entry_attrs = [(''class'', ''SREntry''), (''className'', ''SREntry'')]"

lemma row_frame:
  "appendChild (setClassAttr ''SRResult'' (setAttribute ''id'' (''SR_'' @ i) (createElement ''div'')))
     (appendChild (appendChild (setClassAttr ''SREntry'' (createElement ''div'')) link) k) =
   Elem ''div'' (row_attrs i) [] [Elem ''div'' entry_attrs [] [link, k]]"
  by (simp add: dom_defs row_attrs_def entry_attrs_def)

definition row_kid :: "nat \<Rightarrow> dom \<Rightarrow> bool" where
  "row_kid e k \<longleftrightarrow> leaf [] k \<or> (\<exists>ls. k = Elem ''div'' [(''class'', ''SRChildren''), (''className'', ''SRChildren'')] [] ls \<and>
     (\<forall>l\<in>set ls. \<exists>c. leaf (''Item'' @ show_nat e @ ''_c'' @ show_nat c) l))"

lemma row_shape:
  "\<exists>link k. result_row path (e, i, name, rs) = Elem ''div'' (row_attrs i) [] [Elem ''div'' entry_attrs [] [link, k]] \<and>
     leaf (''Item'' @ show_nat e) link \<and> row_kid e k"
proof (cases "\<exists>url flag scope. rs = [(url, flag, scope)]")
  case True
  then show ?thesis
    by (auto simp: result_row_def Let_def row_frame dom_defs row_kid_def row_attrs_def entry_attrs_def
        intro!: leaf_intro lower_a)
next
  case False
  define link where "link = setAttribute ''href''
      (''javascript:searchResults.Toggle('' @ [CHR 0x22] @ ''SR_'' @ i @ [CHR 0x22] @ '')'')
      (set_innerHTML name (setClassAttr ''SRSymbol'' (setKeyActions (''return searchResults.Nav(event,'' @ show_nat e @ '')'')
        (setAttribute ''id'' (''Item'' @ show_nat e) (createElement ''a'')))))"
  define ls where "ls = map (\<lambda>(c, r). child_link path e c r) (enumerate 0 rs)"
  define k where "k = foldl appendChild (setClassAttr ''SRChildren'' (createElement ''div'')) ls"
  have "result_row path (e, i, name, rs) = Elem ''div'' (row_attrs i) [] [Elem ''div'' entry_attrs [] [link, k]]"
    using False unfolding result_row_def Let_def prod.case row_frame link_def k_def ls_def
    by (simp split: list.split)
  moreover have "leaf (''Item'' @ show_nat e) link"
    unfolding link_def by (auto simp: dom_defs intro!: leaf_intro lower_a)
  moreover have "\<forall>l\<in>set ls. \<exists>c. leaf (''Item'' @ show_nat e @ ''_c'' @ show_nat c) l"
    unfolding ls_def using child_link_leaf by fastforce
  moreover have "k = Elem ''div'' [(''class'', ''SRChildren''), (''className'', ''SRChildren'')] [] ls"
    unfolding k_def by (simp add: dom_defs foldl_appendChild)
  ultimately show ?thesis unfolding row_kid_def by blast
qed

lemma leaf_rows: "leaf i e \<Longrightarrow> show_rows q e = e \<and> count_rows q e = 0"
proof -
  assume "leaf i e"
  then obtain t as ks where e: "e = Elem t as [] ks" "\<not> is_row e" "\<forall>k\<in>set ks. \<exists>h. k = Html h"
    by (auto simp: leaf_def)
  from e(3) have "map (show_rows q) ks = ks" "sum_list (map (count_rows q) ks) = 0"
    by (induction ks) auto
  with e show ?thesis by simp
qed

lemma leaf_ids: "leaf i e \<Longrightarrow> set (all_ids e) \<subseteq> {i}"
proof -
  assume "leaf i e"
  then obtain t as ks where e: "e = Elem t as [] ks" "\<forall>k\<in>set ks. \<exists>h. k = Html h"
      "map_of as ''id'' = None \<and> i = [] \<or> map_of as ''id'' = Some i"
    by (auto simp: leaf_def)
  from e(2) have "concat (map all_ids ks) = []" by (induction ks) auto
  with e show ?thesis by auto
qed

lemma class_elem: "map_of as ''class'' = Some c \<Longrightarrow> className (Elem t as d ks) = c"
  by (simp add: className_def getAttribute_def)

lemma row_rows:
  "show_rows q (result_row path x) =
     set_display (if row_matches q (result_row path x) then ''block'' else ''none'') (result_row path x) \<and>
   count_rows q (result_row path x) = (if row_matches q (result_row path x) then 1 else 0)"
proof -
  obtain e i name rs where x: "x = (e, i, name, rs)" by (cases x) auto
  obtain link k where r: "result_row path x = Elem ''div'' (row_attrs i) [] [Elem ''div'' entry_attrs [] [link, k]]"
      "leaf (''Item'' @ show_nat e) link" "row_kid e k"
    using row_shape [of path e i name rs] unfolding x by blast
  have k: "show_rows q k = k \<and> count_rows q k = 0"
  proof (cases "leaf [] k")
    case False
    with r(3) obtain ls where kl: "k = Elem ''div'' [(''class'', ''SRChildren''), (''className'', ''SRChildren'')] [] ls"
      "\<forall>l\<in>set ls. \<exists>c. leaf (''Item'' @ show_nat e @ ''_c'' @ show_nat c) l" unfolding row_kid_def by blast
    from kl(2) have "map (show_rows q) ls = ls" "sum_list (map (count_rows q) ls) = 0"
      using leaf_rows by (induction ls) auto
    with kl(1) show ?thesis by (simp add: is_row_def class_elem)
  qed (use leaf_rows in blast)
  have row: "is_row (Elem ''div'' (row_attrs i) [] ks)" for ks
    by (simp add: is_row_def is_div_def lower_a className_def getAttribute_def row_attrs_def)
  show ?thesis
    using k leaf_rows [OF r(2)] row unfolding r(1)
    by (auto simp: set_display_def is_row_def class_elem entry_attrs_def)
qed

section \<open>The whole list of results\<close>

text \<open>The element \<open>SRResults\<close> after \<open>createResults\<close> and a search for a key.\<close>

definition results_element :: "dom list \<Rightarrow> dom" where
  "results_element ks = Elem ''div'' [(''id'', ''SRResults'')] [] ks"

lemma createResults_eq:
  "createResults path data (results_element old) =
    results_element (map (result_row path) (enumerate 0 data))"
  by (simp add: createResults_def results_element_def set_innerHTML_def foldl_appendChild)

definition results_doc :: "string \<Rightarrow> search_entry list \<Rightarrow> string \<Rightarrow> dom" where
  "results_doc path data key = show_rows key (createResults path data (results_element []))"

definition row_shown :: "string \<Rightarrow> search_entry list \<Rightarrow> string \<Rightarrow> nat \<Rightarrow> bool" where
  "row_shown path data key j \<longleftrightarrow> row_matches key (result_row path (j, data ! j))"

lemma not_row_root: "\<not> is_row (results_element ks)"
  by (simp add: is_row_def results_element_def className_def getAttribute_def)

lemma results_doc_eq:
  "results_doc path data key =
    results_element (map (\<lambda>x. set_display (if row_matches key (result_row path x) then ''block'' else ''none'')
      (result_row path x)) (enumerate 0 data))"
  using not_row_root unfolding results_doc_def createResults_eq
  by (simp add: results_element_def row_rows)

lemma enumerate_filter:
  "length (filter P (enumerate n xs)) = length (filter (\<lambda>j. P (n + j, xs ! j)) [0..<length xs])"
proof (induction xs arbitrary: n)
  case (Cons x xs)
  have u: "[0..<Suc (length xs)] = 0 # map Suc [0..<length xs]"
    by (simp only: map_Suc_upt upt_conv_Cons zero_less_Suc)
  show ?case using Cons [of "Suc n"] unfolding length_Cons u by (simp add: filter_map comp_def)
qed simp

lemma count_results:
  "count_rows key (createResults path data (results_element [])) =
    length (filter (row_shown path data key) [0..<length data])"
proof -
  have "sum_list (map (count_rows key) (map (result_row path) xs)) =
      length (filter (\<lambda>x. row_matches key (result_row path x)) xs)" for xs
    by (induction xs) (simp_all add: row_rows)
  then have "count_rows key (createResults path data (results_element [])) =
      length (filter (\<lambda>x. row_matches key (result_row path x)) (enumerate 0 data))"
    using not_row_root unfolding createResults_eq by (simp add: results_element_def)
  then show ?thesis
    using enumerate_filter [of "\<lambda>x. row_matches key (result_row path x)" 0 data]
    by (simp add: row_shown_def [abs_def])
qed

text \<open>The identifier that Doxygen gives the entry of a name.\<close>

definition numbered_id :: "string \<Rightarrow> string \<Rightarrow> bool" where
  "numbered_id name i \<longleftrightarrow> toLowerCase name = name \<and> (\<exists>k. i = convertToId name @ ''_'' @ show_nat k)"

lemma lower_unit_id: "id_char c \<Longrightarrow> byte_val c < 128 \<Longrightarrow> lower_unit c = c"
  by (auto simp: lower_unit_def id_char_def)

lemma lower_hex: "d < 16 \<Longrightarrow> lower_unit (hex_unit d) = hex_unit d"
  by (auto simp: lower_unit_def hex_unit_def)

lemma lower_convert: "toLowerCase s = s \<Longrightarrow> toLowerCase (convertToId s) = convertToId s"
proof (induction s)
  case (Cons c s)
  have b: "byte_val c div 16 < 16" "byte_val c mod 16 < 16" using byte_val_bound [of c] by auto
  have u: "lower_unit (CHR ''_'') = CHR ''_''" by (simp add: lower_unit_def byte_val_def)
  have "toLowerCase (key_word c) = key_word c"
    using Cons.prems b u by (auto simp: key_word_def toLowerCase_def lower_hex)
  with Cons show ?case
    by (simp add: convertToId_Cons toLowerCase_def del: convertToId.simps(2))
qed simp

lemma lower_digits: "toLowerCase (show_nat k) = show_nat k"
proof -
  have "lower_unit c = c" if "is_digit c" for c using that by (auto simp: is_digit_def lower_unit_def)
  then show ?thesis using show_nat_digits [of k] by (auto simp: toLowerCase_def intro!: map_idI)
qed

lemma prefix_take: "length a \<le> length b \<and> take (length a) b = a \<longleftrightarrow> prefix a b"
  by (metis append_eq_conv_conj prefix_def prefix_length_le)

lemma lower_SR: "lower_unit (CHR ''S'') = CHR ''s''" "lower_unit (CHR ''R'') = CHR ''r''" "lower_unit (CHR ''_'') = CHR ''_''"
  by code_simp+

lemma row_match_name:
  assumes "numbered_id name i" and "list_all plain_unit q"
  shows "row_matches (convertToId q) (result_row path (e, i, x)) \<longleftrightarrow> prefix q name"
proof -
  obtain nm rs where x: "x = (nm, rs)" by (cases x)
  obtain k where i: "i = convertToId name @ ''_'' @ show_nat k" and l: "toLowerCase name = name"
    using assms(1) by (auto simp: numbered_id_def)
  have li: "toLowerCase i = i"
    using lower_convert [OF l] lower_digits [of k] i
    using lower_SR by (simp add: toLowerCase_def)
  obtain es where "result_row path (e, i, x) = Elem ''div'' (row_attrs i) [] es"
    using row_shape [of path e i nm rs] x by blast
  then have id: "elem_id (result_row path (e, i, x)) = ''SR_'' @ i"
    by (simp add: elem_id_def getAttribute_def row_attrs_def)
  have "toLowerCase (''SR_'' @ i) = ''sr_'' @ i"
    using li lower_SR by (simp add: toLowerCase_def)
  moreover have "strip_sr (''sr_'' @ i) = i"
    by (simp add: strip_sr_def is_digit_def byte_val_def)
  ultimately have "row_matches (convertToId q) (result_row path (e, i, x)) \<longleftrightarrow> prefix (convertToId q) i"
    unfolding row_matches_def id Let_def by (simp add: prefix_take)
  then show ?thesis unfolding i convertToId_numbered [OF assms(2)] .
qed

section \<open>Items\<close>

lemma child_path_simps [simp]: "child_path (n, None) = None" "child_path (n, Some p) = Some (n # p)"
  by (simp_all add: child_path_def)

lemma first_child_path:
  assumes "j < length ks" and "\<And>m. m < j \<Longrightarrow> find_id i (ks ! m) = None" and "find_id i (ks ! j) = Some p"
  shows "first_some (map child_path (enumerate n (map (find_id i) ks))) = Some ((n + j) # p)"
  using assms
proof (induction ks arbitrary: n j)
  case (Cons k ks)
  show ?case
  proof (cases j)
    case 0
    with Cons.prems show ?thesis by simp
  next
    case (Suc j')
    have "find_id i k = None" using Cons.prems(2) [of 0] Suc by simp
    moreover have "first_some (map child_path (enumerate (Suc n) (map (find_id i) ks))) = Some ((Suc n + j') # p)"
      using Cons.prems Suc by (intro Cons.IH) (force, force, force)
    ultimately show ?thesis using Suc by simp
  qed
qed simp

lemma all_ids_set_display [simp]: "all_ids (set_display d e) = all_ids e"
  by (cases e) (simp_all add: set_display_def)

lemma digit_not_underscore: "CHR ''_'' \<notin> set (show_nat k)"
  using show_nat_digits [of k] by (auto simp: is_digit_def byte_val_def)

lemma item_not_child: "''Item'' @ show_nat j \<noteq> ''Item'' @ show_nat e @ ''_c'' @ show_nat c"
proof
  assume "''Item'' @ show_nat j = ''Item'' @ show_nat e @ ''_c'' @ show_nat c"
  then have "show_nat j = show_nat e @ ''_c'' @ show_nat c" by simp
  then show False using digit_not_underscore [of j] by simp
qed

lemma row_kid_ids: "row_kid e k \<Longrightarrow> ''Item'' @ show_nat j \<notin> set (all_ids k)"
proof (cases "leaf [] k")
  case True
  then show ?thesis using leaf_ids by fastforce
next
  case False
  assume "row_kid e k"
  with False obtain ls where k: "k = Elem ''div'' [(''class'', ''SRChildren''), (''className'', ''SRChildren'')] [] ls"
    "\<forall>l\<in>set ls. \<exists>c. leaf (''Item'' @ show_nat e @ ''_c'' @ show_nat c) l" unfolding row_kid_def by blast
  have "''Item'' @ show_nat j \<notin> set (all_ids l)" if "l \<in> set ls" for l
    using k(2) that leaf_ids item_not_child by blast
  with k(1) show ?thesis by simp
qed

lemma row_item:
  "find_id (''Item'' @ show_nat j) (set_display d (result_row path (e, x))) = (if e = j then Some [0, 0] else None)"
proof -
  obtain i nm rs where x: "x = (i, nm, rs)" by (cases x)
  obtain link k where r: "result_row path (e, x) = Elem ''div'' (row_attrs i) [] [Elem ''div'' entry_attrs [] [link, k]]"
      "leaf (''Item'' @ show_nat e) link" "row_kid e k"
    using row_shape [of path e i nm rs] unfolding x by blast
  have l: "find_id (''Item'' @ show_nat j) link = (if e = j then Some [] else None)"
  proof (cases "e = j")
    case True
    with r(2) show ?thesis by (auto simp: leaf_def)
  next
    case False
    then have "''Item'' @ show_nat j \<noteq> ''Item'' @ show_nat e" using show_nat_inj by auto
    with leaf_ids [OF r(2)] have "''Item'' @ show_nat j \<notin> set (all_ids link)" by auto
    with False find_id_None show ?thesis by auto
  qed
  have k: "find_id (''Item'' @ show_nat j) k = None" using row_kid_ids [OF r(3)] find_id_None by auto
  show ?thesis unfolding r(1)
    by (simp add: set_display_def row_attrs_def entry_attrs_def l [simplified] k [simplified] child_path_def)
qed

lemma find_id_children:
  assumes "map_of as ''id'' \<noteq> Some i" and "length ks = n"
    and "\<And>m. m < n \<Longrightarrow> find_id i (ks ! m) = (if m = j then Some p else None)"
  shows "find_id i (Elem t as d ks) = (if j < n then Some (j # p) else None)"
proof (cases "j < n")
  case True
  then have "first_some (map child_path (enumerate 0 (map (find_id i) ks))) = Some ((0 + j) # p)"
    using assms(2,3) by (intro first_child_path) auto
  with True assms(1) show ?thesis by simp
next
  case False
  have "find_id i k = None" if k: "k \<in> set ks" for k
  proof -
    obtain m where "m < length ks" "k = ks ! m" using k by (metis in_set_conv_nth)
    with False assms(2,3) show ?thesis by simp
  qed
  then have "i \<notin> set (all_ids (Elem t as d ks))"
    using assms(1) find_id_None by (fastforce split: option.splits)
  with False find_id_None show ?thesis by presburger
qed

lemma results_item:
  "find_id (''Item'' @ show_nat j) (results_doc path data key) = (if j < length data then Some [j, 0, 0] else None)"
  unfolding results_doc_eq results_element_def
  by (rule find_id_children) (simp, simp, simp add: nth_enumerate_eq row_item [simplified])

lemma results_visible:
  "j < length data \<Longrightarrow> visible_item (results_doc path data key) [j, 0, 0] \<longleftrightarrow> row_shown path data key j"
proof -
  assume j: "j < length data"
  obtain i nm rs where x: "data ! j = (i, nm, rs)" by (cases "data ! j")
  obtain es where "result_row path (j, i, nm, rs) = Elem ''div'' (row_attrs i) [] es"
    using row_shape by blast
  with j x show ?thesis
    by (simp add: visible_item_def results_doc_eq results_element_def nth_enumerate_eq set_display_def row_shown_def)
qed

lemma NavNext_results:
  "i \<le> length data \<Longrightarrow> NavNext (results_doc path data key) (int i) =
    map_option (\<lambda>j. [j, 0, 0]) (List.find (row_shown path data key) [i..<length data])"
proof (induction "length data - i" arbitrary: i)
  case 0
  then have "\<not> i < length data" by simp
  then have "find_id (item_name (int i)) (results_doc path data key) = None"
    using results_item [of i path data key] by (simp add: item_name_def show_int_def)
  with 0 show ?case by (subst NavNext.simps) simp
next
  case (Suc m)
  then have i: "i < length data" by simp
  have "find_id (item_name (int i)) (results_doc path data key) = Some [i, 0, 0]"
    using results_item [of i path data key] i by (simp add: item_name_def show_int_def)
  then have "NavNext (results_doc path data key) (int i) =
      (if row_shown path data key i then Some [i, 0, 0] else NavNext (results_doc path data key) (int i + 1))"
    using results_visible [OF i, of path key] by (subst NavNext.simps) simp
  moreover have "NavNext (results_doc path data key) (int i + 1) =
      map_option (\<lambda>j. [j, 0, 0]) (List.find (row_shown path data key) [Suc i..<length data])"
    using Suc.hyps(1) [of "Suc i"] Suc.hyps(2) i by (simp add: add.commute)
  ultimately show ?case using i by (simp add: upt_conv_Cons)
qed

lemma no_item_minus_1: "find_id (item_name (-1)) (results_doc path data key) = None"
proof -
  have m: "CHR ''-'' \<notin> set (show_nat e)" for e
    using show_nat_digits [of e] by (auto simp: is_digit_def byte_val_def)
  have "item_name (-1) \<noteq> ''Item'' @ show_nat e" "item_name (-1) \<noteq> ''Item'' @ show_nat e @ ''_c'' @ show_nat c" for e c
    using m [of e] by (auto simp: item_name_def show_int_def dest: arg_cong [where f = set] cong: conj_cong)
      (metis list.set_intros(1), metis append_Cons hd_append2 list.sel(1) list.set_sel(1) show_nat_neq_Nil)
  note ne = this
  have "item_name (-1) \<notin> set (all_ids (result_row path x))" for x
  proof -
    obtain e i nm rs where x: "x = (e, i, nm, rs)" by (cases x) auto
    obtain link k where r: "result_row path x = Elem ''div'' (row_attrs i) [] [Elem ''div'' entry_attrs [] [link, k]]"
        "leaf (''Item'' @ show_nat e) link" "row_kid e k"
      using row_shape [of path e i nm rs] unfolding x by blast
    have k: "item_name (-1) \<notin> set (all_ids k)"
    proof (cases "leaf [] k")
      case True
      then show ?thesis using leaf_ids by (fastforce simp: item_name_def)
    next
      case False
      with r(3) obtain ls where kl: "k = Elem ''div'' [(''class'', ''SRChildren''), (''className'', ''SRChildren'')] [] ls"
        "\<forall>l\<in>set ls. \<exists>c. leaf (''Item'' @ show_nat e @ ''_c'' @ show_nat c) l" unfolding row_kid_def by blast
      have "item_name (-1) \<notin> set (all_ids l)" if "l \<in> set ls" for l using kl(2) that leaf_ids ne by blast
      with kl(1) show ?thesis by simp
    qed
    have "item_name (-1) \<notin> set (all_ids link)" using leaf_ids [OF r(2)] ne by blast
    with k show ?thesis unfolding r(1) by (simp add: row_attrs_def entry_attrs_def item_name_def)
  qed
  then have "item_name (-1) \<notin> set (all_ids (results_doc path data key))"
    unfolding results_doc_eq by (auto simp: results_element_def item_name_def)
  then show ?thesis using find_id_None by blast
qed

lemma NavPrev_results:
  "i < length data \<Longrightarrow> NavPrev (results_doc path data key) (int i) =
    map_option (\<lambda>j. [j, 0, 0]) (List.find (row_shown path data key) (rev [0..<Suc i]))"
proof (induction i)
  case 0
  have "find_id (item_name 0) (results_doc path data key) = Some [0, 0, 0]"
    using results_item [of 0 path data key] 0 by (simp add: item_name_def show_int_def)
  then show ?case
    using no_item_minus_1 results_visible [OF 0, of path key]
    by (subst NavPrev.simps) (simp, subst NavPrev.simps, simp)
next
  case (Suc i)
  have "find_id (item_name (int (Suc i))) (results_doc path data key) = Some [Suc i, 0, 0]"
    using results_item [of "Suc i" path data key] Suc.prems by (simp add: item_name_def show_int_def del: of_nat_Suc)
  then have "NavPrev (results_doc path data key) (int (Suc i)) =
      (if row_shown path data key (Suc i) then Some [Suc i, 0, 0] else NavPrev (results_doc path data key) (int (Suc i) - 1))"
    using results_visible [OF Suc.prems, of path key] by (subst NavPrev.simps) (simp del: of_nat_Suc)
  also have "int (Suc i) - 1 = int i" by simp
  finally have "NavPrev (results_doc path data key) (int (Suc i)) =
      (if row_shown path data key (Suc i) then Some [Suc i, 0, 0] else NavPrev (results_doc path data key) (int i))" .
  with Suc show ?case by (simp del: of_nat_Suc)
qed

section \<open>Child elements\<close>

text \<open>The first child element in document order, by recursion on the tree.\<close>

primrec first_children :: "dom \<Rightarrow> nat list option" where
  "first_children (Elem t as d ks) =
     (if is_div (Elem t as d ks) \<and> className (Elem t as d ks) = ''SRChildren'' then Some []
      else if is_div (Elem t as d ks) then first_some (map child_path (enumerate 0 (map first_children ks)))
      else None)"
| "first_children (Html h) = None"

definition in_siblings :: "(nat list \<times> dom) list \<Rightarrow> nat list option" where
  "in_siblings ss = first_some (map (\<lambda>(p, e). map_option ((@) p) (first_children e)) ss)"

definition in_rest :: "cursor \<Rightarrow> nat list option" where
  "in_rest st = first_some (map (\<lambda>l. in_siblings (tl l)) st)"

fun in_cursor :: "cursor \<Rightarrow> nat list option" where
  "in_cursor [] = None"
| "in_cursor (ss # st) = first_some [in_siblings ss, in_rest st]"

lemma first_some_append: "first_some (xs @ ys) = first_some [first_some xs, first_some ys]"
  by (induction xs) (auto split: option.splits)

lemma in_siblings_Cons:
  "in_siblings ((p, e) # ss) = first_some [map_option ((@) p) (first_children e), in_siblings ss]"
  by (simp add: in_siblings_def split: option.splits)

lemma in_rest_Cons: "in_rest (l # st) = first_some [in_siblings (tl l), in_rest st]"
  by (simp add: in_rest_def split: option.splits)

lemma first_two: "first_some [a, b] = (case a of None \<Rightarrow> b | Some x \<Rightarrow> Some x)"
  by (auto split: option.splits)

lemma in_siblings_kids:
  "in_siblings (siblings p ks) =
    map_option ((@) p) (first_some (map child_path (enumerate 0 (map first_children ks))))"
proof -
  have "first_some (map (\<lambda>(q, e). map_option ((@) q) (first_children e)) (map (\<lambda>(i, k). (p @ [i], k)) (enumerate n ks))) =
      map_option ((@) p) (first_some (map child_path (enumerate n (map first_children ks))))" for n
    by (induction ks arbitrary: n) (auto simp: child_path_def split: option.splits)
  then show ?thesis by (simp add: in_siblings_def siblings_def)
qed

lemma in_climb: "[] \<notin> set st \<Longrightarrow> in_cursor (climb st) = in_rest st \<and> [] \<notin> set (climb st)"
proof (induction st rule: climb.induct)
  case (2 a s ss st)
  then show ?case by (simp add: in_rest_Cons split: option.splits)
qed (auto simp: in_rest_def in_siblings_def split: option.splits)

lemma find_loop_first: "[] \<notin> set cur \<Longrightarrow> find_loop cur = in_cursor cur"
proof (induction cur rule: find_loop.induct)
  case (3 p e rest st)
  have nn: "siblings p (kids e) \<noteq> []" if "kids e \<noteq> []" using that by (cases "kids e") (auto simp: siblings_def)
  consider (found) "is_div e \<and> className e = ''SRChildren''"
    | (down) "\<not> (is_div e \<and> className e = ''SRChildren'')" "is_div e \<and> kids e \<noteq> []"
    | (right) "\<not> (is_div e \<and> className e = ''SRChildren'')" "\<not> (is_div e \<and> kids e \<noteq> [])" "rest \<noteq> []"
    | (up) "\<not> (is_div e \<and> className e = ''SRChildren'')" "\<not> (is_div e \<and> kids e \<noteq> [])" "rest = []"
    by blast
  then show ?case
  proof cases
    case found
    then have "first_children e = Some []" by (cases e) (auto simp: is_div_def)
    with found show ?thesis by (simp add: in_siblings_Cons)
  next
    case down
    then have f: "first_children e = first_some (map child_path (enumerate 0 (map first_children (kids e))))"
      by (cases e) (auto simp: is_div_def)
    have "find_loop (((p, e) # rest) # st) = in_cursor (siblings p (kids e) # ((p, e) # rest) # st)"
      using down 3 nn by simp
    also have "\<dots> = in_cursor (((p, e) # rest) # st)"
      by (simp add: in_siblings_kids in_siblings_Cons in_rest_Cons f split: option.splits)
    finally show ?thesis .
  next
    case right
    then have "first_children e = None" by (cases e) (auto simp: is_div_def)
    moreover have "find_loop (((p, e) # rest) # st) = find_loop (rest # st)"
      by (simp only: find_loop.simps(3) right if_False if_True simp_thms)
    moreover have "find_loop (rest # st) = in_cursor (rest # st)" using right 3 by (intro "3.IH"(2)) auto
    ultimately show ?thesis by (simp add: in_siblings_Cons split: option.splits)
  next
    case up
    then have f: "first_children e = None" by (cases e) (auto simp: is_div_def)
    have "find_loop (((p, e) # rest) # st) = find_loop (climb st)"
      by (simp only: find_loop.simps(3) up if_False if_True simp_thms)
    also have "\<dots> = in_cursor (climb st)" using up 3 in_climb [of st] by (intro "3.IH"(3)) auto
    finally have "find_loop (((p, e) # rest) # st) = in_rest st" using 3 in_climb [of st] by simp
    with f up show ?thesis by (simp add: in_siblings_Cons in_siblings_def split: option.splits)
  qed
qed simp_all

lemma search_rows:
  assumes ids: "\<forall>j<length data. numbered_id (nm j) (fst (data ! j))"
    and q: "q = toLowerCase (strip_ending (strip_leading search))" and plain: "list_all plain_unit q"
    and "search \<noteq> []" and r: "sr_results r = createResults path data (results_element [])"
  shows "let r' = SearchResults_Search loc search r; hits = {j. j < length data \<and> prefix q (nm j)} in
    (\<forall>j<length data. map_option display (node_at [j] (sr_results r')) =
       Some (if prefix q (nm j) then ''block'' else ''none'')) \<and>
    lastMatchCount r' = card hits \<and> (noMatches_display r' = ''block'' \<longleftrightarrow> hits = {})"
proof -
  have key: "search_key loc search = convertToId q" using assms(4) q by (simp add: search_key_def)
  have m: "row_shown path data (convertToId q) j \<longleftrightarrow> prefix q (nm j)" if "j < length data" for j
    using row_match_name [OF _ plain, of "nm j" "fst (data ! j)" path j "snd (data ! j)"] ids that
    by (simp add: row_shown_def)
  have doc: "show_rows (convertToId q) (sr_results r) = results_doc path data (convertToId q)"
    by (simp add: results_doc_def r)
  have d: "map_option display (node_at [j] (results_doc path data (convertToId q))) =
      Some (if prefix q (nm j) then ''block'' else ''none'')" if j: "j < length data" for j
  proof -
    obtain i x where x: "data ! j = (i, x)" by (cases "data ! j")
    obtain es where "result_row path (j, i, x) = Elem ''div'' (row_attrs i) [] es"
      using row_shape [of path j i "fst x" "snd x"] by auto
    with j x m [OF j] show ?thesis
      by (simp add: results_doc_eq results_element_def nth_enumerate_eq set_display_def row_shown_def)
  qed
  have "filter (row_shown path data (convertToId q)) [0..<length data] = filter (\<lambda>j. prefix q (nm j)) [0..<length data]"
    using m by (intro filter_cong) auto
  moreover have "length (filter (\<lambda>j. prefix q (nm j)) [0..<length data]) = card {j. j < length data \<and> prefix q (nm j)}"
    by (subst distinct_card [symmetric]) (auto intro!: arg_cong [where f = card])
  ultimately have c: "count_rows (convertToId q) (sr_results r) = card {j. j < length data \<and> prefix q (nm j)}"
    unfolding r count_results by simp
  show ?thesis
    unfolding SearchResults_Search_def key Let_def using d c doc by simp
qed

section \<open>Properties\<close>

text \<open>The keys of the search index keep texts and their prefixes apart.  The encoding of one text
  is a prefix of the encoding of another exactly when the text is a prefix of the other, so no two
  texts share a key.\<close>

theorem convertToId_keeps_prefixes:
  "(prefix (convertToId a) (convertToId b) \<longleftrightarrow> prefix a b) \<and> (convertToId a = convertToId b \<longleftrightarrow> a = b)"
  using convertToId_prefix_iff [of a b] convertToId_prefix_iff [of b a]
  by (auto intro: prefix_order.antisym)


definition example_data :: "search_entry list" where
  "example_data =
     [(''rate_5flimit_0'', ''rate_limit'', [(''../rate__limiter_8h.html'', True, ''rate_limiter.h'')]),
      (''report_5faccept_1'', ''report_accept'', [(''../report_8h.html'', True, ''report.h'')])]"


text \<open>The arrow keys stop exactly at the rows on show.  Over the results of any search,
  \<open>NavNext\<close> terminates with the item of the first row on show at or after the index, or with none
  behind the last row; \<open>NavPrev\<close> terminates with the last row on show at or before it, or with none.\<close>

theorem navigation_visits_shown_rows:
  assumes "i < length data"
  shows "NavNext (results_doc path data key) (int i) =
      map_option (\<lambda>j. [j, 0, 0]) (List.find (row_shown path data key) [i..<length data]) \<and>
    NavNext (results_doc path data key) (int (length data)) = None \<and>
    NavPrev (results_doc path data key) (int i) =
      map_option (\<lambda>j. [j, 0, 0]) (List.find (row_shown path data key) (rev [0..<Suc i])) \<and>
    NavPrev (results_doc path data key) (-1) = None"
proof -
  have "NavPrev (results_doc path data key) (-1) = None"
    using no_item_minus_1 by (subst NavPrev.simps) simp
  then show ?thesis
    using NavNext_results [of "length data" data path key] NavNext_results [of i data path key]
      NavPrev_results [OF assms, of path key] assms by simp
qed

theorem navigation_visits_shown_rows_witness:
  "NavNext (results_doc [] example_data ''report'') 0 = Some [1, 0, 0] \<and>
   NavPrev (results_doc [] example_data ''report'') 0 = None"
proof -
  have s: "\<not> row_shown [] example_data ''report'' 0" "row_shown [] example_data ''report'' 1" by code_simp+
  have l: "length example_data = 2" by (simp add: example_data_def)
  show ?thesis
    using navigation_visits_shown_rows [of 0 example_data "[]" "''report''"] s l
    by (simp add: upt_rec numeral_2_eq_2)
qed

text \<open>The pointer walk of \<open>FindChildElement\<close> ends and finds the first child list in document
  order: the result of walking by first child, next sibling and parent is that of searching the
  tree recursively, descending only into \<open>div\<close> elements.\<close>

theorem find_child_first_in_order:
  "FindChildElement e = first_some (map child_path (enumerate 0 (map first_children (kids e))))"
proof (cases "kids e")
  case Nil
  then show ?thesis by (simp add: FindChildElement_def siblings_def)
next
  case (Cons k ks)
  then have "[] \<notin> set [siblings [] (kids e)]" by (simp add: siblings_def)
  from find_loop_first [OF this] show ?thesis
    by (simp add: FindChildElement_def in_rest_def in_siblings_kids map_option.id [unfolded id_def]
        split: option.splits)
qed

text \<open>A searched unit whose code is two decimal digits can match the number of an entry instead of
  its name: the text \<open>report(\<close> finds the entry \<open>report\<close> when it is the 28th of its file.\<close>

lemma search_matches_entry_number:
  "row_matches (convertToId ''report('') (result_row [] (28, ''report_28'', ''report'', [])) \<and> \<not> prefix ''report('' ''report''"
  by code_simp

end
