(* ===== verification/DoxSearchBox.thy ===== *)
theory DoxSearchBox
  imports DoxSearchSpec
begin

text \<open>
  The search box of the manual: \<open>SearchBox\<close>, the handlers of \<open>SearchResults\<close> that move the focus
  and \<open>init_search\<close> of \<open>search/search.js\<close>, with the constants of \<open>search/searchdata.js\<close>.  The
  elements with fixed identifiers are fields of the page; pending timers and script loads are lists.
  An uncaught exception is Inl with the state it leaves.  The surrogate pairs that \<open>Search\<close> tests
  for do not occur among code units below 256.
\<close>

section \<open>Constants\<close>

definition indexSectionsWithContent :: "string list" where
  "indexSectionsWithContent =
     [''abcdfghiklmnoprstuvw'', ''chmrstu'', ''cdghrstu'', ''bcdghlmorstu'', ''abcdfhiklmnprstuvw'', ''dhrt'',
      ''ru'', ''rs'', ''chmst'']"

definition indexSectionNames :: "string list" where
  "indexSectionNames =
     [''all'', ''classes'', ''files'', ''functions'', ''variables'', ''typedefs'', ''enums'', ''enumvalues'', ''defines'']"

definition indexSectionLabels :: "string list" where
  "indexSectionLabels =
     [''Tutto'', ''Strutture dati'', ''File'', ''Funzioni'', ''Variabili'', ''Ridefinizioni di tipo (typedef)'',
      ''Tipi enumerati (enum)'', ''Valori del tipo enumerato'', ''Definizioni'']"

definition bullet :: string where
  "bullet = ''&#8226;''"

definition blank_mark :: string where
  "blank_mark = ''&#160;''"

section \<open>The page\<close>

datatype focus = NoFocus | SearchField | SelectWindow | SelectItem nat | ResultItem "nat list"

datatype timer_task = RunSearch | RunCloseSelection

text \<open>A child of \<open>MSearchSelectWindow\<close>: its class and the markup of its first child.\<close>

type_synonym select_child = "string \<times> string"

text \<open>Where the elements are on the screen: \<open>offsetWidth\<close> and the offsets of an element and of its
  \<open>offsetParent\<close>s below the body.\<close>

record placed =
  offsetWidth :: int
  offsetHeight :: int
  offsets :: "(int \<times> int) list"

record screen =
  sc_select :: placed
  sc_box :: placed
  sc_popup_width :: int
  sc_clientWidth :: int
  sc_clientHeight :: int
  sc_location_query :: string

record search_page =
  field_value :: string
  box_class :: string
  results_display :: string
  close_display :: string
  select_display :: string
  loading_display :: string
  select_pos :: "int \<times> int"
  popup_box :: "int \<times> int \<times> int \<times> int"
  select_children :: "select_child list"
  focused :: focus
  results :: search_results
  searchData :: "search_entry list option"
  resultsPath :: string
  keyTimeout :: nat
  hideTimeout :: nat
  lastSearchValue :: string
  lastResultsPage :: string
  searchIndex :: nat
  searchActive :: bool
  timers :: "(nat \<times> timer_task) list"
  next_timer :: nat
  loads :: "(string \<times> string \<times> bool) list"

type_synonym outcome = "search_page + search_page"

definition next_do :: "outcome \<Rightarrow> (search_page \<Rightarrow> outcome) \<Rightarrow> outcome" where
  "next_do r f = (case r of Inl p \<Rightarrow> Inl p | Inr p \<Rightarrow> f p)"

lemma next_do_simps [simp]: "next_do (Inl p) f = Inl p" "next_do (Inr p) f = f p"
  by (simp_all add: next_do_def)

definition getXPos :: "placed \<Rightarrow> int" where
  "getXPos item = (if offsetWidth item \<noteq> 0 then sum_list (map fst (offsets item)) else 0)"

definition getYPos :: "placed \<Rightarrow> int" where
  "getYPos item = (if offsetWidth item \<noteq> 0 then sum_list (map snd (offsets item)) else 0)"

definition setTimeout :: "timer_task \<Rightarrow> search_page \<Rightarrow> nat \<times> search_page" where
  "setTimeout task p = (next_timer p, p\<lparr>timers := timers p @ [(next_timer p, task)], next_timer := next_timer p + 1\<rparr>)"

definition clearTimeout :: "nat \<Rightarrow> search_page \<Rightarrow> search_page" where
  "clearTimeout t p = p\<lparr>timers := filter (\<lambda>x. fst x \<noteq> t) (timers p)\<rparr>"

section \<open>Actions of the search box\<close>

definition Activate :: "bool \<Rightarrow> search_page \<Rightarrow> search_page" where
  "Activate isActive p =
     (if isActive \<or> results_display p = ''block''
      then p\<lparr>box_class := ''MSearchBoxActive'', searchActive := True\<rparr>
      else if \<not> isActive
      then p\<lparr>box_class := ''MSearchBoxInactive'', searchActive := False, lastSearchValue := [],
             lastResultsPage := [], field_value := []\<rparr>
      else p)"

definition OnSearchFieldFocus :: "bool \<Rightarrow> search_page \<Rightarrow> search_page" where
  "OnSearchFieldFocus isActive p = Activate isActive p"

definition OnSearchSelectShow :: "screen \<Rightarrow> search_page \<Rightarrow> search_page" where
  "OnSearchSelectShow sc p =
     (let left = getXPos (sc_select sc);
          top = getYPos (sc_select sc) + offsetHeight (sc_select sc);
          p = p\<lparr>select_display := ''block'', select_pos := (left, top)\<rparr>
      in if hideTimeout p \<noteq> 0 then (clearTimeout (hideTimeout p) p)\<lparr>hideTimeout := 0\<rparr> else p)"

definition OnSearchSelectHide :: "search_page \<Rightarrow> search_page" where
  "OnSearchSelectHide p = (let (t, p) = setTimeout RunCloseSelection p in p\<lparr>hideTimeout := t\<rparr>)"

definition CloseResultsWindow :: "search_page \<Rightarrow> search_page" where
  "CloseResultsWindow p = Activate False (p\<lparr>results_display := ''none'', close_display := ''none''\<rparr>)"

definition CloseSelectionWindow :: "search_page \<Rightarrow> search_page" where
  "CloseSelectionWindow p = p\<lparr>select_display := ''none''\<rparr>"

text \<open>Position and size of the results window.\<close>

definition popup_geometry :: "screen \<Rightarrow> int \<times> int \<times> int \<times> int" where
  "popup_geometry sc =
     (let left = getXPos (sc_box sc) + 150 - sc_popup_width sc;
          top = getYPos (sc_box sc) + 20;
          left = (if left < 10 then 10 else left);
          width = (if 300 + left + 8 > sc_clientWidth sc then sc_clientWidth sc - left - 8 else 300);
          height = (if 400 + top + 8 > sc_clientHeight sc then sc_clientHeight sc - top - 8 else 400)
      in (left, top, width, height))"

definition handleResults :: "screen \<Rightarrow> string \<Rightarrow> bool \<Rightarrow> search_page \<Rightarrow> search_page" where
  "handleResults sc searchValue found p =
     (let p = p\<lparr>loading_display := ''none''\<rparr>;
          p = (case searchData p of
                 None \<Rightarrow> p
               | Some data \<Rightarrow> p\<lparr>results := results p\<lparr>sr_results := createResults (resultsPath p) data (sr_results (results p)),
                                                     noMatches_display := ''none''\<rparr>\<rparr>);
          p = p\<lparr>results := SearchResults_Search (sc_location_query sc) (if found then searchValue else ''===='') (results p)\<rparr>
      in if results_display p \<noteq> ''block''
         then p\<lparr>close_display := ''inline-block'', results_display := ''block'', popup_box := popup_geometry sc\<rparr>
         else p)"

definition SearchBox_Search :: "screen \<Rightarrow> search_page \<Rightarrow> outcome" where
  "SearchBox_Search sc p =
     (let p = p\<lparr>keyTimeout := 0\<rparr>;
          searchValue = strip_leading (field_value p);
          idxChar = toLowerCase (take 1 searchValue)
      in if searchIndex p \<ge> length indexSectionsWithContent then Inl p
         else case index_of idxChar (indexSectionsWithContent ! searchIndex p) of
                Some idx \<Rightarrow>
                  let jsFile = resultsPath p @ indexSectionNames ! searchIndex p @ ''_'' @ hex_string idx @ ''.js''
                  in Inr (p\<lparr>loads := loads p @ [(jsFile, searchValue, True)], lastSearchValue := searchValue\<rparr>)
              | None \<Rightarrow> Inr ((handleResults sc searchValue False p)\<lparr>lastSearchValue := searchValue\<rparr>))"

text \<open>The script of the load arrives and defines \<open>searchData\<close>; then \<open>handleResults\<close> runs.\<close>

definition script_loaded :: "screen \<Rightarrow> nat \<Rightarrow> search_entry list \<Rightarrow> search_page \<Rightarrow> search_page" where
  "script_loaded sc n data p =
     (case loads p ! n of (_, searchValue, found) \<Rightarrow>
        handleResults sc searchValue found
          (p\<lparr>searchData := Some data, loads := take n (loads p) @ drop (Suc n) (loads p)\<rparr>))"

section \<open>The selection of a section\<close>

definition SelectItemCount :: "search_page \<Rightarrow> nat" where
  "SelectItemCount p = length (filter (\<lambda>c. fst c = ''SelectItem'') (select_children p))"

fun set_marks :: "nat \<Rightarrow> nat \<Rightarrow> select_child list \<Rightarrow> select_child list" where
  "set_marks i j [] = []"
| "set_marks i j ((cls, mark) # cs) =
     (if cls = ''SelectItem'' then (cls, if j = i then bullet else blank_mark) # set_marks i (j + 1) cs
      else (cls, mark) # set_marks i j cs)"

definition SelectItemSet :: "nat \<Rightarrow> search_page \<Rightarrow> search_page" where
  "SelectItemSet i p = p\<lparr>select_children := set_marks i 0 (select_children p)\<rparr>"

definition OnSelectItem :: "screen \<Rightarrow> nat \<Rightarrow> search_page \<Rightarrow> outcome" where
  "OnSelectItem sc i p =
     (let p = SelectItemSet i (p\<lparr>searchIndex := i\<rparr>);
          searchValue = strip_spaces (field_value p)
      in if searchValue \<noteq> [] \<and> searchActive p then SearchBox_Search sc p else Inr p)"

definition OnSearchSelectKey :: "screen \<Rightarrow> nat \<Rightarrow> search_page \<Rightarrow> outcome" where
  "OnSearchSelectKey sc keyCode p =
     (if keyCode = 40 \<and> searchIndex p < SelectItemCount p
      then let p = p\<lparr>searchIndex := searchIndex p + 1\<rparr> in OnSelectItem sc (searchIndex p) p
      else if keyCode = 38 \<and> searchIndex p > 0
      then let p = p\<lparr>searchIndex := searchIndex p - 1\<rparr> in OnSelectItem sc (searchIndex p) p
      else if keyCode = 13 \<or> keyCode = 27
      then next_do (OnSelectItem sc (searchIndex p) p) (\<lambda>p. Inr ((CloseSelectionWindow p)\<lparr>focused := SearchField\<rparr>))
      else Inr p)"

text \<open>The key handler of the button that opens the selection.\<close>

definition select_button_key :: "screen \<Rightarrow> nat \<Rightarrow> search_page \<Rightarrow> search_page" where
  "select_button_key sc keyCode p =
     (if keyCode = 13 \<or> keyCode = 40
      then if select_display p = ''block'' then CloseSelectionWindow p
           else (OnSearchSelectShow sc p)\<lparr>focused := SelectWindow\<rparr>
      else p)"

section \<open>The search field\<close>

fun first_select_item :: "nat \<Rightarrow> select_child list \<Rightarrow> nat option" where
  "first_select_item n [] = None"
| "first_select_item n ((cls, _) # cs) = (if cls = ''SelectItem'' then Some n else first_select_item (n + 1) cs)"

definition field_changed :: "search_page \<Rightarrow> search_page" where
  "field_changed p =
     (let searchValue = strip_spaces (field_value p) in
      if searchValue \<noteq> lastSearchValue p
      then if searchValue \<noteq> []
           then let (t, p) = setTimeout RunSearch p in p\<lparr>keyTimeout := t\<rparr>
           else p\<lparr>results_display := ''none'', close_display := ''none'', lastSearchValue := []\<rparr>
      else p)"

definition OnSearchFieldChange :: "screen \<Rightarrow> nat \<Rightarrow> bool \<Rightarrow> search_page \<Rightarrow> search_page" where
  "OnSearchFieldChange sc keyCode shiftKey p =
     (let p = (if keyTimeout p \<noteq> 0 then (clearTimeout (keyTimeout p) p)\<lparr>keyTimeout := 0\<rparr> else p) in
      if keyCode = 40 \<or> keyCode = 13
      then if shiftKey
           then let p = OnSearchSelectShow sc p in
                (case first_select_item 0 (select_children p) of None \<Rightarrow> p | Some n \<Rightarrow> p\<lparr>focused := SelectItem n\<rparr>)
           else (case NavNext (sr_results (results p)) 0 of
                   None \<Rightarrow> field_changed p
                 | Some q \<Rightarrow> field_changed (p\<lparr>focused := ResultItem q\<rparr>))
      else if keyCode = 27
      then Activate False (p\<lparr>focused := NoFocus, results_display := ''none'', close_display := ''none'',
                            lastSearchValue := []\<rparr>)
      else field_changed p)"

section \<open>Focus among the results\<close>

definition item_child_name :: "int \<Rightarrow> nat \<Rightarrow> string" where
  "item_child_name index n = ''Item'' @ show_int index @ ''_c'' @ show_nat n"

lemma finite_child_items: "finite {k. item_child_name i k \<in> set (all_ids doc) \<and> P k}"
proof (rule finite_subset)
  show "{k. item_child_name i k \<in> set (all_ids doc) \<and> P k} \<subseteq> item_child_name i -` set (all_ids doc)" by auto
  have "inj (item_child_name i)" by (rule injI) (auto simp: item_child_name_def dest: show_nat_inj)
  then show "finite (item_child_name i -` set (all_ids doc))" by (simp add: finite_vimageI)
qed

definition child_measure :: "dom \<times> int \<times> nat \<times> nat list \<Rightarrow> nat" where
  "child_measure x =
     (case x of (doc, i, n, _) \<Rightarrow> card {k. item_child_name i k \<in> set (all_ids doc) \<and> n \<le> k})"

lemma child_measure_less:
  assumes "find_id (item_child_name i n) doc = Some q"
  shows "child_measure (doc, i, n + 1, q) < child_measure (doc, i, n, found)"
proof -
  have m: "item_child_name i n \<in> set (all_ids doc)"
    using assms find_id_None [of "item_child_name i n" doc] by simp
  have "{k. item_child_name i k \<in> set (all_ids doc) \<and> n + 1 \<le> k} \<subset> {k. item_child_name i k \<in> set (all_ids doc) \<and> n \<le> k}"
  proof (rule psubsetI)
    show "{k. item_child_name i k \<in> set (all_ids doc) \<and> n + 1 \<le> k} \<subseteq> {k. item_child_name i k \<in> set (all_ids doc) \<and> n \<le> k}"
      by auto
    have "n \<in> {k. item_child_name i k \<in> set (all_ids doc) \<and> n \<le> k}" using m by simp
    moreover have "n \<notin> {k. item_child_name i k \<in> set (all_ids doc) \<and> n + 1 \<le> k}" by simp
    ultimately show "{k. item_child_name i k \<in> set (all_ids doc) \<and> n + 1 \<le> k} \<noteq> {k. item_child_name i k \<in> set (all_ids doc) \<and> n \<le> k}"
      by blast
  qed
  from psubset_card_mono [OF finite_child_items this] show ?thesis by (simp add: child_measure_def)
qed

text \<open>The loop that looks for the last child, with the item found so far.\<close>

function last_child :: "dom \<Rightarrow> int \<Rightarrow> nat \<Rightarrow> nat list \<Rightarrow> nat list" where
  "last_child doc index n found =
     (case find_id (item_child_name index n) doc of
        None \<Rightarrow> found
      | Some q \<Rightarrow> last_child doc index (n + 1) q)"
  by pat_completeness auto
termination
  by (relation "measure child_measure") (simp_all only: wf_measure in_measure child_measure_less)

declare last_child.simps [simp del]

text \<open>\<open>FindChildElement(item.parentNode.parentNode.id)\<close> for an item, and a test of its display.\<close>

definition child_element :: "dom \<Rightarrow> nat list \<Rightarrow> nat list option" where
  "child_element doc item =
     (case node_at (butlast (butlast item)) doc of
        None \<Rightarrow> None
      | Some row \<Rightarrow>
          (case find_id (elem_id row) doc of
             None \<Rightarrow> None
           | Some p \<Rightarrow>
               (case node_at p doc of
                  None \<Rightarrow> None
                | Some e \<Rightarrow> map_option ((@) p) (FindChildElement e))))"

definition is_block :: "dom \<Rightarrow> nat list option \<Rightarrow> bool" where
  "is_block doc q =
     (case q of
        None \<Rightarrow> False
      | Some p \<Rightarrow> (case node_at p doc of Some (Elem _ _ d _) \<Rightarrow> d = ''block'' | _ \<Rightarrow> False))"

definition set_child_display :: "string \<Rightarrow> nat list option \<Rightarrow> search_page \<Rightarrow> search_page" where
  "set_child_display d q p =
     (case q of
        None \<Rightarrow> p
      | Some path \<Rightarrow> p\<lparr>results := results p\<lparr>sr_results := update_at path (set_display d) (sr_results (results p))\<rparr>\<rparr>)"

fun keyCode :: "key_event \<Rightarrow> nat" where
  "keyCode (KeyDown k) = k"
| "keyCode (KeyPress k) = k"
| "keyCode (KeyUp k) = k"

text \<open>The result says whether the browser's default action goes on.\<close>

definition Nav :: "key_event \<Rightarrow> int \<Rightarrow> search_page \<Rightarrow> bool \<times> outcome" where
  "Nav e itemIndex p =
     (if keyCode e = 13 then (True, Inr p)
      else
        let (handled, r) = ProcessKeys e (results p);
            p = p\<lparr>results := r\<rparr>;
            doc = sr_results r
        in if \<not> handled then (False, Inr p)
           else if lastKey r = 38 then
             (case NavPrev doc (itemIndex - 1) of
                None \<Rightarrow> (False, Inr (p\<lparr>focused := SearchField\<rparr>))
              | Some q \<Rightarrow>
                  (False, Inr (p\<lparr>focused := ResultItem
                     (if is_block doc (child_element doc q) then last_child doc (itemIndex - 1) 0 q else q)\<rparr>)))
           else if lastKey r = 40 then
             (case find_id (item_name itemIndex) doc of
                None \<Rightarrow> (False, Inl p)
              | Some item \<Rightarrow>
                  (case (if is_block doc (child_element doc item) then find_id (item_child_name itemIndex 0) doc else None) of
                     Some q \<Rightarrow> (False, Inr (p\<lparr>focused := ResultItem q\<rparr>))
                   | None \<Rightarrow>
                       (case NavNext doc (itemIndex + 1) of
                          None \<Rightarrow> (False, Inr p)
                        | Some q \<Rightarrow> (False, Inr (p\<lparr>focused := ResultItem q\<rparr>)))))
           else if lastKey r = 39 then
             (case find_id (item_name itemIndex) doc of
                None \<Rightarrow> (False, Inl p)
              | Some item \<Rightarrow> (False, Inr (set_child_display ''block'' (child_element doc item) p)))
           else if lastKey r = 37 then
             (case find_id (item_name itemIndex) doc of
                None \<Rightarrow> (False, Inl p)
              | Some item \<Rightarrow> (False, Inr (set_child_display ''none'' (child_element doc item) p)))
           else if lastKey r = 27 then (False, Inr ((CloseResultsWindow p)\<lparr>focused := SearchField\<rparr>))
           else if lastKey r = 13 then (True, Inr p)
           else (False, Inr p))"

definition NavChild :: "key_event \<Rightarrow> int \<Rightarrow> nat \<Rightarrow> search_page \<Rightarrow> bool \<times> outcome" where
  "NavChild e itemIndex childIndex p =
     (if keyCode e = 13 then (True, Inr p)
      else
        let (handled, r) = ProcessKeys e (results p);
            p = p\<lparr>results := r\<rparr>;
            doc = sr_results r
        in if \<not> handled then (False, Inr p)
           else if lastKey r = 38 then
             (case find_id (if childIndex > 0 then item_child_name itemIndex (childIndex - 1) else item_name itemIndex) doc of
                None \<Rightarrow> (False, Inl p)
              | Some q \<Rightarrow> (False, Inr (p\<lparr>focused := ResultItem q\<rparr>)))
           else if lastKey r = 40 then
             (case (case find_id (item_child_name itemIndex (childIndex + 1)) doc of
                      None \<Rightarrow> NavNext doc (itemIndex + 1)
                    | Some q \<Rightarrow> Some q) of
                None \<Rightarrow> (False, Inr p)
              | Some q \<Rightarrow> (False, Inr (p\<lparr>focused := ResultItem q\<rparr>)))
           else if lastKey r = 27 then (False, Inr ((CloseResultsWindow p)\<lparr>focused := SearchField\<rparr>))
           else if lastKey r = 13 then (True, Inr p)
           else (False, Inr p))"

section \<open>Start\<close>

text \<open>\<open>init_search\<close>: one selectable child per label, then the first section is selected.\<close>

definition init_search :: "screen \<Rightarrow> search_page \<Rightarrow> outcome" where
  "init_search sc p =
     OnSelectItem sc 0 (p\<lparr>select_children := select_children p @ map (\<lambda>_. (''SelectItem'', blank_mark)) indexSectionLabels\<rparr>)"

text \<open>The page as it is loaded: an empty field, all windows closed, no children in the selection.\<close>

definition new_page :: "string \<Rightarrow> search_page" where
  "new_page path =
     \<lparr>field_value = [], box_class = ''MSearchBoxInactive'', results_display = [], close_display = [],
      select_display = [], loading_display = [], select_pos = (0, 0), popup_box = (0, 0, 0, 0), select_children = [],
      focused = NoFocus,
      results = \<lparr>sr_results = results_element [], searching_display = [], noMatches_display = [], lastMatchCount = 0,
                 lastKey = 0, repeatOn = False\<rparr>,
      searchData = None, resultsPath = path, keyTimeout = 0, hideTimeout = 0, lastSearchValue = [], lastResultsPage = [],
      searchIndex = 0, searchActive = False, timers = [], next_timer = 1, loads = []\<rparr>"

section \<open>Events\<close>

definition left_page :: "outcome \<Rightarrow> search_page" where
  "left_page r = (case r of Inl p \<Rightarrow> p | Inr p \<Rightarrow> p)"

definition run_timer :: "screen \<Rightarrow> nat \<times> timer_task \<Rightarrow> search_page \<Rightarrow> outcome" where
  "run_timer sc x p =
     (let p = p\<lparr>timers := filter (\<lambda>y. fst y \<noteq> fst x) (timers p)\<rparr> in
      case snd x of RunSearch \<Rightarrow> SearchBox_Search sc p | RunCloseSelection \<Rightarrow> Inr (CloseSelectionWindow p))"

inductive search_step :: "screen \<Rightarrow> search_page \<Rightarrow> search_page \<Rightarrow> bool" for sc where
  ev_typed: "search_step sc p (p\<lparr>field_value := v\<rparr>)"
| ev_field_key: "search_step sc p (OnSearchFieldChange sc k shift p)"
| ev_focus: "search_step sc p (OnSearchFieldFocus b p)"
| ev_select_show: "search_step sc p (OnSearchSelectShow sc p)"
| ev_select_hide: "search_step sc p (OnSearchSelectHide p)"
| ev_select_button: "search_step sc p (select_button_key sc k p)"
| ev_select_key: "search_step sc p (left_page (OnSearchSelectKey sc k p))"
| ev_select_click: "i < SelectItemCount p \<Longrightarrow> search_step sc p (left_page (OnSelectItem sc i p))"
| ev_close: "search_step sc p (CloseResultsWindow p)"
| ev_timer: "x \<in> set (timers p) \<Longrightarrow> search_step sc p (left_page (run_timer sc x p))"
| ev_loaded: "n < length (loads p) \<Longrightarrow> search_step sc p (script_loaded sc n data p)"
| ev_nav: "search_step sc p (left_page (snd (Nav e i p)))"
| ev_nav_child: "search_step sc p (left_page (snd (NavChild e i c p)))"

inductive search_reaches :: "screen \<Rightarrow> search_page \<Rightarrow> search_page \<Rightarrow> bool" for sc where
  reach_start: "search_reaches sc p p"
| reach_step: "search_reaches sc p q \<Longrightarrow> search_step sc q r \<Longrightarrow> search_reaches sc p r"

end
