(* ===== verification/DoxBoxSpec.thy ===== *)
theory DoxBoxSpec
  imports DoxSearchBox
begin

text \<open>
  What the search box of the manual keeps under every event, and where it does not: the selection that
  runs past its last section and the timer that outlives the window.
\<close>

section \<open>Invariant\<close>

definition marks_inv :: "search_page \<Rightarrow> bool" where
  "marks_inv p \<longleftrightarrow> searchIndex p \<le> SelectItemCount p \<and> select_children p = set_marks (searchIndex p) 0 (select_children p)"

definition look_inv :: "search_page \<Rightarrow> bool" where
  "look_inv p \<longleftrightarrow> box_class p = (if searchActive p then ''MSearchBoxActive'' else ''MSearchBoxInactive'') \<and>
     (results_display p = ''block'' \<longrightarrow> close_display p = ''inline-block'')"

definition timers_inv :: "search_page \<Rightarrow> bool" where
  "timers_inv p \<longleftrightarrow> distinct (map fst (timers p)) \<and> (\<forall>x\<in>set (timers p). 0 < fst x \<and> fst x < next_timer p) \<and>
     (keyTimeout p \<noteq> 0 \<longrightarrow> (keyTimeout p, RunSearch) \<in> set (timers p)) \<and>
     (hideTimeout p \<noteq> 0 \<longrightarrow> hideTimeout p \<noteq> keyTimeout p) \<and> hideTimeout p < next_timer p \<and>
     keyTimeout p < next_timer p"

definition page_inv :: "search_page \<Rightarrow> bool" where
  "page_inv p \<longleftrightarrow> marks_inv p \<and> look_inv p \<and> timers_inv p"

text \<open>The three parts depend on few fields each.\<close>

named_theorems page_simps \<open>fields that an operation leaves alone\<close>

lemma marks_inv_cong:
  "searchIndex q = searchIndex p \<Longrightarrow> select_children q = select_children p \<Longrightarrow> marks_inv q \<longleftrightarrow> marks_inv p"
  by (simp add: marks_inv_def SelectItemCount_def)

lemma look_inv_cong:
  "box_class q = box_class p \<Longrightarrow> searchActive q = searchActive p \<Longrightarrow> results_display q = results_display p \<Longrightarrow>
   close_display q = close_display p \<Longrightarrow> look_inv q \<longleftrightarrow> look_inv p"
  by (simp add: look_inv_def)

lemma timers_inv_cong:
  "timers q = timers p \<Longrightarrow> next_timer q = next_timer p \<Longrightarrow> keyTimeout q = keyTimeout p \<Longrightarrow>
   hideTimeout q = hideTimeout p \<Longrightarrow> timers_inv q \<longleftrightarrow> timers_inv p"
  by (simp add: timers_inv_def)

lemma set_marks_again: "set_marks i j (set_marks k j cs) = set_marks i j cs"
  by (induction i j cs rule: set_marks.induct) auto

lemma set_marks_count: "length (filter (\<lambda>c. fst c = ''SelectItem'') (set_marks i j cs)) =
    length (filter (\<lambda>c. fst c = ''SelectItem'') cs)"
  by (induction i j cs rule: set_marks.induct) auto

lemma timers_clear: "timers_inv p \<Longrightarrow> hideTimeout p \<noteq> 0 \<Longrightarrow> timers_inv ((clearTimeout (hideTimeout p) p)\<lparr>hideTimeout := 0\<rparr>)"
  "timers_inv p \<Longrightarrow> timers_inv ((clearTimeout (keyTimeout p) p)\<lparr>keyTimeout := 0\<rparr>)"
  by (auto simp: timers_inv_def clearTimeout_def distinct_map_filter)

lemma timers_key: "timers_inv p \<Longrightarrow> timers_inv ((snd (setTimeout RunSearch p))\<lparr>keyTimeout := fst (setTimeout RunSearch p)\<rparr>)"
  by (auto simp: timers_inv_def setTimeout_def less_Suc_eq)

lemma timers_hide: "timers_inv p \<Longrightarrow> timers_inv ((snd (setTimeout RunCloseSelection p))\<lparr>hideTimeout := fst (setTimeout RunCloseSelection p)\<rparr>)"
  by (auto simp: timers_inv_def setTimeout_def less_Suc_eq)

lemma inv_Activate: "page_inv p \<Longrightarrow> page_inv (Activate b p)"
  by (auto simp: page_inv_def Activate_def look_inv_def timers_inv_def marks_inv_def SelectItemCount_def)

lemma inv_Show: "page_inv p \<Longrightarrow> page_inv (OnSearchSelectShow sc p)"
proof -
  assume i: "page_inv p"
  let ?p = "p\<lparr>select_display := ''block'', select_pos := (getXPos (sc_select sc), getYPos (sc_select sc) + offsetHeight (sc_select sc))\<rparr>"
  have "page_inv ?p" using i by (simp add: page_inv_def look_inv_def timers_inv_def marks_inv_def SelectItemCount_def)
  then show ?thesis using timers_clear(1) [of ?p]
    by (auto simp: OnSearchSelectShow_def Let_def page_inv_def clearTimeout_def look_inv_def marks_inv_def SelectItemCount_def)
qed

lemma inv_Hide: "page_inv p \<Longrightarrow> page_inv (OnSearchSelectHide p)"
  using timers_hide [of p]
  by (auto simp: OnSearchSelectHide_def setTimeout_def page_inv_def look_inv_def marks_inv_def SelectItemCount_def)

lemma inv_CloseResults: "page_inv p \<Longrightarrow> page_inv (CloseResultsWindow p)"
  unfolding CloseResultsWindow_def
  by (rule inv_Activate) (simp add: page_inv_def look_inv_def timers_inv_def marks_inv_def SelectItemCount_def)

lemma inv_CloseSelection: "page_inv p \<Longrightarrow> page_inv (CloseSelectionWindow p)"
  by (simp add: CloseSelectionWindow_def page_inv_def look_inv_def timers_inv_def marks_inv_def SelectItemCount_def)

lemma inv_focused: "page_inv (p\<lparr>focused := f\<rparr>) \<longleftrightarrow> page_inv p" "page_inv (p\<lparr>results := r\<rparr>) \<longleftrightarrow> page_inv p"
  by (simp_all add: page_inv_def look_inv_def timers_inv_def marks_inv_def SelectItemCount_def)

lemma inv_handleResults: "page_inv p \<Longrightarrow> page_inv (handleResults sc v found p)"
  by (auto simp: handleResults_def Let_def page_inv_def look_inv_def timers_inv_def marks_inv_def SelectItemCount_def
      split: option.split)

lemma inv_Search: "page_inv p \<Longrightarrow> page_inv (left_page (SearchBox_Search sc p))"
proof -
  assume "page_inv p"
  then have i: "page_inv (p\<lparr>keyTimeout := 0\<rparr>)"
    by (auto simp: page_inv_def look_inv_def timers_inv_def marks_inv_def SelectItemCount_def)
  have l: "page_inv (q\<lparr>lastSearchValue := v\<rparr>) \<longleftrightarrow> page_inv q" "page_inv (q\<lparr>loads := ls\<rparr>) \<longleftrightarrow> page_inv q" for q v ls
    by (simp_all add: page_inv_def look_inv_def timers_inv_def marks_inv_def SelectItemCount_def)
  have m: "page_inv (p\<lparr>keyTimeout := 0, loads := ls, lastSearchValue := v\<rparr>)" for ls v
    using i by (simp add: page_inv_def look_inv_def timers_inv_def marks_inv_def SelectItemCount_def)
  show ?thesis using i m inv_handleResults [OF i] l
    by (simp add: SearchBox_Search_def Let_def left_page_def split: option.split)
qed

lemma inv_loaded: "page_inv p \<Longrightarrow> page_inv (script_loaded sc n data p)"
proof -
  assume "page_inv p"
  then have "page_inv (p\<lparr>searchData := d, loads := ls\<rparr>)" for d ls
    by (simp add: page_inv_def look_inv_def timers_inv_def marks_inv_def SelectItemCount_def)
  then show ?thesis by (simp add: script_loaded_def inv_handleResults split: prod.split)
qed

lemma inv_SelectItem: "page_inv p \<Longrightarrow> i \<le> SelectItemCount p \<Longrightarrow> page_inv (left_page (OnSelectItem sc i p))"
proof -
  assume i: "page_inv p" "i \<le> SelectItemCount p"
  then have "page_inv (SelectItemSet i (p\<lparr>searchIndex := i\<rparr>))"
    by (auto simp: page_inv_def look_inv_def timers_inv_def marks_inv_def SelectItemCount_def SelectItemSet_def
        set_marks_again set_marks_count)
  with inv_Search show ?thesis by (auto simp: OnSelectItem_def Let_def left_page_def)
qed

lemma inv_SelectKey: "page_inv p \<Longrightarrow> page_inv (left_page (OnSearchSelectKey sc k p))"
proof -
  assume p: "page_inv p"
  have s: "page_inv (left_page (OnSelectItem sc i (p\<lparr>searchIndex := i\<rparr>)))" if "i \<le> SelectItemCount p" for i
  proof -
    have "OnSelectItem sc i (p\<lparr>searchIndex := i\<rparr>) = OnSelectItem sc i p" by (simp add: OnSelectItem_def)
    with inv_SelectItem [OF p that] show ?thesis by simp
  qed
  have i: "searchIndex p \<le> SelectItemCount p" using p by (simp add: page_inv_def marks_inv_def)
  have c: "page_inv (left_page (next_do r (\<lambda>p. Inr ((CloseSelectionWindow p)\<lparr>focused := SearchField\<rparr>))))"
    if "page_inv (left_page r)" for r
    using that by (cases r) (auto simp: left_page_def inv_focused inv_CloseSelection)
  show ?thesis using s i p c [OF inv_SelectItem [OF p i]]
    by (auto simp: OnSearchSelectKey_def Let_def left_page_def [of "Inr p"])
qed

lemma inv_button: "page_inv p \<Longrightarrow> page_inv (select_button_key sc k p)"
  by (simp add: select_button_key_def inv_CloseSelection inv_focused inv_Show)

lemma inv_changed: "page_inv p \<Longrightarrow> page_inv (field_changed p)"
  using timers_key [of p]
  by (auto simp: field_changed_def Let_def setTimeout_def page_inv_def look_inv_def marks_inv_def SelectItemCount_def
      timers_inv_def)

lemma inv_FieldChange: "page_inv p \<Longrightarrow> page_inv (OnSearchFieldChange sc k shift p)"
proof -
  assume p: "page_inv p"
  define q where "q = (if keyTimeout p \<noteq> 0 then (clearTimeout (keyTimeout p) p)\<lparr>keyTimeout := 0\<rparr> else p)"
  have q: "page_inv q" using p timers_clear(2) [of p]
    by (auto simp: q_def page_inv_def clearTimeout_def look_inv_def marks_inv_def SelectItemCount_def)
  have e: "page_inv (q\<lparr>focused := NoFocus, results_display := ''none'', close_display := ''none'', lastSearchValue := []\<rparr>)"
    using q by (simp add: page_inv_def look_inv_def timers_inv_def marks_inv_def SelectItemCount_def)
  show ?thesis
    unfolding OnSearchFieldChange_def q_def [symmetric] Let_def
    using q inv_changed inv_Show [OF q] inv_Activate [OF e] inv_focused
    by (simp split: option.split)
qed

lemma inv_timer: "page_inv p \<Longrightarrow> x \<in> set (timers p) \<Longrightarrow> page_inv (left_page (run_timer sc x p))"
proof -
  assume p: "page_inv p" and x: "x \<in> set (timers p)"
  let ?p = "p\<lparr>timers := filter (\<lambda>y. fst y \<noteq> fst x) (timers p)\<rparr>"
  have "timers_inv (?p\<lparr>keyTimeout := 0\<rparr>)" using p
    by (auto simp: page_inv_def timers_inv_def distinct_map_filter)
  then have k: "page_inv (?p\<lparr>keyTimeout := 0\<rparr>)"
    using p by (simp add: page_inv_def look_inv_def marks_inv_def SelectItemCount_def)
  show ?thesis
  proof (cases "snd x")
    case RunSearch
    have "SearchBox_Search sc ?p = SearchBox_Search sc (?p\<lparr>keyTimeout := 0\<rparr>)" by (simp add: SearchBox_Search_def)
    with RunSearch inv_Search [OF k] show ?thesis by (simp add: run_timer_def)
  next
    case RunCloseSelection
    have "keyTimeout p \<noteq> fst x" if "keyTimeout p \<noteq> 0"
    proof
      assume "keyTimeout p = fst x"
      then have "(fst x, RunSearch) \<in> set (timers p)" "distinct (map fst (timers p))"
        using p that by (auto simp: page_inv_def timers_inv_def)
      then have "snd x = RunSearch" using x by (metis eq_key_imp_eq_value prod.collapse)
      with RunCloseSelection show False by simp
    qed
    then have "page_inv ?p"
      using p by (auto simp: page_inv_def look_inv_def marks_inv_def SelectItemCount_def timers_inv_def distinct_map_filter)
    with RunCloseSelection show ?thesis by (simp add: run_timer_def left_page_def inv_CloseSelection)
  qed
qed

lemma inv_nav: "page_inv p \<Longrightarrow> page_inv (left_page (snd (Nav e i p)))"
  by (auto simp: Nav_def Let_def left_page_def inv_focused set_child_display_def inv_CloseResults
      split: prod.split option.split)

lemma inv_nav_child: "page_inv p \<Longrightarrow> page_inv (left_page (snd (NavChild e i c p)))"
  by (auto simp: NavChild_def Let_def left_page_def inv_focused inv_CloseResults split: prod.split option.split)

lemma step_inv: "search_step sc p q \<Longrightarrow> page_inv p \<Longrightarrow> page_inv q"
proof (induction rule: search_step.induct)
  case (ev_typed p v)
  then show ?case by (simp add: page_inv_def look_inv_def timers_inv_def marks_inv_def SelectItemCount_def)
qed (simp_all add: inv_FieldChange inv_Activate OnSearchFieldFocus_def inv_Show inv_Hide inv_button inv_SelectKey
      inv_SelectItem inv_CloseResults inv_timer inv_loaded inv_nav inv_nav_child)

lemma reaches_inv: "search_reaches sc p q \<Longrightarrow> page_inv p \<Longrightarrow> page_inv q"
  by (induction rule: search_reaches.induct) (auto intro: step_inv)

lemma fresh_marks: "set_marks 0 j (map (\<lambda>_. (''SelectItem'', blank_mark)) ls) =
    set_marks 0 j (set_marks 0 j (map (\<lambda>_. (''SelectItem'', blank_mark)) ls))"
  by (simp add: set_marks_again)

lemma start_inv: "page_inv (left_page (init_search sc (new_page path)))"
  by (auto simp: init_search_def OnSelectItem_def Let_def new_page_def SelectItemSet_def strip_spaces_def left_page_def
      page_inv_def marks_inv_def look_inv_def timers_inv_def set_marks_again)

text \<open>The mark of the selected section.\<close>

definition marked :: "search_page \<Rightarrow> nat list" where
  "marked p = filter (\<lambda>j. snd (filter (\<lambda>c. fst c = ''SelectItem'') (select_children p) ! j) = bullet) [0..<SelectItemCount p]"

lemma set_marks_filter:
  "filter (\<lambda>c. fst c = ''SelectItem'') (set_marks i j cs) =
    map (\<lambda>m. (''SelectItem'', if j + m = i then bullet else blank_mark))
      [0..<length (filter (\<lambda>c. fst c = ''SelectItem'') cs)]"
proof (induction i j cs rule: set_marks.induct)
  case (2 i j cls mark cs)
  have "[0..<Suc n] = 0 # map Suc [0..<n]" for n
    by (simp only: map_Suc_upt upt_conv_Cons zero_less_Suc)
  with 2 show ?case by (simp del: upt_Suc)
qed simp

lemma bullet_not_blank: "blank_mark \<noteq> bullet"
  by (simp add: bullet_def blank_mark_def)

lemma marked_eq: "marks_inv p \<Longrightarrow> marked p = (if searchIndex p < SelectItemCount p then [searchIndex p] else [])"
proof -
  assume "marks_inv p"
  then have c: "select_children p = set_marks (searchIndex p) 0 (select_children p)" by (simp add: marks_inv_def)
  have "filter (\<lambda>c. fst c = ''SelectItem'') (select_children p) =
      map (\<lambda>m. (''SelectItem'', if m = searchIndex p then bullet else blank_mark)) [0..<SelectItemCount p]"
    using set_marks_filter [of "searchIndex p" 0 "select_children p"] c by (simp add: SelectItemCount_def)
  then have "marked p = filter (\<lambda>j. j = searchIndex p) [0..<SelectItemCount p]"
    unfolding marked_def using bullet_not_blank by (intro filter_cong) auto
  moreover have "filter (\<lambda>j. j = i) [0..<n] = (if i < n then [i] else [])" for i n :: nat
    by (induction n) auto
  ultimately show ?thesis by simp
qed

section \<open>Properties\<close>

text \<open>C20: the search box is consistent at all times.  After \<open>init_search\<close> and any sequence of key
  presses, clicks, timer expiries and script loads, whatever exceptions handlers end with: the
  selected index is at most the number of sections, exactly that section carries the mark if it
  exists, the class of the box shows whether the search is active, an open results window has its
  close button, and a running key timer is a pending timer of the browser that will search.\<close>

theorem search_box_invariant:
  assumes "search_reaches sc (left_page (init_search sc (new_page path))) p"
  shows "searchIndex p \<le> SelectItemCount p \<and>
    marked p = (if searchIndex p < SelectItemCount p then [searchIndex p] else []) \<and>
    box_class p = (if searchActive p then ''MSearchBoxActive'' else ''MSearchBoxInactive'') \<and>
    (results_display p = ''block'' \<longrightarrow> close_display p = ''inline-block'') \<and>
    (keyTimeout p \<noteq> 0 \<longrightarrow> (keyTimeout p, RunSearch) \<in> set (timers p))"
proof -
  have "page_inv p" using reaches_inv [OF assms start_inv] .
  then show ?thesis using marked_eq [of p] by (auto simp: page_inv_def marks_inv_def look_inv_def timers_inv_def)
qed

definition example_screen :: screen where
  "example_screen = \<lparr>sc_select = \<lparr>offsetWidth = 20, offsetHeight = 19, offsets = [(5, 2), (700, 30)]\<rparr>,
     sc_box = \<lparr>offsetWidth = 170, offsetHeight = 24, offsets = [(690, 25)]\<rparr>, sc_popup_width = 300,
     sc_clientWidth = 1000, sc_clientHeight = 600, sc_location_query = []\<rparr>"

theorem search_box_invariant_witness:
  "let p = left_page (OnSearchSelectKey example_screen 40 (left_page (init_search example_screen (new_page ''search/''))))
   in marked p = [1]"
proof -
  let ?start = "left_page (init_search example_screen (new_page ''search/''))"
  let ?p = "left_page (OnSearchSelectKey example_screen 40 ?start)"
  have "search_reaches example_screen ?start ?p" by (rule reach_step [OF reach_start ev_select_key])
  from search_box_invariant [OF this] have "marked ?p = (if searchIndex ?p < SelectItemCount ?p then [searchIndex ?p] else [])"
    by blast
  moreover have "searchIndex ?p = 1" "SelectItemCount ?p = 9" by code_simp+
  ultimately show ?thesis by (simp add: Let_def)
qed

text \<open>The selection runs past its last section.  The Down key moves the index while it is below
  the number of sections instead of below the last one.  From the last section it reaches an index
  for which no section is marked and no search index exists; if the field has a text, the search
  it starts ends with an exception, and so does every search until the index is moved back.\<close>

theorem selection_runs_past_the_end:
  assumes "SelectItemCount p = 9" and "searchIndex p = 8"
    and p': "p' = left_page (OnSearchSelectKey sc 40 p)"
  shows "searchIndex p' = 9 \<and> marked p' = [] \<and>
    (strip_spaces (field_value p) \<noteq> [] \<and> searchActive p \<longrightarrow> OnSearchSelectKey sc 40 p = Inl p') \<and>
    (\<forall>q. searchIndex q = 9 \<longrightarrow> (\<exists>q'. SearchBox_Search sc q = Inl q'))"
proof -
  have n: "length indexSectionsWithContent = 9" by (simp add: indexSectionsWithContent_def)
  have s: "searchIndex q = 9 \<Longrightarrow> SearchBox_Search sc q = Inl (q\<lparr>keyTimeout := 0\<rparr>)" for q
    by (simp add: SearchBox_Search_def n)
  let ?q = "SelectItemSet 9 (p\<lparr>searchIndex := 9\<rparr>)"
  have m: "marked (?q\<lparr>keyTimeout := t\<rparr>) = []" "marked ?q = []" for t
    using assms(1) marked_eq [of ?q]
    by (simp_all add: marked_def marks_inv_def SelectItemSet_def SelectItemCount_def set_marks_again set_marks_count)
  have e: "OnSearchSelectKey sc 40 p =
      (if strip_spaces (field_value p) \<noteq> [] \<and> searchActive p then Inl (?q\<lparr>keyTimeout := 0\<rparr>) else Inr ?q)"
    using assms(1,2) s [of ?q] by (simp add: OnSearchSelectKey_def OnSelectItem_def Let_def SelectItemSet_def)
  show ?thesis
    unfolding p' e using m s by (auto simp: left_page_def SelectItemSet_def)
qed

theorem selection_runs_past_the_end_witness:
  "let p = left_page (OnSelectItem example_screen 8 (left_page (init_search example_screen (new_page ''search/''))))
   in marked (left_page (OnSearchSelectKey example_screen 40 p)) = []"
proof -
  let ?p = "left_page (OnSelectItem example_screen 8 (left_page (init_search example_screen (new_page ''search/''))))"
  have "SelectItemCount ?p = 9" "searchIndex ?p = 8" by code_simp+
  from selection_runs_past_the_end [OF this refl, of example_screen] show ?thesis by (simp add: Let_def)
qed

text \<open>C21: closing the results does not cancel a search that is about to run.  When the window is
  closed while the key timer runs, the field is emptied and the box becomes inactive, but the timer
  still fires: it searches for the empty text, for which the first index url of the section is
  loaded, and when that arrives the results window opens again over the empty field.\<close>

theorem closed_results_come_back:
  assumes "page_inv p" and "keyTimeout p \<noteq> 0" and "loads p = []" and "searchIndex p < 9"
    and q: "q = CloseResultsWindow p" and r: "r = left_page (run_timer sc (keyTimeout p, RunSearch) q)"
  shows "field_value q = [] \<and> results_display q = ''none'' \<and> \<not> searchActive q \<and>
    (keyTimeout p, RunSearch) \<in> set (timers q) \<and>
    results_display (script_loaded sc 0 data r) = ''block'' \<and> field_value (script_loaded sc 0 data r) = [] \<and>
    \<not> searchActive (script_loaded sc 0 data r)"
proof -
  have n: "length indexSectionsWithContent = 9" by (simp add: indexSectionsWithContent_def)
  have z: "index_of [] s = Some 0" for s by (cases s) simp_all
  have q1: "field_value q = []" "results_display q = ''none''" "\<not> searchActive q" "timers q = timers p"
      "loads q = []" "searchIndex q = searchIndex p"
    using assms(3) by (simp_all add: q CloseResultsWindow_def Activate_def)
  have "\<exists>url. r = q\<lparr>timers := filter (\<lambda>y. fst y \<noteq> keyTimeout p) (timers q), keyTimeout := 0,
      loads := [(url, [], True)], lastSearchValue := []\<rparr>"
    using q1 assms(4) n z
    by (simp add: r run_timer_def SearchBox_Search_def Let_def left_page_def strip_leading_def toLowerCase_def)
      (rule exI, rule refl)
  then obtain url where r1: "r = q\<lparr>timers := filter (\<lambda>y. fst y \<noteq> keyTimeout p) (timers q), keyTimeout := 0,
      loads := [(url, [], True)], lastSearchValue := []\<rparr>" ..
  have k: "(keyTimeout p, RunSearch) \<in> set (timers p)"
    using assms(1,2) by (simp add: page_inv_def timers_inv_def)
  show ?thesis using q1 k by (simp add: r1 script_loaded_def handleResults_def Let_def)
qed

theorem closed_results_come_back_witness:
  "let p = OnSearchFieldChange example_screen 65 False
         ((left_page (init_search example_screen (new_page ''search/'')))\<lparr>field_value := ''a''\<rparr>);
       r = left_page (run_timer example_screen (keyTimeout p, RunSearch) (CloseResultsWindow p))
   in results_display (script_loaded example_screen 0 [] r) = ''block''"
proof -
  let ?start = "left_page (init_search example_screen (new_page ''search/''))"
  let ?p = "OnSearchFieldChange example_screen 65 False (?start\<lparr>field_value := ''a''\<rparr>)"
  have "page_inv ?p" by (intro step_inv [OF ev_field_key] step_inv [OF ev_typed] start_inv)
  moreover have "keyTimeout ?p \<noteq> 0" "loads ?p = []" "searchIndex ?p < 9" by code_simp+
  ultimately show ?thesis
    using closed_results_come_back [OF _ _ _ _ refl refl, where p = ?p and sc = example_screen and data = "[]"]
    by (simp add: Let_def)
qed

end
