(* ===== verification/DoxSearchData.thy ===== *)
theory DoxSearchData
  imports DoxSearchBox
begin

text \<open>
  The data of the search index: one definition for the variable \<open>searchData\<close> of each script under
  \<open>search\<close>, named after the script, by section and by the letter its entries start with.
\<close>

section \<open>All\<close>

definition all_0 :: "search_entry list" where
  "all_0 =
     [(''assignedat_0'', ''assignedAt'', [(''../structReport.html#a73ead0fd592e03f807c5a12317eac062'', True, ''Report'')]),
      (''assignedto_1'', ''assignedTo'', [(''../structReport.html#accc340e13f75d3731a54cde567de0fc5'', True, ''Report'')]),
      (''authorid_2'', ''authorId'', [(''../structReport.html#affffc951f80c67f2357fc791f33b9c37'', True, ''Report'')])]"

definition all_1 :: "search_entry list" where
  "all_1 =
     [(''blocksize_0'', ''blockSize'', [(''../structSlabPool.html#affe6aa5d75d5227ee111486002e32b80'', True, ''SlabPool'')]),
      (''body_1'', ''body'', [(''../structHttpRequest.html#a3c5c3295158feddf484ab32fc9851b8b'', True, ''HttpRequest::body''), (''../structHttpResponse.html#a48b139a9e8a5385630d90c3ffa0a1666'', True, ''HttpResponse::body'')]),
      (''bodylen_2'', ''bodylen'', [(''../structHttpRequest.html#a54d5957e981adf59e19b6746ba502567'', True, ''HttpRequest::bodyLen''), (''../structHttpResponse.html#aa22debb698288bbb79e49bda3630cbda'', True, ''HttpResponse::bodyLen'')]),
      (''bounds_3'', ''bounds'', [(''../structMapVars.html#a2a738ccaeb6008b89712d143dac0df81'', True, ''MapVars'')]),
      (''buffer_4'', ''buffer'', [(''../structClientCtx.html#a3efd8aa4e8f096919c396384d484f529'', True, ''ClientCtx'')]),
      (''build_5fmap_5fvars_5'', ''build_map_vars'', [(''../geo_8h.html#a58dcbd231fb7d80a5832fc69ec95020f'', True, ''geo.h'')])]"

definition all_2 :: "search_entry list" where
  "all_2 =
     [(''category_0'', ''category'', [(''../structReport.html#a1550ca6d6f0f3aafd3de4932e71f3ad3'', True, ''Report'')]),
      (''centroidlon_1'', ''centroidLon'', [(''../structCityGeo.html#a50423c53a2d7aec1793de7337b643305'', True, ''CityGeo'')]),
      (''chunkcapacity_2'', ''chunkCapacity'', [(''../structSlabPool.html#aec7465baaf178d33699f0c71678bd0fd'', True, ''SlabPool'')]),
      (''chunkshead_3'', ''chunksHead'', [(''../structSlabPool.html#a6a1b2a4c4422e1085e549fd4a8e31f22'', True, ''SlabPool'')]),
      (''city_4'', ''city'', [(''../structReport.html#aeb5361ffd4bd5465f2116cbc9afed95d'', True, ''Report::city''), (''../structUser.html#af4508305291c7b0fb67a4fac544fd7fd'', True, ''User::city'')]),
      (''citygeo_5'', ''CityGeo'', [(''../structCityGeo.html'', True, '''')]),
      (''client_5fmanager_2eh_6'', ''client_manager.h'', [(''../client__manager_8h.html'', True, '''')]),
      (''client_5fmanager_5factive_5fcount_7'', ''client_manager_active_count'', [(''../client__manager_8h.html#ad298e53c235b4ef9ed6526ef0989246f'', True, ''client_manager.h'')]),
      (''client_5fmanager_5falloc_8'', ''client_manager_alloc'', [(''../client__manager_8h.html#ab259797185232a173d5dc1a389490a6b'', True, ''client_manager.h'')]),
      (''client_5fmanager_5fclose_5fall_9'', ''client_manager_close_all'', [(''../client__manager_8h.html#abd09c93313416fec798266ade26c7b27'', True, ''client_manager.h'')]),
      (''client_5fmanager_5fdestroy_10'', ''client_manager_destroy'', [(''../client__manager_8h.html#a3cf91cb8e5f706a7277004f40fe62327'', True, ''client_manager.h'')]),
      (''client_5fmanager_5finit_11'', ''client_manager_init'', [(''../client__manager_8h.html#a1b36ee468413a53d94dadc37ee77b9d6'', True, ''client_manager.h'')]),
      (''client_5fmanager_5flink_12'', ''client_manager_link'', [(''../client__manager_8h.html#a946e9c58caf3141f9b80dfe31fd8f6db'', True, ''client_manager.h'')]),
      (''client_5fmanager_5frelease_13'', ''client_manager_release'', [(''../client__manager_8h.html#aa52e77d31b703599f2a335b4eefc66d3'', True, ''client_manager.h'')]),
      (''client_5fmanager_5funlink_14'', ''client_manager_unlink'', [(''../client__manager_8h.html#ae1b61876ea74483463931b0bede9c219'', True, ''client_manager.h'')]),
      (''clientctx_15'', ''ClientCtx'', [(''../structClientCtx.html'', True, '''')]),
      (''close_5fclient_16'', ''close_client'', [(''../connection__handler_8h.html#a1d74171c0360dc771aace49df61ac509'', True, ''connection_handler.h'')]),
      (''closing_17'', ''closing'', [(''../structClientCtx.html#a0aabecb6dbfd895462b06fc04bd35e53'', True, ''ClientCtx'')]),
      (''connection_5fhandler_2eh_18'', ''connection_handler.h'', [(''../connection__handler_8h.html'', True, '''')]),
      (''cookie_5fmax_19'', ''COOKIE_MAX'', [(''../http__types_8h.html#a46194fa0a816b64112333fc33f4a7b38'', True, ''http_types.h'')]),
      (''countcurr_20'', ''countCurr'', [(''../structRateEntry.html#a82ad91e11d2b4ab9b5316348f8380d1c'', True, ''RateEntry'')]),
      (''countprev_21'', ''countPrev'', [(''../structRateEntry.html#a2f7c3181f86e918d165717ca6c07fdc7'', True, ''RateEntry'')]),
      (''createdat_22'', ''createdat'', [(''../structSession.html#a38397fcda4910caae61ead2708a1f8a7'', True, ''Session::createdAt''), (''../structReport.html#af08bd09273f1f177200b0a0bda61c220'', True, ''Report::createdAt'')])]"

definition all_3 :: "search_entry list" where
  "all_3 =
     [(''db_2eh_0'', ''db.h'', [(''../db_8h.html'', True, '''')]),
      (''db_5fchanges_1'', ''db_changes'', [(''../db_8h.html#a8ef66a94fd4d4dfee150e52e19472d73'', True, ''db.h'')]),
      (''db_5fclose_2'', ''db_close'', [(''../db_8h.html#a43539307187c50e84866e403c4c57cef'', True, ''db.h'')]),
      (''db_5fcursor_5fclose_3'', ''db_cursor_close'', [(''../db_8h.html#a34686b55c084d2a40efd721f31c3dd35'', True, ''db.h'')]),
      (''db_5fcursor_5fdouble_4'', ''db_cursor_double'', [(''../db_8h.html#a30969ec3d9b14efae3c5ce44adf0a3b9'', True, ''db.h'')]),
      (''db_5fcursor_5fint64_5'', ''db_cursor_int64'', [(''../db_8h.html#a3bf1e80a44a5cadb0239b7caeed0985f'', True, ''db.h'')]),
      (''db_5fcursor_5fnext_6'', ''db_cursor_next'', [(''../db_8h.html#a14a955deab910d655dbde6a3713a38a0'', True, ''db.h'')]),
      (''db_5fcursor_5fopen_7'', ''db_cursor_open'', [(''../db_8h.html#a37d5e482cfdd2da1c20ad57ff449e133'', True, ''db.h'')]),
      (''db_5fcursor_5ftext_8'', ''db_cursor_text'', [(''../db_8h.html#a4ee78374813d3f33992939c7690068c3'', True, ''db.h'')]),
      (''db_5ferrmsg_9'', ''db_errmsg'', [(''../db_8h.html#a72da1433341afa6d1915e8c7cb95b51c'', True, ''db.h'')]),
      (''db_5fexec_10'', ''db_exec'', [(''../db_8h.html#ad7dce6393b603e447c4da8740d61c680'', True, ''db.h'')]),
      (''db_5finit_11'', ''db_init'', [(''../db_8h.html#a145d3e03272ebd0c29e74770e29653a0'', True, ''db.h'')]),
      (''db_5flast_5finsert_5fid_12'', ''db_last_insert_id'', [(''../db_8h.html#a9d7975d5d1eb9495f9503829f1b0c87f'', True, ''db.h'')]),
      (''dbcursor_13'', ''DbCursor'', [(''../db_8h.html#a97ec9a4ddf0a3357e93af791b0c32f75'', True, ''db.h'')]),
      (''description_14'', ''description'', [(''../structReport.html#a700ec009122d541fdde74f3c9802efee'', True, ''Report'')])]"

definition all_4 :: "search_entry list" where
  "all_4 =
     [(''feedback_0'', ''feedback'', [(''../structReport.html#a9bb48ff8dcebb3de97579c23059801a3'', True, ''Report'')])]"

definition all_5 :: "search_entry list" where
  "all_5 =
     [(''geo_2eh_0'', ''geo.h'', [(''../geo_8h.html'', True, '''')]),
      (''geo_5fcleanup_1'', ''geo_cleanup'', [(''../geo_8h.html#a8e63bdd95c36d05b811a366c661d4b66'', True, ''geo.h'')]),
      (''geo_5fcontains_2'', ''geo_contains'', [(''../geo_8h.html#af9d43dd58b09701b3c180c11eab51e21'', True, ''geo.h'')]),
      (''geo_5finit_3'', ''geo_init'', [(''../geo_8h.html#a152f8735049da726f2da726ac4ab1f43'', True, ''geo.h'')]),
      (''geo_5flookup_4'', ''geo_lookup'', [(''../geo_8h.html#a7c7fe01930257c877e0a80d584dd13ed'', True, ''geo.h'')]),
      (''get_5ffield_5'', ''get_field'', [(''../http__utils_8h.html#a358ad2e10ee4a1905d078f8f4283e07e'', True, ''http_utils.h'')]),
      (''get_5fsession_5fuser_6'', ''get_session_user'', [(''../route__helpers_8h.html#a127145f7d13b0f45e17d7900359fac82'', True, ''route_helpers.h'')])]"

definition all_6 :: "search_entry list" where
  "all_6 =
     [(''handle_0'', ''handle'', [(''../structClientCtx.html#ad9aedd4468162aa7a2bca1ea6d3124f0'', True, ''ClientCtx'')]),
      (''handle_5frequest_1'', ''handle_request'', [(''../route__handler_8h.html#ab4013acbe7214be92666929906cbb836'', True, ''route_handler.h'')]),
      (''handler_2'', ''handler'', [(''../structRoute.html#a633dd38989bcc3748fc4dfd1d3dec84c'', True, ''Route'')]),
      (''hash_5fkey_3'', ''hash_key'', [(''../server_8h.html#a30d5f3fba66ea8d634718e76e70f6dc3'', True, ''server.h'')]),
      (''hash_5ftable_2eh_4'', ''hash_table.h'', [(''../hash__table_8h.html'', True, '''')]),
      (''headers_5'', ''headers'', [(''../structHttpRequest.html#a132762762601c88ac5ae34e005791983'', True, ''HttpRequest'')]),
      (''ht_5fcreate_6'', ''ht_create'', [(''../hash__table_8h.html#ae1bc3f8d1cc56c8bf5cf10c7ce32de6e'', True, ''hash_table.h'')]),
      (''ht_5fdelete_7'', ''ht_delete'', [(''../hash__table_8h.html#aa654272c94a43a43e2d7b309d6699122'', True, ''hash_table.h'')]),
      (''ht_5fdestroy_8'', ''ht_destroy'', [(''../hash__table_8h.html#ac986a6f910dcf3f2048cc79c6529c0d2'', True, ''hash_table.h'')]),
      (''ht_5fforeach_9'', ''ht_foreach'', [(''../hash__table_8h.html#a4044224a01d29cb8790e2c52d4120dfd'', True, ''hash_table.h'')]),
      (''ht_5fforeach_5fcb_10'', ''ht_foreach_cb'', [(''../hash__table_8h.html#a9cf401f8c72c3459d524461e348f2b33'', True, ''hash_table.h'')]),
      (''ht_5fget_11'', ''ht_get'', [(''../hash__table_8h.html#a558825dbaa6e9b4bddfab3d3a8c8db07'', True, ''hash_table.h'')]),
      (''ht_5fload_12'', ''ht_load'', [(''../hash__table_8h.html#a14a4ab0781749f8723acc44f9977a267'', True, ''hash_table.h'')]),
      (''ht_5fset_13'', ''ht_set'', [(''../hash__table_8h.html#a427252b31b8a9c4699d0870ba25dd26d'', True, ''hash_table.h'')]),
      (''ht_5fsnapshot_14'', ''ht_snapshot'', [(''../hash__table_8h.html#af177a3dfd557f1d74f7351c7fc209d8e'', True, ''hash_table.h'')]),
      (''html_5fescape_15'', ''html_escape'', [(''../http__utils_8h.html#a432ab675be86e8c395eb6dd1a4339074'', True, ''http_utils.h'')]),
      (''http_5fis_5frequest_5fcomplete_16'', ''http_is_request_complete'', [(''../http__utils_8h.html#a80b79507bd287181f71ea834e5c26a2b'', True, ''http_utils.h'')]),
      (''http_5fis_5frequest_5fmethod_17'', ''http_is_request_method'', [(''../http__utils_8h.html#ad819f10ecdf6cf1858a0f295ce1be4ef'', True, ''http_utils.h'')]),
      (''http_5fis_5frequest_5fpath_18'', ''http_is_request_path'', [(''../http__utils_8h.html#a0284890bc01bd39002a84c26a934cbb1'', True, ''http_utils.h'')]),
      (''http_5fmax_5fheaders_19'', ''HTTP_MAX_HEADERS'', [(''../http__types_8h.html#ae25acc386a279de3461e5881633c1402'', True, ''http_types.h'')]),
      (''http_5frequest_5fcontains_5fkeepalive_20'', ''http_request_contains_keepalive'', [(''../http__utils_8h.html#a3a191cc59105d4b3d48f1143eb6d49fd'', True, ''http_utils.h'')]),
      (''http_5frequest_5fcookie_21'', ''http_request_cookie'', [(''../http__utils_8h.html#a6fcd7d7979d06e23a9692e94c1db5574'', True, ''http_utils.h'')]),
      (''http_5frequest_5fheader_22'', ''http_request_header'', [(''../http__utils_8h.html#af3fc2674512100b082e193588b54edb2'', True, ''http_utils.h'')]),
      (''http_5frequest_5fparse_23'', ''http_request_parse'', [(''../http__utils_8h.html#ab7a64f4c1946b9d43ee3c749616b7d60'', True, ''http_utils.h'')]),
      (''http_5fresponse_5frender_24'', ''http_response_render'', [(''../http__utils_8h.html#afa83dabef28bd646c993cd400c0f9318'', True, ''http_utils.h'')]),
      (''http_5ftypes_2eh_25'', ''http_types.h'', [(''../http__types_8h.html'', True, '''')]),
      (''http_5futils_2eh_26'', ''http_utils.h'', [(''../http__utils_8h.html'', True, '''')]),
      (''httprequest_27'', ''HttpRequest'', [(''../structHttpRequest.html'', True, '''')]),
      (''httpresponse_28'', ''HttpResponse'', [(''../structHttpResponse.html'', True, '''')])]"

definition all_7 :: "search_entry list" where
  "all_7 =
     [(''internalbsize_0'', ''internalBsize'', [(''../structSlabPool.html#ae32e069b240ea38919db7ab768a2b059'', True, ''SlabPool'')])]"

definition all_8 :: "search_entry list" where
  "all_8 =
     [(''key_0'', ''key'', [(''../structTplVar.html#a50abf9d8a8d4ff7e3f65799cd48632cd'', True, ''TplVar'')])]"

definition all_9 :: "search_entry list" where
  "all_9 =
     [(''lat_0'', ''lat'', [(''../structMapVars.html#aa71d42ede4215ab41765fd0dc581836b'', True, ''MapVars::lat''), (''../structReport.html#a3a8d9b5fa3549af30e13da10adf76031'', True, ''Report::lat'')]),
      (''latmax_1'', ''latMax'', [(''../structCityGeo.html#a9db1bdbd047e75b6cf6806fc0035fb04'', True, ''CityGeo'')]),
      (''location_2'', ''location'', [(''../structHttpResponse.html#a1935db201de71fbbd1319f3b703afd25'', True, ''HttpResponse'')]),
      (''login_5ferror_3'', ''login_error'', [(''../route__helpers_8h.html#a37b3177d788e2a1422ab73f86960f28a'', True, ''route_helpers.h'')]),
      (''lon_4'', ''lon'', [(''../structMapVars.html#aea8f4be8be20bbb4ee2393013b5769b3'', True, ''MapVars::lon''), (''../structReport.html#ad0d75676a6a119267dca0660c848a5d4'', True, ''Report::lon'')]),
      (''lonmax_5'', ''lonMax'', [(''../structCityGeo.html#a7ae8a4e2cf6ce22bd1c4527bcf89c398'', True, ''CityGeo'')])]"

definition all_a :: "search_entry list" where
  "all_a =
     [(''make_5ferror_5fblock_0'', ''make_error_block'', [(''../http__utils_8h.html#ae60f58c36a39bf4ad67e11d2a920172e'', True, ''http_utils.h'')]),
      (''mapvars_1'', ''MapVars'', [(''../structMapVars.html'', True, '''')]),
      (''max_5fnumber_5flen_2'', ''MAX_NUMBER_LEN'', [(''../http__utils_8h.html#a3c88a94d6eeb9664c579245b2a7615aa'', True, ''http_utils.h'')]),
      (''method_3'', ''method'', [(''../structHttpRequest.html#a3efbb41c9e3ecf0073354f3e72395ffc'', True, ''HttpRequest::method''), (''../structRoute.html#a631e87ab76cacd2b979337c098e7c64e'', True, ''Route::method'')]),
      (''methodlen_4'', ''methodLen'', [(''../structHttpRequest.html#a0853a6d4d8944486068e012be368a824'', True, ''HttpRequest'')]),
      (''minorversion_5'', ''minorVersion'', [(''../structHttpRequest.html#af1a9e6aca00b0f6ae262ce4add5187b8'', True, ''HttpRequest'')])]"

definition all_b :: "search_entry list" where
  "all_b =
     [(''next_0'', ''next'', [(''../structClientCtx.html#a0778f859efe0f1493280cdaae5c6ce18'', True, ''ClientCtx'')]),
      (''numheaders_1'', ''numHeaders'', [(''../structHttpRequest.html#a2c75b566736b74b31a58079397f05a90'', True, ''HttpRequest'')])]"

definition all_c :: "search_entry list" where
  "all_c =
     [(''on_5fbuffer_5falloc_0'', ''on_buffer_alloc'', [(''../connection__handler_8h.html#a2115213f213602da0f51d9f384b09bc4'', True, ''connection_handler.h'')]),
      (''on_5fconnection_1'', ''on_connection'', [(''../connection__handler_8h.html#a1db95eaa49c81ad63519fb7a8908be37'', True, ''connection_handler.h'')]),
      (''on_5fread_2'', ''on_read'', [(''../connection__handler_8h.html#a550be703064c32ae946900e876ce3988'', True, ''connection_handler.h'')])]"

definition all_d :: "search_entry list" where
  "all_d =
     [(''passwordhash_0'', ''passwordHash'', [(''../structUser.html#a9d72cf1c2b880a0e01107e6dc6f08704'', True, ''User'')]),
      (''path_1'', ''path'', [(''../structHttpRequest.html#a7095767bcbc061dd02637cecef0a5815'', True, ''HttpRequest::path''), (''../structRoute.html#a793dd6c314bd207fb6c5431a55bd4e27'', True, ''Route::path'')]),
      (''pathlen_2'', ''pathLen'', [(''../structHttpRequest.html#aa16a2b3d59a72d14eb5160d6b2e205fd'', True, ''HttpRequest'')]),
      (''pendingcloses_3'', ''pendingCloses'', [(''../structClientCtx.html#a9baa961deebf3008778d9da28803d1e5'', True, ''ClientCtx'')]),
      (''prev_4'', ''prev'', [(''../structClientCtx.html#aebd0b4eae284c79037b5eff574465a5a'', True, ''ClientCtx'')])]"

definition all_e :: "search_entry list" where
  "all_e =
     [(''rate_5flimit_5fcheck_0'', ''rate_limit_check'', [(''../rate__limiter_8h.html#a2e9ebeeecd4984470b4db1c56556d960'', True, ''rate_limiter.h'')]),
      (''rate_5flimiter_2eh_1'', ''rate_limiter.h'', [(''../rate__limiter_8h.html'', True, '''')]),
      (''rate_5flimiter_5fdestroy_2'', ''rate_limiter_destroy'', [(''../rate__limiter_8h.html#ab59a0cbc6f3a5d93618c9041424d1303'', True, ''rate_limiter.h'')]),
      (''rate_5flimiter_5finit_3'', ''rate_limiter_init'', [(''../rate__limiter_8h.html#aa7392874ee7307b732cd47689d71c388'', True, ''rate_limiter.h'')]),
      (''rateentry_4'', ''RateEntry'', [(''../structRateEntry.html'', True, '''')]),
      (''redirect_5'', ''redirect'', [(''../route__helpers_8h.html#a63a8394d0b799fed607a768ad93b7b6e'', True, ''route_helpers.h'')]),
      (''register_5ferror_6'', ''register_error'', [(''../route__helpers_8h.html#afe525281a008ac6bc69378f588485561'', True, ''route_helpers.h'')]),
      (''report_7'', ''Report'', [(''../structReport.html'', True, '''')]),
      (''report_2eh_8'', ''report.h'', [(''../report_8h.html'', True, '''')]),
      (''report_5faccept_9'', ''report_accept'', [(''../report_8h.html#a9f4a537a0057802c4f7142b231047130'', True, ''report.h'')]),
      (''report_5fassign_10'', ''report_assign'', [(''../report_8h.html#ac8891d83544400e70fd4977ff26662f8'', True, ''report.h'')]),
      (''report_5fcache_5finvalidate_5fcity_11'', ''report_cache_invalidate_city'', [(''../report_8h.html#a98fc6fb7ae2c1800b28ffd86ae5668eb'', True, ''report.h'')]),
      (''report_5fcount_5factive_12'', ''report_count_active'', [(''../report_8h.html#a1c73edf62976cf1b5c90a24925e3a2c8'', True, ''report.h'')]),
      (''report_5fget_5factive_5fjson_13'', ''report_get_active_json'', [(''../report_8h.html#ac33d3d78fb58ba138757173861785d42'', True, ''report.h'')]),
      (''report_5fget_5fall_5fcity_5fjson_14'', ''report_get_all_city_json'', [(''../report_8h.html#aa22245570cb09b70c495eec276f0d230'', True, ''report.h'')]),
      (''report_5fget_5farchived_5fjson_15'', ''report_get_archived_json'', [(''../report_8h.html#a6580f32427cb69a902e75be6b26dafbc'', True, ''report.h'')]),
      (''report_5fget_5fby_5fid_16'', ''report_get_by_id'', [(''../report_8h.html#a155cde62d147e5d51a84a576cab54010'', True, ''report.h'')]),
      (''report_5finsert_17'', ''report_insert'', [(''../report_8h.html#af2a4caf55eba408d05d2a506039e43dd'', True, ''report.h'')]),
      (''report_5freject_18'', ''report_reject'', [(''../report_8h.html#a909e86efc7196418a3040cbeed5fb9c8'', True, ''report.h'')]),
      (''report_5fresolve_19'', ''report_resolve'', [(''../report_8h.html#a2bc78b4639f2f97fc23809ac8acbe519'', True, ''report.h'')]),
      (''report_5fset_5ffeedback_20'', ''report_set_feedback'', [(''../report_8h.html#aa2237d0bac040b08a93d6a39dcd0bbb1'', True, ''report.h'')]),
      (''report_5fsetup_5ftable_21'', ''report_setup_table'', [(''../report_8h.html#a91d71b87caa24c5f140d9d76c3608407'', True, ''report.h'')]),
      (''reportcol_22'', ''ReportCol'', [(''../report_8h.html#a8061a7a6fc28209df91f55623d39c30c'', True, ''report.h'')]),
      (''reportid_23'', ''reportId'', [(''../structReport.html#a6731bcb1220589ec9684bc6336c4683b'', True, ''Report'')]),
      (''reportstatus_24'', ''ReportStatus'', [(''../report_8h.html#aa93bd0e8b41c682fee30f387eae3bb0f'', True, ''report.h'')]),
      (''resolvedat_25'', ''resolvedAt'', [(''../structReport.html#aa01d9dcd0dcbb81af624d7b9094581ad'', True, ''Report'')]),
      (''resp_5fhtml_5ferror_26'', ''resp_html_error'', [(''../route__helpers_8h.html#a91ad35482b06ad87ae373360697dd778'', True, ''route_helpers.h'')]),
      (''resp_5fjson_5ferror_27'', ''resp_json_error'', [(''../route__helpers_8h.html#a69ab9ed347765e6ffa8f387bf81bc80e'', True, ''route_helpers.h'')]),
      (''resp_5frender_5ftpl_28'', ''resp_render_tpl'', [(''../route__helpers_8h.html#aba3e60dbecd2a6e3fe8b703eeea33c7b'', True, ''route_helpers.h'')]),
      (''role_29'', ''role'', [(''../structUser.html#ab91e66ddd08d2a0a76790374c2861fb8'', True, ''User'')]),
      (''role_5fadmin_30'', ''ROLE_ADMIN'', [(''../user_8h.html#a00dd1c1a522bd6fb15ecc021ffefb775ae4a86fdf0e228f87fc50f2f846c7ac41'', True, ''user.h'')]),
      (''route_31'', ''Route'', [(''../structRoute.html'', True, '''')]),
      (''route_5fapi_2eh_32'', ''route_api.h'', [(''../route__api_8h.html'', True, '''')]),
      (''route_5fapi_5fadmin_5fassign_33'', ''route_api_admin_assign'', [(''../route__api_8h.html#a11b096cc1db639cb9588ca92708641a7'', True, ''route_api.h'')]),
      (''route_5fapi_5fcities_34'', ''route_api_cities'', [(''../route__api_8h.html#a7a235c5c90304e1ae99c72ec9525bae0'', True, ''route_api.h'')]),
      (''route_5fapi_5foperators_35'', ''route_api_operators'', [(''../route__api_8h.html#ab5fc181c9d73ea5dc2dd31f86ee9d261'', True, ''route_api.h'')]),
      (''route_5fapi_5freport_5ffeedback_36'', ''route_api_report_feedback'', [(''../route__api_8h.html#a635c00b8d9b2f756c781b251ad48e0a7'', True, ''route_api.h'')]),
      (''route_5fapi_5freport_5frespond_37'', ''route_api_report_respond'', [(''../route__api_8h.html#ae7d9f6e90ac41b0449444315d501c3c9'', True, ''route_api.h'')]),
      (''route_5fapi_5freport_5fstatus_38'', ''route_api_report_status'', [(''../route__api_8h.html#a203e7f295a5826219ebf6c67680e430c'', True, ''route_api.h'')]),
      (''route_5fapi_5freports_5factive_39'', ''route_api_reports_active'', [(''../route__api_8h.html#ae56497d671dd10f2dd28b337d4b63d30'', True, ''route_api.h'')]),
      (''route_5fapi_5freports_5fall_40'', ''route_api_reports_all'', [(''../route__api_8h.html#af38c8eab392811ece6b0d178b13fafc2'', True, ''route_api.h'')]),
      (''route_5fapi_5freports_5farchived_41'', ''route_api_reports_archived'', [(''../route__api_8h.html#ac58db32677a3bee39136f6df28a2d556'', True, ''route_api.h'')]),
      (''route_5fget_5fhome_42'', ''route_get_home'', [(''../route__pages_8h.html#adc20a219bda7a60d10a4fdf2d09b1783'', True, ''route_pages.h'')]),
      (''route_5fget_5flogout_43'', ''route_get_logout'', [(''../route__pages_8h.html#a0bf141eac75438d01437a82bdfe17d39'', True, ''route_pages.h'')]),
      (''route_5fget_5fregister_44'', ''route_get_register'', [(''../route__pages_8h.html#a27f9fa107fda82e535ae00728b577e9a'', True, ''route_pages.h'')]),
      (''route_5fget_5froot_45'', ''route_get_root'', [(''../route__pages_8h.html#a28f06515bbf7c400ac7c3bc8123b6d4a'', True, ''route_pages.h'')]),
      (''route_5fget_5fsubmit_46'', ''route_get_submit'', [(''../route__pages_8h.html#ab75c687c73ba9c8dbbc104b2d9ea6689'', True, ''route_pages.h'')]),
      (''route_5fhandler_2eh_47'', ''route_handler.h'', [(''../route__handler_8h.html'', True, '''')]),
      (''route_5fhelpers_2eh_48'', ''route_helpers.h'', [(''../route__helpers_8h.html'', True, '''')]),
      (''route_5fpages_2eh_49'', ''route_pages.h'', [(''../route__pages_8h.html'', True, '''')]),
      (''route_5fpost_5flogin_50'', ''route_post_login'', [(''../route__pages_8h.html#ac2e8f78d46c8d713e4b22dde97f9a288'', True, ''route_pages.h'')]),
      (''route_5fpost_5fregister_51'', ''route_post_register'', [(''../route__pages_8h.html#a78bd59e1e6f56c909f3d1f57dcea97b8'', True, ''route_pages.h'')]),
      (''route_5fpost_5fsubmit_52'', ''route_post_submit'', [(''../route__pages_8h.html#acd89a59e5870c6ccb2ad3844e9b0c5bf'', True, ''route_pages.h'')]),
      (''route_5fstatic_5fcss_53'', ''route_static_css'', [(''../route__pages_8h.html#ab0140c2416ca2c96ac76769653a15c6c'', True, ''route_pages.h'')]),
      (''route_5fstatic_5fdocs_54'', ''route_static_docs'', [(''../route__pages_8h.html#a0139b5c4f19a36ec63ff11dfd388e4d6'', True, ''route_pages.h'')]),
      (''routehandler_55'', ''RouteHandler'', [(''../route__handler_8h.html#abe2d0197f8ea19235998f79d3a577c8d'', True, ''route_handler.h'')])]"

definition all_f :: "search_entry list" where
  "all_f =
     [(''salt_0'', ''salt'', [(''../structUser.html#a5ac70ab4e8b54d614a82dcefa0f9b270'', True, ''User'')]),
      (''server_2eh_1'', ''server.h'', [(''../server_8h.html'', True, '''')]),
      (''session_2'', ''Session'', [(''../structSession.html'', True, '''')]),
      (''session_2eh_3'', ''session.h'', [(''../session_8h.html'', True, '''')]),
      (''session_5fcookie_5fname_4'', ''SESSION_COOKIE_NAME'', [(''../session_8h.html#ae75250ee939c4d711e0bbdf3e5f49d19'', True, ''session.h'')]),
      (''session_5fcreate_5'', ''session_create'', [(''../session_8h.html#a8a336feb61114c12fbaeb3356db128d2'', True, ''session.h'')]),
      (''session_5fcreate_5fmax_5ftries_6'', ''SESSION_CREATE_MAX_TRIES'', [(''../session_8h.html#af8397fc211005ca3fbec0dc89371ab57'', True, ''session.h'')]),
      (''session_5fdestroy_7'', ''session_destroy'', [(''../session_8h.html#a18863e1c97cac02a007f366168fb2a28'', True, ''session.h'')]),
      (''session_5fdestroy_5fall_8'', ''session_destroy_all'', [(''../session_8h.html#a8f7740e9fdf307b5ed8d8c5da3fa5c2b'', True, ''session.h'')]),
      (''session_5finit_9'', ''session_init'', [(''../session_8h.html#a18e9bc4290ef62eb372782a0f83747b6'', True, ''session.h'')]),
      (''session_5fmax_5fage_10'', ''SESSION_MAX_AGE'', [(''../session_8h.html#a634a3655991dc826beedd9fd85cceadb'', True, ''session.h'')]),
      (''session_5fverify_11'', ''session_verify'', [(''../session_8h.html#ab97164533dfe780bb414e712172a07b3'', True, ''session.h'')]),
      (''setcookie_12'', ''setCookie'', [(''../structHttpResponse.html#a236993626153428903c3f55400508490'', True, ''HttpResponse'')]),
      (''slab_5fallocator_2eh_13'', ''slab_allocator.h'', [(''../slab__allocator_8h.html'', True, '''')]),
      (''slab_5fpool_5falloc_14'', ''slab_pool_alloc'', [(''../slab__allocator_8h.html#aae74ef30ad97b6fea9b28bf2f1ed96d3'', True, ''slab_allocator.h'')]),
      (''slab_5fpool_5fdestroy_15'', ''slab_pool_destroy'', [(''../slab__allocator_8h.html#a74d8c490013ba4dd3f5a901d2c8dec9f'', True, ''slab_allocator.h'')]),
      (''slab_5fpool_5ffree_16'', ''slab_pool_free'', [(''../slab__allocator_8h.html#a7eccc2758e6e7d0f8f7b262549b72091'', True, ''slab_allocator.h'')]),
      (''slab_5fpool_5finit_17'', ''slab_pool_init'', [(''../slab__allocator_8h.html#afa4512d2d50f3cbe6040d88dab851536'', True, ''slab_allocator.h'')]),
      (''slabpool_18'', ''SlabPool'', [(''../structSlabPool.html'', True, '''')]),
      (''status_19'', ''status'', [(''../structReport.html#aff8e3a8fc7a1d40d38bde76b0613eefc'', True, ''Report'')]),
      (''status_5factive_20'', ''STATUS_ACTIVE'', [(''../report_8h.html#aa93bd0e8b41c682fee30f387eae3bb0faac7e7606c854bc8257d642c3fdd9b318'', True, ''report.h'')]),
      (''status_5fassigned_21'', ''STATUS_ASSIGNED'', [(''../report_8h.html#aa93bd0e8b41c682fee30f387eae3bb0fa9f89f2204c9bdf877641cb54ca486a28'', True, ''report.h'')]),
      (''status_5fin_5fprogress_22'', ''STATUS_IN_PROGRESS'', [(''../report_8h.html#aa93bd0e8b41c682fee30f387eae3bb0fafaf0b6349b8a93b543f64c744e321d5a'', True, ''report.h'')]),
      (''status_5fresolved_23'', ''STATUS_RESOLVED'', [(''../report_8h.html#aa93bd0e8b41c682fee30f387eae3bb0fa07c90a2dc659a90f024caa9f34ccde32'', True, ''report.h'')]),
      (''statuscode_24'', ''statusCode'', [(''../structHttpResponse.html#af437cbe87aead2a55f49b9c112dfc6af'', True, ''HttpResponse'')]),
      (''submit_5ferror_25'', ''submit_error'', [(''../route__helpers_8h.html#af5dc8bcda72cebe9ac09bf419e223c6f'', True, ''route_helpers.h'')])]"

definition all_10 :: "search_entry list" where
  "all_10 =
     [(''template_0'', ''Template'', [(''../template_8h.html#ae1eceda9d35f6ef989b038cd7d0ac811'', True, ''template.h'')]),
      (''template_2eh_1'', ''template.h'', [(''../template_8h.html'', True, '''')]),
      (''timer_2'', ''timer'', [(''../structClientCtx.html#a2c003731dd2f1d69ee3ecf3fa97800b1'', True, ''ClientCtx'')]),
      (''token_5fhex_5flen_3'', ''TOKEN_HEX_LEN'', [(''../session_8h.html#ab536ae31d9dd9ff7319930cfc634d2f1'', True, ''session.h'')]),
      (''totalread_4'', ''totalRead'', [(''../structClientCtx.html#a3071414cac882166f57669617502b53c'', True, ''ClientCtx'')]),
      (''tpl_5fget_5'', ''tpl_get'', [(''../template_8h.html#a3c06a6a3f524afd1ab3f7c40e221fb46'', True, ''template.h'')]),
      (''tpl_5fload_5ffiles_6'', ''tpl_load_files'', [(''../template_8h.html#ab8c95f914b1f67dda9f8a783d7956793'', True, ''template.h'')]),
      (''tpl_5frender_7'', ''tpl_render'', [(''../template_8h.html#acf1d3a49a5a1e4f3c175b8ea357511f7'', True, ''template.h'')]),
      (''tpl_5funload_5fall_8'', ''tpl_unload_all'', [(''../template_8h.html#a7da43e8729425954e645460d1944d33b'', True, ''template.h'')]),
      (''tplvar_9'', ''TplVar'', [(''../structTplVar.html'', True, '''')])]"

definition all_11 :: "search_entry list" where
  "all_11 =
     [(''user_0'', ''user'', [(''../structUser.html'', True, ''User''), (''../structSession.html#a1274393415abccedad35198eb26929c2'', True, ''Session::user'')]),
      (''user_2eh_1'', ''user.h'', [(''../user_8h.html'', True, '''')]),
      (''user_5fauthenticate_2'', ''user_authenticate'', [(''../user_8h.html#a32de8d52d212f6bedaa51fe0665cde33'', True, ''user.h'')]),
      (''user_5fget_5fby_5fid_3'', ''user_get_by_id'', [(''../user_8h.html#a02d7579c8fee35596170643b1cd88e2a'', True, ''user.h'')]),
      (''user_5fget_5foperators_5fjson_4'', ''user_get_operators_json'', [(''../user_8h.html#afe0b578dea4d2a7df1c9d5f33189370e'', True, ''user.h'')]),
      (''user_5fis_5fadmin_5'', ''user_is_admin'', [(''../user_8h.html#a6ffdb13499ffc2251fc7478c67cf0ff8'', True, ''user.h'')]),
      (''user_5fis_5foperator_6'', ''user_is_operator'', [(''../user_8h.html#aed7c22147ce4c65911d82fb74499b82f'', True, ''user.h'')]),
      (''user_5fregister_7'', ''user_register'', [(''../user_8h.html#abe65647e5d1508831c0d869bbbb0de8f'', True, ''user.h'')]),
      (''user_5fregister_5fadmin_8'', ''user_register_admin'', [(''../user_8h.html#afe5668681db3f70ea58af1d77c7f0c51'', True, ''user.h'')]),
      (''user_5fsetup_5ftable_9'', ''user_setup_table'', [(''../user_8h.html#a0e0856cab4509b2dccef981ec43366f2'', True, ''user.h'')]),
      (''usercol_10'', ''UserCol'', [(''../user_8h.html#acbc692aa285c92d8f0ad86bf3c51896e'', True, ''user.h'')]),
      (''userid_11'', ''userId'', [(''../structUser.html#ad919bd15f70c2c7af21d346432ef3be8'', True, ''User'')]),
      (''username_12'', ''username'', [(''../structUser.html#a35989de0d7ceb8ee42a10716dfab962e'', True, ''User'')]),
      (''userrole_13'', ''UserRole'', [(''../user_8h.html#a00dd1c1a522bd6fb15ecc021ffefb775'', True, ''user.h'')])]"

definition all_12 :: "search_entry list" where
  "all_12 =
     [(''value_0'', ''value'', [(''../structTplVar.html#ad354a220a8835e35048403513dc6e051'', True, ''TplVar'')])]"

definition all_13 :: "search_entry list" where
  "all_13 =
     [(''windowstarttime_0'', ''windowStartTime'', [(''../structRateEntry.html#a1da212865339670053b9eb73a17f2db6'', True, ''RateEntry'')])]"

section \<open>Classes\<close>

definition classes_0 :: "search_entry list" where
  "classes_0 =
     [(''citygeo_0'', ''CityGeo'', [(''../structCityGeo.html'', True, '''')]),
      (''clientctx_1'', ''ClientCtx'', [(''../structClientCtx.html'', True, '''')])]"

definition classes_1 :: "search_entry list" where
  "classes_1 =
     [(''httprequest_0'', ''HttpRequest'', [(''../structHttpRequest.html'', True, '''')]),
      (''httpresponse_1'', ''HttpResponse'', [(''../structHttpResponse.html'', True, '''')])]"

definition classes_2 :: "search_entry list" where
  "classes_2 =
     [(''mapvars_0'', ''MapVars'', [(''../structMapVars.html'', True, '''')])]"

definition classes_3 :: "search_entry list" where
  "classes_3 =
     [(''rateentry_0'', ''RateEntry'', [(''../structRateEntry.html'', True, '''')]),
      (''report_1'', ''Report'', [(''../structReport.html'', True, '''')]),
      (''route_2'', ''Route'', [(''../structRoute.html'', True, '''')])]"

definition classes_4 :: "search_entry list" where
  "classes_4 =
     [(''session_0'', ''Session'', [(''../structSession.html'', True, '''')]),
      (''slabpool_1'', ''SlabPool'', [(''../structSlabPool.html'', True, '''')])]"

definition classes_5 :: "search_entry list" where
  "classes_5 =
     [(''tplvar_0'', ''TplVar'', [(''../structTplVar.html'', True, '''')])]"

definition classes_6 :: "search_entry list" where
  "classes_6 =
     [(''user_0'', ''User'', [(''../structUser.html'', True, '''')])]"

section \<open>Files\<close>

definition files_0 :: "search_entry list" where
  "files_0 =
     [(''client_5fmanager_2eh_0'', ''client_manager.h'', [(''../client__manager_8h.html'', True, '''')]),
      (''connection_5fhandler_2eh_1'', ''connection_handler.h'', [(''../connection__handler_8h.html'', True, '''')])]"

definition files_1 :: "search_entry list" where
  "files_1 =
     [(''db_2eh_0'', ''db.h'', [(''../db_8h.html'', True, '''')])]"

definition files_2 :: "search_entry list" where
  "files_2 =
     [(''geo_2eh_0'', ''geo.h'', [(''../geo_8h.html'', True, '''')])]"

definition files_3 :: "search_entry list" where
  "files_3 =
     [(''hash_5ftable_2eh_0'', ''hash_table.h'', [(''../hash__table_8h.html'', True, '''')]),
      (''http_5ftypes_2eh_1'', ''http_types.h'', [(''../http__types_8h.html'', True, '''')]),
      (''http_5futils_2eh_2'', ''http_utils.h'', [(''../http__utils_8h.html'', True, '''')])]"

definition files_4 :: "search_entry list" where
  "files_4 =
     [(''rate_5flimiter_2eh_0'', ''rate_limiter.h'', [(''../rate__limiter_8h.html'', True, '''')]),
      (''report_2eh_1'', ''report.h'', [(''../report_8h.html'', True, '''')]),
      (''route_5fapi_2eh_2'', ''route_api.h'', [(''../route__api_8h.html'', True, '''')]),
      (''route_5fhandler_2eh_3'', ''route_handler.h'', [(''../route__handler_8h.html'', True, '''')]),
      (''route_5fhelpers_2eh_4'', ''route_helpers.h'', [(''../route__helpers_8h.html'', True, '''')]),
      (''route_5fpages_2eh_5'', ''route_pages.h'', [(''../route__pages_8h.html'', True, '''')])]"

definition files_5 :: "search_entry list" where
  "files_5 =
     [(''server_2eh_0'', ''server.h'', [(''../server_8h.html'', True, '''')]),
      (''session_2eh_1'', ''session.h'', [(''../session_8h.html'', True, '''')]),
      (''slab_5fallocator_2eh_2'', ''slab_allocator.h'', [(''../slab__allocator_8h.html'', True, '''')])]"

definition files_6 :: "search_entry list" where
  "files_6 =
     [(''template_2eh_0'', ''template.h'', [(''../template_8h.html'', True, '''')])]"

definition files_7 :: "search_entry list" where
  "files_7 =
     [(''user_2eh_0'', ''user.h'', [(''../user_8h.html'', True, '''')])]"

section \<open>Functions\<close>

definition functions_0 :: "search_entry list" where
  "functions_0 =
     [(''build_5fmap_5fvars_0'', ''build_map_vars'', [(''../geo_8h.html#a58dcbd231fb7d80a5832fc69ec95020f'', True, ''geo.h'')])]"

definition functions_1 :: "search_entry list" where
  "functions_1 =
     [(''client_5fmanager_5factive_5fcount_0'', ''client_manager_active_count'', [(''../client__manager_8h.html#ad298e53c235b4ef9ed6526ef0989246f'', True, ''client_manager.h'')]),
      (''client_5fmanager_5falloc_1'', ''client_manager_alloc'', [(''../client__manager_8h.html#ab259797185232a173d5dc1a389490a6b'', True, ''client_manager.h'')]),
      (''client_5fmanager_5fclose_5fall_2'', ''client_manager_close_all'', [(''../client__manager_8h.html#abd09c93313416fec798266ade26c7b27'', True, ''client_manager.h'')]),
      (''client_5fmanager_5fdestroy_3'', ''client_manager_destroy'', [(''../client__manager_8h.html#a3cf91cb8e5f706a7277004f40fe62327'', True, ''client_manager.h'')]),
      (''client_5fmanager_5finit_4'', ''client_manager_init'', [(''../client__manager_8h.html#a1b36ee468413a53d94dadc37ee77b9d6'', True, ''client_manager.h'')]),
      (''client_5fmanager_5flink_5'', ''client_manager_link'', [(''../client__manager_8h.html#a946e9c58caf3141f9b80dfe31fd8f6db'', True, ''client_manager.h'')]),
      (''client_5fmanager_5frelease_6'', ''client_manager_release'', [(''../client__manager_8h.html#aa52e77d31b703599f2a335b4eefc66d3'', True, ''client_manager.h'')]),
      (''client_5fmanager_5funlink_7'', ''client_manager_unlink'', [(''../client__manager_8h.html#ae1b61876ea74483463931b0bede9c219'', True, ''client_manager.h'')]),
      (''close_5fclient_8'', ''close_client'', [(''../connection__handler_8h.html#a1d74171c0360dc771aace49df61ac509'', True, ''connection_handler.h'')])]"

definition functions_2 :: "search_entry list" where
  "functions_2 =
     [(''db_5fchanges_0'', ''db_changes'', [(''../db_8h.html#a8ef66a94fd4d4dfee150e52e19472d73'', True, ''db.h'')]),
      (''db_5fclose_1'', ''db_close'', [(''../db_8h.html#a43539307187c50e84866e403c4c57cef'', True, ''db.h'')]),
      (''db_5fcursor_5fclose_2'', ''db_cursor_close'', [(''../db_8h.html#a34686b55c084d2a40efd721f31c3dd35'', True, ''db.h'')]),
      (''db_5fcursor_5fdouble_3'', ''db_cursor_double'', [(''../db_8h.html#a30969ec3d9b14efae3c5ce44adf0a3b9'', True, ''db.h'')]),
      (''db_5fcursor_5fint64_4'', ''db_cursor_int64'', [(''../db_8h.html#a3bf1e80a44a5cadb0239b7caeed0985f'', True, ''db.h'')]),
      (''db_5fcursor_5fnext_5'', ''db_cursor_next'', [(''../db_8h.html#a14a955deab910d655dbde6a3713a38a0'', True, ''db.h'')]),
      (''db_5fcursor_5fopen_6'', ''db_cursor_open'', [(''../db_8h.html#a37d5e482cfdd2da1c20ad57ff449e133'', True, ''db.h'')]),
      (''db_5fcursor_5ftext_7'', ''db_cursor_text'', [(''../db_8h.html#a4ee78374813d3f33992939c7690068c3'', True, ''db.h'')]),
      (''db_5ferrmsg_8'', ''db_errmsg'', [(''../db_8h.html#a72da1433341afa6d1915e8c7cb95b51c'', True, ''db.h'')]),
      (''db_5fexec_9'', ''db_exec'', [(''../db_8h.html#ad7dce6393b603e447c4da8740d61c680'', True, ''db.h'')]),
      (''db_5finit_10'', ''db_init'', [(''../db_8h.html#a145d3e03272ebd0c29e74770e29653a0'', True, ''db.h'')]),
      (''db_5flast_5finsert_5fid_11'', ''db_last_insert_id'', [(''../db_8h.html#a9d7975d5d1eb9495f9503829f1b0c87f'', True, ''db.h'')])]"

definition functions_3 :: "search_entry list" where
  "functions_3 =
     [(''geo_5fcleanup_0'', ''geo_cleanup'', [(''../geo_8h.html#a8e63bdd95c36d05b811a366c661d4b66'', True, ''geo.h'')]),
      (''geo_5fcontains_1'', ''geo_contains'', [(''../geo_8h.html#af9d43dd58b09701b3c180c11eab51e21'', True, ''geo.h'')]),
      (''geo_5finit_2'', ''geo_init'', [(''../geo_8h.html#a152f8735049da726f2da726ac4ab1f43'', True, ''geo.h'')]),
      (''geo_5flookup_3'', ''geo_lookup'', [(''../geo_8h.html#a7c7fe01930257c877e0a80d584dd13ed'', True, ''geo.h'')]),
      (''get_5ffield_4'', ''get_field'', [(''../http__utils_8h.html#a358ad2e10ee4a1905d078f8f4283e07e'', True, ''http_utils.h'')]),
      (''get_5fsession_5fuser_5'', ''get_session_user'', [(''../route__helpers_8h.html#a127145f7d13b0f45e17d7900359fac82'', True, ''route_helpers.h'')])]"

definition functions_4 :: "search_entry list" where
  "functions_4 =
     [(''handle_5frequest_0'', ''handle_request'', [(''../route__handler_8h.html#ab4013acbe7214be92666929906cbb836'', True, ''route_handler.h'')]),
      (''hash_5fkey_1'', ''hash_key'', [(''../server_8h.html#a30d5f3fba66ea8d634718e76e70f6dc3'', True, ''server.h'')]),
      (''ht_5fcreate_2'', ''ht_create'', [(''../hash__table_8h.html#ae1bc3f8d1cc56c8bf5cf10c7ce32de6e'', True, ''hash_table.h'')]),
      (''ht_5fdelete_3'', ''ht_delete'', [(''../hash__table_8h.html#aa654272c94a43a43e2d7b309d6699122'', True, ''hash_table.h'')]),
      (''ht_5fdestroy_4'', ''ht_destroy'', [(''../hash__table_8h.html#ac986a6f910dcf3f2048cc79c6529c0d2'', True, ''hash_table.h'')]),
      (''ht_5fforeach_5'', ''ht_foreach'', [(''../hash__table_8h.html#a4044224a01d29cb8790e2c52d4120dfd'', True, ''hash_table.h'')]),
      (''ht_5fget_6'', ''ht_get'', [(''../hash__table_8h.html#a558825dbaa6e9b4bddfab3d3a8c8db07'', True, ''hash_table.h'')]),
      (''ht_5fload_7'', ''ht_load'', [(''../hash__table_8h.html#a14a4ab0781749f8723acc44f9977a267'', True, ''hash_table.h'')]),
      (''ht_5fset_8'', ''ht_set'', [(''../hash__table_8h.html#a427252b31b8a9c4699d0870ba25dd26d'', True, ''hash_table.h'')]),
      (''ht_5fsnapshot_9'', ''ht_snapshot'', [(''../hash__table_8h.html#af177a3dfd557f1d74f7351c7fc209d8e'', True, ''hash_table.h'')]),
      (''html_5fescape_10'', ''html_escape'', [(''../http__utils_8h.html#a432ab675be86e8c395eb6dd1a4339074'', True, ''http_utils.h'')]),
      (''http_5fis_5frequest_5fcomplete_11'', ''http_is_request_complete'', [(''../http__utils_8h.html#a80b79507bd287181f71ea834e5c26a2b'', True, ''http_utils.h'')]),
      (''http_5fis_5frequest_5fmethod_12'', ''http_is_request_method'', [(''../http__utils_8h.html#ad819f10ecdf6cf1858a0f295ce1be4ef'', True, ''http_utils.h'')]),
      (''http_5fis_5frequest_5fpath_13'', ''http_is_request_path'', [(''../http__utils_8h.html#a0284890bc01bd39002a84c26a934cbb1'', True, ''http_utils.h'')]),
      (''http_5frequest_5fcontains_5fkeepalive_14'', ''http_request_contains_keepalive'', [(''../http__utils_8h.html#a3a191cc59105d4b3d48f1143eb6d49fd'', True, ''http_utils.h'')]),
      (''http_5frequest_5fcookie_15'', ''http_request_cookie'', [(''../http__utils_8h.html#a6fcd7d7979d06e23a9692e94c1db5574'', True, ''http_utils.h'')]),
      (''http_5frequest_5fheader_16'', ''http_request_header'', [(''../http__utils_8h.html#af3fc2674512100b082e193588b54edb2'', True, ''http_utils.h'')]),
      (''http_5frequest_5fparse_17'', ''http_request_parse'', [(''../http__utils_8h.html#ab7a64f4c1946b9d43ee3c749616b7d60'', True, ''http_utils.h'')]),
      (''http_5fresponse_5frender_18'', ''http_response_render'', [(''../http__utils_8h.html#afa83dabef28bd646c993cd400c0f9318'', True, ''http_utils.h'')])]"

definition functions_5 :: "search_entry list" where
  "functions_5 =
     [(''login_5ferror_0'', ''login_error'', [(''../route__helpers_8h.html#a37b3177d788e2a1422ab73f86960f28a'', True, ''route_helpers.h'')])]"

definition functions_6 :: "search_entry list" where
  "functions_6 =
     [(''make_5ferror_5fblock_0'', ''make_error_block'', [(''../http__utils_8h.html#ae60f58c36a39bf4ad67e11d2a920172e'', True, ''http_utils.h'')])]"

definition functions_7 :: "search_entry list" where
  "functions_7 =
     [(''on_5fbuffer_5falloc_0'', ''on_buffer_alloc'', [(''../connection__handler_8h.html#a2115213f213602da0f51d9f384b09bc4'', True, ''connection_handler.h'')]),
      (''on_5fconnection_1'', ''on_connection'', [(''../connection__handler_8h.html#a1db95eaa49c81ad63519fb7a8908be37'', True, ''connection_handler.h'')]),
      (''on_5fread_2'', ''on_read'', [(''../connection__handler_8h.html#a550be703064c32ae946900e876ce3988'', True, ''connection_handler.h'')])]"

definition functions_8 :: "search_entry list" where
  "functions_8 =
     [(''rate_5flimit_5fcheck_0'', ''rate_limit_check'', [(''../rate__limiter_8h.html#a2e9ebeeecd4984470b4db1c56556d960'', True, ''rate_limiter.h'')]),
      (''rate_5flimiter_5fdestroy_1'', ''rate_limiter_destroy'', [(''../rate__limiter_8h.html#ab59a0cbc6f3a5d93618c9041424d1303'', True, ''rate_limiter.h'')]),
      (''rate_5flimiter_5finit_2'', ''rate_limiter_init'', [(''../rate__limiter_8h.html#aa7392874ee7307b732cd47689d71c388'', True, ''rate_limiter.h'')]),
      (''redirect_3'', ''redirect'', [(''../route__helpers_8h.html#a63a8394d0b799fed607a768ad93b7b6e'', True, ''route_helpers.h'')]),
      (''register_5ferror_4'', ''register_error'', [(''../route__helpers_8h.html#afe525281a008ac6bc69378f588485561'', True, ''route_helpers.h'')]),
      (''report_5faccept_5'', ''report_accept'', [(''../report_8h.html#a9f4a537a0057802c4f7142b231047130'', True, ''report.h'')]),
      (''report_5fassign_6'', ''report_assign'', [(''../report_8h.html#ac8891d83544400e70fd4977ff26662f8'', True, ''report.h'')]),
      (''report_5fcache_5finvalidate_5fcity_7'', ''report_cache_invalidate_city'', [(''../report_8h.html#a98fc6fb7ae2c1800b28ffd86ae5668eb'', True, ''report.h'')]),
      (''report_5fcount_5factive_8'', ''report_count_active'', [(''../report_8h.html#a1c73edf62976cf1b5c90a24925e3a2c8'', True, ''report.h'')]),
      (''report_5fget_5factive_5fjson_9'', ''report_get_active_json'', [(''../report_8h.html#ac33d3d78fb58ba138757173861785d42'', True, ''report.h'')]),
      (''report_5fget_5fall_5fcity_5fjson_10'', ''report_get_all_city_json'', [(''../report_8h.html#aa22245570cb09b70c495eec276f0d230'', True, ''report.h'')]),
      (''report_5fget_5farchived_5fjson_11'', ''report_get_archived_json'', [(''../report_8h.html#a6580f32427cb69a902e75be6b26dafbc'', True, ''report.h'')]),
      (''report_5fget_5fby_5fid_12'', ''report_get_by_id'', [(''../report_8h.html#a155cde62d147e5d51a84a576cab54010'', True, ''report.h'')]),
      (''report_5finsert_13'', ''report_insert'', [(''../report_8h.html#af2a4caf55eba408d05d2a506039e43dd'', True, ''report.h'')]),
      (''report_5freject_14'', ''report_reject'', [(''../report_8h.html#a909e86efc7196418a3040cbeed5fb9c8'', True, ''report.h'')]),
      (''report_5fresolve_15'', ''report_resolve'', [(''../report_8h.html#a2bc78b4639f2f97fc23809ac8acbe519'', True, ''report.h'')]),
      (''report_5fset_5ffeedback_16'', ''report_set_feedback'', [(''../report_8h.html#aa2237d0bac040b08a93d6a39dcd0bbb1'', True, ''report.h'')]),
      (''report_5fsetup_5ftable_17'', ''report_setup_table'', [(''../report_8h.html#a91d71b87caa24c5f140d9d76c3608407'', True, ''report.h'')]),
      (''resp_5fhtml_5ferror_18'', ''resp_html_error'', [(''../route__helpers_8h.html#a91ad35482b06ad87ae373360697dd778'', True, ''route_helpers.h'')]),
      (''resp_5fjson_5ferror_19'', ''resp_json_error'', [(''../route__helpers_8h.html#a69ab9ed347765e6ffa8f387bf81bc80e'', True, ''route_helpers.h'')]),
      (''resp_5frender_5ftpl_20'', ''resp_render_tpl'', [(''../route__helpers_8h.html#aba3e60dbecd2a6e3fe8b703eeea33c7b'', True, ''route_helpers.h'')]),
      (''route_5fapi_5fadmin_5fassign_21'', ''route_api_admin_assign'', [(''../route__api_8h.html#a11b096cc1db639cb9588ca92708641a7'', True, ''route_api.h'')]),
      (''route_5fapi_5fcities_22'', ''route_api_cities'', [(''../route__api_8h.html#a7a235c5c90304e1ae99c72ec9525bae0'', True, ''route_api.h'')]),
      (''route_5fapi_5foperators_23'', ''route_api_operators'', [(''../route__api_8h.html#ab5fc181c9d73ea5dc2dd31f86ee9d261'', True, ''route_api.h'')]),
      (''route_5fapi_5freport_5ffeedback_24'', ''route_api_report_feedback'', [(''../route__api_8h.html#a635c00b8d9b2f756c781b251ad48e0a7'', True, ''route_api.h'')]),
      (''route_5fapi_5freport_5frespond_25'', ''route_api_report_respond'', [(''../route__api_8h.html#ae7d9f6e90ac41b0449444315d501c3c9'', True, ''route_api.h'')]),
      (''route_5fapi_5freport_5fstatus_26'', ''route_api_report_status'', [(''../route__api_8h.html#a203e7f295a5826219ebf6c67680e430c'', True, ''route_api.h'')]),
      (''route_5fapi_5freports_5factive_27'', ''route_api_reports_active'', [(''../route__api_8h.html#ae56497d671dd10f2dd28b337d4b63d30'', True, ''route_api.h'')]),
      (''route_5fapi_5freports_5fall_28'', ''route_api_reports_all'', [(''../route__api_8h.html#af38c8eab392811ece6b0d178b13fafc2'', True, ''route_api.h'')]),
      (''route_5fapi_5freports_5farchived_29'', ''route_api_reports_archived'', [(''../route__api_8h.html#ac58db32677a3bee39136f6df28a2d556'', True, ''route_api.h'')]),
      (''route_5fget_5fhome_30'', ''route_get_home'', [(''../route__pages_8h.html#adc20a219bda7a60d10a4fdf2d09b1783'', True, ''route_pages.h'')]),
      (''route_5fget_5flogout_31'', ''route_get_logout'', [(''../route__pages_8h.html#a0bf141eac75438d01437a82bdfe17d39'', True, ''route_pages.h'')]),
      (''route_5fget_5fregister_32'', ''route_get_register'', [(''../route__pages_8h.html#a27f9fa107fda82e535ae00728b577e9a'', True, ''route_pages.h'')]),
      (''route_5fget_5froot_33'', ''route_get_root'', [(''../route__pages_8h.html#a28f06515bbf7c400ac7c3bc8123b6d4a'', True, ''route_pages.h'')]),
      (''route_5fget_5fsubmit_34'', ''route_get_submit'', [(''../route__pages_8h.html#ab75c687c73ba9c8dbbc104b2d9ea6689'', True, ''route_pages.h'')]),
      (''route_5fpost_5flogin_35'', ''route_post_login'', [(''../route__pages_8h.html#ac2e8f78d46c8d713e4b22dde97f9a288'', True, ''route_pages.h'')]),
      (''route_5fpost_5fregister_36'', ''route_post_register'', [(''../route__pages_8h.html#a78bd59e1e6f56c909f3d1f57dcea97b8'', True, ''route_pages.h'')]),
      (''route_5fpost_5fsubmit_37'', ''route_post_submit'', [(''../route__pages_8h.html#acd89a59e5870c6ccb2ad3844e9b0c5bf'', True, ''route_pages.h'')]),
      (''route_5fstatic_5fcss_38'', ''route_static_css'', [(''../route__pages_8h.html#ab0140c2416ca2c96ac76769653a15c6c'', True, ''route_pages.h'')]),
      (''route_5fstatic_5fdocs_39'', ''route_static_docs'', [(''../route__pages_8h.html#a0139b5c4f19a36ec63ff11dfd388e4d6'', True, ''route_pages.h'')])]"

definition functions_9 :: "search_entry list" where
  "functions_9 =
     [(''session_5fcreate_0'', ''session_create'', [(''../session_8h.html#a8a336feb61114c12fbaeb3356db128d2'', True, ''session.h'')]),
      (''session_5fdestroy_1'', ''session_destroy'', [(''../session_8h.html#a18863e1c97cac02a007f366168fb2a28'', True, ''session.h'')]),
      (''session_5fdestroy_5fall_2'', ''session_destroy_all'', [(''../session_8h.html#a8f7740e9fdf307b5ed8d8c5da3fa5c2b'', True, ''session.h'')]),
      (''session_5finit_3'', ''session_init'', [(''../session_8h.html#a18e9bc4290ef62eb372782a0f83747b6'', True, ''session.h'')]),
      (''session_5fverify_4'', ''session_verify'', [(''../session_8h.html#ab97164533dfe780bb414e712172a07b3'', True, ''session.h'')]),
      (''slab_5fpool_5falloc_5'', ''slab_pool_alloc'', [(''../slab__allocator_8h.html#aae74ef30ad97b6fea9b28bf2f1ed96d3'', True, ''slab_allocator.h'')]),
      (''slab_5fpool_5fdestroy_6'', ''slab_pool_destroy'', [(''../slab__allocator_8h.html#a74d8c490013ba4dd3f5a901d2c8dec9f'', True, ''slab_allocator.h'')]),
      (''slab_5fpool_5ffree_7'', ''slab_pool_free'', [(''../slab__allocator_8h.html#a7eccc2758e6e7d0f8f7b262549b72091'', True, ''slab_allocator.h'')]),
      (''slab_5fpool_5finit_8'', ''slab_pool_init'', [(''../slab__allocator_8h.html#afa4512d2d50f3cbe6040d88dab851536'', True, ''slab_allocator.h'')]),
      (''submit_5ferror_9'', ''submit_error'', [(''../route__helpers_8h.html#af5dc8bcda72cebe9ac09bf419e223c6f'', True, ''route_helpers.h'')])]"

definition functions_a :: "search_entry list" where
  "functions_a =
     [(''tpl_5fget_0'', ''tpl_get'', [(''../template_8h.html#a3c06a6a3f524afd1ab3f7c40e221fb46'', True, ''template.h'')]),
      (''tpl_5fload_5ffiles_1'', ''tpl_load_files'', [(''../template_8h.html#ab8c95f914b1f67dda9f8a783d7956793'', True, ''template.h'')]),
      (''tpl_5frender_2'', ''tpl_render'', [(''../template_8h.html#acf1d3a49a5a1e4f3c175b8ea357511f7'', True, ''template.h'')]),
      (''tpl_5funload_5fall_3'', ''tpl_unload_all'', [(''../template_8h.html#a7da43e8729425954e645460d1944d33b'', True, ''template.h'')])]"

definition functions_b :: "search_entry list" where
  "functions_b =
     [(''user_5fauthenticate_0'', ''user_authenticate'', [(''../user_8h.html#a32de8d52d212f6bedaa51fe0665cde33'', True, ''user.h'')]),
      (''user_5fget_5fby_5fid_1'', ''user_get_by_id'', [(''../user_8h.html#a02d7579c8fee35596170643b1cd88e2a'', True, ''user.h'')]),
      (''user_5fget_5foperators_5fjson_2'', ''user_get_operators_json'', [(''../user_8h.html#afe0b578dea4d2a7df1c9d5f33189370e'', True, ''user.h'')]),
      (''user_5fis_5fadmin_3'', ''user_is_admin'', [(''../user_8h.html#a6ffdb13499ffc2251fc7478c67cf0ff8'', True, ''user.h'')]),
      (''user_5fis_5foperator_4'', ''user_is_operator'', [(''../user_8h.html#aed7c22147ce4c65911d82fb74499b82f'', True, ''user.h'')]),
      (''user_5fregister_5'', ''user_register'', [(''../user_8h.html#abe65647e5d1508831c0d869bbbb0de8f'', True, ''user.h'')]),
      (''user_5fregister_5fadmin_6'', ''user_register_admin'', [(''../user_8h.html#afe5668681db3f70ea58af1d77c7f0c51'', True, ''user.h'')]),
      (''user_5fsetup_5ftable_7'', ''user_setup_table'', [(''../user_8h.html#a0e0856cab4509b2dccef981ec43366f2'', True, ''user.h'')])]"

section \<open>Variables\<close>

definition variables_0 :: "search_entry list" where
  "variables_0 =
     [(''assignedat_0'', ''assignedAt'', [(''../structReport.html#a73ead0fd592e03f807c5a12317eac062'', True, ''Report'')]),
      (''assignedto_1'', ''assignedTo'', [(''../structReport.html#accc340e13f75d3731a54cde567de0fc5'', True, ''Report'')]),
      (''authorid_2'', ''authorId'', [(''../structReport.html#affffc951f80c67f2357fc791f33b9c37'', True, ''Report'')])]"

definition variables_1 :: "search_entry list" where
  "variables_1 =
     [(''blocksize_0'', ''blockSize'', [(''../structSlabPool.html#affe6aa5d75d5227ee111486002e32b80'', True, ''SlabPool'')]),
      (''body_1'', ''body'', [(''../structHttpRequest.html#a3c5c3295158feddf484ab32fc9851b8b'', True, ''HttpRequest::body''), (''../structHttpResponse.html#a48b139a9e8a5385630d90c3ffa0a1666'', True, ''HttpResponse::body'')]),
      (''bodylen_2'', ''bodylen'', [(''../structHttpRequest.html#a54d5957e981adf59e19b6746ba502567'', True, ''HttpRequest::bodyLen''), (''../structHttpResponse.html#aa22debb698288bbb79e49bda3630cbda'', True, ''HttpResponse::bodyLen'')]),
      (''bounds_3'', ''bounds'', [(''../structMapVars.html#a2a738ccaeb6008b89712d143dac0df81'', True, ''MapVars'')]),
      (''buffer_4'', ''buffer'', [(''../structClientCtx.html#a3efd8aa4e8f096919c396384d484f529'', True, ''ClientCtx'')])]"

definition variables_2 :: "search_entry list" where
  "variables_2 =
     [(''category_0'', ''category'', [(''../structReport.html#a1550ca6d6f0f3aafd3de4932e71f3ad3'', True, ''Report'')]),
      (''centroidlon_1'', ''centroidLon'', [(''../structCityGeo.html#a50423c53a2d7aec1793de7337b643305'', True, ''CityGeo'')]),
      (''chunkcapacity_2'', ''chunkCapacity'', [(''../structSlabPool.html#aec7465baaf178d33699f0c71678bd0fd'', True, ''SlabPool'')]),
      (''chunkshead_3'', ''chunksHead'', [(''../structSlabPool.html#a6a1b2a4c4422e1085e549fd4a8e31f22'', True, ''SlabPool'')]),
      (''city_4'', ''city'', [(''../structReport.html#aeb5361ffd4bd5465f2116cbc9afed95d'', True, ''Report::city''), (''../structUser.html#af4508305291c7b0fb67a4fac544fd7fd'', True, ''User::city'')]),
      (''closing_5'', ''closing'', [(''../structClientCtx.html#a0aabecb6dbfd895462b06fc04bd35e53'', True, ''ClientCtx'')]),
      (''countcurr_6'', ''countCurr'', [(''../structRateEntry.html#a82ad91e11d2b4ab9b5316348f8380d1c'', True, ''RateEntry'')]),
      (''countprev_7'', ''countPrev'', [(''../structRateEntry.html#a2f7c3181f86e918d165717ca6c07fdc7'', True, ''RateEntry'')]),
      (''createdat_8'', ''createdat'', [(''../structReport.html#af08bd09273f1f177200b0a0bda61c220'', True, ''Report::createdAt''), (''../structSession.html#a38397fcda4910caae61ead2708a1f8a7'', True, ''Session::createdAt'')])]"

definition variables_3 :: "search_entry list" where
  "variables_3 =
     [(''description_0'', ''description'', [(''../structReport.html#a700ec009122d541fdde74f3c9802efee'', True, ''Report'')])]"

definition variables_4 :: "search_entry list" where
  "variables_4 =
     [(''feedback_0'', ''feedback'', [(''../structReport.html#a9bb48ff8dcebb3de97579c23059801a3'', True, ''Report'')])]"

definition variables_5 :: "search_entry list" where
  "variables_5 =
     [(''handle_0'', ''handle'', [(''../structClientCtx.html#ad9aedd4468162aa7a2bca1ea6d3124f0'', True, ''ClientCtx'')]),
      (''handler_1'', ''handler'', [(''../structRoute.html#a633dd38989bcc3748fc4dfd1d3dec84c'', True, ''Route'')]),
      (''headers_2'', ''headers'', [(''../structHttpRequest.html#a132762762601c88ac5ae34e005791983'', True, ''HttpRequest'')])]"

definition variables_6 :: "search_entry list" where
  "variables_6 =
     [(''internalbsize_0'', ''internalBsize'', [(''../structSlabPool.html#ae32e069b240ea38919db7ab768a2b059'', True, ''SlabPool'')])]"

definition variables_7 :: "search_entry list" where
  "variables_7 =
     [(''key_0'', ''key'', [(''../structTplVar.html#a50abf9d8a8d4ff7e3f65799cd48632cd'', True, ''TplVar'')])]"

definition variables_8 :: "search_entry list" where
  "variables_8 =
     [(''lat_0'', ''lat'', [(''../structMapVars.html#aa71d42ede4215ab41765fd0dc581836b'', True, ''MapVars::lat''), (''../structReport.html#a3a8d9b5fa3549af30e13da10adf76031'', True, ''Report::lat'')]),
      (''latmax_1'', ''latMax'', [(''../structCityGeo.html#a9db1bdbd047e75b6cf6806fc0035fb04'', True, ''CityGeo'')]),
      (''location_2'', ''location'', [(''../structHttpResponse.html#a1935db201de71fbbd1319f3b703afd25'', True, ''HttpResponse'')]),
      (''lon_3'', ''lon'', [(''../structMapVars.html#aea8f4be8be20bbb4ee2393013b5769b3'', True, ''MapVars::lon''), (''../structReport.html#ad0d75676a6a119267dca0660c848a5d4'', True, ''Report::lon'')]),
      (''lonmax_4'', ''lonMax'', [(''../structCityGeo.html#a7ae8a4e2cf6ce22bd1c4527bcf89c398'', True, ''CityGeo'')])]"

definition variables_9 :: "search_entry list" where
  "variables_9 =
     [(''method_0'', ''method'', [(''../structHttpRequest.html#a3efbb41c9e3ecf0073354f3e72395ffc'', True, ''HttpRequest::method''), (''../structRoute.html#a631e87ab76cacd2b979337c098e7c64e'', True, ''Route::method'')]),
      (''methodlen_1'', ''methodLen'', [(''../structHttpRequest.html#a0853a6d4d8944486068e012be368a824'', True, ''HttpRequest'')]),
      (''minorversion_2'', ''minorVersion'', [(''../structHttpRequest.html#af1a9e6aca00b0f6ae262ce4add5187b8'', True, ''HttpRequest'')])]"

definition variables_a :: "search_entry list" where
  "variables_a =
     [(''next_0'', ''next'', [(''../structClientCtx.html#a0778f859efe0f1493280cdaae5c6ce18'', True, ''ClientCtx'')]),
      (''numheaders_1'', ''numHeaders'', [(''../structHttpRequest.html#a2c75b566736b74b31a58079397f05a90'', True, ''HttpRequest'')])]"

definition variables_b :: "search_entry list" where
  "variables_b =
     [(''passwordhash_0'', ''passwordHash'', [(''../structUser.html#a9d72cf1c2b880a0e01107e6dc6f08704'', True, ''User'')]),
      (''path_1'', ''path'', [(''../structHttpRequest.html#a7095767bcbc061dd02637cecef0a5815'', True, ''HttpRequest::path''), (''../structRoute.html#a793dd6c314bd207fb6c5431a55bd4e27'', True, ''Route::path'')]),
      (''pathlen_2'', ''pathLen'', [(''../structHttpRequest.html#aa16a2b3d59a72d14eb5160d6b2e205fd'', True, ''HttpRequest'')]),
      (''pendingcloses_3'', ''pendingCloses'', [(''../structClientCtx.html#a9baa961deebf3008778d9da28803d1e5'', True, ''ClientCtx'')]),
      (''prev_4'', ''prev'', [(''../structClientCtx.html#aebd0b4eae284c79037b5eff574465a5a'', True, ''ClientCtx'')])]"

definition variables_c :: "search_entry list" where
  "variables_c =
     [(''reportid_0'', ''reportId'', [(''../structReport.html#a6731bcb1220589ec9684bc6336c4683b'', True, ''Report'')]),
      (''resolvedat_1'', ''resolvedAt'', [(''../structReport.html#aa01d9dcd0dcbb81af624d7b9094581ad'', True, ''Report'')]),
      (''role_2'', ''role'', [(''../structUser.html#ab91e66ddd08d2a0a76790374c2861fb8'', True, ''User'')])]"

definition variables_d :: "search_entry list" where
  "variables_d =
     [(''salt_0'', ''salt'', [(''../structUser.html#a5ac70ab4e8b54d614a82dcefa0f9b270'', True, ''User'')]),
      (''setcookie_1'', ''setCookie'', [(''../structHttpResponse.html#a236993626153428903c3f55400508490'', True, ''HttpResponse'')]),
      (''status_2'', ''status'', [(''../structReport.html#aff8e3a8fc7a1d40d38bde76b0613eefc'', True, ''Report'')]),
      (''statuscode_3'', ''statusCode'', [(''../structHttpResponse.html#af437cbe87aead2a55f49b9c112dfc6af'', True, ''HttpResponse'')])]"

definition variables_e :: "search_entry list" where
  "variables_e =
     [(''timer_0'', ''timer'', [(''../structClientCtx.html#a2c003731dd2f1d69ee3ecf3fa97800b1'', True, ''ClientCtx'')]),
      (''totalread_1'', ''totalRead'', [(''../structClientCtx.html#a3071414cac882166f57669617502b53c'', True, ''ClientCtx'')])]"

definition variables_f :: "search_entry list" where
  "variables_f =
     [(''user_0'', ''user'', [(''../structSession.html#a1274393415abccedad35198eb26929c2'', True, ''Session'')]),
      (''userid_1'', ''userId'', [(''../structUser.html#ad919bd15f70c2c7af21d346432ef3be8'', True, ''User'')]),
      (''username_2'', ''username'', [(''../structUser.html#a35989de0d7ceb8ee42a10716dfab962e'', True, ''User'')])]"

definition variables_10 :: "search_entry list" where
  "variables_10 =
     [(''value_0'', ''value'', [(''../structTplVar.html#ad354a220a8835e35048403513dc6e051'', True, ''TplVar'')])]"

definition variables_11 :: "search_entry list" where
  "variables_11 =
     [(''windowstarttime_0'', ''windowStartTime'', [(''../structRateEntry.html#a1da212865339670053b9eb73a17f2db6'', True, ''RateEntry'')])]"

section \<open>Typedefs\<close>

definition typedefs_0 :: "search_entry list" where
  "typedefs_0 =
     [(''dbcursor_0'', ''DbCursor'', [(''../db_8h.html#a97ec9a4ddf0a3357e93af791b0c32f75'', True, ''db.h'')])]"

definition typedefs_1 :: "search_entry list" where
  "typedefs_1 =
     [(''ht_5fforeach_5fcb_0'', ''ht_foreach_cb'', [(''../hash__table_8h.html#a9cf401f8c72c3459d524461e348f2b33'', True, ''hash_table.h'')])]"

definition typedefs_2 :: "search_entry list" where
  "typedefs_2 =
     [(''routehandler_0'', ''RouteHandler'', [(''../route__handler_8h.html#abe2d0197f8ea19235998f79d3a577c8d'', True, ''route_handler.h'')])]"

definition typedefs_3 :: "search_entry list" where
  "typedefs_3 =
     [(''template_0'', ''Template'', [(''../template_8h.html#ae1eceda9d35f6ef989b038cd7d0ac811'', True, ''template.h'')])]"

section \<open>Enums\<close>

definition enums_0 :: "search_entry list" where
  "enums_0 =
     [(''reportcol_0'', ''ReportCol'', [(''../report_8h.html#a8061a7a6fc28209df91f55623d39c30c'', True, ''report.h'')]),
      (''reportstatus_1'', ''ReportStatus'', [(''../report_8h.html#aa93bd0e8b41c682fee30f387eae3bb0f'', True, ''report.h'')])]"

definition enums_1 :: "search_entry list" where
  "enums_1 =
     [(''usercol_0'', ''UserCol'', [(''../user_8h.html#acbc692aa285c92d8f0ad86bf3c51896e'', True, ''user.h'')]),
      (''userrole_1'', ''UserRole'', [(''../user_8h.html#a00dd1c1a522bd6fb15ecc021ffefb775'', True, ''user.h'')])]"

section \<open>Enumvalues\<close>

definition enumvalues_0 :: "search_entry list" where
  "enumvalues_0 =
     [(''role_5fadmin_0'', ''ROLE_ADMIN'', [(''../user_8h.html#a00dd1c1a522bd6fb15ecc021ffefb775ae4a86fdf0e228f87fc50f2f846c7ac41'', True, ''user.h'')])]"

definition enumvalues_1 :: "search_entry list" where
  "enumvalues_1 =
     [(''status_5factive_0'', ''STATUS_ACTIVE'', [(''../report_8h.html#aa93bd0e8b41c682fee30f387eae3bb0faac7e7606c854bc8257d642c3fdd9b318'', True, ''report.h'')]),
      (''status_5fassigned_1'', ''STATUS_ASSIGNED'', [(''../report_8h.html#aa93bd0e8b41c682fee30f387eae3bb0fa9f89f2204c9bdf877641cb54ca486a28'', True, ''report.h'')]),
      (''status_5fin_5fprogress_2'', ''STATUS_IN_PROGRESS'', [(''../report_8h.html#aa93bd0e8b41c682fee30f387eae3bb0fafaf0b6349b8a93b543f64c744e321d5a'', True, ''report.h'')]),
      (''status_5fresolved_3'', ''STATUS_RESOLVED'', [(''../report_8h.html#aa93bd0e8b41c682fee30f387eae3bb0fa07c90a2dc659a90f024caa9f34ccde32'', True, ''report.h'')])]"

section \<open>Defines\<close>

definition defines_0 :: "search_entry list" where
  "defines_0 =
     [(''cookie_5fmax_0'', ''COOKIE_MAX'', [(''../http__types_8h.html#a46194fa0a816b64112333fc33f4a7b38'', True, ''http_types.h'')])]"

definition defines_1 :: "search_entry list" where
  "defines_1 =
     [(''http_5fmax_5fheaders_0'', ''HTTP_MAX_HEADERS'', [(''../http__types_8h.html#ae25acc386a279de3461e5881633c1402'', True, ''http_types.h'')])]"

definition defines_2 :: "search_entry list" where
  "defines_2 =
     [(''max_5fnumber_5flen_0'', ''MAX_NUMBER_LEN'', [(''../http__utils_8h.html#a3c88a94d6eeb9664c579245b2a7615aa'', True, ''http_utils.h'')])]"

definition defines_3 :: "search_entry list" where
  "defines_3 =
     [(''session_5fcookie_5fname_0'', ''SESSION_COOKIE_NAME'', [(''../session_8h.html#ae75250ee939c4d711e0bbdf3e5f49d19'', True, ''session.h'')]),
      (''session_5fcreate_5fmax_5ftries_1'', ''SESSION_CREATE_MAX_TRIES'', [(''../session_8h.html#af8397fc211005ca3fbec0dc89371ab57'', True, ''session.h'')]),
      (''session_5fmax_5fage_2'', ''SESSION_MAX_AGE'', [(''../session_8h.html#a634a3655991dc826beedd9fd85cceadb'', True, ''session.h'')])]"

definition defines_4 :: "search_entry list" where
  "defines_4 =
     [(''token_5fhex_5flen_0'', ''TOKEN_HEX_LEN'', [(''../session_8h.html#ab536ae31d9dd9ff7319930cfc634d2f1'', True, ''session.h'')])]"

section \<open>The scripts\<close>

definition search_scripts :: "search_entry list list list" where
  "search_scripts =
     [[all_0, all_1, all_2, all_3, all_4, all_5, all_6, all_7, all_8, all_9, all_a, all_b, all_c, all_d,
       all_e, all_f, all_10, all_11, all_12, all_13],
      [classes_0, classes_1, classes_2, classes_3, classes_4, classes_5, classes_6],
      [files_0, files_1, files_2, files_3, files_4, files_5, files_6, files_7],
      [functions_0, functions_1, functions_2, functions_3, functions_4, functions_5, functions_6,
       functions_7, functions_8, functions_9, functions_a, functions_b],
      [variables_0, variables_1, variables_2, variables_3, variables_4, variables_5, variables_6,
       variables_7, variables_8, variables_9, variables_a, variables_b, variables_c, variables_d,
       variables_e, variables_f, variables_10, variables_11],
      [typedefs_0, typedefs_1, typedefs_2, typedefs_3],
      [enums_0, enums_1],
      [enumvalues_0, enumvalues_1],
      [defines_0, defines_1, defines_2, defines_3, defines_4]]"

end
