(* ===== verification/DoxSearchDataSpec.thy ===== *)
theory DoxSearchDataSpec
  imports DoxBoxSpec DoxSearchData
begin

text \<open>
  The generated search index fits the search box: every symbol is in the script that the box loads for its
  first letter and its row is shown for every beginning of its name.
\<close>

section \<open>Units that occur in names\<close>

lemma id_char_units:
  "id_char CHR ''4''" "id_char CHR ''6''" "id_char CHR ''a''" "id_char CHR ''b''" "id_char CHR ''c''"
  "id_char CHR ''d''" "id_char CHR ''e''" "id_char CHR ''f''" "id_char CHR ''g''" "id_char CHR ''h''"
  "id_char CHR ''i''" "id_char CHR ''j''" "id_char CHR ''k''" "id_char CHR ''l''" "id_char CHR ''m''"
  "id_char CHR ''n''" "id_char CHR ''o''" "id_char CHR ''p''" "id_char CHR ''q''" "id_char CHR ''r''"
  "id_char CHR ''s''" "id_char CHR ''t''" "id_char CHR ''u''" "id_char CHR ''v''" "id_char CHR ''w''"
  "id_char CHR ''x''" "id_char CHR ''y''" "id_char CHR ''z''"
  "\<not> id_char CHR ''_''" "\<not> id_char CHR ''.''"
  by (simp_all add: id_char_def byte_val_def)

lemma lower_units:
  "lower_unit CHR ''A'' = CHR ''a''"
  "lower_unit CHR ''B'' = CHR ''b''"
  "lower_unit CHR ''C'' = CHR ''c''"
  "lower_unit CHR ''D'' = CHR ''d''"
  "lower_unit CHR ''E'' = CHR ''e''"
  "lower_unit CHR ''G'' = CHR ''g''"
  "lower_unit CHR ''H'' = CHR ''h''"
  "lower_unit CHR ''I'' = CHR ''i''"
  "lower_unit CHR ''K'' = CHR ''k''"
  "lower_unit CHR ''L'' = CHR ''l''"
  "lower_unit CHR ''M'' = CHR ''m''"
  "lower_unit CHR ''N'' = CHR ''n''"
  "lower_unit CHR ''O'' = CHR ''o''"
  "lower_unit CHR ''P'' = CHR ''p''"
  "lower_unit CHR ''R'' = CHR ''r''"
  "lower_unit CHR ''S'' = CHR ''s''"
  "lower_unit CHR ''T'' = CHR ''t''"
  "lower_unit CHR ''U'' = CHR ''u''"
  "lower_unit CHR ''V'' = CHR ''v''"
  "lower_unit CHR ''X'' = CHR ''x''"
  "lower_unit CHR ''4'' = CHR ''4''"
  "lower_unit CHR ''6'' = CHR ''6''"
  "lower_unit CHR ''a'' = CHR ''a''"
  "lower_unit CHR ''b'' = CHR ''b''"
  "lower_unit CHR ''c'' = CHR ''c''"
  "lower_unit CHR ''d'' = CHR ''d''"
  "lower_unit CHR ''e'' = CHR ''e''"
  "lower_unit CHR ''f'' = CHR ''f''"
  "lower_unit CHR ''g'' = CHR ''g''"
  "lower_unit CHR ''h'' = CHR ''h''"
  "lower_unit CHR ''i'' = CHR ''i''"
  "lower_unit CHR ''j'' = CHR ''j''"
  "lower_unit CHR ''k'' = CHR ''k''"
  "lower_unit CHR ''l'' = CHR ''l''"
  "lower_unit CHR ''m'' = CHR ''m''"
  "lower_unit CHR ''n'' = CHR ''n''"
  "lower_unit CHR ''o'' = CHR ''o''"
  "lower_unit CHR ''p'' = CHR ''p''"
  "lower_unit CHR ''q'' = CHR ''q''"
  "lower_unit CHR ''r'' = CHR ''r''"
  "lower_unit CHR ''s'' = CHR ''s''"
  "lower_unit CHR ''t'' = CHR ''t''"
  "lower_unit CHR ''u'' = CHR ''u''"
  "lower_unit CHR ''v'' = CHR ''v''"
  "lower_unit CHR ''w'' = CHR ''w''"
  "lower_unit CHR ''x'' = CHR ''x''"
  "lower_unit CHR ''y'' = CHR ''y''"
  "lower_unit CHR ''z'' = CHR ''z''"
  "lower_unit CHR ''_'' = CHR ''_''"
  "lower_unit CHR ''.'' = CHR ''.''"
  by (simp_all add: lower_unit_def byte_val_def) code_simp+

lemma other_units:
  "convertToId (CHR ''_'' # s) = ''_5f'' @ convertToId s" "convertToId (CHR ''.'' # s) = ''_2e'' @ convertToId s"
  "plain_unit CHR ''_''" "plain_unit CHR ''.''"
  by (simp_all add: id_char_def plain_unit_def byte_val_def hex_string.simps hex_unit_def) code_simp+

lemma id_char_plain: "id_char c \<Longrightarrow> plain_unit c" "id_char c \<Longrightarrow> convertToId (c # s) = c # convertToId s"
  by (simp_all add: plain_unit_def)

lemma entry_numbers:
  "show_nat 0 = ''0''"
  "show_nat 1 = ''1''"
  "show_nat 2 = ''2''"
  "show_nat 3 = ''3''"
  "show_nat 4 = ''4''"
  "show_nat 5 = ''5''"
  "show_nat 6 = ''6''"
  "show_nat 7 = ''7''"
  "show_nat 8 = ''8''"
  "show_nat 9 = ''9''"
  "show_nat 10 = ''10''"
  "show_nat 11 = ''11''"
  "show_nat 12 = ''12''"
  "show_nat 13 = ''13''"
  "show_nat 14 = ''14''"
  "show_nat 15 = ''15''"
  "show_nat 16 = ''16''"
  "show_nat 17 = ''17''"
  "show_nat 18 = ''18''"
  "show_nat 19 = ''19''"
  "show_nat 20 = ''20''"
  "show_nat 21 = ''21''"
  "show_nat 22 = ''22''"
  "show_nat 23 = ''23''"
  "show_nat 24 = ''24''"
  "show_nat 25 = ''25''"
  "show_nat 26 = ''26''"
  "show_nat 27 = ''27''"
  "show_nat 28 = ''28''"
  "show_nat 29 = ''29''"
  "show_nat 30 = ''30''"
  "show_nat 31 = ''31''"
  "show_nat 32 = ''32''"
  "show_nat 33 = ''33''"
  "show_nat 34 = ''34''"
  "show_nat 35 = ''35''"
  "show_nat 36 = ''36''"
  "show_nat 37 = ''37''"
  "show_nat 38 = ''38''"
  "show_nat 39 = ''39''"
  "show_nat 40 = ''40''"
  "show_nat 41 = ''41''"
  "show_nat 42 = ''42''"
  "show_nat 43 = ''43''"
  "show_nat 44 = ''44''"
  "show_nat 45 = ''45''"
  "show_nat 46 = ''46''"
  "show_nat 47 = ''47''"
  "show_nat 48 = ''48''"
  "show_nat 49 = ''49''"
  "show_nat 50 = ''50''"
  "show_nat 51 = ''51''"
  "show_nat 52 = ''52''"
  "show_nat 53 = ''53''"
  "show_nat 54 = ''54''"
  "show_nat 55 = ''55''"
  by code_simp+

section \<open>The index\<close>

text \<open>The entries of a script: identifiers made of the name and the place, names that start with the letter.\<close>

definition entry_ok :: "char \<Rightarrow> nat \<times> search_entry \<Rightarrow> bool" where
  "entry_ok c x \<longleftrightarrow> (case x of (j, i, name, rs) \<Rightarrow>
     i = convertToId (toLowerCase name) @ ''_'' @ show_nat j \<and> prefix [c] (toLowerCase name) \<and>
     list_all plain_unit (toLowerCase name))"

definition file_ok :: "char \<Rightarrow> search_entry list \<Rightarrow> bool" where
  "file_ok c data \<longleftrightarrow> list_all (entry_ok c) (enumerate 0 data)"

lemmas unit_simps = id_char_units lower_units other_units id_char_plain

lemma toLowerCase_simps: "toLowerCase [] = []" "toLowerCase (c # s) = lower_unit c # toLowerCase s"
  by (simp_all add: toLowerCase_def)

lemma entry_ok_eval: "entry_ok c (j, i, name, rs) \<longleftrightarrow>
    i = convertToId (toLowerCase name) @ ''_'' @ show_nat j \<and> prefix [c] (toLowerCase name) \<and>
    list_all plain_unit (toLowerCase name)"
  by (simp add: entry_ok_def)

lemma file_ok_eval:
  "file_ok c data \<longleftrightarrow> list_all (entry_ok c) (enumerate 0 data)"
  "list_all P (enumerate j (x # xs)) \<longleftrightarrow> P (j, x) \<and> list_all P (enumerate (j + 1) xs)"
  "list_all P (enumerate j [])"
  by (simp_all add: file_ok_def)

lemmas file_simps = file_ok_eval entry_ok_eval toLowerCase_simps unit_simps entry_numbers

lemma all_ok:
  "file_ok CHR ''a'' all_0" "file_ok CHR ''b'' all_1" "file_ok CHR ''c'' all_2" "file_ok CHR ''d'' all_3"
  "file_ok CHR ''f'' all_4" "file_ok CHR ''g'' all_5" "file_ok CHR ''h'' all_6" "file_ok CHR ''i'' all_7"
  "file_ok CHR ''k'' all_8" "file_ok CHR ''l'' all_9" "file_ok CHR ''m'' all_a" "file_ok CHR ''n'' all_b"
  "file_ok CHR ''o'' all_c" "file_ok CHR ''p'' all_d" "file_ok CHR ''r'' all_e" "file_ok CHR ''s'' all_f"
  "file_ok CHR ''t'' all_10" "file_ok CHR ''u'' all_11" "file_ok CHR ''v'' all_12"
  "file_ok CHR ''w'' all_13"
  by (simp_all add: file_simps
      all_0_def all_1_def all_2_def all_3_def all_4_def all_5_def all_6_def all_7_def all_8_def all_9_def
      all_a_def all_b_def all_c_def all_d_def all_e_def all_f_def all_10_def all_11_def all_12_def
      all_13_def
      del: One_nat_def enumerate_simps convertToId.simps(2))

lemma classes_ok:
  "file_ok CHR ''c'' classes_0" "file_ok CHR ''h'' classes_1" "file_ok CHR ''m'' classes_2"
  "file_ok CHR ''r'' classes_3" "file_ok CHR ''s'' classes_4" "file_ok CHR ''t'' classes_5"
  "file_ok CHR ''u'' classes_6"
  by (simp_all add: file_simps
      classes_0_def classes_1_def classes_2_def classes_3_def classes_4_def classes_5_def classes_6_def
      del: One_nat_def enumerate_simps convertToId.simps(2))

lemma files_ok:
  "file_ok CHR ''c'' files_0" "file_ok CHR ''d'' files_1" "file_ok CHR ''g'' files_2"
  "file_ok CHR ''h'' files_3" "file_ok CHR ''r'' files_4" "file_ok CHR ''s'' files_5"
  "file_ok CHR ''t'' files_6" "file_ok CHR ''u'' files_7"
  by (simp_all add: file_simps
      files_0_def files_1_def files_2_def files_3_def files_4_def files_5_def files_6_def files_7_def
      del: One_nat_def enumerate_simps convertToId.simps(2))

lemma functions_ok:
  "file_ok CHR ''b'' functions_0" "file_ok CHR ''c'' functions_1" "file_ok CHR ''d'' functions_2"
  "file_ok CHR ''g'' functions_3" "file_ok CHR ''h'' functions_4" "file_ok CHR ''l'' functions_5"
  "file_ok CHR ''m'' functions_6" "file_ok CHR ''o'' functions_7" "file_ok CHR ''r'' functions_8"
  "file_ok CHR ''s'' functions_9" "file_ok CHR ''t'' functions_a" "file_ok CHR ''u'' functions_b"
  by (simp_all add: file_simps
      functions_0_def functions_1_def functions_2_def functions_3_def functions_4_def functions_5_def
      functions_6_def functions_7_def functions_8_def functions_9_def functions_a_def functions_b_def
      del: One_nat_def enumerate_simps convertToId.simps(2))

lemma variables_ok:
  "file_ok CHR ''a'' variables_0" "file_ok CHR ''b'' variables_1" "file_ok CHR ''c'' variables_2"
  "file_ok CHR ''d'' variables_3" "file_ok CHR ''f'' variables_4" "file_ok CHR ''h'' variables_5"
  "file_ok CHR ''i'' variables_6" "file_ok CHR ''k'' variables_7" "file_ok CHR ''l'' variables_8"
  "file_ok CHR ''m'' variables_9" "file_ok CHR ''n'' variables_a" "file_ok CHR ''p'' variables_b"
  "file_ok CHR ''r'' variables_c" "file_ok CHR ''s'' variables_d" "file_ok CHR ''t'' variables_e"
  "file_ok CHR ''u'' variables_f" "file_ok CHR ''v'' variables_10" "file_ok CHR ''w'' variables_11"
  by (simp_all add: file_simps
      variables_0_def variables_1_def variables_2_def variables_3_def variables_4_def variables_5_def
      variables_6_def variables_7_def variables_8_def variables_9_def variables_a_def variables_b_def
      variables_c_def variables_d_def variables_e_def variables_f_def variables_10_def variables_11_def
      del: One_nat_def enumerate_simps convertToId.simps(2))

lemma typedefs_ok:
  "file_ok CHR ''d'' typedefs_0" "file_ok CHR ''h'' typedefs_1" "file_ok CHR ''r'' typedefs_2"
  "file_ok CHR ''t'' typedefs_3"
  by (simp_all add: file_simps
      typedefs_0_def typedefs_1_def typedefs_2_def typedefs_3_def
      del: One_nat_def enumerate_simps convertToId.simps(2))

lemma enums_ok:
  "file_ok CHR ''r'' enums_0" "file_ok CHR ''u'' enums_1"
  by (simp_all add: file_simps
      enums_0_def enums_1_def
      del: One_nat_def enumerate_simps convertToId.simps(2))

lemma enumvalues_ok:
  "file_ok CHR ''r'' enumvalues_0" "file_ok CHR ''s'' enumvalues_1"
  by (simp_all add: file_simps
      enumvalues_0_def enumvalues_1_def
      del: One_nat_def enumerate_simps convertToId.simps(2))

lemma defines_ok:
  "file_ok CHR ''c'' defines_0" "file_ok CHR ''h'' defines_1" "file_ok CHR ''m'' defines_2"
  "file_ok CHR ''s'' defines_3" "file_ok CHR ''t'' defines_4"
  by (simp_all add: file_simps
      defines_0_def defines_1_def defines_2_def defines_3_def defines_4_def
      del: One_nat_def enumerate_simps convertToId.simps(2))

lemma distinct_letters: "list_all distinct indexSectionsWithContent"
  by (simp add: indexSectionsWithContent_def)

lemma scripts_ok: "list_all2 (list_all2 file_ok) indexSectionsWithContent search_scripts"
  unfolding indexSectionsWithContent_def search_scripts_def
  by (simp only: list_all2_Cons list_all2_Nil simp_thms all_ok classes_ok files_ok functions_ok variables_ok
      typedefs_ok enums_ok enumvalues_ok defines_ok)

section \<open>Finding a symbol\<close>

lemma index_of_unit: "distinct cs \<Longrightarrow> k < length cs \<Longrightarrow> index_of [cs ! k] cs = Some k"
  by (induction cs arbitrary: k) (auto simp: nth_Cons split: nat.splits)

lemma strip_leading_again: "strip_leading (strip_leading s) = strip_leading s"
  by (simp add: strip_leading_def)

lemma strip_ending_prefix: "prefix (strip_ending s) s"
proof -
  have "suffix (dropWhile (\<lambda>c. c = CHR '' '') (rev s)) (rev s)" by (rule suffix_dropWhile)
  then show ?thesis by (simp add: strip_ending_def suffix_to_prefix)
qed

lemma lower_again: "lower_unit (lower_unit c) = lower_unit c"
  by (auto simp: lower_unit_def)

lemma toLowerCase_again: "toLowerCase (toLowerCase s) = toLowerCase s"
  by (simp add: toLowerCase_def lower_again)

text \<open>What the checks of the scripts say of one entry.\<close>

lemma entry_facts:
  assumes "s < length search_scripts" and "k < length (search_scripts ! s)" and "j < length (search_scripts ! s ! k)"
    and "search_scripts ! s ! k ! j = (i, name, rs)"
  shows "i = convertToId (toLowerCase name) @ ''_'' @ show_nat j" "list_all plain_unit (toLowerCase name)"
    "s < length indexSectionsWithContent" "k < length (indexSectionsWithContent ! s)"
    "prefix [indexSectionsWithContent ! s ! k] (toLowerCase name)" "distinct (indexSectionsWithContent ! s)"
proof -
  show s: "s < length indexSectionsWithContent" using scripts_ok assms(1) by (simp add: list_all2_conv_all_nth)
  have f: "list_all2 file_ok (indexSectionsWithContent ! s) (search_scripts ! s)"
    using scripts_ok assms(1) by (simp add: list_all2_conv_all_nth)
  show k: "k < length (indexSectionsWithContent ! s)" using f assms(2) by (simp add: list_all2_conv_all_nth)
  have "file_ok (indexSectionsWithContent ! s ! k) (search_scripts ! s ! k)"
    using f assms(2) by (simp add: list_all2_conv_all_nth)
  then have "entry_ok (indexSectionsWithContent ! s ! k) (j, i, name, rs)"
    using assms(3,4) unfolding file_ok_def list_all_length by (metis add_0 length_enumerate nth_enumerate_eq)
  then show "i = convertToId (toLowerCase name) @ ''_'' @ show_nat j" "list_all plain_unit (toLowerCase name)"
    "prefix [indexSectionsWithContent ! s ! k] (toLowerCase name)" by (simp_all add: entry_ok_def)
  show "distinct (indexSectionsWithContent ! s)" using distinct_letters s by (simp add: list_all_length)
qed

text \<open>The row of an entry is on show after a search for a beginning of its name.\<close>

lemma entry_row_shown:
  assumes e: "s < length search_scripts" "k < length (search_scripts ! s)" "j < length (search_scripts ! s ! k)"
      "search_scripts ! s ! k ! j = (i, name, rs)"
    and q: "q = toLowerCase (strip_ending (strip_leading v))" "prefix q (toLowerCase name)" "v \<noteq> []"
    and r: "sr_results r = createResults path (search_scripts ! s ! k) (results_element [])"
  shows "map_option display (node_at [j] (sr_results (SearchResults_Search loc v r))) = Some ''block''"
proof -
  let ?nm = "\<lambda>j. toLowerCase (fst (snd (search_scripts ! s ! k ! j)))"
  have "numbered_id (?nm j) (fst (search_scripts ! s ! k ! j))" if "j < length (search_scripts ! s ! k)" for j
  proof -
    obtain i name rs where x: "search_scripts ! s ! k ! j = (i, name, rs)" by (cases "search_scripts ! s ! k ! j")
    from entry_facts(1) [OF e(1,2) that x] x show ?thesis by (auto simp: numbered_id_def toLowerCase_again)
  qed
  moreover have "list_all plain_unit q"
    using entry_facts(2) [OF e] q(2) by (auto simp: list_all_iff dest: set_mono_prefix)
  ultimately have "map_option display (node_at [j] (sr_results (SearchResults_Search loc v r))) =
      Some (if prefix q (?nm j) then ''block'' else ''none'')"
    using search_rows [where nm = ?nm and data = "search_scripts ! s ! k", OF _ q(1) _ q(3) r, of loc] e(3)
    by (simp add: Let_def)
  with e(4) q(2) show ?thesis by simp
qed

text \<open>C18: every symbol of the manual is found. Whatever beginning of its name is typed, in any case and
  with spaces around it, searching a section of the index loads the script of that section which has the
  symbol, and when it arrives the results window is open and the row of the symbol is on show.\<close>

theorem every_symbol_is_found:
  assumes e: "s < length search_scripts" "k < length (search_scripts ! s)" "j < length (search_scripts ! s ! k)"
      "search_scripts ! s ! k ! j = (i, name, rs)"
    and q: "q = toLowerCase (strip_ending (strip_leading (field_value p)))" "q \<noteq> []" "prefix q (toLowerCase name)"
    and p: "searchIndex p = s" "sr_results (results p) = results_element old"
  shows "\<exists>v p1 p2. SearchBox_Search sc p = Inr p1 \<and>
    loads p1 = loads p @ [(resultsPath p @ indexSectionNames ! s @ ''_'' @ hex_string k @ ''.js'', v, True)] \<and>
    p2 = script_loaded sc (length (loads p)) (search_scripts ! s ! k) p1 \<and>
    results_display p2 = ''block'' \<and> map_option display (node_at [j] (sr_results (results p2))) = Some ''block''"
proof -
  define v where "v = strip_leading (field_value p)"
  note f = entry_facts [OF e]
  have t: "v \<noteq> []" using q(1,2) by (auto simp: v_def strip_ending_def toLowerCase_def)
  have "take 1 (strip_ending v) = take 1 v"
    using strip_ending_prefix [of v] q(1,2) by (cases v) (auto simp: prefix_Cons v_def [symmetric] toLowerCase_def)
  moreover have "take 1 q = [indexSectionsWithContent ! s ! k]"
    using f(5) q(2,3) by (cases q; cases "toLowerCase name") auto
  ultimately have "toLowerCase (take 1 v) = [indexSectionsWithContent ! s ! k]"
    unfolding q(1) v_def [symmetric] by (simp add: toLowerCase_def take_map)
  then have idx: "index_of (toLowerCase (take 1 v)) (indexSectionsWithContent ! s) = Some k"
    using index_of_unit [OF f(6,4)] by simp
  define p1 where "p1 = p\<lparr>keyTimeout := 0, loads := loads p @
      [(resultsPath p @ indexSectionNames ! s @ ''_'' @ hex_string k @ ''.js'', v, True)], lastSearchValue := v\<rparr>"
  have s: "SearchBox_Search sc p = Inr p1"
    using idx f(3) p(1) by (simp add: SearchBox_Search_def Let_def v_def [symmetric] p1_def)
  let ?r = "results p\<lparr>sr_results := createResults (resultsPath p) (search_scripts ! s ! k) (results_element []),
      noMatches_display := ''none''\<rparr>"
  have d: "results (script_loaded sc (length (loads p)) (search_scripts ! s ! k) p1) =
      SearchResults_Search (sc_location_query sc) v ?r"
    using p(2) by (simp add: script_loaded_def p1_def handleResults_def Let_def createResults_eq)
  have w: "results_display (script_loaded sc (length (loads p)) (search_scripts ! s ! k) p1) = ''block''"
    by (simp add: script_loaded_def p1_def handleResults_def Let_def)
  have "map_option display (node_at [j] (sr_results (SearchResults_Search (sc_location_query sc) v ?r))) = Some ''block''"
    using e _ q(3) t by (rule entry_row_shown) (simp_all add: q(1) v_def strip_leading_again)
  then have n: "map_option display (node_at [j] (sr_results
      (results (script_loaded sc (length (loads p)) (search_scripts ! s ! k) p1)))) = Some ''block''" unfolding d .
  have l: "loads p1 = loads p @ [(resultsPath p @ indexSectionNames ! s @ ''_'' @ hex_string k @ ''.js'', v, True)]"
    by (simp add: p1_def)
  show ?thesis by (intro exI conjI) (rule s, rule l, rule refl, rule w, rule n)
qed

lemma every_symbol_is_found_witness:
  "\<exists>v p1. SearchBox_Search example_screen ((new_page ''search/'')\<lparr>field_value := '' Report'', searchIndex := 2\<rparr>) = Inr p1 \<and>
     loads p1 = [(''search/files_4.js'', v, True)]"
proof -
  let ?p = "(new_page ''search/'')\<lparr>field_value := '' Report'', searchIndex := 2\<rparr>"
  have f: "search_scripts ! 2 ! 4 = files_4" by (simp add: search_scripts_def)
  have e: "2 < length search_scripts" "4 < length (search_scripts ! 2)" by (simp_all add: search_scripts_def)
  have l: "1 < length (search_scripts ! 2 ! 4)" unfolding f by (simp add: files_4_def)
  obtain i rs where "files_4 ! 1 = (i, ''report.h'', rs)" by (simp add: files_4_def)
  then have x: "search_scripts ! 2 ! 4 ! 1 = (i, ''report.h'', rs)" by (simp only: f)
  have q: "toLowerCase (strip_ending (strip_leading (field_value ?p))) = ''report''"
    "prefix ''report'' (toLowerCase ''report.h'')"
    by (simp_all add: strip_ending_def strip_leading_def toLowerCase_simps lower_units)
  have r: "sr_results (results ?p) = results_element []" by (simp add: new_page_def)
  have h: "resultsPath ?p @ indexSectionNames ! 2 @ ''_'' @ hex_string 4 @ ''.js'' = ''search/files_4.js''" by code_simp
  have s: "searchIndex ?p = 2" "loads ?p = []" by (simp_all add: new_page_def)
  from every_symbol_is_found [OF e l x q(1) [symmetric] _ q(2) s(1) r, of example_screen] h s(2)
  show ?thesis by (simp only: append_Nil list.distinct not_False_eq_True) blast
qed

end
