(* ===== verification/DoxNavtree.thy ===== *)
theory DoxNavtree
  imports DoxDom
begin

text \<open>
  The navigation tree of the manual, \<open>navtree.js\<close>, with the data of \<open>navtreedata.js\<close>: nodes that
  load their children lazily from scripts, the search in the index of pages, and the link kept in the
  local storage.  A node is named by its path below the root object; script loads are pending
  callbacks that an event completes.  Modelled is what the functions decide: the tree, what is expanded and selected,
  the links, what glows and the pending scripts.  The page around the tree is in \<open>DoxNavpage\<close>.
\<close>

section \<open>Paths and links\<close>

definition word_char :: "char \<Rightarrow> bool" where
  "word_char c \<longleftrightarrow> is_digit c \<or> 65 \<le> byte_val c \<and> byte_val c \<le> 90 \<or> 97 \<le> byte_val c \<and> byte_val c \<le> 122 \<or> c = CHR ''_''"

definition slash :: char where
  "slash = CHR 0x2F"

text \<open>The variable that \<open>getData\<close> evaluates.\<close>

definition data_name :: "string \<Rightarrow> string" where
  "data_name varName = map (\<lambda>c. if c = CHR ''-'' then CHR ''_'' else c) (after_last slash varName)"

definition stripPath :: "string \<Rightarrow> string" where
  "stripPath uri = after_last slash uri"

text \<open>\<open>match(/\/d\w\/d\w\w\/$/)\<close> on the directory part.\<close>

definition hashed_dir :: "string \<Rightarrow> bool" where
  "hashed_dir d \<longleftrightarrow>
     (case take 8 (rev d) of
        [s3, c3, c2, d2, s2, c1, d1, s1] \<Rightarrow>
          s1 = slash \<and> d1 = CHR ''d'' \<and> word_char c1 \<and> s2 = slash \<and> d2 = CHR ''d'' \<and> word_char c2 \<and>
          word_char c3 \<and> s3 = slash
      | _ \<Rightarrow> False)"

definition stripPath2 :: "string \<Rightarrow> string" where
  "stripPath2 uri =
     (let d = upto_last slash uri
      in if hashed_dir d then drop (length d - 7) uri else after_last slash uri)"

text \<open>\<open>location.hash.substring(1).replace(/[^\w\-]/g,'')\<close>.\<close>

definition clean_hash :: "string \<Rightarrow> string" where
  "clean_hash s = filter (\<lambda>c. word_char c \<or> c = CHR ''-'') s"

definition hashValue :: "string \<Rightarrow> string" where
  "hashValue hash = clean_hash (drop 1 hash)"

definition hashUrl :: "string \<Rightarrow> string" where
  "hashUrl hash = CHR ''#'' # hashValue hash"

definition path_char :: "char \<Rightarrow> bool" where
  "path_char c \<longleftrightarrow> c \<in> set ''-+&@#%?=~_|!:,.;()'' \<or> c = slash \<or> is_digit c \<or>
     65 \<le> byte_val c \<and> byte_val c \<le> 90 \<or> 97 \<le> byte_val c \<and> byte_val c \<le> 122"

definition pathName :: "string \<Rightarrow> string" where
  "pathName pathname = filter path_char pathname"

text \<open>\<open>s.split('#')[0]\<close> and \<open>s.split('#')[1]\<close>.\<close>

definition before_hash :: "string \<Rightarrow> string" where
  "before_hash s = takeWhile (\<lambda>c. c \<noteq> CHR ''#'') s"

definition after_hash :: "string \<Rightarrow> string option" where
  "after_hash s =
     (case dropWhile (\<lambda>c. c \<noteq> CHR ''#'') s of [] \<Rightarrow> None | _ # r \<Rightarrow> Some (before_hash r))"

text \<open>\<open>replace('#', ':')\<close>: the first one.\<close>

fun colon_for_hash :: "string \<Rightarrow> string" where
  "colon_for_hash [] = []"
| "colon_for_hash (c # s) = (if c = CHR ''#'' then CHR '':'' # s else c # colon_for_hash s)"

text \<open>\<open>a <= b\<close> on strings.\<close>

fun string_le :: "string \<Rightarrow> string \<Rightarrow> bool" where
  "string_le [] t = True"
| "string_le (c # s) [] = False"
| "string_le (c # s) (d # t) = (byte_val c < byte_val d \<or> c = d \<and> string_le s t)"

section \<open>Data\<close>

text \<open>\<open>[text, link, children]\<close>, where the children are null, the name of a script or an array.\<close>

datatype nav_entry = NavEntry (ne_text: string) (ne_link: "string option") (ne_children: children_data)
  and children_data = NoChildren | ChildScript string | ChildList "nav_entry list"

definition leaf_entry :: "string \<Rightarrow> string \<Rightarrow> nav_entry" where
  "leaf_entry t l = NavEntry t (Some l) NoChildren"

definition NAVTREE :: "nav_entry list" where
  "NAVTREE =
     [NavEntry ''SegnalaCity Backend'' (Some ''index.html'') (ChildList
       [NavEntry ''Strutture dati'' (Some ''annotated.html'') (ChildList
          [NavEntry ''Strutture dati'' (Some ''annotated.html'') (ChildScript ''annotated_dup''),
           leaf_entry ''Indice delle strutture dati'' ''classes.html'',
           NavEntry ''Campi dei dati'' (Some ''functions.html'') (ChildList
             [leaf_entry ''Tutto'' ''functions.html'', leaf_entry ''Variabili'' ''functions_vars.html''])]),
        NavEntry ''File'' (Some ''files.html'') (ChildList
          [NavEntry ''Elenco dei file'' (Some ''files.html'') (ChildScript ''files_dup''),
           NavEntry ''Elementi globali'' (Some ''globals.html'') (ChildList
             [leaf_entry ''Tutto'' ''globals.html'', leaf_entry ''Funzioni'' ''globals_func.html'',
              leaf_entry ''Ridefinizioni di tipo (typedef)'' ''globals_type.html'',
              leaf_entry ''Tipi enumerati (enum)'' ''globals_enum.html'',
              leaf_entry ''Valori del tipo enumerato'' ''globals_eval.html'',
              leaf_entry ''Definizioni'' ''globals_defs.html''])])])]"

definition NAVTREEINDEX :: "string list" where
  "NAVTREEINDEX = [''annotated.html'']"

definition SYNCONMSG :: string where
  "SYNCONMSG = ''cliccare per disabilitare la sincronizzazione del pannello''"

definition SYNCOFFMSG :: string where
  "SYNCOFFMSG = ''cliccare per abilitare la sincronizzazione del pannello''"

section \<open>Nodes\<close>

record node_info =
  ni_text :: string
  ni_data :: children_data
  ni_visited :: bool
  ni_depth :: nat
  ni_relpath :: string
  ni_isLast :: bool
  ni_level :: int
  ni_indent :: int
  ni_toggle :: bool
  ni_link :: "string option"
  ni_class :: "string option"
  ni_href :: "string option"
  ni_expanded :: bool
  ni_display :: string
  ni_arrow :: string

datatype nav_tree = Node (info: node_info) (subs: "nav_tree list")

definition arrowDown :: string where
  "arrowDown = ''&#9660;''"

definition arrowRight :: string where
  "arrowRight = ''&#9658;''"

fun node_of :: "nat list \<Rightarrow> nav_tree \<Rightarrow> nav_tree option" where
  "node_of [] t = Some t"
| "node_of (i # p) (Node x ts) = (if i < length ts then node_of p (ts ! i) else None)"

fun change_at :: "nat list \<Rightarrow> (nav_tree \<Rightarrow> nav_tree) \<Rightarrow> nav_tree \<Rightarrow> nav_tree" where
  "change_at [] f t = f t"
| "change_at (i # p) f (Node x ts) =
     (if i < length ts then Node x (ts[i := change_at p f (ts ! i)]) else Node x ts)"

text \<open>A childrenData that counts as true: an array, or a name that is not empty.\<close>

definition has_children :: "children_data \<Rightarrow> bool" where
  "has_children d = (case d of NoChildren \<Rightarrow> False | ChildScript v \<Rightarrow> v \<noteq> [] | ChildList _ \<Rightarrow> True)"

text \<open>The class and target of the link of a node, on the page \<open>page\<close>.\<close>

definition node_anchor :: "string \<Rightarrow> string \<Rightarrow> string option \<Rightarrow> children_data \<Rightarrow> string option \<times> string option" where
  "node_anchor page relpath link d =
     (if link \<noteq> None \<and> link \<noteq> Some []
      then let l = the link;
               abso = (hd l = CHR ''^'');
               url = (if abso then tl l else relpath @ l);
               l = (if abso then url else l)
           in (Some (stripPath (colon_for_hash l)),
               Some (if CHR ''#'' \<in> set l \<and> stripPath page = stripPath (before_hash l)
                     then ''javascript:void(0)'' else url))
      else if d \<noteq> NoChildren then (Some ''nolink'', Some ''javascript:void(0)'')
      else (None, None))"

text \<open>The link that a click on it keeps.\<close>

definition node_link :: "string option \<Rightarrow> string option" where
  "node_link link =
     (case link of None \<Rightarrow> None | Some l \<Rightarrow> if l = [] then None else Some (if hd l = CHR ''^'' then tl l else l))"

text \<open>\<open>createIndent\<close>: the level counts the parents, the arrow or the blank in its place is indented.\<close>

definition createIndent :: "nat list \<Rightarrow> children_data \<Rightarrow> int \<times> int \<times> bool \<times> string" where
  "createIndent p d =
     (let level = int (length p)
      in if has_children d then (level, 16 * level, True, arrowRight)
         else (level, 16 * (level + 1), False, ''&#160;''))"

text \<open>\<open>newNode\<close> below the node \<open>po\<close> at path \<open>p\<close>.\<close>

definition newNode :: "string \<Rightarrow> nat list \<Rightarrow> node_info \<Rightarrow> nav_entry \<Rightarrow> bool \<Rightarrow> nav_tree" where
  "newNode page p po e lst =
     (let d = ne_children e; a = node_anchor page (ni_relpath po) (ne_link e) d;
          (level, indent, toggle, arrow) = createIndent p d
      in Node \<lparr>ni_text = ne_text e, ni_data = d, ni_visited = False, ni_depth = ni_depth po + 1,
               ni_relpath = ni_relpath po, ni_isLast = lst, ni_level = level, ni_indent = indent,
               ni_toggle = toggle, ni_link = node_link (ne_link e), ni_class = fst a, ni_href = snd a,
               ni_expanded = False, ni_display = ''none'', ni_arrow = arrow\<rparr> [])"

text \<open>\<open>getNode\<close>; the node is taken out of the document while its children are made.\<close>

definition getNode :: "string \<Rightarrow> nat list \<Rightarrow> nav_tree \<Rightarrow> nav_tree" where
  "getNode page p t =
     (case t of Node x ts \<Rightarrow>
       (case ni_data x of
          ChildList es \<Rightarrow>
            Node (x\<lparr>ni_visited := True\<rparr>)
              (map (\<lambda>(i, e). newNode page p x e (int i = int (length es) - 1)) (enumerate 0 es) @ drop (length es) ts)
        | _ \<Rightarrow> t))"

text \<open>\<open>removeToInsertLater\<close> and the function it returns, on the children of the parent.\<close>

fun next_sibling :: "'a \<Rightarrow> 'a list \<Rightarrow> 'a option" where
  "next_sibling x [] = None"
| "next_sibling x (y # ys) = (if y = x then (case ys of [] \<Rightarrow> None | z # _ \<Rightarrow> Some z) else next_sibling x ys)"

fun insert_before :: "'a \<Rightarrow> 'a \<Rightarrow> 'a list \<Rightarrow> 'a list" where
  "insert_before x y [] = [x]"
| "insert_before x y (z # zs) = (if z = y then x # z # zs else z # insert_before x y zs)"

definition removeToInsertLater :: "'a \<Rightarrow> 'a list \<Rightarrow> 'a list \<times> ('a list \<Rightarrow> 'a list)" where
  "removeToInsertLater x children =
     (remove1 x children,
      \<lambda>ys. case next_sibling x children of Some y \<Rightarrow> insert_before x y ys | None \<Rightarrow> ys @ [x])"

section \<open>State\<close>

type_synonym page_index = "string \<Rightarrow> nat list option"

text \<open>What a loaded script continues with.\<close>

datatype nav_callback =
    CbExpand "nat list" string bool
  | CbShow "nat list" string nat string
  | CbShowChild "nat list" "nat list" string nat string
  | CbIndex nat string string

text \<open>An element of the page that an anchor names: the classes of its parent and whether that is a header.  What glows is
  the element after it, or its parent or grandparent, the rows whose class ends in the anchor, or the parent of a line
  number.\<close>

record anchor =
  an_classes :: "string list"
  an_header :: bool

datatype glow = GlowRows string | GlowGrandparent string | GlowParent string | GlowNext string | GlowLine string

record nav =
  nv_toroot :: string
  nv_root :: nav_tree
  nv_breadcrumbs :: "nat list"
  nv_pending :: "(string \<times> nav_callback) list"
  nv_selected :: "nat list list"
  nv_focus :: "nat list option"
  nv_indices :: "nat \<Rightarrow> page_index option"
  nv_sync :: bool
  nv_storage :: "string option"
  nv_supported :: bool
  nv_pathname :: string
  nv_hash :: string
  nv_anchors :: "string \<Rightarrow> anchor option"
  nv_glow :: "(glow \<times> nat) list"
  nv_header :: "nat option"
  nv_sync_top :: nat
  nv_centered :: "nat list option"

text \<open>\<open>storeLink\<close>, \<open>deleteLink\<close> and \<open>cachedLink\<close>; a link that was never stored reads as null.\<close>

definition storeLink :: "string \<Rightarrow> nav \<Rightarrow> nav" where
  "storeLink link o1 = (if \<not> nv_sync o1 \<and> nv_supported o1 then o1\<lparr>nv_storage := Some link\<rparr> else o1)"

definition deleteLink :: "nav \<Rightarrow> nav" where
  "deleteLink o1 = (if nv_supported o1 then o1\<lparr>nv_storage := Some []\<rparr> else o1)"

definition cachedLink :: "nav \<Rightarrow> string option" where
  "cachedLink o1 = (if nv_supported o1 then nv_storage o1 else Some [])"

definition toggleSyncButton :: "nav \<Rightarrow> nav" where
  "toggleSyncButton o1 =
     (if nv_sync o1
      then (let o1 = o1\<lparr>nv_sync := False\<rparr>
            in storeLink (stripPath2 (pathName (nv_pathname o1)) @ hashUrl (nv_hash o1)) o1)
      else deleteLink (o1\<lparr>nv_sync := True\<rparr>))"

definition getScript :: "string \<Rightarrow> nav_callback \<Rightarrow> nav \<Rightarrow> nav" where
  "getScript name cb o1 = o1\<lparr>nv_pending := nv_pending o1 @ [(name, cb)]\<rparr>"

definition open_node :: "node_info \<Rightarrow> node_info" where
  "open_node x = x\<lparr>ni_expanded := True, ni_display := ''block'', ni_arrow := arrowDown\<rparr>"

definition open_at :: "string \<Rightarrow> nat list \<Rightarrow> nav_tree \<Rightarrow> nav_tree" where
  "open_at page p t =
     (let t = (if ni_visited (info t) then t else getNode page p t) in Node (open_node (info t)) (subs t))"

definition expandNode :: "nat list \<Rightarrow> bool \<Rightarrow> nav \<Rightarrow> nav" where
  "expandNode p setFocus o1 =
     (case node_of p (nv_root o1) of
        None \<Rightarrow> o1
      | Some t \<Rightarrow>
          if has_children (ni_data (info t)) \<and> \<not> ni_expanded (info t)
          then (case ni_data (info t) of
                  ChildScript v \<Rightarrow> getScript (ni_relpath (info t) @ v) (CbExpand p v setFocus) o1
                | _ \<Rightarrow>
                    let o1 = o1\<lparr>nv_root := change_at p (open_at (pathName (nv_pathname o1)) p) (nv_root o1)\<rparr>
                    in if setFocus then o1\<lparr>nv_focus := Some p\<rparr> else o1)
          else o1)"

text \<open>The nodes with their paths, in document order.\<close>

primrec all_nodes :: "nav_tree \<Rightarrow> (nat list \<times> node_info) list" where
  "all_nodes (Node x ts) =
     ([], x) # concat (map (\<lambda>(i, l). map (\<lambda>(p, y). (i # p, y)) l) (enumerate 0 (map all_nodes ts)))"

text \<open>The links below the tree whose class ends in the page and the anchor.\<close>

definition anchor_links :: "string \<Rightarrow> nav \<Rightarrow> nat list list" where
  "anchor_links hash o1 =
     (let link = stripPath (pathName (nv_pathname o1)) @ '':'' @ drop 1 hash
      in if hash \<noteq> []
         then map fst (filter (\<lambda>(p, x). p \<noteq> [] \<and> (case ni_class x of Some c \<Rightarrow> suffix link c | None \<Rightarrow> False))
                         (all_nodes (nv_root o1)))
         else [])"

text \<open>\<open>glowEffect\<close> and \<open>highlightAnchor\<close>, for the anchor of the address of the page.\<close>

definition glowEffect :: "glow \<Rightarrow> nat \<Rightarrow> nav \<Rightarrow> nav" where
  "glowEffect n duration o1 = o1\<lparr>nv_glow := nv_glow o1 @ [(n, duration)]\<rparr>"

definition highlightAnchor :: "nav \<Rightarrow> nav" where
  "highlightAnchor o1 =
     (let aname = hashValue (nv_hash o1)
      in case nv_anchors o1 aname of
           None \<Rightarrow> o1
         | Some a \<Rightarrow>
             if an_classes a = [''memItemLeft''] then glowEffect (GlowRows aname) 300 o1
             else if an_classes a = [''fieldname''] then glowEffect (GlowGrandparent aname) 1000 o1
             else if an_classes a = [''fieldtype''] then glowEffect (GlowGrandparent aname) 1000 o1
             else if an_header a then glowEffect (GlowParent aname) 1000 o1
             else glowEffect (GlowNext aname) 1000 o1)"

text \<open>\<open>showRoot\<close> scrolls the tree to \<open>#selected\<close>, the first such element in the document.\<close>

fun path_less :: "nat list \<Rightarrow> nat list \<Rightarrow> bool" where
  "path_less p [] = False"
| "path_less [] (j # q) = True"
| "path_less (i # p) (j # q) = (i < j \<or> i = j \<and> path_less p q)"

fun first_path :: "nat list list \<Rightarrow> nat list option" where
  "first_path [] = None"
| "first_path (p # ps) = (case first_path ps of None \<Rightarrow> Some p | Some q \<Rightarrow> Some (if path_less q p then q else p))"

definition showRoot :: "nav \<Rightarrow> nav" where
  "showRoot o1 = (case first_path (nv_selected o1) of None \<Rightarrow> o1 | Some p \<Rightarrow> o1\<lparr>nv_centered := Some p\<rparr>)"

text \<open>\<open>nv_header\<close> is the height of \<open>#top\<close> on pages where \<open>page_layout\<close> is 1; the first item is the one at \<open>[0]\<close>.\<close>

definition sync_top :: "nav \<Rightarrow> nat" where
  "sync_top o1 =
     5 + (case nv_header o1 of None \<Rightarrow> 0 | Some h \<Rightarrow> h) + (if [0] \<in> set (nv_selected o1) then 25 else 0)"

definition selectAndHighlight :: "string \<Rightarrow> nat list option \<Rightarrow> nav \<Rightarrow> nav" where
  "selectAndHighlight hash n o1 =
     (let found = anchor_links hash o1;
          o1 = (if found \<noteq> [] then highlightAnchor (o1\<lparr>nv_selected := nv_selected o1 @ found\<rparr>)
                else (case n of None \<Rightarrow> o1 | Some p \<Rightarrow> o1\<lparr>nv_selected := nv_selected o1 @ [p]\<rparr>))
      in showRoot (o1\<lparr>nv_sync_top := sync_top o1\<rparr>))"

text \<open>\<open>stripPath(o.toroot.replace(/\..+$/, ''))\<close>: without what follows the first dot that is not at the end.\<close>

fun drop_dot_suffix :: "string \<Rightarrow> string" where
  "drop_dot_suffix [] = []"
| "drop_dot_suffix (c # s) = (if c = CHR ''.'' \<and> s \<noteq> [] then [] else c # drop_dot_suffix s)"

definition opens_target :: "nav \<Rightarrow> bool" where
  "opens_target o1 \<longleftrightarrow> stripPath (drop_dot_suffix (nv_toroot o1)) \<in> {''index'', ''pages'', ''search''}"

text \<open>\<open>showNode\<close> on the node at \<open>p\<close>, with the breadcrumbs from \<open>index\<close> on.\<close>

fun show_from :: "nat list \<Rightarrow> nat \<Rightarrow> string \<Rightarrow> nat list \<Rightarrow> nav \<Rightarrow> nav" where
  "show_from p index hash crumbs o1 =
     (case node_of p (nv_root o1) of
        None \<Rightarrow> selectAndHighlight hash None o1
      | Some t \<Rightarrow>
          if \<not> has_children (ni_data (info t)) then selectAndHighlight hash None o1
          else (case ni_data (info t) of
                  ChildScript v \<Rightarrow> getScript (ni_relpath (info t) @ v) (CbShow p v index hash) o1
                | _ \<Rightarrow>
                    let o1 = o1\<lparr>nv_root := change_at p (open_at (pathName (nv_pathname o1)) p) (nv_root o1)\<rparr>
                    in case crumbs of
                         [] \<Rightarrow> o1
                       | c # cs \<Rightarrow>
                           if cs \<noteq> [] then show_from (p @ [c]) (index + 1) hash cs o1
                           else (case node_of (p @ [c]) (nv_root o1) of
                                   None \<Rightarrow> o1
                                 | Some n \<Rightarrow>
                                     (case ni_data (info n) of
                                        ChildScript v \<Rightarrow>
                                          getScript (ni_relpath (info n) @ v) (CbShowChild p (p @ [c]) v index hash) o1
                                      | _ \<Rightarrow>
                                          selectAndHighlight hash (Some (p @ [c]))
                                            (if opens_target o1 then expandNode (p @ [c]) False o1 else o1)))))"

definition showNode :: "nat list \<Rightarrow> nat \<Rightarrow> string \<Rightarrow> nav \<Rightarrow> nav" where
  "showNode p index hash o1 = show_from p index hash (drop index (nv_breadcrumbs o1)) o1"

definition index_page :: string where
  "index_page = (case NAVTREE of NavEntry _ (Some l) _ # _ \<Rightarrow> l | _ \<Rightarrow> [])"

text \<open>\<open>gotoNode\<close>: \<open>$.extend\<close> copies a missing entry as the empty array, which counts as true.\<close>

definition gotoNode :: "nat \<Rightarrow> string \<Rightarrow> string \<Rightarrow> nav \<Rightarrow> nav" where
  "gotoNode subIndex root hash o1 =
     (case nv_indices o1 subIndex of
        None \<Rightarrow> o1
      | Some idx \<Rightarrow>
          let nti = (case idx (root @ hash) of Some b \<Rightarrow> Some b | None \<Rightarrow> idx root);
              breadcrumbs = (case nti of Some b \<Rightarrow> b | None \<Rightarrow> [])
          in showNode [] 0 hash (o1\<lparr>nv_breadcrumbs := 0 # breadcrumbs\<rparr>))"

text \<open>\<open>match(/^#l\d+$/)\<close>.\<close>

definition line_hash :: "string \<Rightarrow> bool" where
  "line_hash h \<longleftrightarrow> prefix ''#l'' h \<and> drop 2 h \<noteq> [] \<and> list_all is_digit (drop 2 h)"

text \<open>\<open>i=-1; while (NAVTREEINDEX[i+1]<=url) i++\<close>, as the number of steps.\<close>

fun index_loop :: "string list \<Rightarrow> string \<Rightarrow> nat" where
  "index_loop [] url = 0"
| "index_loop (x # xs) url = (if string_le x url then Suc (index_loop xs url) else 0)"

text \<open>The address \<open>navTo\<close> goes to: the kept link, if there is one.\<close>

definition nav_address :: "string \<Rightarrow> string \<Rightarrow> nav \<Rightarrow> string \<times> string" where
  "nav_address root hash o1 =
     (case cachedLink o1 of
        None \<Rightarrow> (root, hash)
      | Some link \<Rightarrow>
          if link = [] then (root, hash)
          else (before_hash link, case after_hash link of Some h \<Rightarrow> CHR ''#'' # clean_hash h | None \<Rightarrow> []))"

definition navTo :: "string \<Rightarrow> string \<Rightarrow> string \<Rightarrow> nav \<Rightarrow> nav" where
  "navTo root hash relpath o1 =
     (let (root, hash) = nav_address root hash o1;
          o1 = (if line_hash hash then glowEffect (GlowLine (drop 1 hash)) 1000 o1 else o1);
          hash = (if line_hash hash then [] else hash);
          n = index_loop NAVTREEINDEX (root @ hash);
          i = n - 1;
          root = (if n = 0 then index_page else root)
      in if nv_indices o1 i \<noteq> None then gotoNode i root hash o1
         else getScript (relpath @ ''navtreeindex'' @ show_nat i) (CbIndex i root hash) o1)"

section \<open>Events\<close>

text \<open>A script arrives: the variable it defined is an array of entries or an index of pages.\<close>

datatype script_data = EntryData "nav_entry list" | IndexData page_index

definition set_data :: "nav_entry list \<Rightarrow> nav_tree \<Rightarrow> nav_tree" where
  "set_data es t = Node ((info t)\<lparr>ni_data := ChildList es\<rparr>) (subs t)"

definition collapse :: "nav_tree \<Rightarrow> nav_tree" where
  "collapse t = Node ((info t)\<lparr>ni_expanded := False\<rparr>) (subs t)"

definition callback :: "nav_callback \<Rightarrow> script_data \<Rightarrow> nav \<Rightarrow> nav" where
  "callback cb d o1 =
     (case (cb, d) of
        (CbExpand p v setFocus, EntryData es) \<Rightarrow>
          expandNode p setFocus (o1\<lparr>nv_root := change_at p (set_data es) (nv_root o1)\<rparr>)
      | (CbShow p v index hash, EntryData es) \<Rightarrow>
          showNode p index hash (o1\<lparr>nv_root := change_at p (set_data es) (nv_root o1)\<rparr>)
      | (CbShowChild p q v index hash, EntryData es) \<Rightarrow>
          showNode p index hash (o1\<lparr>nv_root := change_at p collapse (change_at q (set_data es) (nv_root o1))\<rparr>)
      | (CbIndex i root hash, IndexData idx) \<Rightarrow>
          gotoNode i root hash (o1\<lparr>nv_indices := (nv_indices o1)(i := Some idx)\<rparr>)
      | _ \<Rightarrow> o1)"

text \<open>Scripts by the name of the variable \<open>getData\<close> evaluates; the first pending one arrives.\<close>

definition arrive :: "(string \<Rightarrow> script_data option) \<Rightarrow> nav \<Rightarrow> nav" where
  "arrive env o1 =
     (case nv_pending o1 of
        [] \<Rightarrow> o1
      | (name, cb) # rest \<Rightarrow>
          (case env (data_name name) of
             None \<Rightarrow> o1\<lparr>nv_pending := rest\<rparr>
           | Some d \<Rightarrow> callback cb d (o1\<lparr>nv_pending := rest\<rparr>)))"

text \<open>A click on the toggle of a node.\<close>

definition toggle_node :: "nat list \<Rightarrow> nav \<Rightarrow> nav" where
  "toggle_node p o1 =
     (case node_of p (nv_root o1) of
        None \<Rightarrow> o1
      | Some t \<Rightarrow>
          if ni_expanded (info t)
          then o1\<lparr>nv_root := change_at p (\<lambda>t. Node ((info t)\<lparr>ni_display := ''none'', ni_arrow := arrowRight,
                                                         ni_expanded := False\<rparr>) (subs t)) (nv_root o1)\<rparr>
          else expandNode p True o1)"

definition root_info :: "string \<Rightarrow> node_info" where
  "root_info relpath =
     \<lparr>ni_text = [], ni_data = ChildList NAVTREE, ni_visited = False, ni_depth = 0, ni_relpath = relpath,
      ni_isLast = True, ni_level = -1, ni_indent = 0, ni_toggle = False, ni_link = None, ni_class = None, ni_href = None, ni_expanded = False,
      ni_display = [], ni_arrow = arrowRight\<rparr>"

text \<open>\<open>initNavTree\<close> before its first \<open>navTo\<close>: the local storage stays, the button shows whether a link
  is kept.\<close>

definition initNavTree :: "string \<Rightarrow> string \<Rightarrow> nav \<Rightarrow> nav" where
  "initNavTree toroot relpath o1 =
     (let o1 = o1\<lparr>nv_toroot := toroot, nv_root := Node (root_info relpath) []\<rparr>
      in if nv_supported o1 \<and> cachedLink o1 \<noteq> None \<and> cachedLink o1 \<noteq> Some [] then o1\<lparr>nv_sync := False\<rparr> else o1)"

text \<open>The \<open>hashchange\<close> handler; \<open>animation\<close> is the flag \<open>animationInProgress\<close>.\<close>

definition hash_changed :: "string \<Rightarrow> bool \<Rightarrow> nav \<Rightarrow> nav" where
  "hash_changed relpath animation o1 =
     (if length (nv_hash o1) > 1
      then let clslink = stripPath (pathName (nv_pathname o1)) @ '':'' @ hashValue (nv_hash o1);
               marked = (\<exists>p\<in>set (nv_selected o1).
                  case node_of p (nv_root o1) of
                    Some t \<Rightarrow> (case ni_class (info t) of Some c \<Rightarrow> suffix clslink c | None \<Rightarrow> False)
                  | None \<Rightarrow> False)
           in navTo (stripPath2 (pathName (nv_pathname o1))) (hashUrl (nv_hash o1)) relpath
                (if \<not> marked then o1\<lparr>nv_selected := []\<rparr> else o1)
      else if \<not> animation
      then navTo (nv_toroot o1) (hashUrl (nv_hash o1)) relpath (o1\<lparr>nv_selected := []\<rparr>)
      else o1)"

end
