(* ===== verification/DoxNavpage.thy ===== *)
theory DoxNavpage
  imports DoxNavtree Complex_Main
begin

text \<open>
  The page around the navigation tree, the rest of \<open>navtree.js\<close>: the start when the document is ready and when the window
  is loaded, in either order; the button that turns the synchronisation on and off; clicks on the links of the tree and of
  the table of contents; the scrolling to an anchor; and the changes of the address.  What the browser measures when a
  handler runs is an argument, in pixels.
\<close>

section \<open>Scrolling to an anchor\<close>

record layout =
  la_parent_top :: "string \<Rightarrow> rat"
  la_top :: "string \<Rightarrow> rat"
  la_offset :: rat
  la_scrollHeight :: rat
  la_height :: rat

text \<open>An animation in the queue of \<open>#doc-content\<close>, with the address it sets when it is done.\<close>

record motion =
  mo_target :: rat
  mo_time :: rat
  mo_location :: "string option"

text \<open>\<open>pg_object\<close> is what \<open>initNavTree\<close> leaves for the load event, \<open>pg_click\<close> the \<open>relpath\<close> of the button's handler and
  \<open>pg_change\<close> what the handler of \<open>hashchange\<close> knows; \<open>pg_hash_events\<close> counts the events it has not yet had.\<close>

record nav_page =
  pg_nav :: nav
  pg_loaded :: bool
  pg_ready :: bool
  pg_object :: "(string \<times> string \<times> string) option"
  pg_image :: "string option"
  pg_click :: "string option"
  pg_change :: "(string \<times> string) option"
  pg_hash_events :: nat
  pg_animating :: bool
  pg_motions :: "motion list"
  pg_scroll :: rat

definition with_nav :: "(nav \<Rightarrow> nav) \<Rightarrow> nav_page \<Rightarrow> nav_page" where
  "with_nav f pg = pg\<lparr>pg_nav := f (pg_nav pg)\<rparr>"

definition anchor_pos :: "layout \<Rightarrow> nav \<Rightarrow> string \<Rightarrow> rat option" where
  "anchor_pos la o1 aname =
     (case nv_anchors o1 aname of
        None \<Rightarrow> None
      | Some a \<Rightarrow>
          Some (if list_ex (\<lambda>c. c \<in> set (an_classes a)) [''memItemLeft'', ''memtitle'', ''fieldname'', ''fieldtype''] \<or> an_header a
                then la_parent_top la aname else la_top la aname))"

text \<open>A position of 0 counts as none.\<close>

definition gotoAnchor :: "layout \<Rightarrow> string \<Rightarrow> bool \<Rightarrow> nav_page \<Rightarrow> nav_page" where
  "gotoAnchor la aname updateLocation pg =
     (case anchor_pos la (pg_nav pg) (drop 1 aname) of
        None \<Rightarrow> pg
      | Some pos \<Rightarrow>
          if pos = 0 then pg
          else let dist = \<bar>min (pos - la_offset la) (la_scrollHeight la - la_height la - pg_scroll pg)\<bar>
               in pg\<lparr>pg_animating := True,
                     pg_motions := pg_motions pg @
                       [\<lparr>mo_target = pos + pg_scroll pg - la_offset la, mo_time = max 50 (min 500 dist),
                         mo_location = (if updateLocation then Some aname else None)\<rparr>]\<rparr>)"

text \<open>An address with another anchor; the browser reports the change later.\<close>

definition set_location :: "string \<Rightarrow> nav_page \<Rightarrow> nav_page" where
  "set_location aname pg =
     (let h = (if aname = ''#'' then [] else aname)
      in if nv_hash (pg_nav pg) = h then pg
         else (with_nav (\<lambda>o1. o1\<lparr>nv_hash := h\<rparr>) pg)\<lparr>pg_hash_events := pg_hash_events pg + 1\<rparr>)"

text \<open>The first animation is done; the browser keeps the scroll position within the content.\<close>

definition motion_done :: "layout \<Rightarrow> nav_page \<Rightarrow> nav_page" where
  "motion_done la pg =
     (case pg_motions pg of
        [] \<Rightarrow> pg
      | m # ms \<Rightarrow>
          let pg = pg\<lparr>pg_motions := ms, pg_scroll := max 0 (min (mo_target m) (la_scrollHeight la - la_height la))\<rparr>;
              pg = (case mo_location m of Some aname \<Rightarrow> set_location aname pg | None \<Rightarrow> pg)
          in pg\<lparr>pg_animating := False\<rparr>)"

section \<open>The button\<close>

definition quote_char :: char where
  "quote_char = CHR 0x22"

definition sync_html :: "string \<Rightarrow> string \<Rightarrow> string \<Rightarrow> string" where
  "sync_html relpath img msg =
     ''<img src='' @ [quote_char] @ relpath @ img @ [quote_char] @ '' title='' @ [quote_char] @ msg @ [quote_char] @ ''/>''"

definition showSyncOff :: "string \<Rightarrow> string" where
  "showSyncOff relpath = sync_html relpath ''sync_off.png'' SYNCOFFMSG"

definition showSyncOn :: "string \<Rightarrow> string" where
  "showSyncOn relpath = sync_html relpath ''sync_on.png'' SYNCONMSG"

definition click_sync :: "nav_page \<Rightarrow> nav_page" where
  "click_sync pg =
     (case pg_click pg of
        None \<Rightarrow> pg
      | Some relpath \<Rightarrow>
          (with_nav toggleSyncButton pg)
            \<lparr>pg_image := Some (if nv_sync (pg_nav pg) then showSyncOff relpath else showSyncOn relpath)\<rparr>)"

section \<open>The start\<close>

definition has_link :: "string option \<Rightarrow> bool" where
  "has_link l \<longleftrightarrow> l \<noteq> None \<and> l \<noteq> Some []"

text \<open>\<open>initNavTree\<close> from the ready event: the button, then the first \<open>navTo\<close> now or at the load event, and the handler of
  \<open>hashchange\<close>.\<close>

definition page_ready :: "string \<Rightarrow> string \<Rightarrow> nav_page \<Rightarrow> nav_page" where
  "page_ready toroot relpath pg =
     (let pg = with_nav (initNavTree toroot relpath) pg;
          o1 = pg_nav pg;
          url = hashUrl (nv_hash o1);
          pg = (if nv_supported o1
                then pg\<lparr>pg_image := Some (if has_link (cachedLink o1) then showSyncOff relpath else showSyncOn relpath),
                        pg_click := Some relpath\<rparr>
                else pg);
          pg = (if pg_loaded pg then with_nav (showRoot \<circ> navTo toroot url relpath) pg
                else pg\<lparr>pg_object := Some (toroot, url, relpath), pg_ready := True\<rparr>)
      in pg\<lparr>pg_change := Some (toroot, relpath)\<rparr>)"

definition page_load :: "nav_page \<Rightarrow> nav_page" where
  "page_load pg =
     (let pg = (if pg_ready pg
                then (case pg_object pg of
                        Some (toroot, url, relpath) \<Rightarrow> with_nav (showRoot \<circ> navTo toroot url relpath) pg
                      | None \<Rightarrow> pg)
                else pg)
      in pg\<lparr>pg_loaded := True\<rparr>)"

text \<open>A page as the browser gets it: the button has the class \<open>sync\<close>, the local storage is that of the browser.\<close>

definition new_nav :: "string \<Rightarrow> string \<Rightarrow> (string \<Rightarrow> anchor option) \<Rightarrow> nat option \<Rightarrow> string option \<Rightarrow> bool \<Rightarrow> nav" where
  "new_nav pathname hash anchors header storage supported =
     \<lparr>nv_toroot = [], nv_root = Node (root_info []) [], nv_breadcrumbs = [], nv_pending = [], nv_selected = [],
      nv_focus = None, nv_indices = (\<lambda>_. None), nv_sync = True, nv_storage = storage, nv_supported = supported,
      nv_pathname = pathname, nv_hash = hash, nv_anchors = anchors, nv_glow = [],
      nv_header = header, nv_sync_top = 0, nv_centered = None\<rparr>"

definition new_nav_page :: "nav \<Rightarrow> nav_page" where
  "new_nav_page o1 =
     \<lparr>pg_nav = o1, pg_loaded = False, pg_ready = False, pg_object = None, pg_image = None, pg_click = None,
      pg_change = None, pg_hash_events = 0, pg_animating = False, pg_motions = [], pg_scroll = 0\<rparr>"

section \<open>Events\<close>

text \<open>A change of the anchor in the address.\<close>

definition hash_event :: "nav_page \<Rightarrow> nav_page" where
  "hash_event pg =
     (case pg_change pg of
        None \<Rightarrow> pg\<lparr>pg_hash_events := pg_hash_events pg - 1\<rparr>
      | Some (toroot, relpath) \<Rightarrow>
          let top = length (nv_hash (pg_nav pg)) \<le> 1 \<and> \<not> pg_animating pg;
              pg = pg\<lparr>pg_hash_events := pg_hash_events pg - 1, pg_scroll := (if top then 0 else pg_scroll pg)\<rparr>
          in with_nav (hash_changed relpath (pg_animating pg)) pg)"

text \<open>A click on the link of a node: what the handler does and the address the browser then goes to.\<close>

definition click_link :: "layout \<Rightarrow> nat list \<Rightarrow> nav_page \<Rightarrow> nav_page \<times> string option" where
  "click_link la p pg =
     (case node_of p (nv_root (pg_nav pg)) of
        None \<Rightarrow> (pg, None)
      | Some t \<Rightarrow>
          (case ni_link (info t) of
             Some link \<Rightarrow>
               let pg = with_nav (storeLink link) pg
               in (case after_hash link of
                     None \<Rightarrow> pg
                   | Some a \<Rightarrow>
                       gotoAnchor la (CHR ''#'' # a) True
                         (with_nav (\<lambda>o1. if p \<in> set (nv_selected o1) then o1 else o1\<lparr>nv_selected := [p]\<rparr>) pg),
                   if ni_href (info t) = Some ''javascript:void(0)'' then None else ni_href (info t))
           | None \<Rightarrow> (if ni_toggle (info t) then with_nav (toggle_node p) pg else pg, None)))"

text \<open>\<open>div.toc a[href]\<close>: the handler takes the click over.\<close>

definition click_toc :: "layout \<Rightarrow> string \<Rightarrow> nav_page \<Rightarrow> nav_page" where
  "click_toc la aname pg = (if pg_change pg = None then pg else gotoAnchor la aname True pg)"

text \<open>What can happen while the manual is read; \<open>env\<close> has the scripts.  A browser that leaves the page for another keeps its
  local storage.  The start can run once for every page.\<close>

inductive read_step :: "(string \<Rightarrow> script_data option) \<Rightarrow> nav_page \<Rightarrow> nav_page \<Rightarrow> bool" for env where
  ready: "pg_change pg = None \<Longrightarrow> read_step env pg (page_ready toroot relpath pg)"
| load: "\<not> pg_loaded pg \<Longrightarrow> read_step env pg (page_load pg)"
| script: "read_step env pg (with_nav (arrive env) pg)"
| arrow: "read_step env pg (with_nav (toggle_node p) pg)"
| sync: "read_step env pg (click_sync pg)"
| link: "read_step env pg (fst (click_link la p pg))"
| toc: "read_step env pg (click_toc la aname pg)"
| motion: "read_step env pg (motion_done la pg)"
| address: "read_step env pg (set_location aname pg)"
| change: "pg_hash_events pg \<noteq> 0 \<Longrightarrow> read_step env pg (hash_event pg)"
| visit: "read_step env pg (new_nav_page (new_nav pathname hash anchors header (nv_storage (pg_nav pg)) (nv_supported (pg_nav pg))))"

inductive reading :: "(string \<Rightarrow> script_data option) \<Rightarrow> nav_page \<Rightarrow> bool" for env where
  open_manual: "reading env (new_nav_page (new_nav pathname hash anchors header storage supported))"
| go_on: "reading env pg \<Longrightarrow> read_step env pg pg' \<Longrightarrow> reading env pg'"

end
