(* ===== verification/DoxNavtreeSpec.thy ===== *)
theory DoxNavtreeSpec
  imports DoxNavtree
begin

text \<open>
  What the navigation tree promises: the index finds the last page at or before an address, a node is
  put back where it was, and following the breadcrumbs of a page opens the tree down to its node
  whatever has to be loaded on the way.
\<close>

section \<open>The order of addresses\<close>

lemma string_le_refl [simp]: "string_le s s"
  by (induction s) auto

lemma string_le_trans: "string_le a b \<Longrightarrow> string_le b c \<Longrightarrow> string_le a c"
proof (induction a c arbitrary: b rule: string_le.induct)
  case (3 x s y t)
  then show ?case by (cases b) (auto intro: less_trans)
next
  case (2 x s)
  then show ?case by (cases b) auto
qed simp

lemma string_le_antisym: "string_le a b \<Longrightarrow> string_le b a \<Longrightarrow> a = b"
  by (induction a b rule: string_le.induct) (auto, (metis list.exhaust string_le.simps(2))+)

lemma string_le_linear: "string_le a b \<or> string_le b a"
proof (induction a b rule: string_le.induct)
  case (3 c s d t)
  then show ?case using byte_val_inj [of c d] by (auto intro: linorder_neqE_nat)
qed simp_all

lemma index_loop_prefix: "index_loop xs url \<le> length xs \<and> (\<forall>k<index_loop xs url. string_le (xs ! k) url) \<and>
    (index_loop xs url < length xs \<longrightarrow> \<not> string_le (xs ! index_loop xs url) url)"
  by (induction xs) (auto simp: nth_Cons split: nat.splits)

lemma index_loop_sorted:
  assumes "sorted_wrt string_le xs"
  shows "k < length xs \<Longrightarrow> string_le (xs ! k) url \<longleftrightarrow> k < index_loop xs url"
proof -
  assume k: "k < length xs"
  note p = index_loop_prefix [of xs url]
  show ?thesis
  proof (cases "k < index_loop xs url")
    case True
    with p show ?thesis by blast
  next
    case False
    then have l: "index_loop xs url < length xs" using k by simp
    then have n: "\<not> string_le (xs ! index_loop xs url) url" using p by blast
    have "string_le (xs ! index_loop xs url) (xs ! k)"
      using assms False k l by (cases "index_loop xs url = k") (auto simp: sorted_wrt_iff_nth_less)
    with n False show ?thesis using string_le_trans by blast
  qed
qed

section \<open>Taking a node out and putting it back\<close>

lemma insert_before_append: "y \<notin> set a \<Longrightarrow> insert_before x y (a @ y # b) = a @ x # y # b"
  by (induction a) auto

lemma next_sibling_append: "x \<notin> set a \<Longrightarrow> next_sibling x (a @ x # b) = (case b of [] \<Rightarrow> None | z # _ \<Rightarrow> Some z)"
  by (induction a) auto

text \<open>The function that \<open>removeToInsertLater\<close> returns puts a node back where it was among the children
  of its parent, so that filling a node while it is out of the document does not move it; the removed node is
  gone in between.\<close>

theorem put_back_where_it_was:
  assumes "distinct children" and "x \<in> set children"
  shows "x \<notin> set (fst (removeToInsertLater x children)) \<and>
    snd (removeToInsertLater x children) (fst (removeToInsertLater x children)) = children"
proof -
  obtain a b where c: "children = a @ x # b" using assms(2) by (metis split_list)
  then have "x \<notin> set a" "x \<notin> set b" using assms(1) by auto
  then show ?thesis
    using c assms(1) insert_before_append [of "hd b" a x "tl b"]
    by (cases b) (auto simp: removeToInsertLater_def next_sibling_append remove1_append)
qed

lemma put_back_where_it_was_witness:
  "snd (removeToInsertLater 2 [1, 2, 3]) (fst (removeToInsertLater 2 [1, 2, 3::nat])) = [1, 2, 3]"
  using put_back_where_it_was [of "[1, 2, 3::nat]" 2] by simp

section \<open>Paths in the tree\<close>

lemma node_of_append: "node_of (p @ q) t = (case node_of p t of None \<Rightarrow> None | Some u \<Rightarrow> node_of q u)"
  by (induction p t rule: node_of.induct) auto

lemma node_of_change: "node_of p t = Some u \<Longrightarrow> node_of (p @ q) (change_at p f t) = node_of q (f u)"
  by (induction p t rule: node_of.induct) (auto split: if_splits)

lemma node_of_change_same: "node_of p t = Some u \<Longrightarrow> node_of p (change_at p f t) = Some (f u)"
  using node_of_change [of p t u "[]" f] by simp

lemma node_of_change_other:
  "\<not> prefix p q \<Longrightarrow> map_option info (node_of q (change_at p f t)) = map_option info (node_of q t)"
proof (induction p t arbitrary: q rule: node_of.induct)
  case (2 i p x ts)
  show ?case
  proof (cases q)
    case Nil
    then show ?thesis by simp
  next
    case (Cons j r)
    with 2 show ?thesis by (auto simp: nth_list_update)
  qed
qed simp

section \<open>Consistent trees\<close>

type_synonym script_env = "string \<Rightarrow> script_data option"

definition data_list :: "script_env \<Rightarrow> string \<Rightarrow> children_data \<Rightarrow> nav_entry list option" where
  "data_list env rel d =
     (case d of
        NoChildren \<Rightarrow> None
      | ChildScript v \<Rightarrow>
          if v = [] then None
          else (case env (data_name (rel @ v)) of Some (EntryData es) \<Rightarrow> Some es | _ \<Rightarrow> None)
      | ChildList es \<Rightarrow> Some es)"

text \<open>The data below a node of a page has the given path, where every script on the way exists.\<close>

fun follow :: "script_env \<Rightarrow> string \<Rightarrow> children_data \<Rightarrow> nat list \<Rightarrow> bool" where
  "follow env rel d [] = (case d of ChildScript v \<Rightarrow> data_list env rel d \<noteq> None | _ \<Rightarrow> True)"
| "follow env rel d (k # ks) =
     (case data_list env rel d of
        None \<Rightarrow> False
      | Some es \<Rightarrow> k < length es \<and> follow env rel (ne_children (es ! k)) ks)"

definition sub_ok :: "script_env \<Rightarrow> node_info \<Rightarrow> nav_entry \<Rightarrow> node_info \<Rightarrow> bool" where
  "sub_ok env x e y \<longleftrightarrow> ni_relpath y = ni_relpath x \<and>
     (ni_data y = ne_children e \<or>
      (\<exists>es. data_list env (ni_relpath x) (ne_children e) = Some es \<and> ni_data y = ChildList es))"

text \<open>Visited nodes have one child per entry, with the entry's data or what its script defined.\<close>

primrec tree_ok :: "script_env \<Rightarrow> nav_tree \<Rightarrow> bool" where
  "tree_ok env (Node x ts) \<longleftrightarrow> list_all id (map (tree_ok env) ts) \<and>
     (if ni_visited x
      then (\<exists>es. ni_data x = ChildList es \<and> length ts = length es \<and>
              (\<forall>i<length es. sub_ok env x (es ! i) (info (ts ! i))))
      else ts = [])"

lemma follow_loaded: "data_list env rel d = Some es \<Longrightarrow> follow env rel d ks \<Longrightarrow> follow env rel (ChildList es) ks"
  by (cases ks) (auto simp: data_list_def)

lemma follow_sub: "sub_ok env x e y \<Longrightarrow> follow env (ni_relpath x) (ne_children e) ks \<Longrightarrow>
    follow env (ni_relpath y) (ni_data y) ks"
  by (auto simp: sub_ok_def intro: follow_loaded)

lemma open_at_ok:
  assumes "tree_ok env t" and "ni_data (info t) = ChildList es"
  shows "tree_ok env (open_at page p t) \<and> info (open_at page p t) = open_node (info t)\<lparr>ni_visited := True\<rparr> \<and>
    length (subs (open_at page p t)) = length es \<and>
    (\<forall>i<length es. sub_ok env (info t) (es ! i) (info (subs (open_at page p t) ! i)))"
proof (cases t)
  case (Node x ts)
  show ?thesis
  proof (cases "ni_visited x")
    case True
    with Node assms show ?thesis
      by (auto simp: open_at_def open_node_def Let_def sub_ok_def)
  next
    case False
    let ?ts = "map (\<lambda>(i, e). newNode page p x e (int i = int (length es) - 1)) (enumerate 0 es)"
    have "ts = []" using Node False assms by simp
    then have g: "getNode page p t = Node (x\<lparr>ni_visited := True\<rparr>) ?ts"
      using Node assms by (simp add: getNode_def)
    have n: "tree_ok env (newNode page q y e l) \<and> sub_ok env y e (info (newNode page q y e l))" for q y e l
      by (simp add: newNode_def Let_def sub_ok_def split: prod.split)
    have "list_all id (map (tree_ok env) ?ts)"
      using n by (auto simp: list_all_iff)
    moreover have "sub_ok env x (es ! i) (info (?ts ! i))" if "i < length es" for i
      using n that by (simp add: nth_enumerate_eq)
    ultimately show ?thesis
      using Node False g assms(2) by (simp add: open_at_def open_node_def Let_def sub_ok_def del: map_map)
  qed
qed

lemma sub_tree_ok: "tree_ok env t \<Longrightarrow> i < length (subs t) \<Longrightarrow> tree_ok env (subs t ! i)"
  by (cases t) (auto simp: list_all_length)

section \<open>Showing a node\<close>

definition selected_by :: "string \<Rightarrow> nat list \<Rightarrow> nav \<Rightarrow> nat list list" where
  "selected_by hash p o1 = (if anchor_links hash o1 = [] then [p] else anchor_links hash o1)"

text \<open>From one state to another: the nodes from \<open>p\<close> along \<open>ks\<close> are open, the target is selected, no
  script is pending, the tree is scrolled to what is selected, and nodes that do not lie below \<open>p\<close> look as before.\<close>

definition reached :: "nat list \<Rightarrow> nat list \<Rightarrow> string \<Rightarrow> nav \<Rightarrow> nav \<Rightarrow> bool" where
  "reached p ks hash o1 o2 \<longleftrightarrow> nv_pending o2 = [] \<and>
     nv_selected o2 = nv_selected o1 @ selected_by hash (p @ ks) o2 \<and>
     nv_centered o2 = first_path (nv_selected o2) \<and>
     (\<forall>q. strict_prefix q ks \<longrightarrow> (\<exists>u. node_of (p @ q) (nv_root o2) = Some u \<and> ni_expanded (info u) \<and>
        ni_display (info u) = ''block'')) \<and>
     node_of (p @ ks) (nv_root o2) \<noteq> None \<and>
     (\<forall>q. \<not> prefix p q \<longrightarrow> map_option info (node_of q (nv_root o2)) = map_option info (node_of q (nv_root o1)))"

lemma highlight_simps [simp]:
  "nv_pending (highlightAnchor o1) = nv_pending o1" "nv_root (highlightAnchor o1) = nv_root o1"
  "nv_selected (highlightAnchor o1) = nv_selected o1" "anchor_links h (highlightAnchor o1) = anchor_links h o1"
  by (simp_all add: highlightAnchor_def glowEffect_def anchor_links_def Let_def split: option.split)

lemma showRoot_simps [simp]:
  "nv_pending (showRoot o1) = nv_pending o1" "nv_root (showRoot o1) = nv_root o1"
  "nv_selected (showRoot o1) = nv_selected o1" "anchor_links h (showRoot o1) = anchor_links h o1"
  by (simp_all add: showRoot_def anchor_links_def split: option.split)

lemma first_path_None [simp]: "first_path ps = None \<longleftrightarrow> ps = []"
  by (cases ps) (simp_all split: option.split)

lemma showRoot_centered: "nv_selected o1 \<noteq> [] \<Longrightarrow> nv_centered (showRoot o1) = first_path (nv_selected o1)"
  by (auto simp: showRoot_def split: option.split)

lemma select_simps [simp]:
  "nv_pending (selectAndHighlight h n o1) = nv_pending o1" "nv_root (selectAndHighlight h n o1) = nv_root o1"
  by (simp_all add: selectAndHighlight_def Let_def split: option.split)

lemma anchor_links_selected: "anchor_links h (o1\<lparr>nv_selected := x\<rparr>) = anchor_links h o1"
  by (simp add: anchor_links_def)

lemma anchor_links_sync: "anchor_links h (o1\<lparr>nv_sync_top := x\<rparr>) = anchor_links h o1"
  by (simp add: anchor_links_def)

lemma select_selected:
  "nv_selected (selectAndHighlight h (Some p) o1) = nv_selected o1 @ selected_by h p (selectAndHighlight h (Some p) o1)"
  by (simp add: selectAndHighlight_def Let_def selected_by_def anchor_links_selected anchor_links_sync)

lemma select_centered:
  "nv_centered (selectAndHighlight h (Some p) o1) = first_path (nv_selected (selectAndHighlight h (Some p) o1))"
  by (simp add: selectAndHighlight_def Let_def showRoot_centered)

lemma arrive_one: "nv_pending o1 = [(name, cb)] \<Longrightarrow> env (data_name name) = Some d \<Longrightarrow>
    arrive env o1 = callback cb d (o1\<lparr>nv_pending := []\<rparr>)"
  by (simp add: arrive_def)

abbreviation opened :: "nat list \<Rightarrow> nav \<Rightarrow> nav" where
  "opened p o1 \<equiv> o1\<lparr>nv_root := change_at p (open_at (pathName (nv_pathname o1)) p) (nv_root o1)\<rparr>"

lemma show_list:
  assumes "node_of p (nv_root o1) = Some t" and "ni_data (info t) = ChildList es"
  shows "show_from p index hash (c # cs) o1 =
    (if cs \<noteq> [] then show_from (p @ [c]) (index + 1) hash cs (opened p o1)
     else (case node_of (p @ [c]) (nv_root (opened p o1)) of
             None \<Rightarrow> opened p o1
           | Some n \<Rightarrow>
               (case ni_data (info n) of
                  ChildScript v \<Rightarrow> getScript (ni_relpath (info n) @ v) (CbShowChild p (p @ [c]) v index hash) (opened p o1)
                | _ \<Rightarrow> selectAndHighlight hash (Some (p @ [c]))
                         (if opens_target (opened p o1) then expandNode (p @ [c]) False (opened p o1) else opened p o1))))"
  using assms by (simp add: has_children_def Let_def)

lemma opens_target_root: "opens_target (o1\<lparr>nv_root := r\<rparr>) = opens_target o1"
  by (simp add: opens_target_def)

text \<open>The last node on the way: its children are made, and the target among them is loaded if need be.\<close>

lemma reached_last:
  assumes "node_of p (nv_root o1) = Some t" and "ni_expanded (info t)" and "ni_display (info t) = ''block''"
    and "c < length (subs t)" and "nv_pending o1 = []"
    and "\<And>q. \<not> prefix p q \<Longrightarrow> map_option info (node_of q (nv_root o1)) = map_option info (node_of q (nv_root o0))"
    and "nv_selected o1 = nv_selected o0"
  shows "reached p [c] hash o0 (selectAndHighlight hash (Some (p @ [c])) o1)"
proof -
  have "node_of (p @ [c]) (nv_root o1) \<noteq> None" using assms(1,4) by (cases t) (simp add: node_of_append)
  moreover have "strict_prefix q [c] \<longleftrightarrow> q = []" for q by (auto simp: strict_prefix_def prefix_Cons)
  ultimately show ?thesis
    using assms select_selected [of hash "p @ [c]" o1] select_centered [of hash "p @ [c]" o1] by (simp add: reached_def)
qed

lemma callback_simps:
  "callback (CbShow p v i h) (EntryData es) o1 = showNode p i h (o1\<lparr>nv_root := change_at p (set_data es) (nv_root o1)\<rparr>)"
  "callback (CbShowChild p q v i h) (EntryData es) o1 =
     showNode p i h (o1\<lparr>nv_root := change_at p collapse (change_at q (set_data es) (nv_root o1))\<rparr>)"
  by (simp_all add: callback_def)

text \<open>The one script that \<open>getScript\<close> asked for arrives.\<close>

lemma arrive_getScript:
  "nv_pending o1 = [] \<Longrightarrow> env (data_name name) = Some d \<Longrightarrow> arrive env (getScript name cb o1) = callback cb d o1"
proof -
  assume a: "nv_pending o1 = []" "env (data_name name) = Some d"
  have "o1\<lparr>nv_pending := []\<rparr> = o1" using a(1) by (cases o1) simp
  with a arrive_one [of "getScript name cb o1" name cb env d] show ?thesis by (simp add: getScript_def)
qed

lemma show_last:
  assumes t: "node_of p (nv_root o1) = Some t" "tree_ok env t" "ni_data (info t) = ChildList es"
    and c: "c < length es" "follow env (ni_relpath (info t)) (ne_children (es ! c)) []"
    and o1: "nv_pending o1 = []" "drop index (nv_breadcrumbs o1) = [c]" "\<not> opens_target o1"
  shows "\<exists>n\<le>1. reached p [c] hash o1 ((arrive env ^^ n) (show_from p index hash [c] o1))"
proof -
  let ?page = "pathName (nv_pathname o1)"
  define t2 where "t2 = open_at ?page p t"
  define u where "u = subs t2 ! c"
  note ok = open_at_ok [OF t(2,3), of ?page p, folded t2_def]
  have r2: "node_of p (nv_root (opened p o1)) = Some t2"
    using node_of_change_same [OF t(1), of "open_at ?page p"] by (simp add: t2_def)
  have c2: "c < length (subs t2)" using ok c(1) by simp
  have u: "node_of (p @ [c]) (nv_root (opened p o1)) = Some u"
    unfolding node_of_append r2 using c2 by (cases t2) (simp add: u_def)
  have fr: "\<not> prefix p q \<Longrightarrow> map_option info (node_of q (nv_root (opened p o1))) = map_option info (node_of q (nv_root o1))" for q
    by (simp add: node_of_change_other)
  have ex: "ni_expanded (info t2)" "ni_display (info t2) = ''block''" "ni_data (info t2) = ChildList es" "ni_visited (info t2)"
    using ok t(3) by (simp_all add: open_node_def)
  have fu: "follow env (ni_relpath (info u)) (ni_data (info u)) []"
    using follow_sub [OF _ c(2), of "info u"] ok c(1) by (simp add: u_def del: follow.simps)
  show ?thesis
  proof (cases "\<exists>v. ni_data (info u) = ChildScript v")
    case False
    then have "show_from p index hash [c] o1 = selectAndHighlight hash (Some (p @ [c])) (opened p o1)"
      using o1(3) u unfolding show_list [OF t(1,3)] by (auto simp: opens_target_root split: children_data.splits)
    moreover have "reached p [c] hash o1 (selectAndHighlight hash (Some (p @ [c])) (opened p o1))"
      using r2 ex c2 o1(1) fr by (intro reached_last) auto
    ultimately show ?thesis by (intro exI [of _ 0]) simp
  next
    case True
    then obtain v where v: "ni_data (info u) = ChildScript v" ..
    then obtain es' where es': "env (data_name (ni_relpath (info u) @ v)) = Some (EntryData es')"
      using fu by (auto simp: data_list_def split: if_splits option.splits script_data.splits)
    have s: "show_from p index hash [c] o1 =
        getScript (ni_relpath (info u) @ v) (CbShowChild p (p @ [c]) v index hash) (opened p o1)"
      using u v unfolding show_list [OF t(1,3)] by simp
    define o4 where "o4 = o1\<lparr>nv_root := change_at p collapse (change_at (p @ [c]) (set_data es') (nv_root (opened p o1)))\<rparr>"
    define t4 where "t4 = Node ((info t2)\<lparr>ni_expanded := False\<rparr>) ((subs t2)[c := set_data es' u])"
    have a: "arrive env (show_from p index hash [c] o1) = show_from p index hash [c] o4"
    proof -
      have "arrive env (show_from p index hash [c] o1) = callback (CbShowChild p (p @ [c]) v index hash) (EntryData es') (opened p o1)"
        unfolding s by (rule arrive_getScript) (simp add: o1(1), rule es')
      then show ?thesis by (simp add: o1(2) callback_simps showNode_def o4_def del: show_from.simps)
    qed
    have "node_of p (change_at (p @ [c]) (set_data es') (nv_root (opened p o1))) =
        Some (Node (info t2) ((subs t2)[c := set_data es' u]))"
    proof -
      have "change_at (p @ q) f r = change_at p (change_at q f) r" for q f r
        by (induction p r rule: node_of.induct) auto
      then have "node_of p (change_at (p @ [c]) (set_data es') (nv_root (opened p o1))) = Some (change_at [c] (set_data es') t2)"
        using node_of_change_same [OF r2] by simp
      then show ?thesis using c2 by (cases t2) (simp add: u_def)
    qed
    from node_of_change_same [OF this, of collapse] have n4: "node_of p (nv_root o4) = Some t4"
      by (simp add: o4_def t4_def collapse_def)
    have d4: "ni_data (info t4) = ChildList es" using ex by (simp add: t4_def)
    have o4: "open_at ?page p t4 = Node (open_node (info t4)) (subs t4)" using ex by (simp add: open_at_def t4_def)
    have r4: "node_of p (nv_root (opened p o4)) = Some (Node (open_node (info t4)) (subs t4))"
      using node_of_change_same [OF n4, of "open_at ?page p"] o4 by (simp add: o4_def)
    have u4: "node_of (p @ [c]) (nv_root (opened p o4)) = Some (set_data es' u)"
      unfolding node_of_append r4 using c2 by (simp add: t4_def)
    have "show_from p index hash [c] o4 = selectAndHighlight hash (Some (p @ [c])) (opened p o4)"
      using o1(3) u4 unfolding show_list [OF n4 d4] by (simp add: opens_target_def o4_def set_data_def)
    moreover have "reached p [c] hash o1 (selectAndHighlight hash (Some (p @ [c])) (opened p o4))"
    proof (rule reached_last [OF r4])
      show "map_option info (node_of q (nv_root (opened p o4))) = map_option info (node_of q (nv_root o1))"
        if q: "\<not> prefix p q" for q
      proof -
        have "\<not> prefix (p @ [c]) q" using q by (meson append_prefixD)
        then show ?thesis using q by (simp add: o4_def node_of_change_other)
      qed
    qed (use c2 o1(1) in \<open>simp_all add: open_node_def t4_def o4_def\<close>)
    ultimately show ?thesis using a by (intro exI [of _ 1]) simp
  qed
qed

definition shows_path :: "script_env \<Rightarrow> nat list \<Rightarrow> nat \<Rightarrow> string \<Rightarrow> nat list \<Rightarrow> nav \<Rightarrow> nat \<Rightarrow> bool" where
  "shows_path env p index hash ks o1 k \<longleftrightarrow>
     (\<exists>n\<le>k. reached p ks hash o1 ((arrive env ^^ n) (show_from p index hash ks o1)))"

text \<open>What is needed at the node where the way starts.\<close>

definition way_ok :: "script_env \<Rightarrow> nat list \<Rightarrow> nat \<Rightarrow> nat list \<Rightarrow> nav \<Rightarrow> nav_tree \<Rightarrow> bool" where
  "way_ok env p index ks o1 t \<longleftrightarrow> node_of p (nv_root o1) = Some t \<and> tree_ok env t \<and>
     follow env (ni_relpath (info t)) (ni_data (info t)) ks \<and> nv_pending o1 = [] \<and>
     drop index (nv_breadcrumbs o1) = ks \<and> \<not> opens_target o1"

lemma show_list_path:
  assumes way: "way_ok env p index (c # c' # cs) o1 t" and d: "ni_data (info t) = ChildList es"
    and IH: "\<And>p index o1 t. way_ok env p index (c' # cs) o1 t \<Longrightarrow> shows_path env p index hash (c' # cs) o1 k"
  shows "shows_path env p index hash (c # c' # cs) o1 k"
proof -
  let ?page = "pathName (nv_pathname o1)"
  define t2 where "t2 = open_at ?page p t"
  define u where "u = subs t2 ! c"
  have t: "node_of p (nv_root o1) = Some t" "tree_ok env t" using way by (simp_all add: way_ok_def)
  note ok = open_at_ok [OF t(2) d, of ?page p, folded t2_def]
  have c: "c < length es" "follow env (ni_relpath (info t)) (ne_children (es ! c)) (c' # cs)"
    using way d unfolding way_ok_def by (simp_all add: data_list_def del: follow.simps(2) add: follow.simps(2) [of _ _ "ChildList es" c])
  have r2: "node_of p (nv_root (opened p o1)) = Some t2"
    using node_of_change_same [OF t(1), of "open_at ?page p"] by (simp add: t2_def)
  have c2: "c < length (subs t2)" using ok c(1) by simp
  have u: "node_of (p @ [c]) (nv_root (opened p o1)) = Some u"
    unfolding node_of_append r2 using c2 by (cases t2) (simp add: u_def)
  have "drop (index + 1) (nv_breadcrumbs o1) = c' # cs"
    using way unfolding way_ok_def by (metis Suc_eq_plus1 drop_Suc list.sel(3) tl_drop)
  then have "way_ok env (p @ [c]) (index + 1) (c' # cs) (opened p o1) u"
    using way u follow_sub [OF _ c(2), of "info u"] ok c(1) sub_tree_ok [of env t2 c] c2
    by (simp add: way_ok_def opens_target_def u_def del: follow.simps)
  from IH [OF this] obtain n where n: "n \<le> k" and r: "reached (p @ [c]) (c' # cs) hash (opened p o1)
      ((arrive env ^^ n) (show_from (p @ [c]) (index + 1) hash (c' # cs) (opened p o1)))"
    unfolding shows_path_def by blast
  define o2 where "o2 = (arrive env ^^ n) (show_from (p @ [c]) (index + 1) hash (c' # cs) (opened p o1))"
  note r = r [folded o2_def]
  have fr: "map_option info (node_of q (nv_root o2)) = map_option info (node_of q (nv_root (opened p o1)))"
    if "\<not> prefix (p @ [c]) q" for q using r that by (simp add: reached_def)
  have "\<not> prefix (p @ [c]) p" by auto
  from fr [OF this] r2 have "map_option info (node_of p (nv_root o2)) = Some (info t2)" by simp
  then obtain v where v: "node_of p (nv_root o2) = Some v" "ni_expanded (info v)" "ni_display (info v) = ''block''"
    using ok by (auto simp: open_node_def)
  have "\<exists>w. node_of (p @ q) (nv_root o2) = Some w \<and> ni_expanded (info w) \<and> ni_display (info w) = ''block''"
    if q: "strict_prefix q (c # c' # cs)" for q
  proof (cases q)
    case Nil
    with v show ?thesis by simp
  next
    case (Cons x q')
    with q have "x = c" "strict_prefix q' (c' # cs)" by auto
    with r Cons show ?thesis unfolding reached_def by force
  qed
  moreover have "map_option info (node_of q (nv_root o2)) = map_option info (node_of q (nv_root o1))"
    if q: "\<not> prefix p q" for q
  proof -
    have "\<not> prefix (p @ [c]) q" using q by (meson append_prefixD)
    from fr [OF this] show ?thesis using q by (simp add: node_of_change_other)
  qed
  ultimately have "reached p (c # c' # cs) hash o1 o2" using r by (simp add: reached_def)
  moreover have "show_from p index hash (c # c' # cs) o1 = show_from (p @ [c]) (index + 1) hash (c' # cs) (opened p o1)"
    using show_list [OF t(1) d, of index hash c "c' # cs"] by simp
  ultimately show ?thesis using n unfolding shows_path_def o2_def by metis
qed

lemma info_set_data: "info (set_data es t) = (info t)\<lparr>ni_data := ChildList es\<rparr>"
  by (simp add: set_data_def)

lemma show_script_path:
  assumes way: "way_ok env p index ks o1 t" and ks: "ks = c # cs" and d: "ni_data (info t) = ChildScript v"
    and L: "\<And>o1 t es. way_ok env p index ks o1 t \<Longrightarrow> ni_data (info t) = ChildList es \<Longrightarrow> shows_path env p index hash ks o1 k"
  shows "shows_path env p index hash ks o1 (Suc k)"
proof -
  have t: "node_of p (nv_root o1) = Some t" "tree_ok env t" "nv_pending o1 = []" using way by (simp_all add: way_ok_def)
  obtain es where es: "v \<noteq> []" "env (data_name (ni_relpath (info t) @ v)) = Some (EntryData es)"
    using way ks d by (auto simp: way_ok_def data_list_def split: if_splits option.splits script_data.splits)
  have s: "show_from p index hash ks o1 = getScript (ni_relpath (info t) @ v) (CbShow p v index hash) o1"
    using t(1) d es(1) ks by (simp add: has_children_def)
  define o2 where "o2 = o1\<lparr>nv_root := change_at p (set_data es) (nv_root o1)\<rparr>"
  have "arrive env (show_from p index hash ks o1) = callback (CbShow p v index hash) (EntryData es) o1"
    unfolding s by (rule arrive_getScript) (rule t(3), rule es(2))
  also have "\<dots> = show_from p index hash ks o2"
    using way by (simp add: callback_simps showNode_def way_ok_def o2_def del: show_from.simps)
  finally have a: "arrive env (show_from p index hash ks o1) = show_from p index hash ks o2" .
  have "data_list env (ni_relpath (info t)) (ni_data (info t)) = Some es" using d es by (simp add: data_list_def)
  then have "follow env (ni_relpath (info t)) (ChildList es) ks"
    using way follow_loaded unfolding way_ok_def by blast
  moreover have "tree_ok env (set_data es t)"
  proof (cases t)
    case (Node x ts)
    with t(2) d have "\<not> ni_visited x" by auto
    with Node t(2) show ?thesis by (simp add: set_data_def)
  qed
  ultimately have "way_ok env p index ks o2 (set_data es t)"
    using way node_of_change_same [OF t(1), of "set_data es"]
    by (simp add: way_ok_def o2_def opens_target_def info_set_data del: follow.simps)
  from L [OF this, of es] obtain n where n: "n \<le> k" "reached p ks hash o2 ((arrive env ^^ n) (show_from p index hash ks o2))"
    by (auto simp: shows_path_def set_data_def)
  have "reached p ks hash o1 ((arrive env ^^ n) (show_from p index hash ks o2))"
    using n(2) by (simp add: reached_def o2_def node_of_change_other)
  then show ?thesis
    using n(1) unfolding shows_path_def a [symmetric]
    by (intro exI [of _ "Suc n"]) (simp add: funpow_swap1)
qed

lemma follow_cases: "follow env rel d (c # cs) \<Longrightarrow> (\<exists>es. d = ChildList es) \<or> (\<exists>v. d = ChildScript v)"
  by (cases d) (auto simp: data_list_def)

lemma shows_path_mono: "shows_path env p index hash ks o1 k \<Longrightarrow> k \<le> k' \<Longrightarrow> shows_path env p index hash ks o1 k'"
  unfolding shows_path_def by (meson le_trans)

lemma show_path: "way_ok env p index (c # cs) o1 t \<Longrightarrow> shows_path env p index hash (c # cs) o1 (length cs + 2)"
proof (induction cs arbitrary: c p index o1 t)
  case Nil
  have L: "shows_path env p index hash [c] o2 1" if "way_ok env p index [c] o2 u" "ni_data (info u) = ChildList es" for o2 u es
    unfolding shows_path_def
    by (rule show_last [where t = u and es = es]) (use that in \<open>auto simp: way_ok_def data_list_def simp del: show_from.simps\<close>)
  consider es where "ni_data (info t) = ChildList es" | v where "ni_data (info t) = ChildScript v"
    using Nil follow_cases [of env _ "ni_data (info t)"] unfolding way_ok_def by blast
  then show ?case
  proof cases
    case 1
    from shows_path_mono [OF L [OF Nil 1]] show ?thesis by simp
  next
    case 2
    from show_script_path [OF Nil refl 2 L] show ?thesis by (simp add: numeral_2_eq_2)
  qed
next
  case (Cons c' cs)
  have L: "shows_path env p index hash (c # c' # cs) o2 (length cs + 2)"
    if "way_ok env p index (c # c' # cs) o2 u" "ni_data (info u) = ChildList es" for o2 u es
    by (rule show_list_path [OF that]) (rule Cons.IH)
  consider es where "ni_data (info t) = ChildList es" | v where "ni_data (info t) = ChildScript v"
    using Cons.prems follow_cases [of env _ "ni_data (info t)"] unfolding way_ok_def by blast
  then show ?case
  proof cases
    case 1
    from shows_path_mono [OF L [OF Cons.prems 1]] show ?thesis by simp
  next
    case 2
    from show_script_path [OF Cons.prems refl 2 L] show ?thesis by simp
  qed
qed

end
