(* ===== verification/DoxNavdata.thy ===== *)
theory DoxNavdata
  imports DoxNavtree
begin

text \<open>
  The data the navigation tree loads: one definition per script beside \<open>navtree.js\<close>, named after the variable
  it assigns, the index of pages of \<open>navtreeindex0.js\<close>, and the scripts as the browser finds them.
\<close>

section \<open>Entries below a node\<close>

definition annotated_dup :: "nav_entry list" where
  "annotated_dup =
     [NavEntry ''CityGeo'' (Some ''structCityGeo.html'') (ChildScript ''structCityGeo''),
      NavEntry ''ClientCtx'' (Some ''structClientCtx.html'') (ChildScript ''structClientCtx''),
      NavEntry ''HttpRequest'' (Some ''structHttpRequest.html'') (ChildScript ''structHttpRequest''),
      NavEntry ''HttpResponse'' (Some ''structHttpResponse.html'') (ChildScript ''structHttpResponse''),
      NavEntry ''MapVars'' (Some ''structMapVars.html'') (ChildScript ''structMapVars''),
      NavEntry ''RateEntry'' (Some ''structRateEntry.html'') (ChildScript ''structRateEntry''),
      NavEntry ''Report'' (Some ''structReport.html'') (ChildScript ''structReport''),
      NavEntry ''Route'' (Some ''structRoute.html'') (ChildScript ''structRoute''),
      NavEntry ''Session'' (Some ''structSession.html'') (ChildScript ''structSession''),
      NavEntry ''SlabPool'' (Some ''structSlabPool.html'') (ChildScript ''structSlabPool''),
      NavEntry ''TplVar'' (Some ''structTplVar.html'') (ChildScript ''structTplVar''),
      NavEntry ''User'' (Some ''structUser.html'') (ChildScript ''structUser'')]"

definition files_dup :: "nav_entry list" where
  "files_dup =
     [NavEntry ''client_manager.h'' (Some ''client__manager_8h.html'') (ChildScript ''client__manager_8h''),
      NavEntry ''connection_handler.h'' (Some ''connection__handler_8h.html'') (ChildScript ''connection__handler_8h''),
      NavEntry ''db.h'' (Some ''db_8h.html'') (ChildScript ''db_8h''),
      NavEntry ''geo.h'' (Some ''geo_8h.html'') (ChildScript ''geo_8h''),
      NavEntry ''hash_table.h'' (Some ''hash__table_8h.html'') (ChildScript ''hash__table_8h''),
      NavEntry ''http_types.h'' (Some ''http__types_8h.html'') (ChildScript ''http__types_8h''),
      NavEntry ''http_utils.h'' (Some ''http__utils_8h.html'') (ChildScript ''http__utils_8h''),
      NavEntry ''rate_limiter.h'' (Some ''rate__limiter_8h.html'') (ChildScript ''rate__limiter_8h''),
      NavEntry ''report.h'' (Some ''report_8h.html'') (ChildScript ''report_8h''),
      NavEntry ''route_api.h'' (Some ''route__api_8h.html'') (ChildScript ''route__api_8h''),
      NavEntry ''route_handler.h'' (Some ''route__handler_8h.html'') (ChildScript ''route__handler_8h''),
      NavEntry ''route_helpers.h'' (Some ''route__helpers_8h.html'') (ChildScript ''route__helpers_8h''),
      NavEntry ''route_pages.h'' (Some ''route__pages_8h.html'') (ChildScript ''route__pages_8h''),
      NavEntry ''server.h'' (Some ''server_8h.html'') (ChildScript ''server_8h''),
      NavEntry ''session.h'' (Some ''session_8h.html'') (ChildScript ''session_8h''),
      NavEntry ''slab_allocator.h'' (Some ''slab__allocator_8h.html'') (ChildScript ''slab__allocator_8h''),
      NavEntry ''template.h'' (Some ''template_8h.html'') (ChildScript ''template_8h''),
      NavEntry ''user.h'' (Some ''user_8h.html'') (ChildScript ''user_8h'')]"

definition structCityGeo :: "nav_entry list" where
  "structCityGeo =
     [leaf_entry ''centroidLon'' ''structCityGeo.html#a50423c53a2d7aec1793de7337b643305'',
      leaf_entry ''latMax'' ''structCityGeo.html#a9db1bdbd047e75b6cf6806fc0035fb04'',
      leaf_entry ''lonMax'' ''structCityGeo.html#a7ae8a4e2cf6ce22bd1c4527bcf89c398'']"

definition structClientCtx :: "nav_entry list" where
  "structClientCtx =
     [leaf_entry ''buffer'' ''structClientCtx.html#a3efd8aa4e8f096919c396384d484f529'',
      leaf_entry ''closing'' ''structClientCtx.html#a0aabecb6dbfd895462b06fc04bd35e53'',
      leaf_entry ''handle'' ''structClientCtx.html#ad9aedd4468162aa7a2bca1ea6d3124f0'',
      leaf_entry ''next'' ''structClientCtx.html#a0778f859efe0f1493280cdaae5c6ce18'',
      leaf_entry ''pendingCloses'' ''structClientCtx.html#a9baa961deebf3008778d9da28803d1e5'',
      leaf_entry ''prev'' ''structClientCtx.html#aebd0b4eae284c79037b5eff574465a5a'',
      leaf_entry ''timer'' ''structClientCtx.html#a2c003731dd2f1d69ee3ecf3fa97800b1'',
      leaf_entry ''totalRead'' ''structClientCtx.html#a3071414cac882166f57669617502b53c'']"

definition structHttpRequest :: "nav_entry list" where
  "structHttpRequest =
     [leaf_entry ''body'' ''structHttpRequest.html#a3c5c3295158feddf484ab32fc9851b8b'',
      leaf_entry ''bodyLen'' ''structHttpRequest.html#a54d5957e981adf59e19b6746ba502567'',
      leaf_entry ''headers'' ''structHttpRequest.html#a132762762601c88ac5ae34e005791983'',
      leaf_entry ''method'' ''structHttpRequest.html#a3efbb41c9e3ecf0073354f3e72395ffc'',
      leaf_entry ''methodLen'' ''structHttpRequest.html#a0853a6d4d8944486068e012be368a824'',
      leaf_entry ''minorVersion'' ''structHttpRequest.html#af1a9e6aca00b0f6ae262ce4add5187b8'',
      leaf_entry ''numHeaders'' ''structHttpRequest.html#a2c75b566736b74b31a58079397f05a90'',
      leaf_entry ''path'' ''structHttpRequest.html#a7095767bcbc061dd02637cecef0a5815'',
      leaf_entry ''pathLen'' ''structHttpRequest.html#aa16a2b3d59a72d14eb5160d6b2e205fd'']"

definition structHttpResponse :: "nav_entry list" where
  "structHttpResponse =
     [leaf_entry ''body'' ''structHttpResponse.html#a48b139a9e8a5385630d90c3ffa0a1666'',
      leaf_entry ''bodyLen'' ''structHttpResponse.html#aa22debb698288bbb79e49bda3630cbda'',
      leaf_entry ''location'' ''structHttpResponse.html#a1935db201de71fbbd1319f3b703afd25'',
      leaf_entry ''setCookie'' ''structHttpResponse.html#a236993626153428903c3f55400508490'',
      leaf_entry ''statusCode'' ''structHttpResponse.html#af437cbe87aead2a55f49b9c112dfc6af'']"

definition structMapVars :: "nav_entry list" where
  "structMapVars =
     [leaf_entry ''bounds'' ''structMapVars.html#a2a738ccaeb6008b89712d143dac0df81'',
      leaf_entry ''lat'' ''structMapVars.html#aa71d42ede4215ab41765fd0dc581836b'',
      leaf_entry ''lon'' ''structMapVars.html#aea8f4be8be20bbb4ee2393013b5769b3'']"

definition structRateEntry :: "nav_entry list" where
  "structRateEntry =
     [leaf_entry ''countCurr'' ''structRateEntry.html#a82ad91e11d2b4ab9b5316348f8380d1c'',
      leaf_entry ''countPrev'' ''structRateEntry.html#a2f7c3181f86e918d165717ca6c07fdc7'',
      leaf_entry ''windowStartTime'' ''structRateEntry.html#a1da212865339670053b9eb73a17f2db6'']"

definition structReport :: "nav_entry list" where
  "structReport =
     [leaf_entry ''assignedAt'' ''structReport.html#a73ead0fd592e03f807c5a12317eac062'',
      leaf_entry ''assignedTo'' ''structReport.html#accc340e13f75d3731a54cde567de0fc5'',
      leaf_entry ''authorId'' ''structReport.html#affffc951f80c67f2357fc791f33b9c37'',
      leaf_entry ''category'' ''structReport.html#a1550ca6d6f0f3aafd3de4932e71f3ad3'',
      leaf_entry ''city'' ''structReport.html#aeb5361ffd4bd5465f2116cbc9afed95d'',
      leaf_entry ''createdAt'' ''structReport.html#af08bd09273f1f177200b0a0bda61c220'',
      leaf_entry ''description'' ''structReport.html#a700ec009122d541fdde74f3c9802efee'',
      leaf_entry ''feedback'' ''structReport.html#a9bb48ff8dcebb3de97579c23059801a3'',
      leaf_entry ''lat'' ''structReport.html#a3a8d9b5fa3549af30e13da10adf76031'',
      leaf_entry ''lon'' ''structReport.html#ad0d75676a6a119267dca0660c848a5d4'',
      leaf_entry ''reportId'' ''structReport.html#a6731bcb1220589ec9684bc6336c4683b'',
      leaf_entry ''resolvedAt'' ''structReport.html#aa01d9dcd0dcbb81af624d7b9094581ad'',
      leaf_entry ''status'' ''structReport.html#aff8e3a8fc7a1d40d38bde76b0613eefc'']"

definition structRoute :: "nav_entry list" where
  "structRoute =
     [leaf_entry ''handler'' ''structRoute.html#a633dd38989bcc3748fc4dfd1d3dec84c'',
      leaf_entry ''method'' ''structRoute.html#a631e87ab76cacd2b979337c098e7c64e'',
      leaf_entry ''path'' ''structRoute.html#a793dd6c314bd207fb6c5431a55bd4e27'']"

definition structSession :: "nav_entry list" where
  "structSession =
     [leaf_entry ''createdAt'' ''structSession.html#a38397fcda4910caae61ead2708a1f8a7'',
      leaf_entry ''user'' ''structSession.html#a1274393415abccedad35198eb26929c2'']"

definition structSlabPool :: "nav_entry list" where
  "structSlabPool =
     [leaf_entry ''blockSize'' ''structSlabPool.html#affe6aa5d75d5227ee111486002e32b80'',
      leaf_entry ''chunkCapacity'' ''structSlabPool.html#aec7465baaf178d33699f0c71678bd0fd'',
      leaf_entry ''chunksHead'' ''structSlabPool.html#a6a1b2a4c4422e1085e549fd4a8e31f22'',
      leaf_entry ''internalBsize'' ''structSlabPool.html#ae32e069b240ea38919db7ab768a2b059'']"

definition structTplVar :: "nav_entry list" where
  "structTplVar =
     [leaf_entry ''key'' ''structTplVar.html#a50abf9d8a8d4ff7e3f65799cd48632cd'',
      leaf_entry ''value'' ''structTplVar.html#ad354a220a8835e35048403513dc6e051'']"

definition structUser :: "nav_entry list" where
  "structUser =
     [leaf_entry ''city'' ''structUser.html#af4508305291c7b0fb67a4fac544fd7fd'',
      leaf_entry ''passwordHash'' ''structUser.html#a9d72cf1c2b880a0e01107e6dc6f08704'',
      leaf_entry ''role'' ''structUser.html#ab91e66ddd08d2a0a76790374c2861fb8'',
      leaf_entry ''salt'' ''structUser.html#a5ac70ab4e8b54d614a82dcefa0f9b270'',
      leaf_entry ''userId'' ''structUser.html#ad919bd15f70c2c7af21d346432ef3be8'',
      leaf_entry ''username'' ''structUser.html#a35989de0d7ceb8ee42a10716dfab962e'']"

definition client__manager_8h :: "nav_entry list" where
  "client__manager_8h =
     [NavEntry ''ClientCtx'' (Some ''structClientCtx.html'') (ChildScript ''structClientCtx''),
      leaf_entry ''client_manager_active_count'' ''client__manager_8h.html#ad298e53c235b4ef9ed6526ef0989246f'',
      leaf_entry ''client_manager_alloc'' ''client__manager_8h.html#ab259797185232a173d5dc1a389490a6b'',
      leaf_entry ''client_manager_close_all'' ''client__manager_8h.html#abd09c93313416fec798266ade26c7b27'',
      leaf_entry ''client_manager_destroy'' ''client__manager_8h.html#a3cf91cb8e5f706a7277004f40fe62327'',
      leaf_entry ''client_manager_init'' ''client__manager_8h.html#a1b36ee468413a53d94dadc37ee77b9d6'',
      leaf_entry ''client_manager_link'' ''client__manager_8h.html#a946e9c58caf3141f9b80dfe31fd8f6db'',
      leaf_entry ''client_manager_release'' ''client__manager_8h.html#aa52e77d31b703599f2a335b4eefc66d3'',
      leaf_entry ''client_manager_unlink'' ''client__manager_8h.html#ae1b61876ea74483463931b0bede9c219'']"

definition connection__handler_8h :: "nav_entry list" where
  "connection__handler_8h =
     [leaf_entry ''close_client'' ''connection__handler_8h.html#a1d74171c0360dc771aace49df61ac509'',
      leaf_entry ''on_buffer_alloc'' ''connection__handler_8h.html#a2115213f213602da0f51d9f384b09bc4'',
      leaf_entry ''on_connection'' ''connection__handler_8h.html#a1db95eaa49c81ad63519fb7a8908be37'',
      leaf_entry ''on_read'' ''connection__handler_8h.html#a550be703064c32ae946900e876ce3988'']"

definition db_8h :: "nav_entry list" where
  "db_8h =
     [leaf_entry ''DbCursor'' ''db_8h.html#a97ec9a4ddf0a3357e93af791b0c32f75'',
      leaf_entry ''db_changes'' ''db_8h.html#a8ef66a94fd4d4dfee150e52e19472d73'',
      leaf_entry ''db_close'' ''db_8h.html#a43539307187c50e84866e403c4c57cef'',
      leaf_entry ''db_cursor_close'' ''db_8h.html#a34686b55c084d2a40efd721f31c3dd35'',
      leaf_entry ''db_cursor_double'' ''db_8h.html#a30969ec3d9b14efae3c5ce44adf0a3b9'',
      leaf_entry ''db_cursor_int64'' ''db_8h.html#a3bf1e80a44a5cadb0239b7caeed0985f'',
      leaf_entry ''db_cursor_next'' ''db_8h.html#a14a955deab910d655dbde6a3713a38a0'',
      leaf_entry ''db_cursor_open'' ''db_8h.html#a37d5e482cfdd2da1c20ad57ff449e133'',
      leaf_entry ''db_cursor_text'' ''db_8h.html#a4ee78374813d3f33992939c7690068c3'',
      leaf_entry ''db_errmsg'' ''db_8h.html#a72da1433341afa6d1915e8c7cb95b51c'',
      leaf_entry ''db_exec'' ''db_8h.html#ad7dce6393b603e447c4da8740d61c680'',
      leaf_entry ''db_init'' ''db_8h.html#a145d3e03272ebd0c29e74770e29653a0'',
      leaf_entry ''db_last_insert_id'' ''db_8h.html#a9d7975d5d1eb9495f9503829f1b0c87f'']"

definition geo_8h :: "nav_entry list" where
  "geo_8h =
     [NavEntry ''CityGeo'' (Some ''structCityGeo.html'') (ChildScript ''structCityGeo''),
      NavEntry ''MapVars'' (Some ''structMapVars.html'') (ChildScript ''structMapVars''),
      leaf_entry ''build_map_vars'' ''geo_8h.html#a58dcbd231fb7d80a5832fc69ec95020f'',
      leaf_entry ''geo_cleanup'' ''geo_8h.html#a8e63bdd95c36d05b811a366c661d4b66'',
      leaf_entry ''geo_contains'' ''geo_8h.html#af9d43dd58b09701b3c180c11eab51e21'',
      leaf_entry ''geo_init'' ''geo_8h.html#a152f8735049da726f2da726ac4ab1f43'',
      leaf_entry ''geo_lookup'' ''geo_8h.html#a7c7fe01930257c877e0a80d584dd13ed'']"

definition hash__table_8h :: "nav_entry list" where
  "hash__table_8h =
     [leaf_entry ''ht_foreach_cb'' ''hash__table_8h.html#a9cf401f8c72c3459d524461e348f2b33'',
      leaf_entry ''ht_create'' ''hash__table_8h.html#ae1bc3f8d1cc56c8bf5cf10c7ce32de6e'',
      leaf_entry ''ht_delete'' ''hash__table_8h.html#aa654272c94a43a43e2d7b309d6699122'',
      leaf_entry ''ht_destroy'' ''hash__table_8h.html#ac986a6f910dcf3f2048cc79c6529c0d2'',
      leaf_entry ''ht_foreach'' ''hash__table_8h.html#a4044224a01d29cb8790e2c52d4120dfd'',
      leaf_entry ''ht_get'' ''hash__table_8h.html#a558825dbaa6e9b4bddfab3d3a8c8db07'',
      leaf_entry ''ht_load'' ''hash__table_8h.html#a14a4ab0781749f8723acc44f9977a267'',
      leaf_entry ''ht_set'' ''hash__table_8h.html#a427252b31b8a9c4699d0870ba25dd26d'',
      leaf_entry ''ht_snapshot'' ''hash__table_8h.html#af177a3dfd557f1d74f7351c7fc209d8e'']"

definition http__types_8h :: "nav_entry list" where
  "http__types_8h =
     [NavEntry ''HttpRequest'' (Some ''structHttpRequest.html'') (ChildScript ''structHttpRequest''),
      NavEntry ''HttpResponse'' (Some ''structHttpResponse.html'') (ChildScript ''structHttpResponse''),
      leaf_entry ''COOKIE_MAX'' ''http__types_8h.html#a46194fa0a816b64112333fc33f4a7b38'',
      leaf_entry ''HTTP_MAX_HEADERS'' ''http__types_8h.html#ae25acc386a279de3461e5881633c1402'']"

definition http__utils_8h :: "nav_entry list" where
  "http__utils_8h =
     [leaf_entry ''MAX_NUMBER_LEN'' ''http__utils_8h.html#a3c88a94d6eeb9664c579245b2a7615aa'',
      leaf_entry ''get_field'' ''http__utils_8h.html#a358ad2e10ee4a1905d078f8f4283e07e'',
      leaf_entry ''html_escape'' ''http__utils_8h.html#a432ab675be86e8c395eb6dd1a4339074'',
      leaf_entry ''http_is_request_complete'' ''http__utils_8h.html#a80b79507bd287181f71ea834e5c26a2b'',
      leaf_entry ''http_is_request_method'' ''http__utils_8h.html#ad819f10ecdf6cf1858a0f295ce1be4ef'',
      leaf_entry ''http_is_request_path'' ''http__utils_8h.html#a0284890bc01bd39002a84c26a934cbb1'',
      leaf_entry ''http_request_contains_keepalive'' ''http__utils_8h.html#a3a191cc59105d4b3d48f1143eb6d49fd'',
      leaf_entry ''http_request_cookie'' ''http__utils_8h.html#a6fcd7d7979d06e23a9692e94c1db5574'',
      leaf_entry ''http_request_header'' ''http__utils_8h.html#af3fc2674512100b082e193588b54edb2'',
      leaf_entry ''http_request_parse'' ''http__utils_8h.html#ab7a64f4c1946b9d43ee3c749616b7d60'',
      leaf_entry ''http_response_render'' ''http__utils_8h.html#afa83dabef28bd646c993cd400c0f9318'',
      leaf_entry ''make_error_block'' ''http__utils_8h.html#ae60f58c36a39bf4ad67e11d2a920172e'']"

definition rate__limiter_8h :: "nav_entry list" where
  "rate__limiter_8h =
     [NavEntry ''RateEntry'' (Some ''structRateEntry.html'') (ChildScript ''structRateEntry''),
      leaf_entry ''rate_limit_check'' ''rate__limiter_8h.html#a2e9ebeeecd4984470b4db1c56556d960'',
      leaf_entry ''rate_limiter_destroy'' ''rate__limiter_8h.html#ab59a0cbc6f3a5d93618c9041424d1303'',
      leaf_entry ''rate_limiter_init'' ''rate__limiter_8h.html#aa7392874ee7307b732cd47689d71c388'']"

definition report_8h :: "nav_entry list" where
  "report_8h =
     [NavEntry ''Report'' (Some ''structReport.html'') (ChildScript ''structReport''),
      leaf_entry ''ReportCol'' ''report_8h.html#a8061a7a6fc28209df91f55623d39c30c'',
      NavEntry ''ReportStatus'' (Some ''report_8h.html#aa93bd0e8b41c682fee30f387eae3bb0f'') (ChildList
        [leaf_entry ''STATUS_ACTIVE'' ''report_8h.html#aa93bd0e8b41c682fee30f387eae3bb0faac7e7606c854bc8257d642c3fdd9b318'',
         leaf_entry ''STATUS_ASSIGNED'' ''report_8h.html#aa93bd0e8b41c682fee30f387eae3bb0fa9f89f2204c9bdf877641cb54ca486a28'',
         leaf_entry ''STATUS_IN_PROGRESS'' ''report_8h.html#aa93bd0e8b41c682fee30f387eae3bb0fafaf0b6349b8a93b543f64c744e321d5a'',
         leaf_entry ''STATUS_RESOLVED'' ''report_8h.html#aa93bd0e8b41c682fee30f387eae3bb0fa07c90a2dc659a90f024caa9f34ccde32'']),
      leaf_entry ''report_accept'' ''report_8h.html#a9f4a537a0057802c4f7142b231047130'',
      leaf_entry ''report_assign'' ''report_8h.html#ac8891d83544400e70fd4977ff26662f8'',
      leaf_entry ''report_cache_invalidate_city'' ''report_8h.html#a98fc6fb7ae2c1800b28ffd86ae5668eb'',
      leaf_entry ''report_count_active'' ''report_8h.html#a1c73edf62976cf1b5c90a24925e3a2c8'',
      leaf_entry ''report_get_active_json'' ''report_8h.html#ac33d3d78fb58ba138757173861785d42'',
      leaf_entry ''report_get_all_city_json'' ''report_8h.html#aa22245570cb09b70c495eec276f0d230'',
      leaf_entry ''report_get_archived_json'' ''report_8h.html#a6580f32427cb69a902e75be6b26dafbc'',
      leaf_entry ''report_get_by_id'' ''report_8h.html#a155cde62d147e5d51a84a576cab54010'',
      leaf_entry ''report_insert'' ''report_8h.html#af2a4caf55eba408d05d2a506039e43dd'',
      leaf_entry ''report_reject'' ''report_8h.html#a909e86efc7196418a3040cbeed5fb9c8'',
      leaf_entry ''report_resolve'' ''report_8h.html#a2bc78b4639f2f97fc23809ac8acbe519'',
      leaf_entry ''report_set_feedback'' ''report_8h.html#aa2237d0bac040b08a93d6a39dcd0bbb1'',
      leaf_entry ''report_setup_table'' ''report_8h.html#a91d71b87caa24c5f140d9d76c3608407'']"

definition route__api_8h :: "nav_entry list" where
  "route__api_8h =
     [leaf_entry ''route_api_admin_assign'' ''route__api_8h.html#a11b096cc1db639cb9588ca92708641a7'',
      leaf_entry ''route_api_cities'' ''route__api_8h.html#a7a235c5c90304e1ae99c72ec9525bae0'',
      leaf_entry ''route_api_operators'' ''route__api_8h.html#ab5fc181c9d73ea5dc2dd31f86ee9d261'',
      leaf_entry ''route_api_report_feedback'' ''route__api_8h.html#a635c00b8d9b2f756c781b251ad48e0a7'',
      leaf_entry ''route_api_report_respond'' ''route__api_8h.html#ae7d9f6e90ac41b0449444315d501c3c9'',
      leaf_entry ''route_api_report_status'' ''route__api_8h.html#a203e7f295a5826219ebf6c67680e430c'',
      leaf_entry ''route_api_reports_active'' ''route__api_8h.html#ae56497d671dd10f2dd28b337d4b63d30'',
      leaf_entry ''route_api_reports_all'' ''route__api_8h.html#af38c8eab392811ece6b0d178b13fafc2'',
      leaf_entry ''route_api_reports_archived'' ''route__api_8h.html#ac58db32677a3bee39136f6df28a2d556'']"

definition route__handler_8h :: "nav_entry list" where
  "route__handler_8h =
     [NavEntry ''Route'' (Some ''structRoute.html'') (ChildScript ''structRoute''),
      leaf_entry ''RouteHandler'' ''route__handler_8h.html#abe2d0197f8ea19235998f79d3a577c8d'',
      leaf_entry ''handle_request'' ''route__handler_8h.html#ab4013acbe7214be92666929906cbb836'']"

definition route__helpers_8h :: "nav_entry list" where
  "route__helpers_8h =
     [leaf_entry ''get_session_user'' ''route__helpers_8h.html#a127145f7d13b0f45e17d7900359fac82'',
      leaf_entry ''login_error'' ''route__helpers_8h.html#a37b3177d788e2a1422ab73f86960f28a'',
      leaf_entry ''redirect'' ''route__helpers_8h.html#a63a8394d0b799fed607a768ad93b7b6e'',
      leaf_entry ''register_error'' ''route__helpers_8h.html#afe525281a008ac6bc69378f588485561'',
      leaf_entry ''resp_html_error'' ''route__helpers_8h.html#a91ad35482b06ad87ae373360697dd778'',
      leaf_entry ''resp_json_error'' ''route__helpers_8h.html#a69ab9ed347765e6ffa8f387bf81bc80e'',
      leaf_entry ''resp_render_tpl'' ''route__helpers_8h.html#aba3e60dbecd2a6e3fe8b703eeea33c7b'',
      leaf_entry ''submit_error'' ''route__helpers_8h.html#af5dc8bcda72cebe9ac09bf419e223c6f'']"

definition route__pages_8h :: "nav_entry list" where
  "route__pages_8h =
     [leaf_entry ''route_get_home'' ''route__pages_8h.html#adc20a219bda7a60d10a4fdf2d09b1783'',
      leaf_entry ''route_get_logout'' ''route__pages_8h.html#a0bf141eac75438d01437a82bdfe17d39'',
      leaf_entry ''route_get_register'' ''route__pages_8h.html#a27f9fa107fda82e535ae00728b577e9a'',
      leaf_entry ''route_get_root'' ''route__pages_8h.html#a28f06515bbf7c400ac7c3bc8123b6d4a'',
      leaf_entry ''route_get_submit'' ''route__pages_8h.html#ab75c687c73ba9c8dbbc104b2d9ea6689'',
      leaf_entry ''route_post_login'' ''route__pages_8h.html#ac2e8f78d46c8d713e4b22dde97f9a288'',
      leaf_entry ''route_post_register'' ''route__pages_8h.html#a78bd59e1e6f56c909f3d1f57dcea97b8'',
      leaf_entry ''route_post_submit'' ''route__pages_8h.html#acd89a59e5870c6ccb2ad3844e9b0c5bf'',
      leaf_entry ''route_static_css'' ''route__pages_8h.html#ab0140c2416ca2c96ac76769653a15c6c'',
      leaf_entry ''route_static_docs'' ''route__pages_8h.html#a0139b5c4f19a36ec63ff11dfd388e4d6'']"

definition server_8h :: "nav_entry list" where
  "server_8h =
     [leaf_entry ''hash_key'' ''server_8h.html#a30d5f3fba66ea8d634718e76e70f6dc3'']"

definition session_8h :: "nav_entry list" where
  "session_8h =
     [NavEntry ''Session'' (Some ''structSession.html'') (ChildScript ''structSession''),
      leaf_entry ''SESSION_COOKIE_NAME'' ''session_8h.html#ae75250ee939c4d711e0bbdf3e5f49d19'',
      leaf_entry ''SESSION_CREATE_MAX_TRIES'' ''session_8h.html#af8397fc211005ca3fbec0dc89371ab57'',
      leaf_entry ''SESSION_MAX_AGE'' ''session_8h.html#a634a3655991dc826beedd9fd85cceadb'',
      leaf_entry ''TOKEN_HEX_LEN'' ''session_8h.html#ab536ae31d9dd9ff7319930cfc634d2f1'',
      leaf_entry ''session_create'' ''session_8h.html#a8a336feb61114c12fbaeb3356db128d2'',
      leaf_entry ''session_destroy'' ''session_8h.html#a18863e1c97cac02a007f366168fb2a28'',
      leaf_entry ''session_destroy_all'' ''session_8h.html#a8f7740e9fdf307b5ed8d8c5da3fa5c2b'',
      leaf_entry ''session_init'' ''session_8h.html#a18e9bc4290ef62eb372782a0f83747b6'',
      leaf_entry ''session_verify'' ''session_8h.html#ab97164533dfe780bb414e712172a07b3'']"

definition slab__allocator_8h :: "nav_entry list" where
  "slab__allocator_8h =
     [NavEntry ''SlabPool'' (Some ''structSlabPool.html'') (ChildScript ''structSlabPool''),
      leaf_entry ''slab_pool_alloc'' ''slab__allocator_8h.html#aae74ef30ad97b6fea9b28bf2f1ed96d3'',
      leaf_entry ''slab_pool_destroy'' ''slab__allocator_8h.html#a74d8c490013ba4dd3f5a901d2c8dec9f'',
      leaf_entry ''slab_pool_free'' ''slab__allocator_8h.html#a7eccc2758e6e7d0f8f7b262549b72091'',
      leaf_entry ''slab_pool_init'' ''slab__allocator_8h.html#afa4512d2d50f3cbe6040d88dab851536'']"

definition template_8h :: "nav_entry list" where
  "template_8h =
     [NavEntry ''TplVar'' (Some ''structTplVar.html'') (ChildScript ''structTplVar''),
      leaf_entry ''Template'' ''template_8h.html#ae1eceda9d35f6ef989b038cd7d0ac811'',
      leaf_entry ''tpl_get'' ''template_8h.html#a3c06a6a3f524afd1ab3f7c40e221fb46'',
      leaf_entry ''tpl_load_files'' ''template_8h.html#ab8c95f914b1f67dda9f8a783d7956793'',
      leaf_entry ''tpl_render'' ''template_8h.html#acf1d3a49a5a1e4f3c175b8ea357511f7'',
      leaf_entry ''tpl_unload_all'' ''template_8h.html#a7da43e8729425954e645460d1944d33b'']"

definition user_8h :: "nav_entry list" where
  "user_8h =
     [NavEntry ''User'' (Some ''structUser.html'') (ChildScript ''structUser''),
      leaf_entry ''UserCol'' ''user_8h.html#acbc692aa285c92d8f0ad86bf3c51896e'',
      NavEntry ''UserRole'' (Some ''user_8h.html#a00dd1c1a522bd6fb15ecc021ffefb775'') (ChildList
        [leaf_entry ''ROLE_ADMIN'' ''user_8h.html#a00dd1c1a522bd6fb15ecc021ffefb775ae4a86fdf0e228f87fc50f2f846c7ac41'']),
      leaf_entry ''user_authenticate'' ''user_8h.html#a32de8d52d212f6bedaa51fe0665cde33'',
      leaf_entry ''user_get_by_id'' ''user_8h.html#a02d7579c8fee35596170643b1cd88e2a'',
      leaf_entry ''user_get_operators_json'' ''user_8h.html#afe0b578dea4d2a7df1c9d5f33189370e'',
      leaf_entry ''user_is_admin'' ''user_8h.html#a6ffdb13499ffc2251fc7478c67cf0ff8'',
      leaf_entry ''user_is_operator'' ''user_8h.html#aed7c22147ce4c65911d82fb74499b82f'',
      leaf_entry ''user_register'' ''user_8h.html#abe65647e5d1508831c0d869bbbb0de8f'',
      leaf_entry ''user_register_admin'' ''user_8h.html#afe5668681db3f70ea58af1d77c7f0c51'',
      leaf_entry ''user_setup_table'' ''user_8h.html#a0e0856cab4509b2dccef981ec43366f2'']"

section \<open>The index of pages\<close>

definition navtree_index_pages :: "(string \<times> nat list) list" where
  "navtree_index_pages =
     [(''annotated.html'', [0, 0]),
      (''classes.html'', [0, 1]),
      (''client__manager_8h.html'', [1, 0, 0]),
      (''client__manager_8h.html#a1b36ee468413a53d94dadc37ee77b9d6'', [1, 0, 0, 5]),
      (''client__manager_8h.html#a3cf91cb8e5f706a7277004f40fe62327'', [1, 0, 0, 4]),
      (''client__manager_8h.html#a946e9c58caf3141f9b80dfe31fd8f6db'', [1, 0, 0, 6]),
      (''client__manager_8h.html#aa52e77d31b703599f2a335b4eefc66d3'', [1, 0, 0, 7]),
      (''client__manager_8h.html#ab259797185232a173d5dc1a389490a6b'', [1, 0, 0, 2]),
      (''client__manager_8h.html#abd09c93313416fec798266ade26c7b27'', [1, 0, 0, 3]),
      (''client__manager_8h.html#ad298e53c235b4ef9ed6526ef0989246f'', [1, 0, 0, 1]),
      (''client__manager_8h.html#ae1b61876ea74483463931b0bede9c219'', [1, 0, 0, 8]),
      (''connection__handler_8h.html'', [1, 0, 1]),
      (''connection__handler_8h.html#a1d74171c0360dc771aace49df61ac509'', [1, 0, 1, 0]),
      (''connection__handler_8h.html#a1db95eaa49c81ad63519fb7a8908be37'', [1, 0, 1, 2]),
      (''connection__handler_8h.html#a2115213f213602da0f51d9f384b09bc4'', [1, 0, 1, 1]),
      (''connection__handler_8h.html#a550be703064c32ae946900e876ce3988'', [1, 0, 1, 3]),
      (''db_8h.html'', [1, 0, 2]),
      (''db_8h.html#a145d3e03272ebd0c29e74770e29653a0'', [1, 0, 2, 11]),
      (''db_8h.html#a14a955deab910d655dbde6a3713a38a0'', [1, 0, 2, 6]),
      (''db_8h.html#a30969ec3d9b14efae3c5ce44adf0a3b9'', [1, 0, 2, 4]),
      (''db_8h.html#a34686b55c084d2a40efd721f31c3dd35'', [1, 0, 2, 3]),
      (''db_8h.html#a37d5e482cfdd2da1c20ad57ff449e133'', [1, 0, 2, 7]),
      (''db_8h.html#a3bf1e80a44a5cadb0239b7caeed0985f'', [1, 0, 2, 5]),
      (''db_8h.html#a43539307187c50e84866e403c4c57cef'', [1, 0, 2, 2]),
      (''db_8h.html#a4ee78374813d3f33992939c7690068c3'', [1, 0, 2, 8]),
      (''db_8h.html#a72da1433341afa6d1915e8c7cb95b51c'', [1, 0, 2, 9]),
      (''db_8h.html#a8ef66a94fd4d4dfee150e52e19472d73'', [1, 0, 2, 1]),
      (''db_8h.html#a97ec9a4ddf0a3357e93af791b0c32f75'', [1, 0, 2, 0]),
      (''db_8h.html#a9d7975d5d1eb9495f9503829f1b0c87f'', [1, 0, 2, 12]),
      (''db_8h.html#ad7dce6393b603e447c4da8740d61c680'', [1, 0, 2, 10]),
      (''files.html'', [1, 0]),
      (''functions.html'', [0, 2, 0]),
      (''functions_vars.html'', [0, 2, 1]),
      (''geo_8h.html'', [1, 0, 3]),
      (''geo_8h.html#a152f8735049da726f2da726ac4ab1f43'', [1, 0, 3, 5]),
      (''geo_8h.html#a58dcbd231fb7d80a5832fc69ec95020f'', [1, 0, 3, 2]),
      (''geo_8h.html#a7c7fe01930257c877e0a80d584dd13ed'', [1, 0, 3, 6]),
      (''geo_8h.html#a8e63bdd95c36d05b811a366c661d4b66'', [1, 0, 3, 3]),
      (''geo_8h.html#af9d43dd58b09701b3c180c11eab51e21'', [1, 0, 3, 4]),
      (''globals.html'', [1, 1, 0]),
      (''globals_defs.html'', [1, 1, 5]),
      (''globals_enum.html'', [1, 1, 3]),
      (''globals_eval.html'', [1, 1, 4]),
      (''globals_func.html'', [1, 1, 1]),
      (''globals_type.html'', [1, 1, 2]),
      (''hash__table_8h.html'', [1, 0, 4]),
      (''hash__table_8h.html#a14a4ab0781749f8723acc44f9977a267'', [1, 0, 4, 6]),
      (''hash__table_8h.html#a4044224a01d29cb8790e2c52d4120dfd'', [1, 0, 4, 4]),
      (''hash__table_8h.html#a427252b31b8a9c4699d0870ba25dd26d'', [1, 0, 4, 7]),
      (''hash__table_8h.html#a558825dbaa6e9b4bddfab3d3a8c8db07'', [1, 0, 4, 5]),
      (''hash__table_8h.html#a9cf401f8c72c3459d524461e348f2b33'', [1, 0, 4, 0]),
      (''hash__table_8h.html#aa654272c94a43a43e2d7b309d6699122'', [1, 0, 4, 2]),
      (''hash__table_8h.html#ac986a6f910dcf3f2048cc79c6529c0d2'', [1, 0, 4, 3]),
      (''hash__table_8h.html#ae1bc3f8d1cc56c8bf5cf10c7ce32de6e'', [1, 0, 4, 1]),
      (''hash__table_8h.html#af177a3dfd557f1d74f7351c7fc209d8e'', [1, 0, 4, 8]),
      (''http__types_8h.html'', [1, 0, 5]),
      (''http__types_8h.html#a46194fa0a816b64112333fc33f4a7b38'', [1, 0, 5, 2]),
      (''http__types_8h.html#ae25acc386a279de3461e5881633c1402'', [1, 0, 5, 3]),
      (''http__utils_8h.html'', [1, 0, 6]),
      (''http__utils_8h.html#a0284890bc01bd39002a84c26a934cbb1'', [1, 0, 6, 5]),
      (''http__utils_8h.html#a358ad2e10ee4a1905d078f8f4283e07e'', [1, 0, 6, 1]),
      (''http__utils_8h.html#a3a191cc59105d4b3d48f1143eb6d49fd'', [1, 0, 6, 6]),
      (''http__utils_8h.html#a3c88a94d6eeb9664c579245b2a7615aa'', [1, 0, 6, 0]),
      (''http__utils_8h.html#a432ab675be86e8c395eb6dd1a4339074'', [1, 0, 6, 2]),
      (''http__utils_8h.html#a6fcd7d7979d06e23a9692e94c1db5574'', [1, 0, 6, 7]),
      (''http__utils_8h.html#a80b79507bd287181f71ea834e5c26a2b'', [1, 0, 6, 3]),
      (''http__utils_8h.html#ab7a64f4c1946b9d43ee3c749616b7d60'', [1, 0, 6, 9]),
      (''http__utils_8h.html#ad819f10ecdf6cf1858a0f295ce1be4ef'', [1, 0, 6, 4]),
      (''http__utils_8h.html#ae60f58c36a39bf4ad67e11d2a920172e'', [1, 0, 6, 11]),
      (''http__utils_8h.html#af3fc2674512100b082e193588b54edb2'', [1, 0, 6, 8]),
      (''http__utils_8h.html#afa83dabef28bd646c993cd400c0f9318'', [1, 0, 6, 10]),
      (''index.html'', []),
      (''pages.html'', []),
      (''rate__limiter_8h.html'', [1, 0, 7]),
      (''rate__limiter_8h.html#a2e9ebeeecd4984470b4db1c56556d960'', [1, 0, 7, 1]),
      (''rate__limiter_8h.html#aa7392874ee7307b732cd47689d71c388'', [1, 0, 7, 3]),
      (''rate__limiter_8h.html#ab59a0cbc6f3a5d93618c9041424d1303'', [1, 0, 7, 2]),
      (''report_8h.html'', [1, 0, 8]),
      (''report_8h.html#a155cde62d147e5d51a84a576cab54010'', [1, 0, 8, 10]),
      (''report_8h.html#a1c73edf62976cf1b5c90a24925e3a2c8'', [1, 0, 8, 6]),
      (''report_8h.html#a2bc78b4639f2f97fc23809ac8acbe519'', [1, 0, 8, 13]),
      (''report_8h.html#a6580f32427cb69a902e75be6b26dafbc'', [1, 0, 8, 9]),
      (''report_8h.html#a8061a7a6fc28209df91f55623d39c30c'', [1, 0, 8, 1]),
      (''report_8h.html#a909e86efc7196418a3040cbeed5fb9c8'', [1, 0, 8, 12]),
      (''report_8h.html#a91d71b87caa24c5f140d9d76c3608407'', [1, 0, 8, 15]),
      (''report_8h.html#a98fc6fb7ae2c1800b28ffd86ae5668eb'', [1, 0, 8, 5]),
      (''report_8h.html#a9f4a537a0057802c4f7142b231047130'', [1, 0, 8, 3]),
      (''report_8h.html#aa22245570cb09b70c495eec276f0d230'', [1, 0, 8, 8]),
      (''report_8h.html#aa2237d0bac040b08a93d6a39dcd0bbb1'', [1, 0, 8, 14]),
      (''report_8h.html#aa93bd0e8b41c682fee30f387eae3bb0f'', [1, 0, 8, 2]),
      (''report_8h.html#aa93bd0e8b41c682fee30f387eae3bb0fa07c90a2dc659a90f024caa9f34ccde32'', [1, 0, 8, 2, 3]),
      (''report_8h.html#aa93bd0e8b41c682fee30f387eae3bb0fa9f89f2204c9bdf877641cb54ca486a28'', [1, 0, 8, 2, 1]),
      (''report_8h.html#aa93bd0e8b41c682fee30f387eae3bb0faac7e7606c854bc8257d642c3fdd9b318'', [1, 0, 8, 2, 0]),
      (''report_8h.html#aa93bd0e8b41c682fee30f387eae3bb0fafaf0b6349b8a93b543f64c744e321d5a'', [1, 0, 8, 2, 2]),
      (''report_8h.html#ac33d3d78fb58ba138757173861785d42'', [1, 0, 8, 7]),
      (''report_8h.html#ac8891d83544400e70fd4977ff26662f8'', [1, 0, 8, 4]),
      (''report_8h.html#af2a4caf55eba408d05d2a506039e43dd'', [1, 0, 8, 11]),
      (''route__api_8h.html'', [1, 0, 9]),
      (''route__api_8h.html#a11b096cc1db639cb9588ca92708641a7'', [1, 0, 9, 0]),
      (''route__api_8h.html#a203e7f295a5826219ebf6c67680e430c'', [1, 0, 9, 5]),
      (''route__api_8h.html#a635c00b8d9b2f756c781b251ad48e0a7'', [1, 0, 9, 3]),
      (''route__api_8h.html#a7a235c5c90304e1ae99c72ec9525bae0'', [1, 0, 9, 1]),
      (''route__api_8h.html#ab5fc181c9d73ea5dc2dd31f86ee9d261'', [1, 0, 9, 2]),
      (''route__api_8h.html#ac58db32677a3bee39136f6df28a2d556'', [1, 0, 9, 8]),
      (''route__api_8h.html#ae56497d671dd10f2dd28b337d4b63d30'', [1, 0, 9, 6]),
      (''route__api_8h.html#ae7d9f6e90ac41b0449444315d501c3c9'', [1, 0, 9, 4]),
      (''route__api_8h.html#af38c8eab392811ece6b0d178b13fafc2'', [1, 0, 9, 7]),
      (''route__handler_8h.html'', [1, 0, 10]),
      (''route__handler_8h.html#ab4013acbe7214be92666929906cbb836'', [1, 0, 10, 2]),
      (''route__handler_8h.html#abe2d0197f8ea19235998f79d3a577c8d'', [1, 0, 10, 1])]"

definition navtree_index_rest :: "(string \<times> nat list) list" where
  "navtree_index_rest =
     [(''route__helpers_8h.html'', [1, 0, 11]),
      (''route__helpers_8h.html#a127145f7d13b0f45e17d7900359fac82'', [1, 0, 11, 0]),
      (''route__helpers_8h.html#a37b3177d788e2a1422ab73f86960f28a'', [1, 0, 11, 1]),
      (''route__helpers_8h.html#a63a8394d0b799fed607a768ad93b7b6e'', [1, 0, 11, 2]),
      (''route__helpers_8h.html#a69ab9ed347765e6ffa8f387bf81bc80e'', [1, 0, 11, 5]),
      (''route__helpers_8h.html#a91ad35482b06ad87ae373360697dd778'', [1, 0, 11, 4]),
      (''route__helpers_8h.html#aba3e60dbecd2a6e3fe8b703eeea33c7b'', [1, 0, 11, 6]),
      (''route__helpers_8h.html#af5dc8bcda72cebe9ac09bf419e223c6f'', [1, 0, 11, 7]),
      (''route__helpers_8h.html#afe525281a008ac6bc69378f588485561'', [1, 0, 11, 3]),
      (''route__pages_8h.html'', [1, 0, 12]),
      (''route__pages_8h.html#a0139b5c4f19a36ec63ff11dfd388e4d6'', [1, 0, 12, 9]),
      (''route__pages_8h.html#a0bf141eac75438d01437a82bdfe17d39'', [1, 0, 12, 1]),
      (''route__pages_8h.html#a27f9fa107fda82e535ae00728b577e9a'', [1, 0, 12, 2]),
      (''route__pages_8h.html#a28f06515bbf7c400ac7c3bc8123b6d4a'', [1, 0, 12, 3]),
      (''route__pages_8h.html#a78bd59e1e6f56c909f3d1f57dcea97b8'', [1, 0, 12, 6]),
      (''route__pages_8h.html#ab0140c2416ca2c96ac76769653a15c6c'', [1, 0, 12, 8]),
      (''route__pages_8h.html#ab75c687c73ba9c8dbbc104b2d9ea6689'', [1, 0, 12, 4]),
      (''route__pages_8h.html#ac2e8f78d46c8d713e4b22dde97f9a288'', [1, 0, 12, 5]),
      (''route__pages_8h.html#acd89a59e5870c6ccb2ad3844e9b0c5bf'', [1, 0, 12, 7]),
      (''route__pages_8h.html#adc20a219bda7a60d10a4fdf2d09b1783'', [1, 0, 12, 0]),
      (''server_8h.html'', [1, 0, 13]),
      (''server_8h.html#a30d5f3fba66ea8d634718e76e70f6dc3'', [1, 0, 13, 0]),
      (''session_8h.html'', [1, 0, 14]),
      (''session_8h.html#a18863e1c97cac02a007f366168fb2a28'', [1, 0, 14, 6]),
      (''session_8h.html#a18e9bc4290ef62eb372782a0f83747b6'', [1, 0, 14, 8]),
      (''session_8h.html#a634a3655991dc826beedd9fd85cceadb'', [1, 0, 14, 3]),
      (''session_8h.html#a8a336feb61114c12fbaeb3356db128d2'', [1, 0, 14, 5]),
      (''session_8h.html#a8f7740e9fdf307b5ed8d8c5da3fa5c2b'', [1, 0, 14, 7]),
      (''session_8h.html#ab536ae31d9dd9ff7319930cfc634d2f1'', [1, 0, 14, 4]),
      (''session_8h.html#ab97164533dfe780bb414e712172a07b3'', [1, 0, 14, 9]),
      (''session_8h.html#ae75250ee939c4d711e0bbdf3e5f49d19'', [1, 0, 14, 1]),
      (''session_8h.html#af8397fc211005ca3fbec0dc89371ab57'', [1, 0, 14, 2]),
      (''slab__allocator_8h.html'', [1, 0, 15]),
      (''slab__allocator_8h.html#a74d8c490013ba4dd3f5a901d2c8dec9f'', [1, 0, 15, 2]),
      (''slab__allocator_8h.html#a7eccc2758e6e7d0f8f7b262549b72091'', [1, 0, 15, 3]),
      (''slab__allocator_8h.html#aae74ef30ad97b6fea9b28bf2f1ed96d3'', [1, 0, 15, 1]),
      (''slab__allocator_8h.html#afa4512d2d50f3cbe6040d88dab851536'', [1, 0, 15, 4]),
      (''structCityGeo.html'', [0, 0, 0]),
      (''structCityGeo.html#a50423c53a2d7aec1793de7337b643305'', [0, 0, 0, 0]),
      (''structCityGeo.html#a7ae8a4e2cf6ce22bd1c4527bcf89c398'', [0, 0, 0, 2]),
      (''structCityGeo.html#a9db1bdbd047e75b6cf6806fc0035fb04'', [0, 0, 0, 1]),
      (''structClientCtx.html'', [0, 0, 1]),
      (''structClientCtx.html#a0778f859efe0f1493280cdaae5c6ce18'', [0, 0, 1, 3]),
      (''structClientCtx.html#a0aabecb6dbfd895462b06fc04bd35e53'', [0, 0, 1, 1]),
      (''structClientCtx.html#a2c003731dd2f1d69ee3ecf3fa97800b1'', [0, 0, 1, 6]),
      (''structClientCtx.html#a3071414cac882166f57669617502b53c'', [0, 0, 1, 7]),
      (''structClientCtx.html#a3efd8aa4e8f096919c396384d484f529'', [0, 0, 1, 0]),
      (''structClientCtx.html#a9baa961deebf3008778d9da28803d1e5'', [0, 0, 1, 4]),
      (''structClientCtx.html#ad9aedd4468162aa7a2bca1ea6d3124f0'', [0, 0, 1, 2]),
      (''structClientCtx.html#aebd0b4eae284c79037b5eff574465a5a'', [0, 0, 1, 5]),
      (''structHttpRequest.html'', [0, 0, 2]),
      (''structHttpRequest.html#a0853a6d4d8944486068e012be368a824'', [0, 0, 2, 4]),
      (''structHttpRequest.html#a132762762601c88ac5ae34e005791983'', [0, 0, 2, 2]),
      (''structHttpRequest.html#a2c75b566736b74b31a58079397f05a90'', [0, 0, 2, 6]),
      (''structHttpRequest.html#a3c5c3295158feddf484ab32fc9851b8b'', [0, 0, 2, 0]),
      (''structHttpRequest.html#a3efbb41c9e3ecf0073354f3e72395ffc'', [0, 0, 2, 3]),
      (''structHttpRequest.html#a54d5957e981adf59e19b6746ba502567'', [0, 0, 2, 1]),
      (''structHttpRequest.html#a7095767bcbc061dd02637cecef0a5815'', [0, 0, 2, 7]),
      (''structHttpRequest.html#aa16a2b3d59a72d14eb5160d6b2e205fd'', [0, 0, 2, 8]),
      (''structHttpRequest.html#af1a9e6aca00b0f6ae262ce4add5187b8'', [0, 0, 2, 5]),
      (''structHttpResponse.html'', [0, 0, 3]),
      (''structHttpResponse.html#a1935db201de71fbbd1319f3b703afd25'', [0, 0, 3, 2]),
      (''structHttpResponse.html#a236993626153428903c3f55400508490'', [0, 0, 3, 3]),
      (''structHttpResponse.html#a48b139a9e8a5385630d90c3ffa0a1666'', [0, 0, 3, 0]),
      (''structHttpResponse.html#aa22debb698288bbb79e49bda3630cbda'', [0, 0, 3, 1]),
      (''structHttpResponse.html#af437cbe87aead2a55f49b9c112dfc6af'', [0, 0, 3, 4]),
      (''structMapVars.html'', [0, 0, 4]),
      (''structMapVars.html#a2a738ccaeb6008b89712d143dac0df81'', [0, 0, 4, 0]),
      (''structMapVars.html#aa71d42ede4215ab41765fd0dc581836b'', [0, 0, 4, 1]),
      (''structMapVars.html#aea8f4be8be20bbb4ee2393013b5769b3'', [0, 0, 4, 2]),
      (''structRateEntry.html'', [0, 0, 5]),
      (''structRateEntry.html#a1da212865339670053b9eb73a17f2db6'', [0, 0, 5, 2]),
      (''structRateEntry.html#a2f7c3181f86e918d165717ca6c07fdc7'', [0, 0, 5, 1]),
      (''structRateEntry.html#a82ad91e11d2b4ab9b5316348f8380d1c'', [0, 0, 5, 0]),
      (''structReport.html'', [0, 0, 6]),
      (''structReport.html#a1550ca6d6f0f3aafd3de4932e71f3ad3'', [0, 0, 6, 3]),
      (''structReport.html#a3a8d9b5fa3549af30e13da10adf76031'', [0, 0, 6, 8]),
      (''structReport.html#a6731bcb1220589ec9684bc6336c4683b'', [0, 0, 6, 10]),
      (''structReport.html#a700ec009122d541fdde74f3c9802efee'', [0, 0, 6, 6]),
      (''structReport.html#a73ead0fd592e03f807c5a12317eac062'', [0, 0, 6, 0]),
      (''structReport.html#a9bb48ff8dcebb3de97579c23059801a3'', [0, 0, 6, 7]),
      (''structReport.html#aa01d9dcd0dcbb81af624d7b9094581ad'', [0, 0, 6, 11]),
      (''structReport.html#accc340e13f75d3731a54cde567de0fc5'', [0, 0, 6, 1]),
      (''structReport.html#ad0d75676a6a119267dca0660c848a5d4'', [0, 0, 6, 9]),
      (''structReport.html#aeb5361ffd4bd5465f2116cbc9afed95d'', [0, 0, 6, 4]),
      (''structReport.html#af08bd09273f1f177200b0a0bda61c220'', [0, 0, 6, 5]),
      (''structReport.html#aff8e3a8fc7a1d40d38bde76b0613eefc'', [0, 0, 6, 12]),
      (''structReport.html#affffc951f80c67f2357fc791f33b9c37'', [0, 0, 6, 2]),
      (''structRoute.html'', [0, 0, 7]),
      (''structRoute.html#a631e87ab76cacd2b979337c098e7c64e'', [0, 0, 7, 1]),
      (''structRoute.html#a633dd38989bcc3748fc4dfd1d3dec84c'', [0, 0, 7, 0]),
      (''structRoute.html#a793dd6c314bd207fb6c5431a55bd4e27'', [0, 0, 7, 2]),
      (''structSession.html'', [0, 0, 8]),
      (''structSession.html#a1274393415abccedad35198eb26929c2'', [0, 0, 8, 1]),
      (''structSession.html#a38397fcda4910caae61ead2708a1f8a7'', [0, 0, 8, 0]),
      (''structSlabPool.html'', [0, 0, 9]),
      (''structSlabPool.html#a6a1b2a4c4422e1085e549fd4a8e31f22'', [0, 0, 9, 2]),
      (''structSlabPool.html#ae32e069b240ea38919db7ab768a2b059'', [0, 0, 9, 3]),
      (''structSlabPool.html#aec7465baaf178d33699f0c71678bd0fd'', [0, 0, 9, 1]),
      (''structSlabPool.html#affe6aa5d75d5227ee111486002e32b80'', [0, 0, 9, 0]),
      (''structTplVar.html'', [0, 0, 10]),
      (''structTplVar.html#a50abf9d8a8d4ff7e3f65799cd48632cd'', [0, 0, 10, 0]),
      (''structTplVar.html#ad354a220a8835e35048403513dc6e051'', [0, 0, 10, 1]),
      (''structUser.html'', [0, 0, 11]),
      (''structUser.html#a35989de0d7ceb8ee42a10716dfab962e'', [0, 0, 11, 5]),
      (''structUser.html#a5ac70ab4e8b54d614a82dcefa0f9b270'', [0, 0, 11, 3]),
      (''structUser.html#a9d72cf1c2b880a0e01107e6dc6f08704'', [0, 0, 11, 1]),
      (''structUser.html#ab91e66ddd08d2a0a76790374c2861fb8'', [0, 0, 11, 2]),
      (''structUser.html#ad919bd15f70c2c7af21d346432ef3be8'', [0, 0, 11, 4]),
      (''structUser.html#af4508305291c7b0fb67a4fac544fd7fd'', [0, 0, 11, 0]),
      (''template_8h.html'', [1, 0, 16]),
      (''template_8h.html#a3c06a6a3f524afd1ab3f7c40e221fb46'', [1, 0, 16, 2]),
      (''template_8h.html#a7da43e8729425954e645460d1944d33b'', [1, 0, 16, 5]),
      (''template_8h.html#ab8c95f914b1f67dda9f8a783d7956793'', [1, 0, 16, 3]),
      (''template_8h.html#acf1d3a49a5a1e4f3c175b8ea357511f7'', [1, 0, 16, 4]),
      (''template_8h.html#ae1eceda9d35f6ef989b038cd7d0ac811'', [1, 0, 16, 1]),
      (''user_8h.html'', [1, 0, 17]),
      (''user_8h.html#a00dd1c1a522bd6fb15ecc021ffefb775'', [1, 0, 17, 2]),
      (''user_8h.html#a00dd1c1a522bd6fb15ecc021ffefb775ae4a86fdf0e228f87fc50f2f846c7ac41'', [1, 0, 17, 2, 0]),
      (''user_8h.html#a02d7579c8fee35596170643b1cd88e2a'', [1, 0, 17, 4]),
      (''user_8h.html#a0e0856cab4509b2dccef981ec43366f2'', [1, 0, 17, 10]),
      (''user_8h.html#a32de8d52d212f6bedaa51fe0665cde33'', [1, 0, 17, 3]),
      (''user_8h.html#a6ffdb13499ffc2251fc7478c67cf0ff8'', [1, 0, 17, 6]),
      (''user_8h.html#abe65647e5d1508831c0d869bbbb0de8f'', [1, 0, 17, 8]),
      (''user_8h.html#acbc692aa285c92d8f0ad86bf3c51896e'', [1, 0, 17, 1]),
      (''user_8h.html#aed7c22147ce4c65911d82fb74499b82f'', [1, 0, 17, 7]),
      (''user_8h.html#afe0b578dea4d2a7df1c9d5f33189370e'', [1, 0, 17, 5]),
      (''user_8h.html#afe5668681db3f70ea58af1d77c7f0c51'', [1, 0, 17, 9])]"

definition NAVTREEINDEX0 :: "(string \<times> nat list) list" where
  "NAVTREEINDEX0 = navtree_index_pages @ navtree_index_rest"


section \<open>The scripts\<close>

text \<open>What evaluating a variable gives once its script has run.\<close>

definition dox_variables :: "(string \<times> nav_entry list) list" where
  "dox_variables =
     [(''annotated_dup'', annotated_dup),
      (''files_dup'', files_dup),
      (''structCityGeo'', structCityGeo),
      (''structClientCtx'', structClientCtx),
      (''structHttpRequest'', structHttpRequest),
      (''structHttpResponse'', structHttpResponse),
      (''structMapVars'', structMapVars),
      (''structRateEntry'', structRateEntry),
      (''structReport'', structReport),
      (''structRoute'', structRoute),
      (''structSession'', structSession),
      (''structSlabPool'', structSlabPool),
      (''structTplVar'', structTplVar),
      (''structUser'', structUser),
      (''client__manager_8h'', client__manager_8h),
      (''connection__handler_8h'', connection__handler_8h),
      (''db_8h'', db_8h),
      (''geo_8h'', geo_8h),
      (''hash__table_8h'', hash__table_8h),
      (''http__types_8h'', http__types_8h),
      (''http__utils_8h'', http__utils_8h),
      (''rate__limiter_8h'', rate__limiter_8h),
      (''report_8h'', report_8h),
      (''route__api_8h'', route__api_8h),
      (''route__handler_8h'', route__handler_8h),
      (''route__helpers_8h'', route__helpers_8h),
      (''route__pages_8h'', route__pages_8h),
      (''server_8h'', server_8h),
      (''session_8h'', session_8h),
      (''slab__allocator_8h'', slab__allocator_8h),
      (''template_8h'', template_8h),
      (''user_8h'', user_8h)]"

definition dox_scripts :: "string \<Rightarrow> script_data option" where
  "dox_scripts name =
     (if name = ''navtreeindex0'' then Some (IndexData (map_of NAVTREEINDEX0))
      else map_option EntryData (map_of dox_variables name))"

end
