(* ===== verification/DoxNavdataSpec.thy ===== *)
theory DoxNavdataSpec
  imports DoxNavtreeSpec DoxNavdata
begin

text \<open>
  The generated data of the navigation tree fit together: every page of the index has breadcrumbs that lead
  through the scripts to the entry with its address, so that opening any page of the manual opens the tree
  down to it.
\<close>

section \<open>Entries at the end of a path\<close>

fun entries_at :: "script_env \<Rightarrow> string \<Rightarrow> nav_entry list \<Rightarrow> nat list \<Rightarrow> nav_entry list option" where
  "entries_at env rel es [] = Some es"
| "entries_at env rel es (k # ks) =
     (if k < length es
      then (case data_list env rel (ne_children (es ! k)) of
              None \<Rightarrow> None | Some es' \<Rightarrow> entries_at env rel es' ks)
      else None)"

lemma follow_entries:
  "entries_at env rel es ks = Some es' \<Longrightarrow> k < length es' \<Longrightarrow> follow env rel (ne_children (es' ! k)) [] \<Longrightarrow>
   follow env rel (ChildList es) (ks @ [k])"
proof (induction ks arbitrary: es)
  case Nil
  then show ?case by (simp add: data_list_def)
next
  case (Cons c ks)
  then obtain es1 where es1: "c < length es" "data_list env rel (ne_children (es ! c)) = Some es1"
    "entries_at env rel es1 ks = Some es'" by (auto split: if_splits option.splits)
  have "follow env rel (ChildList es1) (ks @ [k])" by (rule Cons.IH [OF es1(3) Cons.prems(2,3)])
  then have "follow env rel (ne_children (es ! c)) (ks @ [k])"
    using es1(2) by (cases "ks @ [k]") (auto simp: data_list_def split: option.splits)
  then show ?case using es1(1) by (simp add: data_list_def)
qed

text \<open>The entry the breadcrumbs of a page end in has the address of the page; pages without breadcrumbs
  are shown at the root.\<close>

definition page_ok :: "string \<times> nat list \<Rightarrow> bool" where
  "page_ok p =
     (case entries_at dox_scripts [] NAVTREE (butlast (0 # snd p)) of
        None \<Rightarrow> False
      | Some es \<Rightarrow>
          last (0 # snd p) < length es \<and>
          (ne_link (es ! last (0 # snd p)) = Some (fst p) \<or> snd p = []) \<and>
          follow dox_scripts [] (ne_children (es ! last (0 # snd p))) [])"

section \<open>The generated data\<close>

lemma scripts_found:
  "dox_scripts (data_name ''annotated_dup'') = Some (EntryData annotated_dup)"
  "dox_scripts (data_name ''files_dup'') = Some (EntryData files_dup)"
  "dox_scripts (data_name ''structCityGeo'') = Some (EntryData structCityGeo)"
  "dox_scripts (data_name ''structClientCtx'') = Some (EntryData structClientCtx)"
  "dox_scripts (data_name ''structHttpRequest'') = Some (EntryData structHttpRequest)"
  "dox_scripts (data_name ''structHttpResponse'') = Some (EntryData structHttpResponse)"
  "dox_scripts (data_name ''structMapVars'') = Some (EntryData structMapVars)"
  "dox_scripts (data_name ''structRateEntry'') = Some (EntryData structRateEntry)"
  "dox_scripts (data_name ''structReport'') = Some (EntryData structReport)"
  "dox_scripts (data_name ''structRoute'') = Some (EntryData structRoute)"
  "dox_scripts (data_name ''structSession'') = Some (EntryData structSession)"
  "dox_scripts (data_name ''structSlabPool'') = Some (EntryData structSlabPool)"
  "dox_scripts (data_name ''structTplVar'') = Some (EntryData structTplVar)"
  "dox_scripts (data_name ''structUser'') = Some (EntryData structUser)"
  "dox_scripts (data_name ''client__manager_8h'') = Some (EntryData client__manager_8h)"
  "dox_scripts (data_name ''connection__handler_8h'') = Some (EntryData connection__handler_8h)"
  "dox_scripts (data_name ''db_8h'') = Some (EntryData db_8h)"
  "dox_scripts (data_name ''geo_8h'') = Some (EntryData geo_8h)"
  "dox_scripts (data_name ''hash__table_8h'') = Some (EntryData hash__table_8h)"
  "dox_scripts (data_name ''http__types_8h'') = Some (EntryData http__types_8h)"
  "dox_scripts (data_name ''http__utils_8h'') = Some (EntryData http__utils_8h)"
  "dox_scripts (data_name ''rate__limiter_8h'') = Some (EntryData rate__limiter_8h)"
  "dox_scripts (data_name ''report_8h'') = Some (EntryData report_8h)"
  "dox_scripts (data_name ''route__api_8h'') = Some (EntryData route__api_8h)"
  "dox_scripts (data_name ''route__handler_8h'') = Some (EntryData route__handler_8h)"
  "dox_scripts (data_name ''route__helpers_8h'') = Some (EntryData route__helpers_8h)"
  "dox_scripts (data_name ''route__pages_8h'') = Some (EntryData route__pages_8h)"
  "dox_scripts (data_name ''server_8h'') = Some (EntryData server_8h)"
  "dox_scripts (data_name ''session_8h'') = Some (EntryData session_8h)"
  "dox_scripts (data_name ''slab__allocator_8h'') = Some (EntryData slab__allocator_8h)"
  "dox_scripts (data_name ''template_8h'') = Some (EntryData template_8h)"
  "dox_scripts (data_name ''user_8h'') = Some (EntryData user_8h)"
  by (simp_all add: dox_scripts_def dox_variables_def data_name_def after_last_def slash_def)

lemma entries_of_files:
  "entries_at dox_scripts [] NAVTREE [0, 0, 0] = Some annotated_dup"
  "entries_at dox_scripts [] NAVTREE [0, 1, 0] = Some files_dup"
  "entries_at dox_scripts [] NAVTREE [0, 0, 0, 0] = Some structCityGeo"
  "entries_at dox_scripts [] NAVTREE [0, 0, 0, 1] = Some structClientCtx"
  "entries_at dox_scripts [] NAVTREE [0, 0, 0, 2] = Some structHttpRequest"
  "entries_at dox_scripts [] NAVTREE [0, 0, 0, 3] = Some structHttpResponse"
  "entries_at dox_scripts [] NAVTREE [0, 0, 0, 4] = Some structMapVars"
  "entries_at dox_scripts [] NAVTREE [0, 0, 0, 5] = Some structRateEntry"
  "entries_at dox_scripts [] NAVTREE [0, 0, 0, 6] = Some structReport"
  "entries_at dox_scripts [] NAVTREE [0, 0, 0, 7] = Some structRoute"
  "entries_at dox_scripts [] NAVTREE [0, 0, 0, 8] = Some structSession"
  "entries_at dox_scripts [] NAVTREE [0, 0, 0, 9] = Some structSlabPool"
  "entries_at dox_scripts [] NAVTREE [0, 0, 0, 10] = Some structTplVar"
  "entries_at dox_scripts [] NAVTREE [0, 0, 0, 11] = Some structUser"
  "entries_at dox_scripts [] NAVTREE [0, 1, 0, 0] = Some client__manager_8h"
  "entries_at dox_scripts [] NAVTREE [0, 1, 0, 1] = Some connection__handler_8h"
  "entries_at dox_scripts [] NAVTREE [0, 1, 0, 2] = Some db_8h"
  "entries_at dox_scripts [] NAVTREE [0, 1, 0, 3] = Some geo_8h"
  "entries_at dox_scripts [] NAVTREE [0, 1, 0, 4] = Some hash__table_8h"
  "entries_at dox_scripts [] NAVTREE [0, 1, 0, 5] = Some http__types_8h"
  "entries_at dox_scripts [] NAVTREE [0, 1, 0, 6] = Some http__utils_8h"
  "entries_at dox_scripts [] NAVTREE [0, 1, 0, 7] = Some rate__limiter_8h"
  "entries_at dox_scripts [] NAVTREE [0, 1, 0, 8] = Some report_8h"
  "entries_at dox_scripts [] NAVTREE [0, 1, 0, 9] = Some route__api_8h"
  "entries_at dox_scripts [] NAVTREE [0, 1, 0, 10] = Some route__handler_8h"
  "entries_at dox_scripts [] NAVTREE [0, 1, 0, 11] = Some route__helpers_8h"
  "entries_at dox_scripts [] NAVTREE [0, 1, 0, 12] = Some route__pages_8h"
  "entries_at dox_scripts [] NAVTREE [0, 1, 0, 13] = Some server_8h"
  "entries_at dox_scripts [] NAVTREE [0, 1, 0, 14] = Some session_8h"
  "entries_at dox_scripts [] NAVTREE [0, 1, 0, 15] = Some slab__allocator_8h"
  "entries_at dox_scripts [] NAVTREE [0, 1, 0, 16] = Some template_8h"
  "entries_at dox_scripts [] NAVTREE [0, 1, 0, 17] = Some user_8h"
  by (simp_all add: data_list_def scripts_found NAVTREE_def leaf_entry_def annotated_dup_def files_dup_def)

lemmas script_entries =
  annotated_dup_def files_dup_def structCityGeo_def structClientCtx_def structHttpRequest_def
  structHttpResponse_def structMapVars_def structRateEntry_def structReport_def structRoute_def
  structSession_def structSlabPool_def structTplVar_def structUser_def client__manager_8h_def
  connection__handler_8h_def db_8h_def geo_8h_def hash__table_8h_def http__types_8h_def
  http__utils_8h_def rate__limiter_8h_def report_8h_def route__api_8h_def route__handler_8h_def
  route__helpers_8h_def route__pages_8h_def server_8h_def session_8h_def slab__allocator_8h_def
  template_8h_def user_8h_def

lemmas index_defs = NAVTREEINDEX0_def navtree_index_pages_def navtree_index_rest_def append_Cons append_Nil

lemma index_pages_ok: "list_all page_ok NAVTREEINDEX0"
  unfolding index_defs list.pred_inject
  apply (intro conjI TrueI)
  apply (simp_all only: page_ok_def fst_conv snd_conv butlast.simps last.simps list.simps if_True if_False simp_thms
    entries_of_files option.simps)
  apply (simp_all add: script_entries leaf_entry_def data_list_def scripts_found NAVTREE_def)
  done

section \<open>Opening a page\<close>

lemma data_name_rel: "rel = [] \<or> last rel = slash \<Longrightarrow> data_name (rel @ v) = data_name v"
proof -
  assume r: "rel = [] \<or> last rel = slash"
  have "takeWhile (\<lambda>x. x \<noteq> slash) (rev v @ rev rel) = takeWhile (\<lambda>x. x \<noteq> slash) (rev v)"
  proof (cases "slash \<in> set v")
    case True
    then show ?thesis by (intro takeWhile_append1) auto
  next
    case False
    have "takeWhile (\<lambda>x. x \<noteq> slash) (rev rel) = []"
      using r by (cases rel rule: rev_cases) auto
    moreover have "takeWhile (\<lambda>x. x \<noteq> slash) (rev v) = rev v" using False by (subst takeWhile_eq_all_conv) auto
    moreover have "takeWhile (\<lambda>x. x \<noteq> slash) (rev v @ rev rel) = rev v @ takeWhile (\<lambda>x. x \<noteq> slash) (rev rel)"
      using False by (intro takeWhile_append2) auto
    ultimately show ?thesis by (simp only: append_Nil2)
  qed
  then show ?thesis by (simp add: data_name_def after_last_def)
qed

lemma follow_rel: "rel = [] \<or> last rel = slash \<Longrightarrow> follow env rel d ks = follow env [] d ks"
proof -
  assume r: "rel = [] \<or> last rel = slash"
  have l: "data_list env rel d = data_list env [] d" for d
    using data_name_rel [OF r] by (cases d) (simp_all add: data_list_def)
  show ?thesis by (induction ks arbitrary: d) (simp_all add: l cong: children_data.case_cong split: option.split)
qed

lemma page_ok_follow: "page_ok (url, crumbs) \<Longrightarrow> follow dox_scripts [] (ChildList NAVTREE) (0 # crumbs)"
proof -
  assume "page_ok (url, crumbs)"
  then obtain es where "entries_at dox_scripts [] NAVTREE (butlast (0 # crumbs)) = Some es"
    "last (0 # crumbs) < length es" "follow dox_scripts [] (ne_children (es ! last (0 # crumbs))) []"
    by (auto simp: page_ok_def simp del: follow.simps split: option.splits)
  from follow_entries [OF this] show ?thesis by (metis append_butlast_last_id list.distinct(1))
qed

lemma index_page_in: "map_of NAVTREEINDEX0 url = Some crumbs \<Longrightarrow> page_ok (url, crumbs)"
  using index_pages_ok map_of_SomeD by (fastforce simp: list_all_iff)

lemma index_starts: "list_all (\<lambda>p. string_le ''annotated.html'' (fst p)) NAVTREEINDEX0"
  unfolding index_defs list.pred_inject by (intro conjI TrueI) (simp_all add: byte_val_def)

lemma index_script: "data_name ''navtreeindex0'' = ''navtreeindex0''"
  by (simp add: data_name_def after_last_def slash_def)

lemma show_0: "show_nat 0 = ''0''"
  by code_simp

lemma string_le_append: "string_le a (a @ b)"
  by (induction a) auto

text \<open>Every page of the generated index has breadcrumbs that, followed from the root through the
  generated scripts, end in the entry whose link is the address of the page; the pages without breadcrumbs are
  the two that are shown at the root.\<close>

theorem index_leads_to_pages:
  "list_all (\<lambda>(url, crumbs).
       case entries_at dox_scripts [] NAVTREE (butlast (0 # crumbs)) of
         None \<Rightarrow> False
       | Some es \<Rightarrow> last (0 # crumbs) < length es \<and>
           (if crumbs = [] then url = ''index.html'' \<or> url = ''pages.html''
            else ne_link (es ! last (0 # crumbs)) = Some url)) NAVTREEINDEX0"
proof -
  have e: "list_all (\<lambda>p. snd p = [] \<longrightarrow> fst p = ''index.html'' \<or> fst p = ''pages.html'') NAVTREEINDEX0"
    unfolding index_defs list.pred_inject by (intro conjI TrueI) simp_all
  show ?thesis
    using index_pages_ok e unfolding list_all_iff
    by (fastforce simp: page_ok_def simp del: butlast.simps last.simps follow.simps split: option.splits if_splits)
qed

text \<open>The index page an address belongs to.\<close>

definition index_entry :: "string \<Rightarrow> string \<Rightarrow> nat list option" where
  "index_entry root hash =
     (case map_of NAVTREEINDEX0 (root @ hash) of Some b \<Rightarrow> Some b | None \<Rightarrow> map_of NAVTREEINDEX0 root)"

lemma index_entry_props:
  assumes "index_entry root hash = Some crumbs"
  shows "follow dox_scripts [] (ChildList NAVTREE) (0 # crumbs) \<and> index_loop NAVTREEINDEX (root @ hash) = 1"
proof -
  obtain url where url: "map_of NAVTREEINDEX0 url = Some crumbs" "url = root @ hash \<or> url = root"
    using assms by (auto simp: index_entry_def split: option.splits)
  have "string_le ''annotated.html'' url"
    using index_starts map_of_SomeD [OF url(1)] by (auto simp: list_all_iff)
  then have "string_le ''annotated.html'' (root @ hash)"
    using url(2) string_le_trans string_le_append by blast
  then show ?thesis using page_ok_follow [OF index_page_in [OF url(1)]] by (simp add: NAVTREEINDEX_def)
qed

text \<open>Opening any page of the index of the manual opens the tree down to the node of the kept link or, if none is kept, of
  the page: after at most three scripts more than there are breadcrumbs, nothing is pending any more, every node on the
  way is expanded and displayed, and what is selected is the links to the anchor or else that node.  (On the pages that
  also open the selected node, the index and the search page, a further script may be asked for.)\<close>

lemma navTo_shows:
  assumes address: "nav_address toroot (hashUrl (nv_hash o0)) o0 = (root, hash)"
    and entry: "index_entry root hash = Some crumbs"
    and rel: "rel = [] \<or> last rel = slash"
    and fresh: "nv_pending o0 = []" "nv_indices o0 = (\<lambda>_. None)" "nv_selected o0 = []"
    and line: "\<not> line_hash hash"
    and page: "stripPath (drop_dot_suffix toroot) \<notin> {''index'', ''pages'', ''search''}"
  shows "\<exists>n\<le>length crumbs + 3. \<exists>o2.
    o2 = (arrive dox_scripts ^^ n) (navTo toroot (hashUrl (nv_hash o0)) rel (initNavTree toroot rel o0)) \<and>
    nv_pending o2 = [] \<and>
    (\<forall>k\<le>length crumbs. \<exists>t. node_of (take k (0 # crumbs)) (nv_root o2) = Some t \<and>
        ni_expanded (info t) \<and> ni_display (info t) = ''block'') \<and>
    node_of (0 # crumbs) (nv_root o2) \<noteq> None \<and>
    nv_selected o2 = (if anchor_links hash o2 = [] then [0 # crumbs] else anchor_links hash o2) \<and>
    nv_centered o2 = first_path (nv_selected o2)"
proof -
  let ?hash = "hashUrl (nv_hash o0)" and ?env = dox_scripts
  define o1 where "o1 = initNavTree toroot rel o0"
  have i: "nv_root o1 = Node (root_info rel) []" "nv_pending o1 = []" "nv_indices o1 = (\<lambda>_. None)" "nv_selected o1 = []"
    "nv_toroot o1 = toroot" "nav_address toroot ?hash o1 = (root, hash)"
    using fresh address by (auto simp: o1_def initNavTree_def Let_def cachedLink_def nav_address_def)
  note e = index_entry_props [OF entry]
  have n: "navTo toroot ?hash rel o1 = getScript (rel @ ''navtreeindex0'') (CbIndex 0 root hash) o1"
    using i line e by (auto simp: navTo_def Let_def show_0)
  define o2 where "o2 = o1\<lparr>nv_indices := (nv_indices o1)(0 := Some (map_of NAVTREEINDEX0)), nv_breadcrumbs := 0 # crumbs\<rparr>"
  have "arrive ?env (navTo toroot ?hash rel o1) = callback (CbIndex 0 root hash) (IndexData (map_of NAVTREEINDEX0)) o1"
    unfolding n by (rule arrive_getScript)
      (simp_all add: i data_name_rel [OF rel] dox_scripts_def index_script)
  also have "\<dots> = show_from [] 0 hash (0 # crumbs) o2"
    using entry by (simp add: callback_def gotoNode_def index_entry_def o2_def showNode_def del: show_from.simps)
  finally have a: "arrive ?env (navTo toroot ?hash rel o1) = show_from [] 0 hash (0 # crumbs) o2" .
  have "way_ok ?env [] 0 (0 # crumbs) o2 (Node (root_info rel) [])"
    using e i page follow_rel [OF rel, of ?env "ChildList NAVTREE" "0 # crumbs"]
    by (simp add: way_ok_def o2_def opens_target_def root_info_def del: follow.simps)
  from show_path [OF this] obtain n where n: "n \<le> length crumbs + 2"
    and r: "reached [] (0 # crumbs) hash o2 ((arrive ?env ^^ n) (show_from [] 0 hash (0 # crumbs) o2))"
    unfolding shows_path_def by blast
  define o3 where "o3 = (arrive ?env ^^ Suc n) (navTo toroot ?hash rel o1)"
  have "(arrive ?env ^^ n) (show_from [] 0 hash (0 # crumbs) o2) = o3"
    unfolding a [symmetric] o3_def by (simp add: funpow_swap1)
  note r = r [unfolded this]
  have "\<exists>t. node_of (take k (0 # crumbs)) (nv_root o3) = Some t \<and> ni_expanded (info t) \<and> ni_display (info t) = ''block''"
    if "k \<le> length crumbs" for k
  proof -
    have "strict_prefix (take k (0 # crumbs)) (0 # crumbs)"
      using that by (metis strict_prefixI take_is_prefix length_Cons length_take min.absorb2 not_less_eq_eq less_irrefl le_SucI)
    with r show ?thesis unfolding reached_def by force
  qed
  then show ?thesis
    using n r i unfolding reached_def
    by (intro exI [of _ "Suc n"] conjI exI [of _ o3]) (simp_all add: o3_def [unfolded o1_def] selected_by_def o2_def)
qed

text \<open>Before the index has arrived nothing is selected.\<close>

lemma navTo_unselected:
  assumes "nv_indices o0 = (\<lambda>_. None)" and "nv_selected o0 = []"
  shows "nv_selected (navTo toroot hash rel (initNavTree toroot' rel' o0)) = []"
  using assms
  by (simp add: navTo_def Let_def initNavTree_def getScript_def glowEffect_def nav_address_def split: option.split prod.split)

lemma index_first: "map_of NAVTREEINDEX0 ''annotated.html'' = Some [0, 0]"
proof -
  have "hd NAVTREEINDEX0 = (''annotated.html'', [0, 0])" "NAVTREEINDEX0 \<noteq> []"
    by (simp_all only: index_defs list.sel list.distinct not_False_eq_True)
  then have "NAVTREEINDEX0 = (''annotated.html'', [0, 0]) # tl NAVTREEINDEX0" by (metis list.collapse)
  then show ?thesis by (metis map_of_Cons_code(2))
qed

end
