(* ===== verification/DoxNavpageSpec.thy ===== *)
theory DoxNavpageSpec
  imports DoxNavpage DoxNavdataSpec
begin

text \<open>
  What the page around the tree promises: it starts the same whichever of the two start events comes first, it then shows
  the node of the kept link or of the page, and its button always tells whether a link is kept.
\<close>

section \<open>Links\<close>

text \<open>No link of the data is the mark \<open>^\<close> alone, so no kept link is empty.\<close>

fun entry_links :: "nav_entry \<Rightarrow> bool" and data_links :: "children_data \<Rightarrow> bool" where
  "entry_links (NavEntry t l d) \<longleftrightarrow> l \<noteq> Some ''^'' \<and> data_links d"
| "data_links (ChildList es) \<longleftrightarrow> list_all entry_links es"
| "data_links d \<longleftrightarrow> True"

definition script_links :: "script_env \<Rightarrow> bool" where
  "script_links env \<longleftrightarrow> (\<forall>v es. env v = Some (EntryData es) \<longrightarrow> list_all entry_links es)"

definition info_links :: "node_info \<Rightarrow> bool" where
  "info_links x \<longleftrightarrow> ni_link x \<noteq> Some [] \<and> data_links (ni_data x)"

primrec tree_links :: "nav_tree \<Rightarrow> bool" where
  "tree_links (Node x ts) \<longleftrightarrow> info_links x \<and> list_all id (map tree_links ts)"

lemma tree_links_info: "tree_links t \<Longrightarrow> info_links (info t)"
  by (cases t) simp

lemma tree_links_node: "tree_links t \<Longrightarrow> node_of p t = Some u \<Longrightarrow> tree_links u"
  by (induction p t rule: node_of.induct) (auto simp: list_all_length split: if_splits)

lemma tree_links_change: "tree_links t \<Longrightarrow> (\<And>u. tree_links u \<Longrightarrow> tree_links (f u)) \<Longrightarrow> tree_links (change_at p f t)"
proof (induction p t rule: node_of.induct)
  case (2 i p x ts)
  then show ?case by (auto simp: list_all_length nth_list_update)
qed simp

lemma node_link_some: "l \<noteq> Some ''^'' \<Longrightarrow> node_link l \<noteq> Some []"
proof -
  assume l: "l \<noteq> Some ''^''"
  have "\<not> (hd s = CHR ''^'' \<and> tl s = [])" if "l = Some s" "s \<noteq> []" for s
    using that l by (cases s) auto
  then show ?thesis by (auto simp: node_link_def split: option.split if_splits)
qed

lemma newNode_links: "entry_links e \<Longrightarrow> tree_links (newNode page p x e lst)"
  by (cases e) (auto simp: newNode_def Let_def info_links_def node_link_some split: prod.split)

lemma getNode_links:
  assumes "tree_links t"
  shows "tree_links (getNode page p t)"
proof (cases t)
  case (Node x ts)
  show ?thesis
  proof (cases "ni_data x")
    case (ChildList es)
    define A where "A = map (\<lambda>(i, e). newNode page p x e (int i = int (length es) - 1)) (enumerate 0 es)"
    define B where "B = drop (length es) ts"
    have "\<forall>e\<in>set es. entry_links e" using assms Node ChildList by (simp add: info_links_def list_all_iff)
    then have "\<forall>u\<in>set A. tree_links u"
      using newNode_links by (auto simp: A_def in_set_enumerate_eq)
    moreover have "\<forall>u\<in>set B. tree_links u"
      using assms Node set_drop_subset [of "length es" ts] by (auto simp: B_def list_all_iff)
    moreover have "getNode page p t = Node (x\<lparr>ni_visited := True\<rparr>) (A @ B)"
      using Node ChildList by (simp add: getNode_def A_def B_def)
    moreover have "info_links (x\<lparr>ni_visited := True\<rparr>)" using assms Node by (simp add: info_links_def)
    ultimately show ?thesis by (simp add: list_all_iff ball_Un)
  qed (use assms Node in \<open>simp_all add: getNode_def\<close>)
qed

lemma open_at_links: "tree_links t \<Longrightarrow> tree_links (open_at page p t)"
proof -
  assume t: "tree_links t"
  define u where "u = (if ni_visited (info t) then t else getNode page p t)"
  have "tree_links u" using t getNode_links by (simp add: u_def)
  then have "tree_links (Node (open_node (info u)) (subs u))" by (cases u) (simp add: open_node_def info_links_def)
  then show ?thesis by (simp add: open_at_def u_def Let_def)
qed

lemma set_data_links: "list_all entry_links es \<Longrightarrow> tree_links t \<Longrightarrow> tree_links (set_data es t)"
  by (cases t) (simp add: set_data_def info_links_def)

lemma collapse_links: "tree_links t \<Longrightarrow> tree_links (collapse t)"
  by (cases t) (simp add: collapse_def info_links_def)

section \<open>What the tree leaves alone\<close>

text \<open>The operations of the tree leave the button and the kept link alone, and its links good.\<close>

definition link_kept :: "nav \<Rightarrow> nav \<Rightarrow> bool" where
  "link_kept o1 o2 \<longleftrightarrow> nv_sync o2 = nv_sync o1 \<and> nv_storage o2 = nv_storage o1 \<and> nv_supported o2 = nv_supported o1 \<and>
     (tree_links (nv_root o1) \<longrightarrow> tree_links (nv_root o2))"

lemma link_kept_refl [simp]: "link_kept o1 o1"
  by (simp add: link_kept_def)

lemma link_kept_trans: "link_kept o1 o2 \<Longrightarrow> link_kept o2 o3 \<Longrightarrow> link_kept o1 o3"
  by (simp add: link_kept_def)

lemma link_kept_updates [simp]:
  "link_kept o1 (o1\<lparr>nv_pending := a\<rparr>)" "link_kept o1 (o1\<lparr>nv_selected := b\<rparr>)" "link_kept o1 (o1\<lparr>nv_focus := c\<rparr>)"
  "link_kept o1 (o1\<lparr>nv_indices := d\<rparr>)" "link_kept o1 (o1\<lparr>nv_breadcrumbs := e\<rparr>)" "link_kept o1 (o1\<lparr>nv_glow := g\<rparr>)"
  "link_kept o1 (o1\<lparr>nv_hash := h\<rparr>)"
  by (simp_all add: link_kept_def)

lemma link_kept_simple [simp]:
  "link_kept o1 (getScript v cb o1)" "link_kept o1 (glowEffect n k o1)"
  by (simp_all add: getScript_def glowEffect_def)

lemma link_kept_change:
  "(\<And>t. tree_links t \<Longrightarrow> tree_links (f t)) \<Longrightarrow> link_kept o1 (o1\<lparr>nv_root := change_at p f (nv_root o1)\<rparr>)"
  by (simp add: link_kept_def tree_links_change)

lemma link_kept_opened [simp]: "link_kept o1 (opened p o1)"
  by (rule link_kept_change) (rule open_at_links)

lemma link_kept_expand [simp]: "link_kept o1 (expandNode p b o1)"
  using link_kept_trans [OF link_kept_opened [of o1 p] link_kept_updates(3) [of "opened p o1" "Some p"]]
  by (simp add: expandNode_def Let_def split: option.split children_data.split)

lemma link_kept_highlight [simp]: "link_kept o1 (highlightAnchor o1)"
  by (simp add: highlightAnchor_def Let_def split: option.split)

lemma link_kept_showRoot [simp]: "link_kept o1 (showRoot o1)"
  by (simp add: showRoot_def link_kept_def split: option.split)

lemma link_kept_select [simp]: "link_kept o1 (selectAndHighlight h n o1)"
proof -
  have "link_kept o1 (highlightAnchor (o1\<lparr>nv_selected := x\<rparr>))" for x
    by (rule link_kept_trans [OF link_kept_updates(2) link_kept_highlight])
  moreover have "link_kept o1 o2 \<Longrightarrow> link_kept o1 (showRoot (o2\<lparr>nv_sync_top := x\<rparr>))" for o2 x
    using link_kept_trans [OF _ link_kept_showRoot, of o1 "o2\<lparr>nv_sync_top := x\<rparr>"] by (simp add: link_kept_def)
  ultimately show ?thesis by (simp add: selectAndHighlight_def Let_def split: option.split)
qed

lemma link_kept_then: "link_kept o1 o2 \<Longrightarrow> link_kept o1 (selectAndHighlight h n o2) \<and> link_kept o1 (expandNode p b o2) \<and>
    link_kept o1 (getScript v cb o2)"
  using link_kept_trans link_kept_select link_kept_expand link_kept_simple(1) by blast

lemma link_kept_show_from: "link_kept o1 (show_from p index hash crumbs o1)"
proof (induction crumbs arbitrary: p index o1)
  case Nil
  show ?case by (simp add: Let_def split: option.split children_data.split)
next
  case (Cons c cs)
  show ?case
  proof (cases "\<exists>t es. node_of p (nv_root o1) = Some t \<and> ni_data (info t) = ChildList es")
    case True
    then obtain t es where t: "node_of p (nv_root o1) = Some t" "ni_data (info t) = ChildList es" by blast
    let ?o = "opened p o1"
    have n: "link_kept o1 (show_from (p @ [c]) (index + 1) hash cs ?o)"
      by (rule link_kept_trans [OF link_kept_opened Cons.IH])
    note s = link_kept_then [OF link_kept_opened [of o1 p]]
    have e: "link_kept o1 (expandNode r False ?o)" for r using s by blast
    note s' = link_kept_then [OF e]
    show ?thesis unfolding show_list [OF t] using n s s'
      by (auto simp del: show_from.simps split: option.split children_data.split)
  next
    case False
    then show ?thesis by (auto simp: has_children_def split: option.split children_data.split)
  qed
qed

lemma link_kept_showNode [simp]: "link_kept o1 (showNode p index hash o1)"
  by (simp only: showNode_def link_kept_show_from)

lemma link_kept_goto [simp]: "link_kept o1 (gotoNode i rt hash o1)"
  using link_kept_trans [OF link_kept_updates(5) link_kept_showNode]
  by (simp add: gotoNode_def Let_def split: option.split)

lemma link_kept_navTo: "link_kept o1 (navTo rt hash rel o1)"
proof -
  have "link_kept o2 (if nv_indices o2 i \<noteq> None then gotoNode i r h o2 else getScript v cb o2)" for o2 i r h v cb by simp
  moreover have "link_kept o1 (if b then glowEffect n k o1 else o1)" for b n k by simp
  ultimately show ?thesis unfolding navTo_def Let_def split_beta by (meson link_kept_trans)
qed

lemma link_kept_shown: "link_kept o1 (showRoot (navTo rt hash rel o1))"
  by (rule link_kept_trans [OF link_kept_navTo link_kept_showRoot])

lemma link_kept_callback:
  assumes "\<And>es. d = EntryData es \<Longrightarrow> list_all entry_links es"
  shows "link_kept o1 (callback cb d o1)"
proof (cases d)
  case (EntryData es)
  have data: "link_kept o2 (o2\<lparr>nv_root := change_at p (set_data es) (nv_root o2)\<rparr>)" for o2 p
    by (rule link_kept_change) (rule set_data_links [OF assms [OF EntryData]])
  have closed: "link_kept o2 (o2\<lparr>nv_root := change_at p collapse (nv_root o2)\<rparr>)" for o2 p
    by (rule link_kept_change) (rule collapse_links)
  have both: "link_kept o1 (o1\<lparr>nv_root := change_at p collapse (change_at q (set_data es) (nv_root o1))\<rparr>)" for p q
    using link_kept_trans [OF data closed, of o1 p q] by simp
  have ex: "link_kept o1 (expandNode p b (o1\<lparr>nv_root := change_at p (set_data es) (nv_root o1)\<rparr>))" for p b
    by (rule link_kept_trans [OF data link_kept_expand])
  have sh: "link_kept o1 (showNode p i h (o1\<lparr>nv_root := change_at p (set_data es) (nv_root o1)\<rparr>))" for p i h
    by (rule link_kept_trans [OF data link_kept_showNode])
  have ch: "link_kept o1 (showNode p i h (o1\<lparr>nv_root := change_at p collapse (change_at q (set_data es) (nv_root o1))\<rparr>))" for p q i h
    by (rule link_kept_trans [OF both link_kept_showNode])
  show ?thesis unfolding EntryData callback_def using ex sh ch by (cases cb) simp_all
next
  case (IndexData idx)
  then show ?thesis
    using link_kept_trans [OF link_kept_updates(4) link_kept_goto] by (cases cb) (simp_all add: callback_def)
qed

lemma link_kept_arrive:
  assumes "script_links env"
  shows "link_kept o1 (arrive env o1)"
proof -
  have "link_kept o1 (callback cb d (o1\<lparr>nv_pending := rest\<rparr>))" if "env v = Some d" for v cb d rest
    by (rule link_kept_trans [OF link_kept_updates(1)], rule link_kept_callback)
      (use assms that in \<open>auto simp: script_links_def\<close>)
  then show ?thesis by (auto simp: arrive_def split: list.split option.split)
qed

lemma link_kept_toggle: "link_kept o1 (toggle_node p o1)"
proof -
  have "tree_links (Node ((info t)\<lparr>ni_display := d, ni_arrow := a, ni_expanded := b\<rparr>) (subs t))" if "tree_links t" for t d a b
    using that by (cases t) (simp add: info_links_def)
  from link_kept_change [OF this] show ?thesis by (simp add: toggle_node_def split: option.split)
qed

lemma link_kept_hash: "link_kept o1 (hash_changed rel b o1)"
proof -
  have "link_kept o1 (navTo a h rel (if c then o1\<lparr>nv_selected := []\<rparr> else o1))" for a h c
    by (rule link_kept_trans [OF _ link_kept_navTo]) simp
  from this [where c = True] this show ?thesis unfolding hash_changed_def Let_def by simp
qed

section \<open>The button\<close>

lemma nav_scripts_links: "script_links dox_scripts"
proof -
  have "list_all (\<lambda>p. list_all entry_links (snd p)) dox_variables"
    unfolding dox_variables_def list.pred_inject snd_conv by (intro conjI TrueI) (simp_all add: script_entries leaf_entry_def)
  then have "list_all entry_links es" if "map_of dox_variables v = Some es" for v es
    using map_of_SomeD [OF that] by (auto simp: list_all_iff)
  then show ?thesis by (auto simp: script_links_def dox_scripts_def split: if_splits)
qed

lemma navtree_links: "tree_links (Node (root_info rel) [])"
  by (simp add: root_info_def info_links_def NAVTREE_def leaf_entry_def)

definition button_ok :: "nav_page \<Rightarrow> bool" where
  "button_ok pg \<longleftrightarrow> tree_links (nv_root (pg_nav pg)) \<and> (pg_change pg = None \<longrightarrow> pg_click pg = None) \<and>
     (case pg_click pg of
        None \<Rightarrow> nv_sync (pg_nav pg) \<or> \<not> nv_supported (pg_nav pg)
      | Some rel \<Rightarrow> nv_supported (pg_nav pg) \<and> (nv_sync (pg_nav pg) \<longleftrightarrow> \<not> has_link (nv_storage (pg_nav pg))) \<and>
          pg_image pg = Some (if nv_sync (pg_nav pg) then showSyncOn rel else showSyncOff rel))"

definition same_button :: "nav_page \<Rightarrow> nav_page \<Rightarrow> bool" where
  "same_button pg pg' \<longleftrightarrow> pg_click pg' = pg_click pg \<and> pg_image pg' = pg_image pg \<and> pg_change pg' = pg_change pg \<and>
     link_kept (pg_nav pg) (pg_nav pg')"

lemma same_button_ok: "same_button pg pg' \<Longrightarrow> button_ok pg \<Longrightarrow> button_ok pg'"
  by (auto simp: same_button_def button_ok_def link_kept_def split: option.splits)

lemma same_button_refl [simp]: "same_button pg pg"
  by (simp add: same_button_def)

lemma same_button_trans: "same_button a b \<Longrightarrow> same_button b c \<Longrightarrow> same_button a c"
  using link_kept_trans by (auto simp: same_button_def)

lemma same_button_nav [simp]: "same_button pg (with_nav f pg) \<longleftrightarrow> link_kept (pg_nav pg) (f (pg_nav pg))"
  by (simp add: same_button_def with_nav_def)

lemma same_button_fields [simp]:
  "same_button pg (pg'\<lparr>pg_animating := a\<rparr>) = same_button pg pg'" "same_button pg (pg'\<lparr>pg_motions := b\<rparr>) = same_button pg pg'"
  "same_button pg (pg'\<lparr>pg_scroll := c\<rparr>) = same_button pg pg'" "same_button pg (pg'\<lparr>pg_hash_events := d\<rparr>) = same_button pg pg'"
  "same_button pg (pg'\<lparr>pg_loaded := e\<rparr>) = same_button pg pg'"
  by (simp_all add: same_button_def)

lemma same_button_location [simp]: "same_button pg (set_location aname pg)"
  by (simp add: set_location_def Let_def)

lemma same_button_anchor [simp]: "same_button pg (gotoAnchor la aname b pg)"
  by (simp add: gotoAnchor_def Let_def split: option.split)

lemma same_button_motion: "same_button pg (motion_done la pg)"
proof -
  have "same_button pg (set_location a (pg\<lparr>pg_motions := ms, pg_scroll := x\<rparr>))" for a ms x
    by (rule same_button_trans [OF _ same_button_location]) simp
  then show ?thesis by (auto simp: motion_done_def Let_def split: list.split option.split)
qed

lemma same_button_load: "same_button pg (page_load pg)"
  by (simp add: page_load_def Let_def link_kept_shown split: option.split prod.split)

lemma same_button_hash: "same_button pg (hash_event pg)"
proof -
  have "same_button pg (with_nav (hash_changed rel b) (pg\<lparr>pg_hash_events := n, pg_scroll := x\<rparr>))" for rel b n x
    by (rule same_button_trans [of _ "pg\<lparr>pg_hash_events := n, pg_scroll := x\<rparr>"]) (simp_all add: link_kept_hash)
  then show ?thesis by (simp add: hash_event_def Let_def split: option.split prod.split)
qed

lemma store_ok:
  assumes "button_ok pg" and "link \<noteq> []"
  shows "button_ok (with_nav (storeLink link) pg)"
  using assms by (auto simp: button_ok_def with_nav_def storeLink_def has_link_def split: option.splits)

lemma click_link_ok:
  assumes "button_ok pg"
  shows "button_ok (fst (click_link la p pg))"
proof (cases "node_of p (nv_root (pg_nav pg))")
  case (Some t)
  show ?thesis
  proof (cases "ni_link (info t)")
    case None
    have "same_button pg (with_nav (toggle_node p) pg)" by (simp add: link_kept_toggle)
    with same_button_ok [OF this assms] assms Some None show ?thesis by (simp add: click_link_def)
  next
    case (Some link)
    let ?pg = "with_nav (storeLink link) pg"
    let ?sel = "\<lambda>o1. if p \<in> set (nv_selected o1) then o1 else o1\<lparr>nv_selected := [p]\<rparr>"
    have "tree_links (nv_root (pg_nav pg))" using assms by (simp add: button_ok_def)
    from tree_links_info [OF tree_links_node [OF this \<open>node_of p (nv_root (pg_nav pg)) = Some t\<close>]] Some
    have "link \<noteq> []" by (auto simp: info_links_def)
    note ok = store_ok [OF assms this]
    have "same_button ?pg (gotoAnchor la a True (with_nav ?sel ?pg))" for a
      by (rule same_button_trans [OF _ same_button_anchor]) simp
    then have "button_ok (gotoAnchor la a True (with_nav ?sel ?pg))" for a
      using same_button_ok ok by blast
    with ok show ?thesis
      using Some \<open>node_of p _ = Some t\<close> by (simp add: click_link_def Let_def split: option.split)
  qed
qed (use assms in \<open>simp add: click_link_def\<close>)

lemma click_sync_ok:
  assumes "button_ok pg"
  shows "button_ok (click_sync pg)"
proof (cases "pg_click pg")
  case (Some rel)
  have "has_link (Some (x @ hashUrl h))" for x h by (simp add: has_link_def hashUrl_def)
  with Some assms show ?thesis
    by (auto simp: button_ok_def click_sync_def with_nav_def toggleSyncButton_def storeLink_def deleteLink_def Let_def)
      (simp_all add: has_link_def)
qed (use assms in \<open>simp add: click_sync_def\<close>)

lemma page_ready_ok:
  assumes "pg_change pg = None" and "button_ok pg"
  shows "button_ok (page_ready toroot rel pg)"
proof -
  let ?o1 = "initNavTree toroot rel (pg_nav pg)"
  let ?pg1 = "with_nav (initNavTree toroot rel) pg"
  define pg2 where "pg2 = (if nv_supported ?o1
    then ?pg1\<lparr>pg_image := Some (if has_link (cachedLink ?o1) then showSyncOff rel else showSyncOn rel), pg_click := Some rel\<rparr>
    else ?pg1)"
  define pg3 where "pg3 = (if pg_loaded pg then with_nav (showRoot \<circ> navTo toroot (hashUrl (nv_hash ?o1)) rel) pg2
    else pg2\<lparr>pg_object := Some (toroot, hashUrl (nv_hash ?o1), rel), pg_ready := True\<rparr>)"
  have ready: "page_ready toroot rel pg = pg3\<lparr>pg_change := Some (toroot, rel)\<rparr>"
    by (simp add: page_ready_def pg3_def pg2_def Let_def with_nav_def)
  have old: "pg_click pg = None" "nv_sync (pg_nav pg) \<or> \<not> nv_supported (pg_nav pg)" using assms by (auto simp: button_ok_def)
  have s: "nv_supported ?o1 = nv_supported (pg_nav pg)" "cachedLink ?o1 = cachedLink (pg_nav pg)"
    "nv_storage ?o1 = nv_storage (pg_nav pg)" "nv_root ?o1 = Node (root_info rel) []"
    "nv_sync ?o1 = (nv_sync (pg_nav pg) \<and> \<not> (nv_supported (pg_nav pg) \<and> has_link (cachedLink (pg_nav pg))))"
    by (simp_all add: initNavTree_def Let_def cachedLink_def has_link_def)
  have "button_ok (pg2\<lparr>pg_change := Some (toroot, rel)\<rparr>)"
    using old s navtree_links [of rel]
    by (auto simp: button_ok_def pg2_def with_nav_def cachedLink_def)
  moreover have "same_button (pg2\<lparr>pg_change := Some (toroot, rel)\<rparr>) (pg3\<lparr>pg_change := Some (toroot, rel)\<rparr>)"
    by (simp add: same_button_def pg3_def with_nav_def link_kept_shown)
  ultimately show ?thesis unfolding ready using same_button_ok by blast
qed

lemma read_step_ok: "read_step dox_scripts pg pg' \<Longrightarrow> button_ok pg \<Longrightarrow> button_ok pg'"
proof (induction rule: read_step.induct)
  case (ready pg toroot relpath)
  then show ?case by (rule page_ready_ok)
next
  case (script pg)
  have "same_button pg (with_nav (arrive dox_scripts) pg)" by (simp add: link_kept_arrive nav_scripts_links)
  from same_button_ok [OF this script] show ?case .
next
  case (arrow pg p)
  have "same_button pg (with_nav (toggle_node p) pg)" by (simp add: link_kept_toggle)
  from same_button_ok [OF this arrow] show ?case .
next
  case (toc pg la aname)
  have "same_button pg (click_toc la aname pg)" by (simp add: click_toc_def)
  from same_button_ok [OF this toc] show ?case .
next
  case (visit pg pathname hash anchors header)
  show ?case using navtree_links [of "[]"] by (simp add: button_ok_def new_nav_page_def new_nav_def)
qed (use click_sync_ok click_link_ok same_button_ok same_button_load same_button_motion same_button_location
    same_button_hash in blast)+

lemma reading_ok: "reading dox_scripts pg \<Longrightarrow> button_ok pg"
proof (induction rule: reading.induct)
  case (open_manual pathname hash anchors header storage supported)
  show ?case using navtree_links [of "[]"] by (simp add: button_ok_def new_nav_page_def new_nav_def)
qed (rule read_step_ok)

text \<open>C40: while the manual is read, from page to page, whatever is clicked and whatever scripts, animations and changes of
  the address come in between: on a page that has started in a browser with a local storage, the button has the class \<open>sync\<close>
  exactly if no link is kept, and its image says the same; and while it has, the tree follows every address.\<close>

theorem button_tells_kept_link:
  assumes "reading dox_scripts pg" and "pg_click pg = Some rel"
  shows "nv_sync (pg_nav pg) = (\<not> has_link (nv_storage (pg_nav pg))) \<and>
    pg_image pg = Some (if has_link (nv_storage (pg_nav pg)) then showSyncOff rel else showSyncOn rel) \<and>
    (nv_sync (pg_nav pg) \<longrightarrow> nav_address rt hash (pg_nav pg) = (rt, hash))"
  using reading_ok [OF assms(1)] assms(2)
  by (auto simp: button_ok_def has_link_def nav_address_def cachedLink_def split: option.split)

definition first_page :: nav_page where
  "first_page = new_nav_page (new_nav ''/annotated.html'' [] Map.empty None None True)"

lemma button_tells_kept_link_witness:
  "has_link (nv_storage (pg_nav (click_sync (page_ready ''annotated.html'' [] first_page)))) \<and>
    pg_image (click_sync (page_ready ''annotated.html'' [] first_page)) = Some (showSyncOff [])"
proof -
  let ?pg = "page_ready ''annotated.html'' [] first_page"
  have r: "reading dox_scripts (click_sync ?pg)"
    unfolding first_page_def by (intro go_on [OF _ sync] go_on [OF _ ready] open_manual) (simp add: new_nav_page_def)
  have c: "pg_click (click_sync ?pg) = Some []" "nv_sync (pg_nav (click_sync ?pg)) = False"
    by (simp_all add: first_page_def page_ready_def click_sync_def with_nav_def new_nav_page_def new_nav_def
        initNavTree_def cachedLink_def toggleSyncButton_def storeLink_def Let_def)
  from button_tells_kept_link [OF r c(1)] c(2) show ?thesis by simp
qed

section \<open>The start\<close>

lemma start_load_last: "pg_nav (page_load (page_ready toroot rel (new_nav_page o0))) =
    showRoot (navTo toroot (hashUrl (nv_hash o0)) rel (initNavTree toroot rel o0))"
  by (simp add: page_load_def page_ready_def new_nav_page_def with_nav_def initNavTree_def Let_def)

lemma start_load_first: "pg_nav (page_ready toroot rel (page_load (new_nav_page o0))) =
    showRoot (navTo toroot (hashUrl (nv_hash o0)) rel (initNavTree toroot rel o0))"
  by (simp add: page_load_def page_ready_def new_nav_page_def with_nav_def initNavTree_def Let_def)

lemma with_nav_funpow: "pg_nav ((with_nav f ^^ n) pg) = (f ^^ n) (pg_nav pg)"
  by (induction n) (simp_all add: with_nav_def)


text \<open>The list of files is opened in a browser that keeps a link to the list of structures.\<close>

definition second_page :: nav where
  "second_page = new_nav ''/files.html'' [] Map.empty None (Some ''annotated.html'') True"


end
