(* ===== verification/DoxDynsections.thy ===== *)
theory DoxDynsections
  imports DoxDom
begin

text \<open>
  The foldable parts of the manual's pages (\<open>dynsections.js\<close>): sections with a summary, inherited members,
  the directory table with its folders and stripes, and foldable code.  What jQuery finds with \<open>:visible\<close>
  is kept as a flag of the row or the section; the table itself is always shown.
\<close>

section \<open>Classes\<close>

definition removeClass :: "string \<Rightarrow> string list \<Rightarrow> string list" where
  "removeClass c cs = filter (\<lambda>x. x \<noteq> c) cs"

definition addClass :: "string \<Rightarrow> string list \<Rightarrow> string list" where
  "addClass c cs = (if c \<in> set cs then cs else cs @ [c])"

lemma class_simps [simp]:
  "set (removeClass c cs) = set cs - {c}" "set (addClass c cs) = insert c (set cs)"
  by (auto simp: removeClass_def addClass_def)

section \<open>Sections\<close>

text \<open>\<open>src.substring(0, src.length - n) + end\<close>; a negative end counts as 0.\<close>

definition with_suffix :: "nat \<Rightarrow> string \<Rightarrow> string \<Rightarrow> string" where
  "with_suffix n ending src = take (length src - n) src @ ending"

record dyn_section =
  ds_content :: bool
  ds_summary :: bool
  ds_link :: "string list"
  ds_src :: string

definition toggleVisibility :: "dyn_section \<Rightarrow> dyn_section" where
  "toggleVisibility s =
     (if ds_content s
      then s\<lparr>ds_content := False, ds_summary := True,
             ds_link := removeClass ''opened'' (addClass ''closed'' (ds_link s)),
             ds_src := with_suffix 8 ''closed.png'' (ds_src s)\<rparr>
      else s\<lparr>ds_content := True, ds_summary := False,
             ds_link := addClass ''opened'' (removeClass ''closed'' (ds_link s)),
             ds_src := with_suffix 10 ''open.png'' (ds_src s)\<rparr>)"

text \<open>The rows \<open>tr.inherit.id\<close> by their \<open>display\<close> and the image of their header.\<close>

record inherit_rows =
  ir_rows :: "string list"
  ir_src :: string

definition toggleInherit :: "inherit_rows \<Rightarrow> inherit_rows" where
  "toggleInherit r =
     (if (case ir_rows r of [] \<Rightarrow> False | d # _ \<Rightarrow> d \<noteq> ''none'')
      then \<lparr>ir_rows = map (\<lambda>_. ''none'') (ir_rows r), ir_src = with_suffix 8 ''closed.png'' (ir_src r)\<rparr>
      else \<lparr>ir_rows = map (\<lambda>_. ''table-row'') (ir_rows r), ir_src = with_suffix 10 ''open.png'' (ir_src r)\<rparr>)"

section \<open>The directory table\<close>

text \<open>A row: its id, whether it is shown, its classes, the classes of its icon and the markup of its arrow,
  which a row without children does not have.\<close>

record dir_row =
  row_id :: string
  row_shown :: bool
  row_classes :: "string list"
  row_icon :: "string list"
  row_arrow :: "string option"

definition arrow_down :: string where
  "arrow_down = ''&#9660;''"

definition arrow_right :: string where
  "arrow_right = ''&#9658;''"

text \<open>\<open>removeClass(c).filter(':visible:even').addClass(c)\<close>: of the visible rows those at even, or odd,
  places; \<open>k\<close> counts the visible rows before.\<close>

fun stripe :: "(nat \<Rightarrow> bool) \<Rightarrow> string \<Rightarrow> nat \<Rightarrow> dir_row list \<Rightarrow> dir_row list" where
  "stripe P c k [] = []"
| "stripe P c k (r # rs) =
     (let r' = r\<lparr>row_classes := removeClass c (row_classes r)\<rparr>
      in if row_shown r
         then (if P k then r'\<lparr>row_classes := addClass c (row_classes r')\<rparr> else r') # stripe P c (Suc k) rs
         else r' # stripe P c k rs)"

definition updateStripes :: "dir_row list \<Rightarrow> dir_row list" where
  "updateStripes rows = stripe odd ''odd'' 0 (stripe even ''even'' 0 rows)"

text \<open>\<open>id.split('_').length - 1\<close>.\<close>

definition underscores :: "string \<Rightarrow> nat" where
  "underscores i = length (filter (\<lambda>c. c = CHR ''_'') i)"

definition set_arrow :: "string \<Rightarrow> dir_row \<Rightarrow> dir_row" where
  "set_arrow h r = r\<lparr>row_arrow := map_option (\<lambda>_. h) (row_arrow r)\<rparr>"

definition set_icon :: "string \<Rightarrow> dir_row \<Rightarrow> dir_row" where
  "set_icon c r =
     (if row_icon r = [] then r
      else r\<lparr>row_icon := addClass c (removeClass ''iconfclosed'' (removeClass ''iconfopen'' (row_icon r)))\<rparr>)"

definition level_row :: "int \<Rightarrow> dir_row \<Rightarrow> dir_row" where
  "level_row level r =
     (let l = int (underscores (row_id r))
      in if l < level + 1 then (set_arrow arrow_down (set_icon ''iconfopen'' r))\<lparr>row_shown := True\<rparr>
         else if l = level + 1 then (set_arrow arrow_right (set_icon ''iconfclosed'' r))\<lparr>row_shown := True\<rparr>
         else r\<lparr>row_shown := False\<rparr>)"

definition toggleLevel :: "int \<Rightarrow> dir_row list \<Rightarrow> dir_row list" where
  "toggleLevel level rows = updateStripes (map (level_row level) rows)"

text \<open>\<open>new RegExp('^row_'+id+'\\d+_$', "i")\<close>, for an id of digits and underscores.\<close>

definition child_row :: "string \<Rightarrow> dir_row \<Rightarrow> bool" where
  "child_row i r \<longleftrightarrow>
     (let s = toLowerCase (row_id r); p = ''row_'' @ i; ds = butlast (drop (length p) s)
      in prefix p s \<and> ds \<noteq> [] \<and> list_all is_digit ds \<and> last s = CHR ''_'')"

text \<open>The spans of a row of class \<open>c\<close> get the class \<open>d\<close> in its place.\<close>

definition swap_icon :: "string \<Rightarrow> string \<Rightarrow> dir_row \<Rightarrow> dir_row" where
  "swap_icon c d r =
     (if c \<in> set (row_icon r) then r\<lparr>row_icon := addClass d (removeClass c (row_icon r))\<rparr> else r)"

definition close_mark :: "dir_row \<Rightarrow> dir_row" where
  "close_mark r = set_arrow arrow_right (swap_icon ''iconfopen'' ''iconfclosed'' r)"

definition open_mark :: "dir_row \<Rightarrow> dir_row" where
  "open_mark r = set_arrow arrow_down (swap_icon ''iconfclosed'' ''iconfopen'' r)"

text \<open>The rows from the clicked one on, and what becomes of them.\<close>

definition open_folder :: "string \<Rightarrow> dir_row \<Rightarrow> dir_row list \<Rightarrow> dir_row list" where
  "open_folder i r rows =
     open_mark r # map (\<lambda>x. if child_row i x then (close_mark x)\<lparr>row_shown := True\<rparr> else x) rows"

definition close_folder :: "string \<Rightarrow> dir_row \<Rightarrow> dir_row list \<Rightarrow> dir_row list" where
  "close_folder i r rows =
     close_mark r # map (\<lambda>x. if prefix (''row_'' @ i) (row_id x) then x\<lparr>row_shown := False\<rparr> else x) rows"

definition toggleFolder :: "string \<Rightarrow> dir_row list \<Rightarrow> dir_row list" where
  "toggleFolder i rows =
     updateStripes
       (case dropWhile (\<lambda>r. row_id r \<noteq> ''row_'' @ i) rows of
          [] \<Rightarrow> rows
        | r # after \<Rightarrow>
            takeWhile (\<lambda>r. row_id r \<noteq> ''row_'' @ i) rows @
            (case filter (child_row i) after of
               c # _ \<Rightarrow> if row_shown c then close_folder i r after else open_folder i r after
             | [] \<Rightarrow> open_folder i r after))"

section \<open>Foldable code\<close>

text \<open>A block has its open and its closed form, found by their ids.\<close>

record fold_block =
  fb_id :: string
  fb_open :: bool
  fb_closed :: bool

record folds =
  fo_opened :: bool
  fo_image :: string
  fo_blocks :: "fold_block list"

definition plusImg :: "string list" where
  "plusImg = [''var(--fold-plus-image)'', ''var(--fold-plus-image-relpath)'']"

definition minusImg :: "string list" where
  "minusImg = [''var(--fold-minus-image)'', ''var(--fold-minus-image-relpath)'']"

definition image_of :: "string list \<Rightarrow> nat \<Rightarrow> string \<Rightarrow> string" where
  "image_of imgs relPath old = (if relPath < length imgs then imgs ! relPath else old)"

definition codefold_toggle_all :: "nat \<Rightarrow> folds \<Rightarrow> folds" where
  "codefold_toggle_all relPath f =
     (if fo_opened f
      then f\<lparr>fo_image := image_of plusImg relPath (fo_image f),
             fo_blocks := map (\<lambda>b. b\<lparr>fb_open := False, fb_closed := True\<rparr>) (fo_blocks f), fo_opened := False\<rparr>
      else f\<lparr>fo_image := image_of minusImg relPath (fo_image f),
             fo_blocks := map (\<lambda>b. b\<lparr>fb_open := True, fb_closed := False\<rparr>) (fo_blocks f), fo_opened := True\<rparr>)"

text \<open>The first block with the id.\<close>

fun toggle_block :: "string \<Rightarrow> fold_block list \<Rightarrow> fold_block list" where
  "toggle_block i [] = []"
| "toggle_block i (b # bs) =
     (if fb_id b = i then b\<lparr>fb_open := \<not> fb_open b, fb_closed := \<not> fb_closed b\<rparr> # bs else b # toggle_block i bs)"

definition codefold_toggle :: "string \<Rightarrow> folds \<Rightarrow> folds" where
  "codefold_toggle i f = f\<lparr>fo_blocks := toggle_block i (fo_blocks f)\<rparr>"

end
