(* ===== verification/DoxDynsectionsSpec.thy ===== *)
theory DoxDynsectionsSpec
  imports DoxDynsections
begin

text \<open>
  What the foldable parts promise: the stripes of the directory table alternate over the visible rows, its
  folders stay consistent with the rows they show, and the toggles undo themselves.
\<close>

section \<open>Stripes\<close>

definition shown_before :: "dir_row list \<Rightarrow> nat \<Rightarrow> nat" where
  "shown_before rows j = length (filter row_shown (take j rows))"

lemma stripe_nth:
  "j < length rows \<Longrightarrow> stripe P c k rows ! j =
     (rows ! j)\<lparr>row_classes :=
        (if row_shown (rows ! j) \<and> P (k + shown_before rows j)
         then addClass c (removeClass c (row_classes (rows ! j))) else removeClass c (row_classes (rows ! j)))\<rparr>"
proof (induction P c k rows arbitrary: j rule: stripe.induct)
  case (2 P c k r rs)
  show ?case
  proof (cases j)
    case 0
    then show ?thesis by (simp add: Let_def shown_before_def)
  next
    case (Suc i)
    with 2 show ?thesis by (cases "row_shown r") (simp_all add: Let_def shown_before_def)
  qed
qed simp

lemma length_stripe [simp]: "length (stripe P c k rows) = length rows"
  by (induction P c k rows rule: stripe.induct) (simp_all add: Let_def)

lemma shown_stripe [simp]: "map row_shown (stripe P c k rows) = map row_shown rows"
  by (simp add: list_eq_iff_nth_eq stripe_nth)

lemma shown_before_map: "shown_before rows j = length (filter id (take j (map row_shown rows)))"
  by (simp add: shown_before_def take_map filter_map o_def)

lemma shown_before_stripe [simp]: "shown_before (stripe P c k rows) j = shown_before rows j"
  by (simp add: shown_before_map)

lemma length_updateStripes [simp]: "length (updateStripes rows) = length rows"
  by (simp add: updateStripes_def)

definition stripes_ok :: "dir_row list \<Rightarrow> bool" where
  "stripes_ok rows \<longleftrightarrow>
     (\<forall>j<length rows.
        (''even'' \<in> set (row_classes (rows ! j)) \<longleftrightarrow> row_shown (rows ! j) \<and> even (shown_before rows j)) \<and>
        (''odd'' \<in> set (row_classes (rows ! j)) \<longleftrightarrow> row_shown (rows ! j) \<and> odd (shown_before rows j)))"

lemma updateStripes_ok: "stripes_ok (updateStripes rows)"
  by (simp add: stripes_ok_def updateStripes_def stripe_nth)

text \<open>After any change of the directory table, by the level buttons or by a folder, the visible rows
  alternate: a row has the class \<open>even\<close> exactly if it is visible and an even number of visible rows come before
  it, and the class \<open>odd\<close> exactly if it is visible and an odd number come before it; hidden rows have neither.\<close>

theorem visible_rows_alternate:
  "stripes_ok (toggleLevel level rows) \<and> stripes_ok (toggleFolder i rows)"
  by (simp add: toggleLevel_def toggleFolder_def updateStripes_ok)

section \<open>Names of rows\<close>

definition wf_name :: "string \<Rightarrow> bool" where
  "wf_name s \<longleftrightarrow> prefix ''row_'' s \<and> drop 4 s \<noteq> [] \<and> list_all (\<lambda>c. is_digit c \<or> c = CHR ''_'') (drop 4 s) \<and>
     last s = CHR ''_''"

definition child_of :: "dir_row \<Rightarrow> dir_row \<Rightarrow> bool" where
  "child_of a b \<longleftrightarrow> child_row (drop 4 (row_id a)) b"

lemma wf_name_row: "wf_name s \<Longrightarrow> ''row_'' @ drop 4 s = s"
  by (auto simp: wf_name_def prefix_def)

lemma underscore: "\<not> is_digit CHR ''_''" "lower_unit CHR ''_'' = CHR ''_''"
  by (simp_all add: is_digit_def lower_unit_def byte_val_def)

lemma lower_digit: "is_digit c \<Longrightarrow> lower_unit c = c"
  by (simp add: lower_unit_def is_digit_def)

lemma lower_row: "map lower_unit ''row_'' = ''row_''"
  by (simp add: lower_unit_def byte_val_def)

lemma wf_name_lower: "wf_name s \<Longrightarrow> toLowerCase s = s"
proof -
  assume s: "wf_name s"
  have "lower_unit c = c" if "c \<in> set (drop 4 s)" for c
    using s that underscore(2) lower_digit unfolding wf_name_def list_all_iff by blast
  then have "map lower_unit (drop 4 s) = drop 4 s" by (rule map_idI)
  then have "map lower_unit (''row_'' @ drop 4 s) = ''row_'' @ drop 4 s" unfolding map_append lower_row by simp
  then show ?thesis unfolding toLowerCase_def wf_name_row [OF s] .
qed

lemma child_of_unfold:
  "wf_name (row_id a) \<Longrightarrow> wf_name (row_id b) \<Longrightarrow> child_of a b \<longleftrightarrow> prefix (row_id a) (row_id b) \<and>
     butlast (drop (length (row_id a)) (row_id b)) \<noteq> [] \<and>
     list_all is_digit (butlast (drop (length (row_id a)) (row_id b)))"
  unfolding child_of_def child_row_def Let_def by (simp only: wf_name_row wf_name_lower) (simp add: wf_name_def)

lemma child_of_name:
  assumes "wf_name (row_id a)" and "wf_name (row_id b)"
  shows "child_of a b \<longleftrightarrow> (\<exists>ds. row_id b = row_id a @ ds @ ''_'' \<and> ds \<noteq> [] \<and> list_all is_digit ds)"
proof
  assume "child_of a b"
  then obtain s where s: "row_id b = row_id a @ s" "butlast s \<noteq> []" "list_all is_digit (butlast s)"
    using child_of_unfold [OF assms] by (auto simp: prefix_def)
  moreover have "last (row_id b) = CHR ''_''" using assms(2) by (simp add: wf_name_def)
  ultimately have "s = butlast s @ ''_''" by (cases s rule: rev_cases) auto
  with s show "\<exists>ds. row_id b = row_id a @ ds @ ''_'' \<and> ds \<noteq> [] \<and> list_all is_digit ds" by metis
next
  assume "\<exists>ds. row_id b = row_id a @ ds @ ''_'' \<and> ds \<noteq> [] \<and> list_all is_digit ds"
  then show "child_of a b" using child_of_unfold [OF assms] by (auto simp: butlast_append)
qed

lemma prefix_child_name:
  assumes "wf_name a" and "list_all is_digit ds" and "prefix a (b @ ds @ ''_'')"
  shows "prefix a b \<or> a = b @ ds @ ''_''"
proof (rule ccontr)
  assume n: "\<not> (prefix a b \<or> a = b @ ds @ ''_'')"
  then obtain u where u: "a = b @ u" "prefix u (ds @ ''_'')" using assms(3) by (auto simp: prefix_append)
  with n have "prefix u ds" "u \<noteq> []" by (auto simp: prefix_snoc)
  then have "last u \<in> set ds" by (meson last_in_set set_mono_prefix subsetD)
  moreover have "last u = CHR ''_''" using assms(1) u \<open>u \<noteq> []\<close> by (simp add: wf_name_def)
  ultimately show False using assms(2) underscore(1) by (auto simp: list_all_iff)
qed

section \<open>The directory\<close>

text \<open>The rows as the page has them: names in document order, and an arrow where there are children.\<close>

definition dir_tree :: "dir_row list \<Rightarrow> bool" where
  "dir_tree rows \<longleftrightarrow> list_all (\<lambda>r. wf_name (row_id r)) rows \<and>
     sorted_wrt (\<lambda>a b. \<not> prefix (row_id b) (row_id a) \<and> (child_of a b \<longrightarrow> row_arrow a \<noteq> None)) rows"

text \<open>What is shown: no row below a hidden one, and the arrow of a visible folder tells whether its
  children are shown.\<close>

definition row_pair_ok :: "dir_row \<Rightarrow> dir_row \<Rightarrow> bool" where
  "row_pair_ok a b \<longleftrightarrow> (prefix (row_id a) (row_id b) \<and> row_shown b \<longrightarrow> row_shown a) \<and>
     (child_of a b \<and> row_shown a \<longrightarrow> (row_shown b \<longleftrightarrow> row_arrow a = Some arrow_down))"

definition dir_ok :: "dir_row list \<Rightarrow> bool" where
  "dir_ok rows \<longleftrightarrow> sorted_wrt row_pair_ok rows"

text \<open>Only names, arrows and visibility count.\<close>

definition same_row :: "dir_row \<Rightarrow> dir_row \<Rightarrow> bool" where
  "same_row a b \<longleftrightarrow> row_id a = row_id b \<and> row_shown a = row_shown b \<and> row_arrow a = row_arrow b"

lemma same_row_child: "same_row a a' \<Longrightarrow> same_row b b' \<Longrightarrow> child_of a b = child_of a' b'"
  by (simp add: same_row_def child_of_def child_row_def)

lemma same_rows:
  assumes "list_all2 same_row rows rows'"
  shows "dir_ok rows = dir_ok rows' \<and> dir_tree rows = dir_tree rows'"
proof -
  have n: "length rows = length rows'" "\<And>i. i < length rows' \<Longrightarrow> same_row (rows ! i) (rows' ! i)"
    using assms by (simp_all add: list_all2_conv_all_nth)
  have c: "child_of (rows ! i) (rows ! j) = child_of (rows' ! i) (rows' ! j)"
    if "i < length rows'" "j < length rows'" for i j
    using same_row_child n(2) that by blast
  have "row_pair_ok (rows ! i) (rows ! j) = row_pair_ok (rows' ! i) (rows' ! j)"
    if "i < j" "j < length rows'" for i j
    using n(2) [of i] n(2) [of j] c that by (auto simp: row_pair_ok_def same_row_def)
  then have "dir_ok rows = dir_ok rows'" using n(1) by (auto simp: dir_ok_def sorted_wrt_iff_nth_less)
  moreover have "list_all (\<lambda>r. wf_name (row_id r)) rows = list_all (\<lambda>r. wf_name (row_id r)) rows'"
    using n by (auto simp: list_all_length same_row_def)
  moreover have "(\<not> prefix (row_id (rows ! j)) (row_id (rows ! i)) \<and> (child_of (rows ! i) (rows ! j) \<longrightarrow> row_arrow (rows ! i) \<noteq> None)) =
      (\<not> prefix (row_id (rows' ! j)) (row_id (rows' ! i)) \<and> (child_of (rows' ! i) (rows' ! j) \<longrightarrow> row_arrow (rows' ! i) \<noteq> None))"
    if "i < j" "j < length rows'" for i j
    using n(2) [of i] n(2) [of j] c that by (auto simp: same_row_def)
  then have "sorted_wrt (\<lambda>a b. \<not> prefix (row_id b) (row_id a) \<and> (child_of a b \<longrightarrow> row_arrow a \<noteq> None)) rows =
      sorted_wrt (\<lambda>a b. \<not> prefix (row_id b) (row_id a) \<and> (child_of a b \<longrightarrow> row_arrow a \<noteq> None)) rows'"
    using n(1) by (simp add: sorted_wrt_iff_nth_less)
  ultimately show ?thesis by (simp add: dir_tree_def)
qed

lemma same_updateStripes: "list_all2 same_row (updateStripes rows) rows"
  by (simp add: list_all2_conv_all_nth updateStripes_def stripe_nth same_row_def)

lemmas stripes_same = same_rows [OF same_updateStripes]

lemma underscores_append: "underscores (a @ b) = underscores a + underscores b"
  by (simp add: underscores_def)

lemma underscores_child: "wf_name (row_id a) \<Longrightarrow> wf_name (row_id b) \<Longrightarrow> child_of a b \<Longrightarrow>
    underscores (row_id b) = underscores (row_id a) + 1"
  using underscore(1) by (auto simp: child_of_name underscores_def list_all_iff filter_empty_conv)

lemma level_row_simps [simp]:
  "row_id (level_row l r) = row_id r"
  "row_shown (level_row l r) \<longleftrightarrow> int (underscores (row_id r)) \<le> l + 1"
  "row_arrow (level_row l r) = None \<longleftrightarrow> row_arrow r = None"
  "int (underscores (row_id r)) \<le> l + 1 \<Longrightarrow> row_arrow (level_row l r) =
     map_option (\<lambda>_. if int (underscores (row_id r)) < l + 1 then arrow_down else arrow_right) (row_arrow r)"
  by (simp_all add: level_row_def Let_def set_arrow_def set_icon_def)

lemma child_of_ids: "row_id a = row_id a' \<Longrightarrow> row_id b = row_id b' \<Longrightarrow> child_of a b = child_of a' b'"
  by (simp add: child_of_def child_row_def)

lemma sorted_wrt_members:
  "sorted_wrt P xs \<Longrightarrow> (\<And>x y. x \<in> set xs \<Longrightarrow> y \<in> set xs \<Longrightarrow> P x y \<Longrightarrow> Q (f x) (f y)) \<Longrightarrow> sorted_wrt Q (map f xs)"
  by (simp add: sorted_wrt_map) (rule sorted_wrt_mono_rel)

lemma toggleLevel_ok:
  assumes "dir_tree rows"
  shows "dir_ok (toggleLevel l rows) \<and> dir_tree (toggleLevel l rows)"
proof -
  have wf: "wf_name (row_id r)" if "r \<in> set rows" for r using assms that by (auto simp: dir_tree_def list_all_iff)
  have c: "child_of (level_row l a) (level_row l b) = child_of a b" for a b by (rule child_of_ids) simp_all
  have neq: "arrow_right \<noteq> arrow_down" by (simp add: arrow_right_def arrow_down_def)
  have "dir_ok (map (level_row l) rows)"
    unfolding dir_ok_def
  proof (rule sorted_wrt_members)
    show "sorted_wrt (\<lambda>a b. \<not> prefix (row_id b) (row_id a) \<and> (child_of a b \<longrightarrow> row_arrow a \<noteq> None)) rows"
      using assms by (simp add: dir_tree_def)
    show "row_pair_ok (level_row l a) (level_row l b)"
      if "a \<in> set rows" "b \<in> set rows" "\<not> prefix (row_id b) (row_id a) \<and> (child_of a b \<longrightarrow> row_arrow a \<noteq> None)" for a b
    proof -
      have "prefix (row_id a) (row_id b) \<Longrightarrow> underscores (row_id a) \<le> underscores (row_id b)"
        by (auto simp: prefix_def underscores_append)
      moreover have "child_of a b \<Longrightarrow> underscores (row_id b) = underscores (row_id a) + 1"
        using underscores_child wf that by blast
      ultimately show ?thesis using that(3) neq by (auto simp: row_pair_ok_def c)
    qed
  qed
  moreover have "dir_tree (map (level_row l) rows)"
    using assms by (simp add: dir_tree_def list.pred_map o_def sorted_wrt_map c del: not_None_eq)
  ultimately show ?thesis by (simp add: toggleLevel_def stripes_same)
qed

lemma mark_simps [simp]:
  "row_id (close_mark r) = row_id r" "row_shown (close_mark r) = row_shown r"
  "row_arrow (close_mark r) = map_option (\<lambda>_. arrow_right) (row_arrow r)"
  "row_id (open_mark r) = row_id r" "row_shown (open_mark r) = row_shown r"
  "row_arrow (open_mark r) = map_option (\<lambda>_. arrow_down) (row_arrow r)"
  by (simp_all add: close_mark_def open_mark_def set_arrow_def swap_icon_def)

text \<open>What the table says of two rows, the first before the second.\<close>

definition tree_pair :: "dir_row \<Rightarrow> dir_row \<Rightarrow> bool" where
  "tree_pair a b \<longleftrightarrow> wf_name (row_id a) \<and> wf_name (row_id b) \<and> \<not> prefix (row_id b) (row_id a) \<and>
     (child_of a b \<longrightarrow> row_arrow a \<noteq> None)"

lemma dir_tree_pairs: "dir_tree rows \<Longrightarrow> sorted_wrt tree_pair rows"
  unfolding dir_tree_def by (elim conjE, erule sorted_wrt_mono_rel [rotated]) (auto simp: tree_pair_def list_all_iff)

lemma child_prefix: "tree_pair a b \<Longrightarrow> child_of a b \<Longrightarrow> prefix (row_id a) (row_id b)"
  by (auto simp: tree_pair_def child_of_name)

text \<open>A row that is above a child of \<open>r\<close> is above \<open>r\<close>, is \<open>r\<close> or is that child.\<close>

lemma above_child:
  assumes "child_of r b" and "wf_name (row_id r)" and "wf_name (row_id b)" and "wf_name (row_id a)"
    and "prefix (row_id a) (row_id b)"
  shows "prefix (row_id a) (row_id r) \<or> row_id a = row_id b"
proof -
  obtain ds where "row_id b = row_id r @ ds @ ''_''" "list_all is_digit ds"
    using assms child_of_name by blast
  then show ?thesis using prefix_child_name [OF assms(4), of ds "row_id r"] assms(5) by metis
qed

lemma one_parent:
  assumes "child_of r b" "child_of a b" and "wf_name (row_id r)" "wf_name (row_id a)" "wf_name (row_id b)"
  shows "row_id a = row_id r"
proof -
  obtain ds where ds: "row_id b = row_id r @ ds @ ''_''" "ds \<noteq> []" using assms child_of_name by blast
  obtain es where es: "row_id b = row_id a @ es @ ''_''" "es \<noteq> []" using assms child_of_name by blast
  have "prefix (row_id a) (row_id b)" "prefix (row_id r) (row_id b)"
    unfolding ds(1) by (metis es(1) ds(1) prefixI) simp
  then have "prefix (row_id a) (row_id r)" "prefix (row_id r) (row_id a)"
    using above_child assms ds es by (metis append_is_Nil_conv self_append_conv)+
  then show ?thesis by (simp add: prefix_order.antisym)
qed

lemma close_pair_ok:
  assumes R: "row_pair_ok a b" and T: "tree_pair a b" "tree_pair r b" "tree_pair r a"
    and f: "f = (\<lambda>x. if prefix (row_id r) (row_id x) then x\<lparr>row_shown := False\<rparr> else x)"
  shows "row_pair_ok (f a) (f b)"
proof -
  have g: "row_id (f x) = row_id x" "row_shown (f x) \<longleftrightarrow> row_shown x \<and> \<not> prefix (row_id r) (row_id x)"
    "row_arrow (f x) = row_arrow x" for x by (simp_all add: f)
  have c: "child_of (f a) (f b) = child_of a b" by (rule child_of_ids) (simp_all add: g)
  show ?thesis
  proof (cases "prefix (row_id r) (row_id b)")
    case True
    have "prefix (row_id r) (row_id a)" if "child_of a b"
      using above_child [OF that, of r] T True by (auto simp: tree_pair_def)
    with True show ?thesis by (auto simp: row_pair_ok_def c g)
  next
    case False
    then have "\<not> (prefix (row_id r) (row_id a) \<and> prefix (row_id a) (row_id b))"
      using prefix_order.trans by blast
    with False R child_prefix [OF T(1)] show ?thesis by (auto simp: row_pair_ok_def c g)
  qed
qed

lemma open_pair_ok:
  assumes R: "row_pair_ok a b" and T: "tree_pair a b" "tree_pair r b" "tree_pair r a"
    and K: "child_of r a \<Longrightarrow> \<not> row_shown a"
    and f: "f = (\<lambda>x. if child_of r x then (close_mark x)\<lparr>row_shown := True\<rparr> else x)"
  shows "row_pair_ok (f a) (f b)"
proof -
  have g: "row_id (f x) = row_id x" "row_shown (f x) \<longleftrightarrow> row_shown x \<or> child_of r x"
    "row_arrow (f x) = (if child_of r x then map_option (\<lambda>_. arrow_right) (row_arrow x) else row_arrow x)" for x
    by (simp_all add: f)
  have c: "child_of (f a) (f b) = child_of a b" by (rule child_of_ids) (simp_all add: g)
  have neq: "arrow_right \<noteq> arrow_down" by (simp add: arrow_right_def arrow_down_def)
  have wf: "wf_name (row_id a)" "wf_name (row_id b)" "wf_name (row_id r)" using T by (simp_all add: tree_pair_def)
  have n: "\<not> prefix (row_id b) (row_id a)" "\<not> prefix (row_id a) (row_id r)" using T by (simp_all add: tree_pair_def)
  have "\<not> prefix (row_id a) (row_id b)" if "child_of r b"
    using above_child [OF that wf(3,2,1)] n by auto
  with R K child_prefix [OF T(1)] neq show ?thesis by (auto simp: row_pair_ok_def c g)
qed

text \<open>Rows before the clicked one stay.\<close>

lemma close_before:
  assumes "row_pair_ok x b" and T: "tree_pair x r" "tree_pair r b" "tree_pair x b"
  shows "row_pair_ok x (if prefix (row_id r) (row_id b) then b\<lparr>row_shown := False\<rparr> else b)"
proof -
  have "\<not> child_of x b" if "prefix (row_id r) (row_id b)"
    using above_child [of x b r] that T by (auto simp: tree_pair_def)
  moreover have "child_of x (b\<lparr>row_shown := False\<rparr>) = child_of x b" by (rule child_of_ids) simp_all
  ultimately show ?thesis using assms(1) by (auto simp: row_pair_ok_def)
qed

lemma open_before:
  assumes "row_pair_ok x b" "row_pair_ok x r" and T: "tree_pair x r" "tree_pair r b" "tree_pair x b" and "row_shown r"
  shows "row_pair_ok x (if child_of r b then (close_mark b)\<lparr>row_shown := True\<rparr> else b)"
proof (cases "child_of r b")
  case True
  have c: "child_of x ((close_mark b)\<lparr>row_shown := True\<rparr>) = child_of x b" by (rule child_of_ids) simp_all
  have "prefix (row_id x) (row_id r)" if "prefix (row_id x) (row_id b)"
    using above_child [OF True _ _ _ that] T unfolding tree_pair_def by (metis prefix_order.order_refl)
  moreover have "\<not> child_of x b"
    using one_parent [OF True, of x] T unfolding tree_pair_def by (metis prefix_order.order_refl)
  ultimately show ?thesis using assms(2,6) True by (simp add: row_pair_ok_def c)
qed (use assms(1) in simp)

text \<open>The clicked row \<open>r\<close> with the rows before and after it.\<close>

definition hide_below :: "dir_row \<Rightarrow> dir_row \<Rightarrow> dir_row" where
  "hide_below r = (\<lambda>x. if prefix (row_id r) (row_id x) then x\<lparr>row_shown := False\<rparr> else x)"

definition show_child :: "dir_row \<Rightarrow> dir_row \<Rightarrow> dir_row" where
  "show_child r = (\<lambda>x. if child_of r x then (close_mark x)\<lparr>row_shown := True\<rparr> else x)"

lemma change_simps [simp]:
  "row_id (hide_below r x) = row_id x" "row_id (show_child r x) = row_id x"
  "row_arrow (hide_below r x) = row_arrow x"
  "row_arrow (show_child r x) = None \<longleftrightarrow> row_arrow x = None"
  by (simp_all add: hide_below_def show_child_def)

lemma tree_kept:
  assumes "dir_tree (xs @ r # ys)" and m: "row_id m = row_id r" "row_arrow m = None \<longleftrightarrow> row_arrow r = None"
    and f: "\<And>x. row_id (f x) = row_id x" "\<And>x. row_arrow (f x) = None \<longleftrightarrow> row_arrow x = None"
  shows "dir_tree (xs @ m # map f ys)"
proof -
  have cf: "child_of (f a) b = child_of a b" "child_of a (f b) = child_of a b" "child_of m b = child_of r b"
    "child_of a m = child_of a r" for a b
    using f(1) m(1) by (simp_all add: child_of_def child_row_def)
  show ?thesis
    using assms(1) m f unfolding dir_tree_def
    by (simp add: sorted_wrt_append sorted_wrt_map cf list.pred_map o_def del: not_None_eq)
qed

lemma mark_pair_ok: "row_pair_ok x r \<Longrightarrow> row_id m = row_id r \<Longrightarrow> row_shown m = row_shown r \<Longrightarrow> row_pair_ok x m"
  using child_of_ids [of x x m r] by (simp add: row_pair_ok_def)

lemma sorted_wrt_both: "sorted_wrt P xs \<Longrightarrow> sorted_wrt Q xs \<Longrightarrow> sorted_wrt (\<lambda>a b. P a b \<and> Q a b) xs"
  by (induction xs) auto

lemma pairs_after:
  assumes "sorted_wrt tree_pair (xs @ r # ys)" and "sorted_wrt row_pair_ok (xs @ r # ys)"
    and "\<And>a b. a \<in> set ys \<Longrightarrow> b \<in> set ys \<Longrightarrow> row_pair_ok a b \<Longrightarrow> tree_pair a b \<Longrightarrow> tree_pair r b \<Longrightarrow> tree_pair r a \<Longrightarrow>
      row_pair_ok (f a) (f b)"
    and "\<And>x b. x \<in> set xs \<Longrightarrow> row_pair_ok x b \<Longrightarrow> row_pair_ok x r \<Longrightarrow> tree_pair x r \<Longrightarrow> tree_pair r b \<Longrightarrow> tree_pair x b \<Longrightarrow>
      row_pair_ok x (f b)"
    and "row_id m = row_id r" "row_shown m = row_shown r"
    and "\<And>b. b \<in> set ys \<Longrightarrow> row_pair_ok r b \<Longrightarrow> tree_pair r b \<Longrightarrow> row_pair_ok m (f b)"
  shows "dir_ok (xs @ m # map f ys)"
proof -
  have "sorted_wrt row_pair_ok (map f ys)"
  proof (rule sorted_wrt_members)
    show "sorted_wrt (\<lambda>a b. tree_pair a b \<and> row_pair_ok a b) ys"
      using assms(1,2) by (simp add: sorted_wrt_append sorted_wrt_both)
  qed (use assms(1,3) in \<open>auto simp: sorted_wrt_append\<close>)
  then show ?thesis
    using assms mark_pair_ok by (auto simp: dir_ok_def sorted_wrt_append)
qed

lemma arrows_differ: "arrow_right \<noteq> arrow_down"
  by (simp add: arrow_right_def arrow_down_def)

lemma close_ok:
  assumes "dir_tree (xs @ r # ys)" and "dir_ok (xs @ r # ys)" and "row_shown r"
  shows "dir_ok (xs @ close_mark r # map (hide_below r) ys)"
proof (rule pairs_after [OF dir_tree_pairs [OF assms(1)] assms(2) [unfolded dir_ok_def]])
  show "row_pair_ok (hide_below r a) (hide_below r b)"
    if "row_pair_ok a b" "tree_pair a b" "tree_pair r b" "tree_pair r a" for a b
    using close_pair_ok [OF that hide_below_def] .
  show "row_pair_ok x (hide_below r b)"
    if "row_pair_ok x b" "tree_pair x r" "tree_pair r b" "tree_pair x b" for x b
    using close_before [OF that] by (simp add: hide_below_def)
  show "row_pair_ok (close_mark r) (hide_below r b)" if "tree_pair r b" for b
  proof -
    have "child_of (close_mark r) (hide_below r b) = child_of r b" by (rule child_of_ids) simp_all
    with child_prefix [OF that] show ?thesis using assms(3) arrows_differ by (auto simp: row_pair_ok_def hide_below_def)
  qed
qed simp_all

lemma open_ok:
  assumes "dir_tree (xs @ r # ys)" and "dir_ok (xs @ r # ys)" and "row_shown r"
    and K: "\<And>b. b \<in> set ys \<Longrightarrow> child_of r b \<Longrightarrow> \<not> row_shown b"
  shows "dir_ok (xs @ open_mark r # map (show_child r) ys)"
proof (rule pairs_after [OF dir_tree_pairs [OF assms(1)] assms(2) [unfolded dir_ok_def]])
  show "row_pair_ok (show_child r a) (show_child r b)"
    if "a \<in> set ys" "row_pair_ok a b" "tree_pair a b" "tree_pair r b" "tree_pair r a" for a b
    using open_pair_ok [OF that(2-5) K [OF that(1)] show_child_def] .
  show "row_pair_ok x (show_child r b)"
    if "row_pair_ok x b" "row_pair_ok x r" "tree_pair x r" "tree_pair r b" "tree_pair x b" for x b
    using open_before [OF that assms(3)] by (simp add: show_child_def)
  show "row_pair_ok (open_mark r) (show_child r b)" if "tree_pair r b" for b
  proof -
    have "child_of (open_mark r) (show_child r b) = child_of r b" by (rule child_of_ids) simp_all
    with that show ?thesis using assms(3) by (auto simp: row_pair_ok_def show_child_def tree_pair_def)
  qed
qed simp_all

lemma dir_row_split:
  assumes "r \<in> set rows" and "row_id r = ''row_'' @ i"
  obtains xs r' ys where "rows = xs @ r' # ys" "row_id r' = ''row_'' @ i"
    "takeWhile (\<lambda>r. row_id r \<noteq> ''row_'' @ i) rows = xs" "dropWhile (\<lambda>r. row_id r \<noteq> ''row_'' @ i) rows = r' # ys"
proof -
  let ?P = "\<lambda>r. row_id r \<noteq> ''row_'' @ i"
  have "\<exists>x\<in>set rows. row_id x = ''row_'' @ i" using assms by blast
  then obtain xs r' ys where s: "rows = xs @ r' # ys" "row_id r' = ''row_'' @ i" "\<forall>y\<in>set xs. ?P y"
    by (rule split_list_first_propE)
  then have "takeWhile ?P rows = xs @ takeWhile ?P (r' # ys)" "dropWhile ?P rows = dropWhile ?P (r' # ys)"
    by (simp_all del: takeWhile.simps dropWhile.simps)
  with s show ?thesis by (intro that [of xs r' ys]) simp_all
qed

lemma toggleFolder_ok:
  assumes tree: "dir_tree rows" and ok: "dir_ok rows" and r: "r \<in> set rows" "row_id r = ''row_'' @ i" "row_shown r"
  shows "dir_ok (toggleFolder i rows) \<and> dir_tree (toggleFolder i rows)"
proof -
  obtain xs r' ys where s: "rows = xs @ r' # ys" "row_id r' = ''row_'' @ i"
    "takeWhile (\<lambda>r. row_id r \<noteq> ''row_'' @ i) rows = xs" "dropWhile (\<lambda>r. row_id r \<noteq> ''row_'' @ i) rows = r' # ys"
    using dir_row_split [OF r(1,2)] .
  have T: "sorted_wrt tree_pair (xs @ r' # ys)" using dir_tree_pairs [OF tree] s by simp
  then have "r = r'" using r(1,2) s(1,2) by (auto simp: sorted_wrt_append tree_pair_def)
  with s r(3) have s': "dir_tree (xs @ r # ys)" "dir_ok (xs @ r # ys)" "row_shown r" using tree ok by simp_all
  have ci: "child_row i = child_of r" by (simp add: fun_eq_iff child_of_def r(2))
  have c: "close_folder i r ys = close_mark r # map (hide_below r) ys"
    by (simp add: close_folder_def hide_below_def r(2))
  have o: "open_folder i r ys = open_mark r # map (show_child r) ys"
    by (simp add: open_folder_def show_child_def ci)
  have closed: "dir_ok (xs @ close_folder i r ys) \<and> dir_tree (xs @ close_folder i r ys)"
    unfolding c using close_ok [OF s'] tree_kept [OF s'(1)] by simp
  have opened: "dir_ok (xs @ open_folder i r ys) \<and> dir_tree (xs @ open_folder i r ys)"
    if "\<And>b. b \<in> set ys \<Longrightarrow> child_of r b \<Longrightarrow> \<not> row_shown b"
    unfolding o using open_ok [OF s'] that tree_kept [OF s'(1)] by simp
  have all: "row_shown b = row_shown b'" if "b \<in> set ys" "b' \<in> set ys" "child_of r b" "child_of r b'" for b b'
    using s'(2,3) that by (simp add: dir_ok_def sorted_wrt_append row_pair_ok_def)
  have t: "toggleFolder i rows = updateStripes (xs @ (case filter (child_of r) ys of
      c # _ \<Rightarrow> if row_shown c then close_folder i r ys else open_folder i r ys | [] \<Rightarrow> open_folder i r ys))"
    unfolding toggleFolder_def s(3,4) ci \<open>r = r'\<close> by simp
  show ?thesis
  proof (cases "filter (child_of r) ys")
    case Nil
    with opened show ?thesis by (simp add: t stripes_same filter_empty_conv)
  next
    case (Cons b bs)
    then have "b \<in> set (filter (child_of r) ys)" by simp
    then have b: "b \<in> set ys" "child_of r b" by simp_all
    with Cons closed opened all [of b] show ?thesis by (cases "row_shown b") (simp_all add: t stripes_same)
  qed
qed

text \<open>C23: the directory table stays consistent. The level buttons always leave, and a click on a visible
  folder keeps, that no row is shown below a hidden one and that the arrow of every visible folder points
  down exactly if its children are shown; the names of the rows and their order stay.\<close>

theorem directory_invariant:
  assumes "dir_tree rows"
  shows "dir_ok (toggleLevel level rows) \<and> dir_tree (toggleLevel level rows) \<and>
    (dir_ok rows \<and> (\<exists>r\<in>set rows. row_id r = ''row_'' @ i \<and> row_shown r) \<longrightarrow>
       dir_ok (toggleFolder i rows) \<and> dir_tree (toggleFolder i rows))"
  using toggleLevel_ok [OF assms] toggleFolder_ok [OF assms] by blast

text \<open>Two folders, the second with a subfolder.\<close>

definition example_rows :: "dir_row list" where
  "example_rows =
     map (\<lambda>(i, a). \<lparr>row_id = i, row_shown = True, row_classes = [], row_icon = [], row_arrow = a\<rparr>)
       [(''row_0_'', Some arrow_down), (''row_0_0_'', None), (''row_1_'', Some arrow_down),
        (''row_1_0_'', Some arrow_down), (''row_1_0_0_'', None)]"

lemma example_tree: "dir_tree example_rows"
  by code_simp

lemma directory_invariant_witness:
  "dir_ok (toggleFolder ''1_'' (toggleLevel 1 example_rows))"
proof -
  have "\<exists>r\<in>set (toggleLevel 1 example_rows). row_id r = ''row_'' @ ''1_'' \<and> row_shown r" by code_simp
  then show ?thesis
    using directory_invariant [OF example_tree, of 1 "[]"]
      directory_invariant [of "toggleLevel 1 example_rows" 1 "''1_''"] by blast
qed

section \<open>Toggles\<close>

text \<open>A section whose image and class match what it shows.\<close>

definition section_ok :: "dyn_section \<Rightarrow> bool" where
  "section_ok s \<longleftrightarrow> ds_summary s = (\<not> ds_content s) \<and>
     (if ds_content s
      then suffix ''open.png'' (ds_src s) \<and> ''opened'' \<in> set (ds_link s) \<and> ''closed'' \<notin> set (ds_link s)
      else suffix ''closed.png'' (ds_src s) \<and> ''closed'' \<in> set (ds_link s) \<and> ''opened'' \<notin> set (ds_link s))"

lemma with_suffix_back:
  "suffix old src \<Longrightarrow> length old = n \<Longrightarrow> m = length new \<Longrightarrow>
   suffix new (with_suffix n new src) \<and> with_suffix m old (with_suffix n new src) = src"
  by (auto simp: with_suffix_def suffix_def)

text \<open>The toggle of a section keeps the summary, the link's class and the image in agreement with the
  content, and toggling twice gives the section back, but for the order in which its link lists the classes; the image
  address gets back the part before its ending.\<close>

theorem toggle_section_twice:
  assumes "section_ok s"
  shows "section_ok (toggleVisibility s) \<and> ds_content (toggleVisibility s) = (\<not> ds_content s) \<and>
    ds_content (toggleVisibility (toggleVisibility s)) = ds_content s \<and>
    ds_summary (toggleVisibility (toggleVisibility s)) = ds_summary s \<and>
    ds_src (toggleVisibility (toggleVisibility s)) = ds_src s \<and>
    set (ds_link (toggleVisibility (toggleVisibility s))) = set (ds_link s)"
proof (cases "ds_content s")
  case True
  with with_suffix_back [of "''open.png''" "ds_src s" 8 10 "''closed.png''"] assms show ?thesis
    by (auto simp: section_ok_def toggleVisibility_def)
next
  case False
  with with_suffix_back [of "''closed.png''" "ds_src s" 10 8 "''open.png''"] assms show ?thesis
    by (auto simp: section_ok_def toggleVisibility_def)
qed

lemma toggle_section_twice_witness:
  "section_ok (toggleVisibility \<lparr>ds_content = False, ds_summary = True, ds_link = [''dynheader'', ''closed''],
     ds_src = ''closed.png''\<rparr>)"
proof -
  have "section_ok \<lparr>ds_content = False, ds_summary = True, ds_link = [''dynheader'', ''closed''], ds_src = ''closed.png''\<rparr>"
    by (simp add: section_ok_def)
  from toggle_section_twice [OF this] show ?thesis by blast
qed

text \<open>The rows of inherited members: all shown or all hidden, and the image says which.\<close>

definition inherit_ok :: "inherit_rows \<Rightarrow> bool" where
  "inherit_ok r \<longleftrightarrow> ir_rows r \<noteq> [] \<and>
     (list_all (\<lambda>d. d = ''table-row'') (ir_rows r) \<and> suffix ''open.png'' (ir_src r) \<or>
      list_all (\<lambda>d. d = ''none'') (ir_rows r) \<and> suffix ''closed.png'' (ir_src r))"

lemma toggle_inherit_twice: "inherit_ok r \<Longrightarrow> inherit_ok (toggleInherit r) \<and> toggleInherit (toggleInherit r) = r"
proof -
  assume ok: "inherit_ok r"
  then obtain d ds where r: "ir_rows r = d # ds" by (cases "ir_rows r") (auto simp: inherit_ok_def)
  have all: "map (\<lambda>_. c) ds = ds" if "\<forall>x\<in>set ds. x = c" for c :: string using that by (intro map_idI) auto
  from ok r consider "d = ''table-row''" "\<forall>x\<in>set ds. x = d" "suffix ''open.png'' (ir_src r)"
    | "d = ''none''" "\<forall>x\<in>set ds. x = d" "suffix ''closed.png'' (ir_src r)"
    by (auto simp: inherit_ok_def list_all_iff)
  then show ?thesis
  proof cases
    case 1
    with with_suffix_back [of "''open.png''" "ir_src r" 8 10 "''closed.png''"] r all show ?thesis
      by (cases r) (auto simp: toggleInherit_def inherit_ok_def list_all_iff o_def)
  next
    case 2
    with with_suffix_back [of "''closed.png''" "ir_src r" 10 8 "''open.png''"] r all show ?thesis
      by (cases r) (auto simp: toggleInherit_def inherit_ok_def list_all_iff o_def)
  qed
qed

text \<open>Of a block of code exactly one form is shown.\<close>

definition folds_ok :: "folds \<Rightarrow> bool" where
  "folds_ok f \<longleftrightarrow> list_all (\<lambda>b. fb_closed b = (\<not> fb_open b)) (fo_blocks f)"

lemma toggle_block_ok: "list_all (\<lambda>b. fb_closed b = (\<not> fb_open b)) bs \<Longrightarrow>
    list_all (\<lambda>b. fb_closed b = (\<not> fb_open b)) (toggle_block i bs)"
  by (induction bs) auto

lemma toggle_block_twice: "toggle_block i (toggle_block i bs) = bs"
  by (induction bs) auto

text \<open>Of every block of code exactly one form, open or folded, stays shown whatever is toggled; toggling one block
  twice gives it back, and the global toggle brings all blocks to the same form, also those that were toggled
  one by one.\<close>

theorem one_form_of_each_block:
  assumes "folds_ok f"
  shows "folds_ok (codefold_toggle i f) \<and> folds_ok (codefold_toggle_all n f) \<and>
    codefold_toggle i (codefold_toggle i f) = f \<and>
    (\<forall>b\<in>set (fo_blocks (codefold_toggle_all n f)). fb_open b = (\<not> fo_opened f))"
  using assms toggle_block_ok toggle_block_twice
  by (simp add: folds_ok_def codefold_toggle_def codefold_toggle_all_def list_all_iff)

lemma one_form_of_each_block_witness:
  "folds_ok (codefold_toggle ''1'' \<lparr>fo_opened = True, fo_image = [], fo_blocks = [\<lparr>fb_id = ''1'', fb_open = True, fb_closed = False\<rparr>]\<rparr>)"
  using one_form_of_each_block [of "\<lparr>fo_opened = True, fo_image = [], fo_blocks = [\<lparr>fb_id = ''1'', fb_open = True, fb_closed = False\<rparr>]\<rparr>" "''1''"]
  by (simp add: folds_ok_def)

end
