(* ===== verification/DoxResize.thy ===== *)
theory DoxResize
  imports DoxDom
begin

text \<open>
  The frame of a page of the manual (\<open>resize.js\<close>): the width of the navigation beside the content, kept in
  the local storage or in a cookie, the heights of the three panes, and the handle that collapses the
  navigation.  Widths are whole pixels; numbers in strings are decimal.  The padding of the navigation
  is \<open>barWidth\<close>, by the style sheet and on touch devices by \<open>initResizable\<close> itself.
\<close>

section \<open>Numbers in strings\<close>

definition signed_digits :: "string \<Rightarrow> bool \<times> string" where
  "signed_digits s =
     (let s = dropWhile is_space s
      in case s of
           [] \<Rightarrow> (False, [])
         | c # r \<Rightarrow> if c = CHR ''-'' then (True, r) else if c = CHR ''+'' then (False, r) else (False, s))"

definition parseInt :: "string \<Rightarrow> int option" where
  "parseInt s =
     (let (neg, r) = signed_digits s; ds = takeWhile is_digit r; n = int (digits_val 0 ds)
      in if ds = [] then None else Some (if neg then - n else n))"

text \<open>The value of a string in a comparison or a length: None is NaN.\<close>

definition to_number :: "string \<Rightarrow> int option" where
  "to_number s =
     (let (neg, r) = signed_digits s
      in if r \<noteq> [] \<and> list_all is_digit r then parseInt s else None)"

section \<open>State\<close>

record frame =
  fr_chrome :: bool
  fr_agent :: string
  fr_storage :: "string option"
  fr_cookies :: "(string \<times> string) list"
  fr_bar :: int
  fr_side :: int
  fr_window :: "int \<times> int"
  fr_layout :: "int option"
  fr_margin :: int
  fr_footer_margin :: int
  fr_header_height :: int
  fr_footer_height :: int
  fr_content_height :: int
  fr_tree_height :: int
  fr_side_height :: int
  fr_once :: bool
  fr_handle :: bool

text \<open>\<open>document.cookie\<close>.\<close>

fun cookie_string :: "(string \<times> string) list \<Rightarrow> string" where
  "cookie_string [] = []"
| "cookie_string [(n, v)] = n @ ''='' @ v"
| "cookie_string ((n, v) # c # cs) = n @ ''='' @ v @ ''; '' @ cookie_string (c # cs)"

definition cookie_namespace :: string where
  "cookie_namespace = ''doxygen''"

text \<open>A setting that was never stored is the number 250, which is used as the string would be.\<close>

definition readSetting :: "string \<Rightarrow> frame \<Rightarrow> string" where
  "readSetting cookie s =
     (if fr_chrome s
      then (case fr_storage s of Some v \<Rightarrow> if v \<noteq> [] then v else ''250'' | None \<Rightarrow> ''250'')
      else (let myCookie = cookie_namespace @ ''_'' @ cookie @ ''=''; c = cookie_string (fr_cookies s)
            in if c \<noteq> []
               then (case index_of myCookie c of
                       Some i \<Rightarrow> takeWhile (\<lambda>x. x \<noteq> CHR '';'') (drop (i + length myCookie) c)
                     | None \<Rightarrow> ''250'')
               else ''250''))"

text \<open>The cookie lasts ten years; a cookie with the name is replaced where it is.\<close>

definition writeSetting :: "string \<Rightarrow> int \<Rightarrow> frame \<Rightarrow> frame" where
  "writeSetting cookie val s =
     (if fr_chrome s then s\<lparr>fr_storage := Some (show_int val)\<rparr>
      else s\<lparr>fr_cookies := put_attr (cookie_namespace @ ''_'' @ cookie) (show_int val) (fr_cookies s)\<rparr>)"

section \<open>Widths\<close>

definition outerWidth :: "frame \<Rightarrow> int" where
  "outerWidth s = fr_side s + fr_bar s"

definition resizeWidth :: "frame \<Rightarrow> frame" where
  "resizeWidth s =
     (let sidenavWidth = outerWidth s;
          s = s\<lparr>fr_margin := sidenavWidth\<rparr>;
          s = (if fr_layout s = Some 1 then s\<lparr>fr_footer_margin := sidenavWidth\<rparr> else s)
      in writeSetting ''width'' (sidenavWidth - fr_bar s) s)"

text \<open>Lengths that are no numbers, and negative widths, leave the style as it is.\<close>

definition restoreWidth :: "string \<Rightarrow> frame \<Rightarrow> frame" where
  "restoreWidth navWidth s =
     (let margin = (\<lambda>old. case parseInt navWidth of Some n \<Rightarrow> n + fr_bar s | None \<Rightarrow> old);
          s = s\<lparr>fr_margin := margin (fr_margin s)\<rparr>;
          s = (if fr_layout s = Some 1 then s\<lparr>fr_footer_margin := margin (fr_footer_margin s)\<rparr> else s)
      in case to_number navWidth of
           Some n \<Rightarrow> if n \<ge> 0 then s\<lparr>fr_side := n\<rparr> else s
         | None \<Rightarrow> s)"

definition collapseExpand :: "frame \<Rightarrow> frame" where
  "collapseExpand s =
     (let newWidth =
            (if fr_side s > 0 then ''0''
             else (let width = readSetting ''width'' s
                   in case to_number width of
                        Some n \<Rightarrow> if n > 250 \<and> n < fst (fr_window s) then width else ''250''
                      | None \<Rightarrow> ''250''));
          s = restoreWidth newWidth s
      in writeSetting ''width'' (outerWidth s - fr_bar s) s)"

section \<open>Heights\<close>

definition css_length :: "int \<Rightarrow> int \<Rightarrow> int" where
  "css_length old n = (if n \<ge> 0 then n else old)"

definition set_heights :: "int \<Rightarrow> int \<Rightarrow> int \<Rightarrow> frame \<Rightarrow> frame" where
  "set_heights c t n s =
     s\<lparr>fr_content_height := css_length (fr_content_height s) c, fr_tree_height := css_length (fr_tree_height s) t,
       fr_side_height := css_length (fr_side_height s) n\<rparr>"

definition resizeHeight :: "frame \<Rightarrow> frame" where
  "resizeHeight s =
     (let h = snd (fr_window s)
      in if fr_layout s = None \<or> fr_layout s = Some 0
         then (let c = h - fr_header_height s - fr_footer_height s in set_heights c c c s)
         else if fr_layout s = Some 1
         then set_heights (h - fr_footer_height s) (h - fr_header_height s) h s
         else s)"

section \<open>Set-up\<close>

definition contains :: "string \<Rightarrow> string \<Rightarrow> bool" where
  "contains pat s \<longleftrightarrow> index_of pat s \<noteq> None"

definition touch_device :: "string \<Rightarrow> bool" where
  "touch_device agent \<longleftrightarrow>
     (let d = toLowerCase agent
      in contains ''iphone'' d \<or> contains ''ipod'' d \<or> contains ''ipad'' d \<or> contains ''android'' d)"

text \<open>The handle gets \<open>collapseExpand\<close> the first time only.\<close>

definition initResizable :: "frame \<Rightarrow> frame" where
  "initResizable s =
     (let s = s\<lparr>fr_bar := if touch_device (fr_agent s) then 20 else 6\<rparr>;
          width = readSetting ''width'' s;
          s = (if width \<noteq> [] then restoreWidth width s else resizeWidth s);
          s = resizeHeight s
      in if fr_once s then s\<lparr>fr_handle := True, fr_once := False\<rparr> else s)"

end
