(* ===== verification/DoxResizeSpec.thy ===== *)
theory DoxResizeSpec
  imports DoxResize
begin

text \<open>
  What the frame promises: the content starts where the navigation ends, the width that was stored is the
  one that is read, and what collapsing the navigation does to it.
\<close>

section \<open>Numbers\<close>

lemma is_digit_not_space: "is_digit c \<Longrightarrow> \<not> is_space c \<and> c \<noteq> CHR ''-'' \<and> c \<noteq> CHR ''+''"
  by (auto simp: is_digit_def is_space_def byte_val_def)

lemma digits_signed: "s \<noteq> [] \<Longrightarrow> list_all is_digit s \<Longrightarrow> signed_digits s = (False, s)"
  using is_digit_not_space by (cases s) (auto simp: signed_digits_def)

lemma digits_number:
  "s \<noteq> [] \<Longrightarrow> list_all is_digit s \<Longrightarrow> parseInt s = Some (int (digits_val 0 s)) \<and> to_number s = Some (int (digits_val 0 s))"
proof -
  assume s: "s \<noteq> []" "list_all is_digit s"
  have t: "takeWhile is_digit s = s" using s(2) by (simp add: takeWhile_eq_all_conv list_all_iff)
  show ?thesis by (simp add: parseInt_def to_number_def digits_signed [OF s] s t Let_def)
qed

lemma show_nat_number [simp]:
  "parseInt (show_nat n) = Some (int n)" "to_number (show_nat n) = Some (int n)"
  using digits_number [of "show_nat n"] show_nat_digits [of n] digits_val_show_nat [of n]
  by (simp_all add: list_all_iff)

section \<open>Cookies\<close>

lemma prefix_before: "prefix pat (u @ c # s) \<Longrightarrow> c \<notin> set pat \<Longrightarrow> prefix pat u"
  by (induction u arbitrary: pat) (auto simp: prefix_Cons)

lemma index_of_skip:
  "index_of pat a = None \<Longrightarrow> c \<notin> set pat \<Longrightarrow> pat \<noteq> [] \<Longrightarrow>
   index_of pat (a @ c # s) = map_option (\<lambda>k. k + length a + 1) (index_of pat s)"
proof (induction a)
  case Nil
  then have "\<not> prefix pat (c # s)" using prefix_before [of pat "[]" c s] by auto
  then show ?case by simp
next
  case (Cons x a)
  have "\<not> prefix pat (x # a)" using Cons.prems(1) by (auto split: if_splits)
  then have "\<not> prefix pat (x # a @ c # s)" using prefix_before [of pat "x # a" c s] Cons.prems(2) by auto
  with Cons show ?case by (auto simp: option.map_comp o_def split: if_splits)
qed

lemma index_of_prefix: "prefix pat s \<Longrightarrow> index_of pat s = Some 0"
  by (cases s) auto

text \<open>The position of the cookie \<open>n\<close>, when no cookie before it has the text that is looked for.\<close>

lemma cookie_Cons: "cs \<noteq> [] \<Longrightarrow> cookie_string ((n, v) # cs) = (n @ ''='' @ v) @ CHR '';'' # '' '' @ cookie_string cs"
  by (cases cs) auto

definition quiet :: "string \<Rightarrow> string \<times> string \<Rightarrow> bool" where
  "quiet pat c \<longleftrightarrow> index_of pat (fst c @ ''='' @ snd c) = None"

definition plain_value :: "string \<Rightarrow> bool" where
  "plain_value v \<longleftrightarrow> CHR '';'' \<notin> set v"

lemma cookie_value:
  assumes "pat = n @ ''=''" "CHR '';'' \<notin> set pat" "CHR '' '' \<notin> set pat" "plain_value v"
    and "list_all (quiet pat) before"
  shows "\<exists>k. index_of pat (cookie_string (before @ (n, v) # after)) = Some k \<and>
    takeWhile (\<lambda>x. x \<noteq> CHR '';'') (drop (k + length pat) (cookie_string (before @ (n, v) # after))) = v"
  using assms(5)
proof (induction before)
  case Nil
  have t: "takeWhile (\<lambda>x. x \<noteq> CHR '';'') (v @ r) = v" if "r = [] \<or> hd r = CHR '';''" for r
  proof -
    have "takeWhile (\<lambda>x. x \<noteq> CHR '';'') (v @ r) = v @ takeWhile (\<lambda>x. x \<noteq> CHR '';'') r"
      using assms(4) by (intro takeWhile_append2) (auto simp: plain_value_def)
    with that show ?thesis by (cases r) auto
  qed
  obtain r where r: "cookie_string ((n, v) # after) = pat @ v @ r" "r = [] \<or> hd r = CHR '';''"
    by (cases "after = []") (auto simp: cookie_Cons assms(1))
  have "index_of pat (pat @ v @ r) = Some 0" by (rule index_of_prefix) simp
  then show ?case using r t by simp
next
  case (Cons c before)
  obtain m w where c: "c = (m, w)" by force
  let ?s = "cookie_string (before @ (n, v) # after)"
  obtain k where k: "index_of pat ?s = Some k"
    "takeWhile (\<lambda>x. x \<noteq> CHR '';'') (drop (k + length pat) ?s) = v"
    using Cons by auto
  have p: "pat \<noteq> []" by (simp add: assms(1))
  have e: "cookie_string ((c # before) @ (n, v) # after) = (m @ ''='' @ w) @ CHR '';'' # '' '' @ ?s"
    using cookie_Cons [of "before @ (n, v) # after" m w] by (simp add: c)
  have "index_of pat ('' '' @ ?s) = Some (k + 1)"
    using index_of_skip [of pat "[]" "CHR '' ''" ?s] assms(3) p k(1) by simp
  moreover have "index_of pat (m @ ''='' @ w) = None" using Cons.prems by (simp add: quiet_def c)
  ultimately have "index_of pat (cookie_string ((c # before) @ (n, v) # after)) = Some (k + length (m @ ''='' @ w) + 2)"
    unfolding e using index_of_skip [of pat "m @ ''='' @ w" "CHR '';''" "'' '' @ ?s"] assms(2) p by simp
  moreover have "drop (k + length (m @ ''='' @ w) + 2 + length pat) (cookie_string ((c # before) @ (n, v) # after)) = drop (k + length pat) ?s"
  proof -
    have x: "drop (length x + j) (x @ t) = drop j t" for x t :: string and j by simp
    have "(m @ ''='' @ w) @ CHR '';'' # '' '' @ ?s = (m @ ''='' @ w @ ''; '') @ ?s"
      "k + length (m @ ''='' @ w) + 2 + length pat = length (m @ ''='' @ w @ ''; '') + (k + length pat)" by simp_all
    then show ?thesis unfolding e by (simp only: x)
  qed
  ultimately show ?case using k(2) by simp
qed

section \<open>Settings\<close>

definition width_cookie :: string where
  "width_cookie = ''doxygen_width=''"

text \<open>No cookie that comes before the one of the manual has its name inside.\<close>

definition cookies_ok :: "frame \<Rightarrow> bool" where
  "cookies_ok s \<longleftrightarrow> fr_chrome s \<or>
     list_all (quiet width_cookie) (takeWhile (\<lambda>c. fst c \<noteq> ''doxygen_width'') (fr_cookies s))"

lemma put_attr_split:
  "\<exists>rest. put_attr n v cs = takeWhile (\<lambda>c. fst c \<noteq> n) cs @ (n, v) # rest"
proof (induction n v cs rule: put_attr.induct)
  case (2 k v j w as)
  then show ?case by (cases "j = k") auto
qed simp

lemma put_attr_takeWhile: "takeWhile (\<lambda>c. fst c \<noteq> n) (put_attr n v cs) = takeWhile (\<lambda>c. fst c \<noteq> n) cs"
  by (induction n v cs rule: put_attr.induct) auto

lemma show_int_plain: "plain_value (show_int i)"
  using show_nat_digits [of "nat i"] show_nat_digits [of "nat (- i)"]
  by (auto simp: plain_value_def show_int_def is_digit_def byte_val_def)

lemma show_int_neq_Nil [simp]: "show_int i \<noteq> []"
  by (simp add: show_int_def)

lemma cookies_ok_write [simp]: "cookies_ok (writeSetting ''width'' n s) = cookies_ok s"
  by (simp add: cookies_ok_def writeSetting_def cookie_namespace_def put_attr_takeWhile)

lemma read_write:
  assumes "cookies_ok s"
  shows "readSetting ''width'' (writeSetting ''width'' n s) = show_int n"
proof (cases "fr_chrome s")
  case True
  then show ?thesis by (simp add: readSetting_def writeSetting_def)
next
  case False
  obtain rest where r: "put_attr ''doxygen_width'' (show_int n) (fr_cookies s) =
      takeWhile (\<lambda>c. fst c \<noteq> ''doxygen_width'') (fr_cookies s) @ (''doxygen_width'', show_int n) # rest"
    using put_attr_split by blast
  let ?c = "cookie_string (put_attr ''doxygen_width'' (show_int n) (fr_cookies s))"
  obtain k where k: "index_of width_cookie ?c = Some k"
    "takeWhile (\<lambda>x. x \<noteq> CHR '';'') (drop (k + length width_cookie) ?c) = show_int n"
    using cookie_value [of width_cookie "''doxygen_width''" "show_int n" _ rest] assms False show_int_plain
    unfolding r cookies_ok_def by (auto simp: width_cookie_def)
  then have "?c \<noteq> []" by (auto simp: width_cookie_def)
  with k False show ?thesis
    by (simp add: readSetting_def writeSetting_def cookie_namespace_def width_cookie_def)
qed

text \<open>A width that was stored is the one that is read, in the local storage as in the cookie, unless a cookie
  that comes before has the text \<open>doxygen_width=\<close> in it; then \<open>indexOf\<close> finds that one, and its value is read.\<close>

theorem stored_width_is_read:
  "(cookies_ok s \<longrightarrow> parseInt (readSetting ''width'' (writeSetting ''width'' (int n) s)) = Some (int n)) \<and>
   readSetting ''width'' (writeSetting ''width'' (int n)
     (s\<lparr>fr_chrome := False, fr_cookies := [(''my_doxygen_width'', ''99'')]\<rparr>)) = ''99''"
proof
  show "cookies_ok s \<longrightarrow> parseInt (readSetting ''width'' (writeSetting ''width'' (int n) s)) = Some (int n)"
    by (simp add: read_write show_int_def)
  show "readSetting ''width'' (writeSetting ''width'' (int n)
     (s\<lparr>fr_chrome := False, fr_cookies := [(''my_doxygen_width'', ''99'')]\<rparr>)) = ''99''"
    by (simp add: readSetting_def writeSetting_def cookie_namespace_def)
qed

text \<open>A page with the navigation 400 pixels wide.\<close>

definition wide_frame :: frame where
  "wide_frame =
     \<lparr>fr_chrome = False, fr_agent = ''Firefox'', fr_storage = None, fr_cookies = [(''theme'', ''dark'')], fr_bar = 6,
      fr_side = 400, fr_window = (1200, 800), fr_layout = None, fr_margin = 406, fr_footer_margin = 0,
      fr_header_height = 60, fr_footer_height = 20, fr_content_height = 720, fr_tree_height = 720,
      fr_side_height = 720, fr_once = True, fr_handle = False\<rparr>"

lemma wide_frame_cookies: "cookies_ok wide_frame"
  by (simp add: cookies_ok_def wide_frame_def quiet_def width_cookie_def)

lemma stored_width_is_read_witness:
  "parseInt (readSetting ''width'' (writeSetting ''width'' 312 wide_frame)) = Some 312"
  using stored_width_is_read [of wide_frame 312] wide_frame_cookies by simp

section \<open>The navigation and the content\<close>

text \<open>The setting that would be read is a number of pixels.\<close>

definition setting_ok :: "frame \<Rightarrow> bool" where
  "setting_ok s \<longleftrightarrow> (let w = readSetting ''width'' s in w = [] \<or> list_all is_digit w)"

definition beside :: "frame \<Rightarrow> bool" where
  "beside s \<longleftrightarrow> fr_margin s = outerWidth s \<and> (fr_layout s = Some 1 \<longrightarrow> fr_footer_margin s = outerWidth s)"

lemma write_simps [simp]:
  "fr_margin (writeSetting c n s) = fr_margin s" "fr_side (writeSetting c n s) = fr_side s"
  "fr_bar (writeSetting c n s) = fr_bar s" "fr_footer_margin (writeSetting c n s) = fr_footer_margin s"
  "fr_layout (writeSetting c n s) = fr_layout s" "fr_window (writeSetting c n s) = fr_window s"
  by (simp_all add: writeSetting_def)

lemma resizeWidth_beside: "beside (resizeWidth s)"
  by (simp add: beside_def resizeWidth_def outerWidth_def Let_def)

lemma restore_number:
  assumes "w \<noteq> []" and "list_all is_digit w"
  shows "beside (restoreWidth w s) \<and> fr_side (restoreWidth w s) = int (digits_val 0 w)"
  using digits_number [OF assms] by (simp add: beside_def restoreWidth_def outerWidth_def Let_def)

lemma beside_cong: "fr_margin s = fr_margin t \<Longrightarrow> fr_side s = fr_side t \<Longrightarrow> fr_bar s = fr_bar t \<Longrightarrow>
    fr_layout s = fr_layout t \<Longrightarrow> fr_footer_margin s = fr_footer_margin t \<Longrightarrow> beside s = beside t"
  by (simp add: beside_def outerWidth_def)

lemma resizeHeight_beside: "beside (resizeHeight s) = beside s"
  by (rule beside_cong) (simp_all add: resizeHeight_def set_heights_def Let_def)

definition new_width :: "frame \<Rightarrow> string" where
  "new_width s =
     (if fr_side s > 0 then ''0''
      else (case to_number (readSetting ''width'' s) of
              Some n \<Rightarrow> if n > 250 \<and> n < fst (fr_window s) then readSetting ''width'' s else ''250''
            | None \<Rightarrow> ''250''))"

lemma collapse_write: "collapseExpand s =
    (let t = restoreWidth (new_width s) s in writeSetting ''width'' (fr_side t) t)"
  by (simp add: collapseExpand_def new_width_def Let_def outerWidth_def)

lemma new_width_digits: "setting_ok s \<Longrightarrow> new_width s \<noteq> [] \<and> list_all is_digit (new_width s)"
proof -
  assume ok: "setting_ok s"
  have d: "list_all is_digit ''0''" "list_all is_digit ''250''" by (simp_all add: is_digit_def byte_val_def)
  have "readSetting ''width'' s \<noteq> [] \<and> list_all is_digit (readSetting ''width'' s)"
    if "to_number (readSetting ''width'' s) = Some n" for n
  proof -
    have "readSetting ''width'' s \<noteq> []" using that by (auto simp: to_number_def signed_digits_def)
    with ok show ?thesis by (simp add: setting_ok_def Let_def)
  qed
  with d show ?thesis by (auto simp: new_width_def split: option.split)
qed

lemma collapse_beside: "setting_ok s \<Longrightarrow> beside (collapseExpand s)"
proof -
  assume "setting_ok s"
  with new_width_digits restore_number have "beside (restoreWidth (new_width s) s)" by blast
  then show ?thesis by (simp add: collapse_write Let_def beside_def outerWidth_def)
qed

lemma init_beside: "setting_ok s \<Longrightarrow> beside (initResizable s)"
proof -
  assume ok: "setting_ok s"
  let ?s = "s\<lparr>fr_bar := if touch_device (fr_agent s) then 20 else 6\<rparr>"
  have r: "readSetting ''width'' ?s = readSetting ''width'' s" by (simp add: readSetting_def)
  have "beside (if readSetting ''width'' ?s \<noteq> [] then restoreWidth (readSetting ''width'' ?s) ?s else resizeWidth ?s)"
    using ok restore_number [of "readSetting ''width'' s" ?s] resizeWidth_beside
    unfolding r setting_ok_def Let_def by auto
  then have "beside (resizeHeight (if readSetting ''width'' ?s \<noteq> [] then restoreWidth (readSetting ''width'' ?s) ?s else resizeWidth ?s))"
    by (simp only: resizeHeight_beside)
  then show ?thesis unfolding initResizable_def Let_def by (auto simp: beside_def outerWidth_def)
qed


lemma wide_frame_setting: "setting_ok wide_frame"
  by (simp add: setting_ok_def readSetting_def wide_frame_def cookie_namespace_def is_digit_def byte_val_def)


text \<open>Collapsing the navigation forgets its width: the width 0 is stored in place of the one it had, so
  that expanding it again always gives 250 pixels, though \<open>collapseExpand\<close> reads the setting to restore a
  wider one.\<close>

theorem collapsing_forgets_the_width:
  assumes "fr_side s > 0" and "cookies_ok s"
  shows "fr_side (collapseExpand s) = 0 \<and> readSetting ''width'' (collapseExpand s) = ''0'' \<and>
    fr_side (collapseExpand (collapseExpand s)) = 250"
proof -
  have d: "list_all is_digit ''0''" "list_all is_digit ''250''" by (simp_all add: is_digit_def byte_val_def)
  have w: "new_width s = ''0''" using assms(1) by (simp add: new_width_def)
  have v: "digits_val 0 ''0'' = 0" "digits_val 0 ''250'' = 250" by code_simp+
  define t where "t = restoreWidth ''0'' s"
  have t: "fr_side t = 0" using restore_number [of "''0''" s] d v by (simp add: t_def)
  have c: "collapseExpand s = writeSetting ''width'' 0 t" using t by (simp add: collapse_write w t_def Let_def)
  have "cookies_ok t" using assms(2) by (simp add: t_def restoreWidth_def Let_def cookies_ok_def split: option.split)
  then have r: "readSetting ''width'' (collapseExpand s) = ''0''"
    unfolding c by (simp add: read_write show_int_def show_nat.simps digit_char_def) code_simp
  have s: "fr_side (collapseExpand s) = 0" by (simp add: c t)
  have "new_width (collapseExpand s) = ''250''"
    using s r digits_number [of "''0''"] d v by (simp add: new_width_def)
  then have "fr_side (collapseExpand (collapseExpand s)) = 250"
    using restore_number [of "''250''"] d v by (simp add: collapse_write [of "collapseExpand s"] Let_def)
  with s r show ?thesis by blast
qed

lemma collapsing_forgets_the_width_witness: "fr_side (collapseExpand (collapseExpand wide_frame)) = 250"
proof -
  have "fr_side wide_frame > 0" by (simp add: wide_frame_def)
  from collapsing_forgets_the_width [OF this wide_frame_cookies] show ?thesis by blast
qed

end
