(* ===== verification/Spec2Isabelle.thy ===== *)
theory Spec2Isabelle
  imports HashTableSpec Slab Clients RateLimiter Reports Session HttpSpec Chunked Freshness ServerSpec
    DoxSearchDataSpec DoxNavpageSpec DoxDynsectionsSpec DoxResizeSpec
begin

text \<open>
  A model of SegnalaCity, a web server for reports of urban problems, and of the scripts of the manual that
  is served with its sources.

  The server is a single-threaded C program (the \<open>.c\<close> and \<open>.h\<close> files at the top of \<open>src\<close>).  A connection is
  read into a client context from the slab allocator, the rate limiter looks at its address, the HTTP parser
  reads the request, and a route answers it from the users, the reports and the sessions.  Users and reports
  are rows of an SQLite database; sessions and rate counters are entries of the server's own hash table, and
  the listings of the reports are cached.  The manual under \<open>docs/doxygen_manual/html\<close> is a set of pages
  whose scripts run in a browser: the search box (\<open>search/search.js\<close>), the navigation tree (\<open>navtree.js\<close> with
  generated data), foldable sections (\<open>dynsections.js\<close>) and the frame of a page (\<open>resize.js\<close>).

  Theories of the server:
  \<^item> \<open>Prelude\<close>: bytes, C strings as byte lists, decimal numbers, theorem collections.
  \<^item> \<open>HashTable\<close>, \<open>HashTableSpec\<close> (\<open>hash_table.c\<close>, \<open>hash_key\<close> of \<open>server.c\<close>): a pool of chains with a
    seed.  Every \<open>malloc\<close> is a boolean argument.  Abstractly it is a finite map, which \<open>ht_set\<close>, \<open>ht_get\<close> and
    \<open>ht_delete\<close> refine, across a resize and a snapshot.  The contract is the locale of its clients,
    interpreted on the model.
  \<^item> \<open>Slab\<close> (\<open>slab_allocator.c\<close>): chunks with stacks of free slots; blocks are fresh, and freed once.
  \<^item> \<open>Clients\<close> (\<open>client_manager.c\<close>): the doubly linked list of clients in an explicit store.
  \<^item> \<open>RateLimiter\<close> (\<open>rate_limiter.c\<close>): the sliding window, as a client of the hash table.
  \<^item> \<open>Database\<close> (\<open>db.c\<close> and the statements of \<open>user.c\<close> and \<open>report.c\<close>): the two tables and the effect of each
    statement of the server; its text is kept, and it is shown that it binds.  A failing statement is an
    argument of the call.
  \<^item> \<open>Users\<close> (\<open>user.c\<close>), \<open>Reports\<close> (\<open>report.c\<close>), \<open>Session\<close> (\<open>session.c\<close>): registration and log-in, the life
    of a report and the coherence of the listing cache, and session tokens.
  \<^item> \<open>PicoHttp\<close> (\<open>picohttpparser.c\<close>), \<open>HttpUtils\<close>, \<open>HttpSpec\<close> (\<open>http_utils.c\<close>): parsing and printing of HTTP, with
    round trips against printed requests, responses and forms.
  \<^item> \<open>Chunked\<close>: the decoder of chunked bodies in \<open>picohttpparser.c\<close>, which the server does not call.  Its loop is shown
    to do what reading byte by byte does, and so a body may arrive in any fragments.
  \<^item> \<open>Template\<close> (\<open>template.c\<close>): the two passes that cut a page into fragments, and its rendering.
  \<^item> \<open>Geo\<close> (\<open>geo.c\<close>): the boxes and centroids of the cities, as a client of the hash table.  A parsed document is
    a tree; the operations on doubles are a record of functions, and only a total order is assumed of them.
  \<^item> \<open>Routes\<close> (\<open>route_handler.c\<close>, \<open>route_pages.c\<close>, \<open>route_api.c\<close>, \<open>route_helpers.c\<close>): every handler from the
    parsed request to the printed response and the new state, and the dispatch over the routes.  The
    record \<open>env\<close> is what the outside world answers during one request, \<open>app\<close> is all that the server keeps.
  \<^item> \<open>RoutesSpec\<close>, \<open>AppSpec\<close>: what a request may change, and in whose name; then requests and restarts as a step
    relation, with an invariant of the tables, the sessions and their accounts; logging in and out.
  \<^item> \<open>Connection\<close>, \<open>ConnectionSpec\<close> (\<open>connection_handler.c\<close>): the callbacks of libuv.  The library is the state of the
    handles and the callbacks that it may make from it, as a step relation; in every reachable state each
    context is accounted for exactly once.
  \<^item> \<open>Freshness\<close>: the cache of the listings over many requests; users see their reports as they are.
  \<^item> \<open>Server\<close>, \<open>ServerSpec\<close> (\<open>server.c\<close>): the start of every subsystem in the order of \<open>main\<close>, the event loop, SIGINT
    and the shutdown.  A running server is complete; a shutdown makes at most three callbacks for each client
    and two more steps, and releases everything.

  Theories of the manual:
  \<^item> \<open>DoxDom\<close>: what the scripts use of the browser, an element tree and strings of code units below 256.
  \<^item> \<open>DoxSearch\<close>, \<open>DoxSearchSpec\<close>: \<open>createResults\<close> and the methods of \<open>SearchResults\<close> on the element tree.
    A search shows exactly the entries that start with the text, and the arrow keys visit exactly those.
  \<^item> \<open>DoxSearchBox\<close>, \<open>DoxBoxSpec\<close>: \<open>SearchBox\<close>, \<open>Nav\<close>, \<open>NavChild\<close>, \<open>init_search\<close>.  Timers and script loads
    are lists of the state; the events of a user and the browser are an inductive step relation, and an invariant
    holds in every reachable state.  An uncaught exception is \<open>Inl\<close>.
  \<^item> \<open>DoxSearchData\<close>, \<open>DoxSearchDataSpec\<close>: the generated entries of the search index, script by script, and that
    every symbol is found by every beginning of its name.
  \<^item> \<open>DoxNavtree\<close>, \<open>DoxNavtreeSpec\<close>: \<open>navtree.js\<close>.  A node is named by the path of child indices from the root;
    a script that is being loaded is a pending pair of its name and what it continues with.  Following the
    breadcrumbs opens the tree, whatever has to be loaded on the way.
  \<^item> \<open>DoxNavpage\<close>, \<open>DoxNavpageSpec\<close>: the page around the tree, with what is left of \<open>navtree.js\<close>: the two start
    events, the synchronisation button, clicks on links, the scrolling to anchors and the changes of the address, as a
    step relation that goes on from page to page with the local storage.  The start comes out the same in either order,
    and the button always tells whether a link is kept.
  \<^item> \<open>DoxNavdata\<close>, \<open>DoxNavdataSpec\<close>: the generated data of the tree, entry by entry, and what it makes of the
    theorem: every page of the index is found.  The bound on the number of scripts is the number of breadcrumbs
    plus three (the index, the node where the way starts, and the selected node).
  \<^item> \<open>DoxDynsections\<close>, \<open>DoxDynsectionsSpec\<close>: \<open>dynsections.js\<close>, with the directory table as its list of rows.
  \<^item> \<open>DoxResize\<close>, \<open>DoxResizeSpec\<close>: \<open>resize.js\<close>, with the cookies in the order the browser lists them.

  Not modelled: \<open>jquery.js\<close>, a third-party file; how an animation looks while it runs; and
  \<open>init_codefold\<close>, which rewrites source listings: the manual has none, and none of its pages calls it.  Of the server: the SSE4.2 scan of the
  parser, which its \<open>Makefile\<close> does not turn on; the locks of the hash table, which a single thread
  never contends; the arming of the signal watcher and the parameters of the socket.  SQLite, the random source, the clock, the
  printing of cJSON, doubles, libuv and \<open>malloc\<close> are arguments.
\<close>

end
